(* ===== verification/Gfx_Prelude.thy ===== *)
theory Gfx_Prelude
  imports Main "HOL-Library.Word" "HOL-Library.Signed_Division" "HOL-Library.Monad_Syntax"
begin

text \<open>
  Shared vocabulary of the development: the C integer types of
  \<^verbatim>\<open>uts/common/drm/drm_linux.h\<close>, wrap-around written out, the error numbers the
  drivers return, kernel assertions, and the list and arithmetic lemmas that several
  components use.

  \<^item> An \<^verbatim>\<open>int\<close> of the source is an \<open>int\<close>; every operation that can leave the
    32-bit range goes through \<open>s32\<close> (two's complement wrap-around).
  \<^item> An \<^verbatim>\<open>unsigned\<close>, \<^verbatim>\<open>uint32_t\<close> or \<^verbatim>\<open>unsigned long\<close> that is only added and
    compared is an \<open>int\<close> reduced by \<open>u32\<close> or \<open>u64\<close>; one that is masked and
    shifted is a word.
  \<^item> \<^verbatim>\<open>BUG_ON\<close> and an invalid dereference stop the machine: \<open>None\<close> in the option
    monad.
\<close>

named_theorems errno_defs "the values of the error numbers"
named_theorems wrap_simps "wrap-around is the identity in range"

type_synonym u8w = "8 word"
type_synonym u16w = "16 word"
type_synonym u32w = "32 word"
type_synonym u64w = "64 word"

section \<open>Machine integers\<close>

definition INT_MAX :: int where "INT_MAX = 2147483647"
definition INT_MIN :: int where "INT_MIN = - 2147483648"

definition s32 :: "int \<Rightarrow> int" where
  "s32 x = (x + 2147483648) mod 4294967296 - 2147483648"

definition u32 :: "int \<Rightarrow> int" where
  "u32 x = x mod 4294967296"

definition u64 :: "int \<Rightarrow> int" where
  "u64 x = x mod 18446744073709551616"

lemma s32_id [wrap_simps]: "- 2147483648 \<le> x \<Longrightarrow> x < 2147483648 \<Longrightarrow> s32 x = x"
  by (simp add: s32_def)

lemma u32_id [wrap_simps]: "0 \<le> x \<Longrightarrow> x < 4294967296 \<Longrightarrow> u32 x = x"
  by (simp add: u32_def)

lemma u64_id [wrap_simps]: "0 \<le> x \<Longrightarrow> x < 18446744073709551616 \<Longrightarrow> u64 x = x"
  by (simp add: u64_def)

lemma s32_range: "- 2147483648 \<le> s32 x" "s32 x < 2147483648"
  by (simp_all add: s32_def pos_mod_sign pos_mod_bound diff_less_eq)

lemma u32_range: "0 \<le> u32 x" "u32 x < 4294967296"
  by (simp_all add: u32_def)

lemma u64_range: "0 \<le> u64 x" "u64 x < 18446744073709551616"
  by (simp_all add: u64_def)

lemma u64_diff_borrow:
  assumes "0 \<le> a" "a < b" "b < 18446744073709551616"
  shows "u64 (a - b) = a - b + 18446744073709551616"
proof -
  have "u64 (a - b) = (a - b + 18446744073709551616) mod 18446744073709551616"
    by (simp add: u64_def)
  also have "\<dots> = a - b + 18446744073709551616"
    using assms by (intro mod_pos_pos_trivial) auto
  finally show ?thesis .
qed

lemma u64_add_carry:
  assumes "18446744073709551616 \<le> a + b" "a + b < 2 * 18446744073709551616"
  shows "u64 (a + b) = a + b - 18446744073709551616"
proof -
  have "u64 (a + b) = (a + b - 18446744073709551616) mod 18446744073709551616"
    by (simp add: u64_def mod_diff_eq [symmetric])
  also have "\<dots> = a + b - 18446744073709551616"
    using assms by (intro mod_pos_pos_trivial) auto
  finally show ?thesis .
qed

section \<open>Arithmetic\<close>

lemma s32_shift: "s32 (x + 4294967296 * k) = s32 x"
proof -
  have "(x + 4294967296 * k + 2147483648) mod 4294967296 = (x + 2147483648 + 4294967296 * k) mod 4294967296"
    by (simp add: ac_simps)
  then show ?thesis by (simp add: s32_def)
qed

lemma s32_split: "\<exists>k. s32 x = x + 4294967296 * k"
proof -
  have "s32 x = x + 4294967296 * (- ((x + 2147483648) div 4294967296))"
    unfolding s32_def using mult_div_mod_eq [of 4294967296 "x + 2147483648"] by linarith
  then show ?thesis by blast
qed

lemma s32_diff_s32: "s32 (s32 a - s32 b) = s32 (a - b)"
proof -
  obtain k l where "s32 a = a + 4294967296 * k" "s32 b = b + 4294967296 * l"
    using s32_split by blast
  then have "s32 a - s32 b = a - b + 4294967296 * (k - l)"
    by (simp add: right_diff_distrib)
  then show ?thesis by (simp only: s32_shift)
qed

lemma s32_add_s32: "s32 (s32 a + b) = s32 (a + b)"
proof -
  obtain k where "s32 a = a + 4294967296 * k"
    using s32_split by blast
  then have "s32 a + b = a + b + 4294967296 * k" by simp
  then show ?thesis by (simp only: s32_shift)
qed

lemma int_div_less_iff: "0 < (b::int) \<Longrightarrow> a div b < c \<longleftrightarrow> a < c * b"
proof
  assume b: "0 < b" and "a div b < c"
  then have "b * (a div b + 1) \<le> b * c" by (intro mult_left_mono) auto
  then have "b * (a div b) + b \<le> b * c" by (simp only: distrib_left mult_1_right)
  moreover have "a < b * (a div b) + b"
    using b mult_div_mod_eq [of b a] pos_mod_bound [of b a] by linarith
  ultimately show "a < c * b" by (simp add: mult.commute)
next
  assume b: "0 < b" and a: "a < c * b"
  show "a div b < c"
  proof (rule ccontr)
    assume "\<not> a div b < c"
    then have "b * c \<le> b * (a div b)" using b by (intro mult_left_mono) auto
    moreover have "b * (a div b) \<le> a"
      using b mult_div_mod_eq [of b a] pos_mod_sign [of b a] by linarith
    ultimately show False using a by (simp add: mult.commute)
  qed
qed

lemma int_le_div_iff: "0 < (b::int) \<Longrightarrow> c \<le> a div b \<longleftrightarrow> c * b \<le> a"
  using int_div_less_iff [of b a c] by linarith

lemma sdiv_nonneg: "0 \<le> a \<Longrightarrow> 0 < b \<Longrightarrow> a sdiv b = a div (b::int)"
  by (simp add: signed_divide_int_def sgn_if zero_less_mult_iff split: if_splits)

section \<open>Error numbers\<close>

text \<open>The values of \<^verbatim>\<open>sys/errno.h\<close>; the drivers return them negated.\<close>

definition EPERM :: int where [errno_defs]: "EPERM = 1"
definition ENOENT :: int where [errno_defs]: "ENOENT = 2"
definition EINTR :: int where [errno_defs]: "EINTR = 4"
definition EAGAIN :: int where [errno_defs]: "EAGAIN = 11"
definition ENOMEM :: int where [errno_defs]: "ENOMEM = 12"
definition EACCES :: int where [errno_defs]: "EACCES = 13"
definition EFAULT :: int where [errno_defs]: "EFAULT = 14"
definition EBUSY :: int where [errno_defs]: "EBUSY = 16"
definition EIO :: int where [errno_defs]: "EIO = 5"
definition ENODEV :: int where [errno_defs]: "ENODEV = 19"
definition EINVAL :: int where [errno_defs]: "EINVAL = 22"
definition EDEADLK :: int where [errno_defs]: "EDEADLK = 45"
definition ENOSPC :: int where [errno_defs]: "ENOSPC = 28"
definition ERANGE :: int where [errno_defs]: "ERANGE = 34"

section \<open>Kernel assertions\<close>

text \<open>\<^verbatim>\<open>BUG_ON(c)\<close> and \<^verbatim>\<open>ASSERT(!c)\<close>: the rest of the function runs only if \<open>c\<close> is false.\<close>

definition bug_on :: "bool \<Rightarrow> unit option" where
  "bug_on c = (if c then None else Some ())"

lemma bug_on_simps [simp]: "bug_on True = None" "bug_on False = Some ()"
  by (simp_all add: bug_on_def)

lemma bug_on_Some [simp]: "bug_on c = Some u \<longleftrightarrow> \<not> c"
  by (simp add: bug_on_def)

end
