(* ===== verification/Drm_Rect.thy ===== *)
theory Drm_Rect
  imports Gfx_Prelude
begin

text \<open>
  The rectangle library of \<^verbatim>\<open>uts/common/drm/drm_rect.h\<close> and
  \<^verbatim>\<open>uts/common/io/drm/drm_rect.c\<close>: clipping and scaling of the source and
  destination rectangles of display planes.
\<close>

section \<open>Model\<close>

record drm_rect =
  x1 :: int
  y1 :: int
  x2 :: int
  y2 :: int

text \<open>An arithmetic right shift of an \<^verbatim>\<open>int\<close> by one rounds towards minus infinity.\<close>

definition drm_rect_adjust_size :: "drm_rect \<Rightarrow> int \<Rightarrow> int \<Rightarrow> drm_rect" where
  "drm_rect_adjust_size r dw dh =
     r\<lparr> x1 := s32 (x1 r - dw div 2),
        y1 := s32 (y1 r - dh div 2),
        x2 := s32 (x2 r + s32 (dw + 1) div 2),
        y2 := s32 (y2 r + s32 (dh + 1) div 2) \<rparr>"

definition drm_rect_translate :: "drm_rect \<Rightarrow> int \<Rightarrow> int \<Rightarrow> drm_rect" where
  "drm_rect_translate r dx dy =
     r\<lparr> x1 := s32 (x1 r + dx), y1 := s32 (y1 r + dy),
        x2 := s32 (x2 r + dx), y2 := s32 (y2 r + dy) \<rparr>"

text \<open>
  Integer division of the source truncates towards zero; a zero divisor traps, which is
  the result \<open>None\<close>.
\<close>

definition drm_rect_downscale :: "drm_rect \<Rightarrow> int \<Rightarrow> int \<Rightarrow> drm_rect option" where
  "drm_rect_downscale r horz vert =
     (if horz = 0 \<or> vert = 0 then None
      else Some (r\<lparr> x1 := s32 (x1 r sdiv horz), y1 := s32 (y1 r sdiv vert),
                    x2 := s32 (x2 r sdiv horz), y2 := s32 (y2 r sdiv vert) \<rparr>))"

definition drm_rect_width :: "drm_rect \<Rightarrow> int" where
  "drm_rect_width r = s32 (x2 r - x1 r)"

definition drm_rect_height :: "drm_rect \<Rightarrow> int" where
  "drm_rect_height r = s32 (y2 r - y1 r)"

definition drm_rect_visible :: "drm_rect \<Rightarrow> bool" where
  "drm_rect_visible r \<longleftrightarrow> drm_rect_width r > 0 \<and> drm_rect_height r > 0"

definition drm_rect_equals :: "drm_rect \<Rightarrow> drm_rect \<Rightarrow> bool" where
  "drm_rect_equals r1 r2 \<longleftrightarrow>
     x1 r1 = x1 r2 \<and> x2 r1 = x2 r2 \<and> y1 r1 = y1 r2 \<and> y2 r1 = y2 r2"

text \<open>The rectangle written back through the pointer, and the returned visibility.\<close>

definition drm_rect_intersect :: "drm_rect \<Rightarrow> drm_rect \<Rightarrow> drm_rect \<times> bool" where
  "drm_rect_intersect r1 r2 =
     (let r = r1\<lparr> x1 := max (x1 r1) (x1 r2), y1 := max (y1 r1) (y1 r2),
                  x2 := min (x2 r1) (x2 r2), y2 := min (y2 r1) (y2 r2) \<rparr>
      in (r, drm_rect_visible r))"

text \<open>
  \<^verbatim>\<open>src->x1 = clamp_int64_t(tmp);\<close> with the macro of \<^verbatim>\<open>drm_linux.h\<close>, which is two
  statements: the assignment takes the value after the first of them, so only the upper
  bound is applied before the 64-bit value is narrowed to \<^verbatim>\<open>int\<close>.
\<close>

definition assign_clamp_int64_t :: "int \<Rightarrow> int" where
  "assign_clamp_int64_t tmp = s32 (min INT_MAX tmp)"

definition drm_rect_clip_scaled ::
  "drm_rect \<Rightarrow> drm_rect \<Rightarrow> drm_rect \<Rightarrow> int \<Rightarrow> int \<Rightarrow> drm_rect \<times> drm_rect \<times> bool" where
  "drm_rect_clip_scaled src dst clip hscale vscale =
     (let diff = s32 (x1 clip - x1 dst);
          src = (if diff > 0 then src\<lparr>x1 := assign_clamp_int64_t (x1 src + diff * hscale)\<rparr> else src);
          diff = s32 (y1 clip - y1 dst);
          src = (if diff > 0 then src\<lparr>y1 := assign_clamp_int64_t (y1 src + diff * vscale)\<rparr> else src);
          diff = s32 (x2 dst - x2 clip);
          src = (if diff > 0 then src\<lparr>x2 := assign_clamp_int64_t (x2 src - diff * hscale)\<rparr> else src);
          diff = s32 (y2 dst - y2 clip);
          src = (if diff > 0 then src\<lparr>y2 := assign_clamp_int64_t (y2 src - diff * vscale)\<rparr> else src);
          (dst, vis) = drm_rect_intersect dst clip
      in (src, dst, vis))"

definition drm_calc_scale :: "int \<Rightarrow> int \<Rightarrow> int" where
  "drm_calc_scale src dst =
     (if src < 0 \<or> dst < 0 then - EINVAL
      else if dst = 0 then 0
      else src sdiv dst)"

definition drm_rect_calc_hscale :: "drm_rect \<Rightarrow> drm_rect \<Rightarrow> int \<Rightarrow> int \<Rightarrow> int" where
  "drm_rect_calc_hscale src dst min_hscale max_hscale =
     (let src_w = drm_rect_width src;
          dst_w = drm_rect_width dst;
          hscale = drm_calc_scale src_w dst_w
      in if hscale < 0 \<or> dst_w = 0 then hscale
         else if hscale < min_hscale \<or> hscale > max_hscale then - ERANGE
         else hscale)"

definition drm_rect_calc_vscale :: "drm_rect \<Rightarrow> drm_rect \<Rightarrow> int \<Rightarrow> int \<Rightarrow> int" where
  "drm_rect_calc_vscale src dst min_vscale max_vscale =
     (let src_h = drm_rect_height src;
          dst_h = drm_rect_height dst;
          vscale = drm_calc_scale src_h dst_h
      in if vscale < 0 \<or> dst_h = 0 then vscale
         else if vscale < min_vscale \<or> vscale > max_vscale then - ERANGE
         else vscale)"

text \<open>
  The relaxed variants change one of the two rectangles in place; the result is the scale
  and both rectangles.
\<close>

definition drm_rect_calc_hscale_relaxed ::
  "drm_rect \<Rightarrow> drm_rect \<Rightarrow> int \<Rightarrow> int \<Rightarrow> int \<times> drm_rect \<times> drm_rect" where
  "drm_rect_calc_hscale_relaxed src dst min_hscale max_hscale =
     (let src_w = drm_rect_width src;
          dst_w = drm_rect_width dst;
          hscale = drm_calc_scale src_w dst_w
      in if hscale < 0 \<or> dst_w = 0 then (hscale, src, dst)
         else if hscale < min_hscale then
           (let max_dst_w = src_w sdiv min_hscale
            in (min_hscale, src, drm_rect_adjust_size dst (s32 (max_dst_w - dst_w)) 0))
         else if hscale > max_hscale then
           (let max_src_w = s32 (dst_w * max_hscale)
            in (max_hscale, drm_rect_adjust_size src (s32 (max_src_w - src_w)) 0, dst))
         else (hscale, src, dst))"

definition drm_rect_calc_vscale_relaxed ::
  "drm_rect \<Rightarrow> drm_rect \<Rightarrow> int \<Rightarrow> int \<Rightarrow> int \<times> drm_rect \<times> drm_rect" where
  "drm_rect_calc_vscale_relaxed src dst min_vscale max_vscale =
     (let src_h = drm_rect_height src;
          dst_h = drm_rect_height dst;
          vscale = drm_calc_scale src_h dst_h
      in if vscale < 0 \<or> dst_h = 0 then (vscale, src, dst)
         else if vscale < min_vscale then
           (let max_dst_h = src_h sdiv min_vscale
            in (min_vscale, src, drm_rect_adjust_size dst 0 (s32 (max_dst_h - dst_h))))
         else if vscale > max_vscale then
           (let max_src_h = s32 (dst_h * max_vscale)
            in (max_vscale, drm_rect_adjust_size src 0 (s32 (max_src_h - src_h)), dst))
         else (vscale, src, dst))"

section \<open>Properties\<close>

text \<open>
  The set of pixels a rectangle covers, and the coordinate bound under which differences of
  coordinates do not overflow.
\<close>

definition rect_points :: "drm_rect \<Rightarrow> (int \<times> int) set" where
  "rect_points r = {x1 r ..< x2 r} \<times> {y1 r ..< y2 r}"

definition rect_bounded :: "drm_rect \<Rightarrow> bool" where
  "rect_bounded r \<longleftrightarrow> (\<forall>c \<in> {x1 r, y1 r, x2 r, y2 r}. - 1073741824 \<le> c \<and> c < 1073741824)"

lemma rect_bounded_iff:
  "rect_bounded r \<longleftrightarrow>
     - 1073741824 \<le> x1 r \<and> x1 r < 1073741824 \<and> - 1073741824 \<le> y1 r \<and> y1 r < 1073741824 \<and>
     - 1073741824 \<le> x2 r \<and> x2 r < 1073741824 \<and> - 1073741824 \<le> y2 r \<and> y2 r < 1073741824"
  by (auto simp: rect_bounded_def)

lemma rect_size_bounded:
  assumes "rect_bounded r"
  shows "drm_rect_width r = x2 r - x1 r" "drm_rect_height r = y2 r - y1 r"
  using assms by (simp_all add: rect_bounded_iff drm_rect_width_def drm_rect_height_def s32_id)

lemma visible_iff_points:
  assumes "rect_bounded r"
  shows "drm_rect_visible r \<longleftrightarrow> rect_points r \<noteq> {}"
  using assms by (auto simp: drm_rect_visible_def rect_size_bounded rect_points_def)

lemma rect_bounded_intersect:
  "rect_bounded r \<Longrightarrow> rect_bounded c \<Longrightarrow> rect_bounded (fst (drm_rect_intersect r c))"
  by (auto simp: rect_bounded_iff drm_rect_intersect_def Let_def)

lemma rect_points_intersect:
  "rect_points (fst (drm_rect_intersect r c)) = rect_points r \<inter> rect_points c"
  by (auto simp: rect_points_def drm_rect_intersect_def Let_def)

lemma intersect_result:
  "snd (drm_rect_intersect r c) = drm_rect_visible (fst (drm_rect_intersect r c))"
  by (simp add: drm_rect_intersect_def Let_def)

text \<open>
  \<^verbatim>\<open>drm_rect_intersect\<close> overwrites its first argument with a rectangle that covers
  exactly the pixels both rectangles cover, and returns true exactly when that set of pixels
  is not empty. Coordinates lie in the 31-bit range, so that widths do not overflow.
\<close>

theorem drm_rect_intersect_correct:
  assumes "rect_bounded r1" "rect_bounded r2"
  shows "rect_points (fst (drm_rect_intersect r1 r2)) = rect_points r1 \<inter> rect_points r2 \<and>
    (snd (drm_rect_intersect r1 r2) \<longleftrightarrow> rect_points r1 \<inter> rect_points r2 \<noteq> {})"
  using assms by (simp_all add: rect_points_intersect intersect_result visible_iff_points
      rect_bounded_intersect)

lemma assign_clamp_id:
  "INT_MIN \<le> v \<Longrightarrow> v \<le> INT_MAX \<Longrightarrow> assign_clamp_int64_t v = v"
  by (simp add: assign_clamp_int64_t_def INT_MIN_def INT_MAX_def s32_id)

lemma clip_scaled_dst:
  "snd (drm_rect_clip_scaled src dst clip h v) = drm_rect_intersect dst clip"
  by (simp add: drm_rect_clip_scaled_def Let_def split: prod.split)

lemma clip_scaled_src:
  assumes "rect_bounded dst" "rect_bounded clip"
    and "x1 src + max 0 (x1 clip - x1 dst) * h \<in> {INT_MIN..INT_MAX}"
        "x2 src - max 0 (x2 dst - x2 clip) * h \<in> {INT_MIN..INT_MAX}"
        "y1 src + max 0 (y1 clip - y1 dst) * v \<in> {INT_MIN..INT_MAX}"
        "y2 src - max 0 (y2 dst - y2 clip) * v \<in> {INT_MIN..INT_MAX}"
  shows "x1 (fst (drm_rect_clip_scaled src dst clip h v)) = x1 src + max 0 (x1 clip - x1 dst) * h"
    "x2 (fst (drm_rect_clip_scaled src dst clip h v)) = x2 src - max 0 (x2 dst - x2 clip) * h"
    "y1 (fst (drm_rect_clip_scaled src dst clip h v)) = y1 src + max 0 (y1 clip - y1 dst) * v"
    "y2 (fst (drm_rect_clip_scaled src dst clip h v)) = y2 src - max 0 (y2 dst - y2 clip) * v"
  using assms
  by (auto simp: drm_rect_clip_scaled_def Let_def rect_bounded_iff s32_id assign_clamp_id
      max_def split: prod.split if_splits)

text \<open>
  \<^verbatim>\<open>drm_rect_clip_scaled\<close> keeps the scale: when the source size is the destination size
  times the scaling factors, and the clipped source coordinates fit in an \<^verbatim>\<open>int\<close>, then it still
  is after clipping, the destination is clipped to the intersection with the clip rectangle,
  and the result says whether anything of it is visible.
\<close>

theorem drm_rect_clip_scaled_keeps_scale:
  assumes "rect_bounded dst" "rect_bounded clip"
    and "x1 src + max 0 (x1 clip - x1 dst) * h \<in> {INT_MIN..INT_MAX}"
        "x2 src - max 0 (x2 dst - x2 clip) * h \<in> {INT_MIN..INT_MAX}"
        "y1 src + max 0 (y1 clip - y1 dst) * v \<in> {INT_MIN..INT_MAX}"
        "y2 src - max 0 (y2 dst - y2 clip) * v \<in> {INT_MIN..INT_MAX}"
    and "x2 src - x1 src = (x2 dst - x1 dst) * h" "y2 src - y1 src = (y2 dst - y1 dst) * v"
    and "drm_rect_clip_scaled src dst clip h v = (src', dst', vis)"
  shows "x2 src' - x1 src' = (x2 dst' - x1 dst') * h \<and>
         y2 src' - y1 src' = (y2 dst' - y1 dst') * v \<and>
         rect_points dst' = rect_points dst \<inter> rect_points clip \<and>
         (vis \<longleftrightarrow> rect_points dst' \<noteq> {})"
proof -
  note src = clip_scaled_src [OF assms(1-6), unfolded assms(9) fst_conv]
  have dst: "drm_rect_intersect dst clip = (dst', vis)"
    using clip_scaled_dst [of src dst clip h v] assms(9) by simp
  have x: "x2 dst' - x1 dst' = (x2 dst - x1 dst) - max 0 (x1 clip - x1 dst) - max 0 (x2 dst - x2 clip)"
    and y: "y2 dst' - y1 dst' = (y2 dst - y1 dst) - max 0 (y1 clip - y1 dst) - max 0 (y2 dst - y2 clip)"
    using dst by (auto simp: drm_rect_intersect_def Let_def max_def min_def)
  have "x2 src' - x1 src' = (x2 dst' - x1 dst') * h"
    using assms(7) by (simp add: src x left_diff_distrib)
  moreover have "y2 src' - y1 src' = (y2 dst' - y1 dst') * v"
    using assms(8) by (simp add: src y left_diff_distrib)
  moreover have "rect_points dst' = rect_points dst \<inter> rect_points clip"
    using rect_points_intersect [of dst clip] dst by simp
  moreover have "vis \<longleftrightarrow> rect_points dst' \<noteq> {}"
    using intersect_result [of dst clip] dst visible_iff_points [of dst']
      rect_bounded_intersect [OF assms(1,2)] by simp
  ultimately show ?thesis by blast
qed

lemma calc_scale_eq:
  "0 \<le> s \<Longrightarrow> 0 < d \<Longrightarrow> drm_calc_scale s d = s div d"
  by (simp add: drm_calc_scale_def sdiv_nonneg)

lemma calc_scale_neg: "drm_calc_scale s d < 0 \<longleftrightarrow> s < 0 \<or> d < 0"
  by (auto simp: drm_calc_scale_def errno_defs sdiv_nonneg pos_imp_zdiv_neg_iff)

lemma half_sum: "d div 2 + (d + 1) div 2 = (d::int)"
  by presburger

lemma adjust_size_size:
  assumes "INT_MIN \<le> dw" "dw < INT_MAX" "INT_MIN \<le> dh" "dh < INT_MAX"
  shows "drm_rect_width (drm_rect_adjust_size r dw dh) = s32 (drm_rect_width r + dw)"
    "drm_rect_height (drm_rect_adjust_size r dw dh) = s32 (drm_rect_height r + dh)"
proof -
  have "x2 r + (dw + 1) div 2 - (x1 r - dw div 2) = x2 r - x1 r + dw"
    "y2 r + (dh + 1) div 2 - (y1 r - dh div 2) = y2 r - y1 r + dh"
    using half_sum [of dw] half_sum [of dh] by linarith+
  then have "s32 (x2 r + (dw + 1) div 2 - (x1 r - dw div 2)) = s32 (x2 r - x1 r + dw)"
    "s32 (y2 r + (dh + 1) div 2 - (y1 r - dh div 2)) = s32 (y2 r - y1 r + dh)"
    by (simp_all only:)
  then show "drm_rect_width (drm_rect_adjust_size r dw dh) = s32 (drm_rect_width r + dw)"
    "drm_rect_height (drm_rect_adjust_size r dw dh) = s32 (drm_rect_height r + dh)"
    using assms by (simp_all add: drm_rect_adjust_size_def drm_rect_width_def drm_rect_height_def
        INT_MIN_def INT_MAX_def s32_id s32_diff_s32 s32_add_s32 del: right_minus_eq)
qed

lemma div_div_ge:
  assumes "0 < (b::int)" "0 < a div b"
  shows "b \<le> a div (a div b)"
proof -
  have "b * (a div b) \<le> a"
    using assms(1) mult_div_mod_eq [of b a] pos_mod_sign [of b a] by linarith
  then show ?thesis
    using assms(2) by (simp add: int_le_div_iff)
qed

lemma relaxed_core:
  fixes sw dw lo hi :: int
  assumes "0 \<le> sw" "sw < 2147483648" "0 < dw" "dw < 2147483648" "1 \<le> lo" "lo \<le> hi"
  shows "sw div dw < lo \<Longrightarrow> 0 \<le> sw div lo \<and> sw div lo < dw"
    and "hi < sw div dw \<Longrightarrow> dw * hi < sw"
proof -
  show "sw div dw < lo \<Longrightarrow> 0 \<le> sw div lo \<and> sw div lo < dw"
    using assms by (simp add: int_div_less_iff pos_imp_zdiv_nonneg_iff mult.commute)
  assume "hi < sw div dw"
  then have "dw * (hi + 1) \<le> dw * (sw div dw)"
    using assms by (intro mult_left_mono) auto
  also have "\<dots> \<le> sw"
    using assms mult_div_mod_eq [of dw sw] pos_mod_sign [of dw sw] by linarith
  finally show "dw * hi < sw" using assms by (simp add: distrib_left)
qed

text \<open>
  \<^verbatim>\<open>drm_rect_calc_hscale_relaxed\<close> on rectangles of non-negative width returns a factor
  within the limits; it only ever shrinks a rectangle, and only horizontally; and the
  adjusted rectangles no longer fall below the lower limit (or the destination has become
  empty).
\<close>

theorem drm_rect_calc_hscale_relaxed_fits:
  assumes "0 \<le> drm_rect_width src" "0 < drm_rect_width dst" "1 \<le> lo" "lo \<le> hi"
    and "drm_rect_calc_hscale_relaxed src dst lo hi = (scale, src', dst')"
  shows "lo \<le> scale \<and> scale \<le> hi \<and>
    0 \<le> drm_rect_width src' \<and> drm_rect_width src' \<le> drm_rect_width src \<and>
    0 \<le> drm_rect_width dst' \<and> drm_rect_width dst' \<le> drm_rect_width dst \<and>
    drm_rect_height src' = drm_rect_height src \<and> drm_rect_height dst' = drm_rect_height dst \<and>
    (drm_rect_width dst' = 0 \<or> lo \<le> drm_calc_scale (drm_rect_width src') (drm_rect_width dst'))"
proof -
  define sw dw where w: "sw = drm_rect_width src" "dw = drm_rect_width dst"
  have b: "0 \<le> sw" "sw < 2147483648" "0 < dw" "dw < 2147483648"
    using assms(1,2) s32_range by (simp_all add: w drm_rect_width_def)
  have h: "drm_rect_height r = s32 (drm_rect_height r)" for r
    using s32_range [of "y2 r - y1 r"] by (simp add: drm_rect_height_def s32_id)
  have sc: "drm_calc_scale sw dw = sw div dw" "\<not> sw div dw < 0"
    using b by (simp_all add: calc_scale_eq pos_imp_zdiv_neg_iff)
  consider (low) "sw div dw < lo" | (high) "hi < sw div dw" "lo \<le> sw div dw" | (mid) "lo \<le> sw div dw" "sw div dw \<le> hi"
    by linarith
  then show ?thesis
  proof cases
    case low
    note r = relaxed_core(1) [OF b assms(3,4) low]
    have eq: "scale = lo" "src' = src" "dst' = drm_rect_adjust_size dst (s32 (sw div lo - dw)) 0"
      using assms(3,5) low b sc by (auto simp: drm_rect_calc_hscale_relaxed_def Let_def w [symmetric] sdiv_nonneg)
    have s: "s32 (sw div lo - dw) = sw div lo - dw"
      using r b by (intro s32_id) auto
    have "drm_rect_width dst' = sw div lo" "drm_rect_height dst' = drm_rect_height dst"
      unfolding eq s using r b h [of dst]
      by (simp_all add: adjust_size_size INT_MIN_def INT_MAX_def w [symmetric] s32_id)
    moreover have "sw div lo = 0 \<or> lo \<le> drm_calc_scale sw (sw div lo)"
      using r b div_div_ge [of lo sw] assms(3) by (cases "sw div lo = 0") (auto simp: calc_scale_eq)
    ultimately show ?thesis using eq r b assms(3,4) by (simp add: w)
  next
    case high
    note r = relaxed_core(2) [OF b assms(3,4) high(1)]
    have p: "0 < dw * hi" using b assms(3,4) by simp
    have s: "s32 (dw * hi - sw) = dw * hi - sw"
      using r b p by (intro s32_id) auto
    have eq: "scale = hi" "dst' = dst" "src' = drm_rect_adjust_size src (dw * hi - sw) 0"
      using assms(3-5) high b sc r p by (auto simp: drm_rect_calc_hscale_relaxed_def Let_def w [symmetric] s s32_id)
    have "drm_rect_width src' = dw * hi" "drm_rect_height src' = drm_rect_height src"
      unfolding eq using r b p h [of src]
      by (simp_all add: adjust_size_size INT_MIN_def INT_MAX_def w [symmetric] s32_id)
    with eq r p b assms(3,4) w show ?thesis
      by (auto simp: calc_scale_eq)
  next
    case mid
    with assms(3-5) b sc w show ?thesis
      by (auto simp: drm_rect_calc_hscale_relaxed_def Let_def calc_scale_eq)
  qed
qed

text \<open>
  A clipped source coordinate below the range of an \<^verbatim>\<open>int\<close> is not clamped to the
  smallest \<^verbatim>\<open>int\<close>: the macro's second statement runs after the assignment, and the value
  wraps around to a positive coordinate.
\<close>

theorem drm_rect_clip_scaled_underflow_wraps:
  "drm_rect_clip_scaled \<lparr>x1 = 0, y1 = 0, x2 = 0, y2 = 0\<rparr> \<lparr>x1 = 0, y1 = 0, x2 = 40000, y2 = 1\<rparr>
     \<lparr>x1 = 0, y1 = 0, x2 = 0, y2 = 1\<rparr> 65536 65536 =
   (\<lparr>x1 = 0, y1 = 0, x2 = 1673527296, y2 = 0\<rparr>, \<lparr>x1 = 0, y1 = 0, x2 = 0, y2 = 1\<rparr>, False)"
  by code_simp

lemma assign_clamp_underflow:
  assumes "INT_MIN - 2147483648 \<le> v" "v < INT_MIN"
  shows "0 \<le> assign_clamp_int64_t v"
proof -
  have "s32 v = s32 (v + 4294967296 * 1)" by (rule s32_shift [symmetric])
  also have "\<dots> = v + 4294967296" using assms by (simp add: INT_MIN_def s32_id)
  finally show ?thesis using assms by (simp add: assign_clamp_int64_t_def INT_MIN_def INT_MAX_def)
qed

text \<open>The vertical variants are the horizontal ones on transposed rectangles.\<close>

definition rect_transpose :: "drm_rect \<Rightarrow> drm_rect" where
  "rect_transpose r = \<lparr>x1 = y1 r, y1 = x1 r, x2 = y2 r, y2 = x2 r\<rparr>"

lemma rect_transpose_simps [simp]:
  "drm_rect_width (rect_transpose r) = drm_rect_height r"
  "drm_rect_height (rect_transpose r) = drm_rect_width r"
  "rect_transpose (rect_transpose r) = r"
  by (simp_all add: rect_transpose_def drm_rect_width_def drm_rect_height_def)

lemma adjust_size_transpose:
  "drm_rect_adjust_size (rect_transpose r) dw dh = rect_transpose (drm_rect_adjust_size r dh dw)"
  by (simp add: rect_transpose_def drm_rect_adjust_size_def)

lemma vscale_relaxed_transpose:
  "drm_rect_calc_vscale_relaxed src dst lo hi =
    map_prod id (map_prod rect_transpose rect_transpose)
      (drm_rect_calc_hscale_relaxed (rect_transpose src) (rect_transpose dst) lo hi)"
  by (simp add: drm_rect_calc_vscale_relaxed_def drm_rect_calc_hscale_relaxed_def Let_def
      adjust_size_transpose)

lemma vscale_transpose:
  "drm_rect_calc_vscale src dst lo hi =
    drm_rect_calc_hscale (rect_transpose src) (rect_transpose dst) lo hi"
  by (simp add: drm_rect_calc_vscale_def drm_rect_calc_hscale_def)

lemma translate_points:
  assumes "rect_bounded r" "\<bar>dx\<bar> \<le> 1073741824" "\<bar>dy\<bar> \<le> 1073741824"
  shows "(x, y) \<in> rect_points (drm_rect_translate r dx dy) \<longleftrightarrow> (x - dx, y - dy) \<in> rect_points r"
proof -
  have "s32 (x1 r + dx) = x1 r + dx" "s32 (y1 r + dy) = y1 r + dy"
    "s32 (x2 r + dx) = x2 r + dx" "s32 (y2 r + dy) = y2 r + dy"
    using assms unfolding rect_bounded_iff abs_le_iff by (intro s32_id; linarith)+
  then have "drm_rect_translate r dx dy = r\<lparr>x1 := x1 r + dx, y1 := y1 r + dy, x2 := x2 r + dx, y2 := y2 r + dy\<rparr>"
    by (simp add: drm_rect_translate_def)
  then show ?thesis
    by (auto simp: rect_points_def)
qed

section \<open>Witnesses\<close>

theorem drm_rect_intersect_witness:
  "rect_points (fst (drm_rect_intersect \<lparr>x1 = 0, y1 = 0, x2 = 10, y2 = 10\<rparr>
      \<lparr>x1 = 5, y1 = - 5, x2 = 20, y2 = 8\<rparr>)) = {5..<10} \<times> {0..<8} \<and>
   snd (drm_rect_intersect \<lparr>x1 = 0, y1 = 0, x2 = 10, y2 = 10\<rparr> \<lparr>x1 = 5, y1 = - 5, x2 = 20, y2 = 8\<rparr>)"
  using drm_rect_intersect_correct
    [of "\<lparr>x1 = 0, y1 = 0, x2 = 10, y2 = 10\<rparr>" "\<lparr>x1 = 5, y1 = - 5, x2 = 20, y2 = 8\<rparr>"]
  by (simp add: rect_bounded_iff rect_points_def Times_Int_Times)

theorem drm_rect_clip_scaled_witness:
  "\<exists>src' dst'. drm_rect_clip_scaled \<lparr>x1 = 0, y1 = 0, x2 = 200, y2 = 300\<rparr>
      \<lparr>x1 = - 10, y1 = 0, x2 = 90, y2 = 100\<rparr> \<lparr>x1 = 0, y1 = 0, x2 = 64, y2 = 64\<rparr> 2 3 = (src', dst', True) \<and>
     x2 src' - x1 src' = 128 \<and> y2 src' - y1 src' = 192 \<and> rect_points dst' = {0..<64} \<times> {0..<64}"
proof -
  let ?src = "\<lparr>x1 = 0, y1 = 0, x2 = 200, y2 = 300\<rparr>"
  let ?dst = "\<lparr>x1 = - 10, y1 = 0, x2 = 90, y2 = 100\<rparr>"
  let ?clip = "\<lparr>x1 = 0, y1 = 0, x2 = 64, y2 = 64\<rparr>"
  obtain src' dst' vis where r: "drm_rect_clip_scaled ?src ?dst ?clip 2 3 = (src', dst', vis)"
    by (metis prod_cases3)
  have d: "dst' = \<lparr>x1 = 0, y1 = 0, x2 = 64, y2 = 64\<rparr>"
    using clip_scaled_dst [of ?src ?dst ?clip 2 3] r by (simp add: drm_rect_intersect_def Let_def)
  have "x2 src' - x1 src' = (x2 dst' - x1 dst') * 2 \<and> y2 src' - y1 src' = (y2 dst' - y1 dst') * 3 \<and>
      rect_points dst' = rect_points ?dst \<inter> rect_points ?clip \<and> (vis \<longleftrightarrow> rect_points dst' \<noteq> {})"
    by (rule drm_rect_clip_scaled_keeps_scale [OF _ _ _ _ _ _ _ _ r])
      (simp_all add: rect_bounded_iff INT_MIN_def INT_MAX_def)
  with r d show ?thesis by (auto simp: rect_points_def)
qed

theorem drm_rect_calc_hscale_relaxed_witness:
  "\<exists>src' dst'. drm_rect_calc_hscale_relaxed \<lparr>x1 = 0, y1 = 0, x2 = 100, y2 = 10\<rparr>
      \<lparr>x1 = 0, y1 = 0, x2 = 80, y2 = 10\<rparr> 2 4 = (2, src', dst') \<and>
     drm_rect_width dst' = 50 \<and> 2 \<le> drm_calc_scale (drm_rect_width src') (drm_rect_width dst')"
proof -
  let ?src = "\<lparr>x1 = 0, y1 = 0, x2 = 100, y2 = 10\<rparr>" and ?dst = "\<lparr>x1 = 0, y1 = 0, x2 = 80, y2 = 10\<rparr>"
  have e: "drm_rect_calc_hscale_relaxed ?src ?dst 2 4 = (2, ?src, \<lparr>x1 = 15, y1 = 0, x2 = 65, y2 = 10\<rparr>)"
    by code_simp
  have "0 \<le> drm_rect_width ?src" "0 < drm_rect_width ?dst" "(1::int) \<le> 2" "(2::int) \<le> 4"
    by (simp_all add: drm_rect_width_def s32_def)
  from drm_rect_calc_hscale_relaxed_fits [OF this e] e show ?thesis
    by (simp add: drm_rect_width_def s32_def)
qed

end
