(* ===== verification/Linux_List.thy ===== *)
theory Linux_List
  imports Gfx_Prelude
begin

text \<open>
  The intrusive doubly linked lists of \<^verbatim>\<open>uts/common/drm/drm_linux_list.h\<close>, at the level of
  pointers: every macro is the sequence of loads and stores it expands to, over a heap of
  \<^verbatim>\<open>struct list_head\<close>. The representation predicate \<open>is_list\<close> relates a list head in the
  heap to the sequence of the nodes on it; the lemmas show what each macro does to that
  sequence. Unlike the Linux original, \<^verbatim>\<open>list_entry\<close> does not compute the container from
  the address: it reads the field \<^verbatim>\<open>contain_ptr\<close> that the insertion stored.
\<close>

section \<open>Model\<close>

type_synonym addr = nat

abbreviation NULL :: addr where "NULL \<equiv> 0"

record list_head =
  lnext :: addr
  lprev :: addr
  contain_ptr :: addr

type_synonym lheap = "addr \<Rightarrow> list_head"

definition set_next :: "addr \<Rightarrow> addr \<Rightarrow> lheap \<Rightarrow> lheap" where
  "set_next p v h = h(p := (h p)\<lparr>lnext := v\<rparr>)"

definition set_prev :: "addr \<Rightarrow> addr \<Rightarrow> lheap \<Rightarrow> lheap" where
  "set_prev p v h = h(p := (h p)\<lparr>lprev := v\<rparr>)"

definition set_contain :: "addr \<Rightarrow> addr \<Rightarrow> lheap \<Rightarrow> lheap" where
  "set_contain p v h = h(p := (h p)\<lparr>contain_ptr := v\<rparr>)"

definition list_entry :: "lheap \<Rightarrow> addr \<Rightarrow> addr" where
  "list_entry h p = (if p \<noteq> NULL then contain_ptr (h p) else NULL)"

definition list_empty :: "lheap \<Rightarrow> addr \<Rightarrow> bool" where
  "list_empty h head \<longleftrightarrow> lnext (h head) = head"

definition INIT_LIST_HEAD :: "addr \<Rightarrow> lheap \<Rightarrow> lheap" where
  "INIT_LIST_HEAD head h =
     (let h = set_next head head h;
          h = set_prev head head h
      in set_contain head NULL h)"

definition list_add :: "addr \<Rightarrow> addr \<Rightarrow> addr \<Rightarrow> lheap \<Rightarrow> lheap" where
  "list_add ptr head entry h =
     (let n_node = lnext (h head);
          h = set_prev ptr head h;
          h = set_next ptr (lnext (h head)) h;
          h = set_prev n_node ptr h;
          h = set_next head ptr h
      in set_contain ptr entry h)"

definition list_add_tail :: "addr \<Rightarrow> addr \<Rightarrow> addr \<Rightarrow> lheap \<Rightarrow> lheap" where
  "list_add_tail ptr head entry h =
     (let p_node = lprev (h head);
          h = set_prev ptr (lprev (h head)) h;
          h = set_next ptr head h;
          h = set_next p_node ptr h;
          h = set_prev head ptr h
      in set_contain ptr entry h)"

text \<open>
  Deleting a node twice dereferences the null pointers the first deletion left behind: the
  kernel panics, which is the result \<open>None\<close>.
\<close>

definition list_del :: "addr \<Rightarrow> lheap \<Rightarrow> lheap option" where
  "list_del ptr h =
     (let n_node = lnext (h ptr);
          p_node = lprev (h ptr)
      in if n_node = NULL \<or> p_node = NULL then None
         else Some (let h = set_prev n_node (lprev (h ptr)) h;
                        h = set_next p_node (lnext (h ptr)) h;
                        h = set_prev ptr NULL h
                    in set_next ptr NULL h))"

definition list_del_init :: "addr \<Rightarrow> lheap \<Rightarrow> lheap option" where
  "list_del_init ptr h = map_option (INIT_LIST_HEAD ptr) (list_del ptr h)"

definition list_move :: "addr \<Rightarrow> addr \<Rightarrow> addr \<Rightarrow> lheap \<Rightarrow> lheap option" where
  "list_move ptr head entry h = map_option (list_add ptr head entry) (list_del ptr h)"

definition list_move_tail :: "addr \<Rightarrow> addr \<Rightarrow> addr \<Rightarrow> lheap \<Rightarrow> lheap option" where
  "list_move_tail ptr head entry h = map_option (list_add_tail ptr head entry) (list_del ptr h)"

definition list_splice :: "addr \<Rightarrow> addr \<Rightarrow> addr \<Rightarrow> lheap \<Rightarrow> lheap" where
  "list_splice list be ne h =
     (if \<not> list_empty h list then
        (let first = lnext (h list);
             last = lprev (h list);
             h = set_prev first be h;
             h = set_next be first h;
             h = set_next last ne h
         in set_prev ne last h)
      else h)"

text \<open>\<^verbatim>\<open>list_replace\<close> links the new node in and leaves its \<^verbatim>\<open>contain_ptr\<close> alone.\<close>

definition list_replace :: "addr \<Rightarrow> addr \<Rightarrow> lheap \<Rightarrow> lheap" where
  "list_replace old new h =
     (let h = set_next new (lnext (h old)) h;
          h = set_prev (lnext (h new)) new h;
          h = set_prev new (lprev (h old)) h
      in set_next (lprev (h new)) new h)"

text \<open>
  The iteration macros may run forever on a malformed list; with fuel, \<open>None\<close> is "still
  running". \<^verbatim>\<open>list_for_each\<close> visits nodes until it is back at the head;
  \<^verbatim>\<open>list_for_each_entry\<close> visits containers until \<^verbatim>\<open>list_entry\<close> is null, and never compares
  with the head. Its node is the \<^verbatim>\<open>member\<close> inside the container: \<open>memb\<close> gives the address of
  the embedded \<^verbatim>\<open>list_head\<close>.
\<close>

fun list_for_each :: "nat \<Rightarrow> lheap \<Rightarrow> addr \<Rightarrow> addr \<Rightarrow> addr list option" where
  "list_for_each 0 h head pos = None"
| "list_for_each (Suc fuel) h head pos =
     (if pos = head then Some []
      else map_option ((#) pos) (list_for_each fuel h head (lnext (h pos))))"

fun list_for_each_entry :: "nat \<Rightarrow> lheap \<Rightarrow> (addr \<Rightarrow> addr) \<Rightarrow> addr \<Rightarrow> addr list option" where
  "list_for_each_entry 0 h memb pos = None"
| "list_for_each_entry (Suc fuel) h memb pos =
     (if pos = NULL then Some []
      else map_option ((#) pos)
             (list_for_each_entry fuel h memb (list_entry h (lnext (h (memb pos))))))"

section \<open>Representation\<close>

fun linked :: "lheap \<Rightarrow> addr \<Rightarrow> addr list \<Rightarrow> addr \<Rightarrow> bool" where
  "linked h a [] b \<longleftrightarrow> lnext (h a) = b \<and> lprev (h b) = a"
| "linked h a (x # xs) b \<longleftrightarrow> lnext (h a) = x \<and> lprev (h x) = a \<and> linked h x xs b"

definition is_list :: "lheap \<Rightarrow> addr \<Rightarrow> addr list \<Rightarrow> bool" where
  "is_list h head xs \<longleftrightarrow> distinct (head # xs) \<and> NULL \<notin> set (head # xs) \<and> linked h head xs head"

named_theorems heap_simps "loads after stores"

lemma load_simps [heap_simps]:
  "lnext (set_next p v h q) = (if q = p then v else lnext (h q))"
  "lprev (set_next p v h q) = lprev (h q)"
  "contain_ptr (set_next p v h q) = contain_ptr (h q)"
  "lprev (set_prev p v h q) = (if q = p then v else lprev (h q))"
  "lnext (set_prev p v h q) = lnext (h q)"
  "contain_ptr (set_prev p v h q) = contain_ptr (h q)"
  "contain_ptr (set_contain p v h q) = (if q = p then v else contain_ptr (h q))"
  "lnext (set_contain p v h q) = lnext (h q)"
  "lprev (set_contain p v h q) = lprev (h q)"
  by (simp_all add: set_next_def set_prev_def set_contain_def)

lemma linked_append: "linked h a (xs @ y # ys) b \<longleftrightarrow> linked h a xs y \<and> linked h y ys b"
  by (induction xs arbitrary: a) auto

lemma linked_cong:
  assumes "\<And>q. q \<in> insert a (set xs) \<Longrightarrow> lnext (h' q) = lnext (h q)"
    and "\<And>q. q \<in> insert b (set xs) \<Longrightarrow> lprev (h' q) = lprev (h q)"
  shows "linked h' a xs b = linked h a xs b"
  using assms by (induction xs arbitrary: a) auto

lemma linked_next_first: "linked h a xs b \<Longrightarrow> lnext (h a) = hd (xs @ [b])"
  by (cases xs) auto

lemma linked_prev_last: "linked h a xs b \<Longrightarrow> lprev (h b) = last (a # xs)"
  by (induction xs arbitrary: a) auto

lemma linked_first_prev: "linked h a xs b \<Longrightarrow> lprev (h (hd (xs @ [b]))) = a"
  by (cases xs) auto

lemma linked_last_next: "linked h a xs b \<Longrightarrow> lnext (h (last (a # xs))) = b"
  by (induction xs arbitrary: a) auto

text \<open>Linking a node in between two neighbours of a chain.\<close>

lemma linked_insert:
  assumes "linked h a xs b" and "p \<notin> set xs" "p \<noteq> a" "p \<noteq> b" and "distinct (a # xs)" "b \<notin> set xs"
    and nx: "\<And>q. lnext (h' q) = (if q = a then p else if q = p then lnext (h a) else lnext (h q))"
    and pv: "\<And>q. lprev (h' q) = (if q = lnext (h a) then p else if q = p then a else lprev (h q))"
  shows "linked h' a (p # xs) b"
proof (cases xs)
  case Nil
  with assms show ?thesis by auto
next
  case (Cons y ys)
  then have y: "lnext (h a) = y" and l: "linked h y ys b" using assms(1) by auto
  have "linked h' y ys b = linked h y ys b"
    using assms Cons y by (intro linked_cong) auto
  with assms Cons y l show ?thesis by auto
qed


text \<open>Joining the beginning of one chain with the end of another.\<close>

lemma linked_join:
  assumes "linked h a xs c" "ys \<noteq> [] \<Longrightarrow> linked h (hd ys) (tl ys) b" and "distinct (a # xs @ ys)" "b \<notin> set (xs @ ys)"
    and "\<And>q. q \<in> insert a (set (xs @ ys)) \<Longrightarrow>
           lnext (h' q) = (if q = last (a # xs) then hd (ys @ [b]) else lnext (h q))"
    and "\<And>q. q \<in> insert b (set (xs @ ys)) \<Longrightarrow>
           lprev (h' q) = (if q = hd (ys @ [b]) then last (a # xs) else lprev (h q))"
  shows "linked h' a (xs @ ys) b"
  using assms
proof (induction xs arbitrary: a)
  case Nil
  show ?case
  proof (cases ys)
    case Nil
    with Nil.prems show ?thesis by auto
  next
    case (Cons y zs)
    have "linked h' y zs b = linked h y zs b"
      using Nil.prems Cons by (intro linked_cong) auto
    with Nil.prems Cons show ?thesis by auto
  qed
next
  case (Cons x xs)
  have "linked h' x (xs @ ys) b"
  proof (rule Cons.IH)
    show "linked h x xs c" "ys \<noteq> [] \<Longrightarrow> linked h (hd ys) (tl ys) b" "distinct (x # xs @ ys)" "b \<notin> set (xs @ ys)"
      using Cons.prems by auto
  qed (use Cons.prems in \<open>auto split: if_splits\<close>)
  moreover have "hd (ys @ [b]) \<noteq> x" using Cons.prems by (cases ys) auto
  ultimately show ?case using Cons.prems by auto
qed

lemma is_listD:
  assumes "is_list h head xs"
  shows "distinct (head # xs)" "NULL \<notin> set (head # xs)" "linked h head xs head"
  using assms by (auto simp: is_list_def)

lemma is_list_split:
  assumes "is_list h head (xs @ p # ys)"
  shows "lprev (h p) = last (head # xs)" "lnext (h p) = hd (ys @ [head])"
  using assms linked_prev_last linked_next_first by (fastforce simp: is_list_def linked_append)+

lemma is_list_frame:
  assumes "is_list h head xs" and "\<And>q. q \<in> set (head # xs) \<Longrightarrow> lnext (h' q) = lnext (h q) \<and> lprev (h' q) = lprev (h q)"
  shows "is_list h' head xs"
proof -
  have "linked h' head xs head = linked h head xs head"
    using assms(2) by (intro linked_cong) auto
  with assms(1) show ?thesis by (simp add: is_list_def)
qed

section \<open>What the macros do to the sequence\<close>

lemma INIT_LIST_HEAD_empty: "head \<noteq> NULL \<Longrightarrow> is_list (INIT_LIST_HEAD head h) head []"
  by (simp add: is_list_def INIT_LIST_HEAD_def heap_simps)

lemma list_empty_iff: "is_list h head xs \<Longrightarrow> list_empty h head \<longleftrightarrow> xs = []"
  by (cases xs) (auto simp: is_list_def list_empty_def)

lemma list_add_loads:
  assumes "p \<noteq> a"
  shows "lnext (list_add p a e h q) = (if q = a then p else if q = p then lnext (h a) else lnext (h q))"
    "lprev (list_add p a e h q) = (if q = lnext (h a) then p else if q = p then a else lprev (h q))"
    "contain_ptr (list_add p a e h q) = (if q = p then e else contain_ptr (h q))"
  using assms by (simp_all add: list_add_def Let_def heap_simps)

lemma list_add_after:
  assumes "is_list h head (xs @ ys)" "p \<notin> set (head # xs @ ys)" "p \<noteq> NULL"
    and a: "a = last (head # xs)"
  shows "is_list (list_add p a e h) head (xs @ p # ys)"
proof -
  note d = is_listD [OF assms(1)]
  have a': "a \<in> set (head # xs)" unfolding a by (rule last_in_set) simp
  then have "p \<noteq> a" using assms(2) by auto
  note loads = list_add_loads [OF this, of e h]
  have "linked (list_add p a e h) head (xs @ p # ys) head"
  proof (cases xs rule: rev_cases)
    case Nil
    with d a loads assms(2) show ?thesis by (auto intro!: linked_insert simp del: linked.simps)
  next
    case (snoc zs a')
    then have "a' = a" using a by simp
    with d snoc have l: "linked h head zs a" "linked h a ys head" by (auto simp: linked_append)
    have n: "lnext (h a) = hd (ys @ [head])" using l(2) by (rule linked_next_first)
    have "linked (list_add p a e h) head zs a = linked h head zs a"
      using d snoc \<open>a' = a\<close> assms(2) n by (intro linked_cong) (auto simp: loads hd_append)
    moreover have "linked (list_add p a e h) a (p # ys) head"
      using l(2) d snoc \<open>a' = a\<close> assms(2) loads by (intro linked_insert) auto
    ultimately show ?thesis using l snoc \<open>a' = a\<close> by (simp add: linked_append)
  qed
  with d assms(2,3) show ?thesis by (auto simp: is_list_def)
qed


lemma list_head_ext:
  assumes "\<And>q. lnext (h q) = lnext (h' q)" "\<And>q. lprev (h q) = lprev (h' q)"
    "\<And>q. contain_ptr (h q) = contain_ptr (h' q)"
  shows "h = (h' :: lheap)"
  using assms by (intro ext list_head.equality) auto

text \<open>Inserting before a node is inserting after its predecessor.\<close>

lemma list_add_tail_eq:
  assumes "lnext (h (lprev (h b))) = b" "p \<noteq> b" "p \<noteq> lprev (h b)"
  shows "list_add_tail p b e h = list_add p (lprev (h b)) e h"
  using assms by (intro list_head_ext) (auto simp: list_add_loads list_add_tail_def Let_def heap_simps)

lemma is_list_prev_last:
  assumes "is_list h head xs"
  shows "lprev (h head) = last (head # xs)" "lnext (h (last (head # xs))) = head"
  using assms linked_prev_last linked_last_next by (fastforce simp: is_list_def)+

lemma list_add_tail_last:
  assumes "is_list h head xs" "p \<notin> set (head # xs)" "p \<noteq> NULL"
  shows "is_list (list_add_tail p head e h) head (xs @ [p])"
proof -
  have "last (head # xs) \<in> set (head # xs)" by (rule last_in_set) simp
  then have "p \<noteq> last (head # xs)" using assms(2) by auto
  with assms(1,2) have "list_add_tail p head e h = list_add p (last (head # xs)) e h"
    by (auto simp: list_add_tail_eq is_list_prev_last simp del: last.simps)
  moreover have "is_list (list_add p (last (head # xs)) e h) head (xs @ p # [])"
    using assms by (intro list_add_after) auto
  ultimately show ?thesis by simp
qed

lemma list_del_loads:
  assumes "list_del p h = Some h'"
  shows "lnext (h' q) = (if q = p then NULL else if q = lprev (h p) then lnext (h p) else lnext (h q))"
    "lprev (h' q) = (if q = p then NULL else if q = lnext (h p) then lprev (h p) else lprev (h q))"
    "contain_ptr (h' q) = contain_ptr (h q)"
  using assms by (auto simp: list_del_def Let_def heap_simps split: if_splits)

lemma list_del_removes:
  assumes "is_list h head (xs @ p # ys)"
  shows "\<exists>h'. list_del p h = Some h' \<and> is_list h' head (xs @ ys)"
proof -
  note d = is_listD [OF assms]
  note nb = is_list_split [OF assms]
  have l: "last (head # xs) \<in> set (head # xs)" "hd (ys @ [head]) \<in> set (ys @ [head])"
    by (rule last_in_set, simp) (rule list.set_sel, simp)
  moreover have "NULL \<notin> set (head # xs)" "NULL \<notin> set (ys @ [head])" using d(2) by auto
  ultimately have "lprev (h p) \<noteq> NULL \<and> lnext (h p) \<noteq> NULL"
    unfolding nb by metis
  then obtain h' where h': "list_del p h = Some h'"
    by (auto simp: list_del_def Let_def)
  note loads = list_del_loads [OF h', unfolded nb]
  have "linked h' head (xs @ ys) head"
  proof (rule linked_join)
    show "linked h head xs p" "ys \<noteq> [] \<Longrightarrow> linked h (hd ys) (tl ys) head"
      using d(3) by (cases ys; auto simp: linked_append)+
    show "distinct (head # xs @ ys)" "head \<notin> set (xs @ ys)" using d(1) by auto
  qed (use d(1) loads in auto)
  with d h' show ?thesis by (auto simp: is_list_def)
qed

lemma list_del_twice_panics:
  "list_del p h = Some h' \<Longrightarrow> list_del p h' = None"
  using list_del_loads [of p h h' p] by (simp add: list_del_def)

lemma list_move_front:
  assumes "is_list h head (xs @ p # ys)"
  shows "\<exists>h'. list_move p head e h = Some h' \<and> is_list h' head (p # xs @ ys)"
proof -
  obtain h' where h': "list_del p h = Some h'" "is_list h' head (xs @ ys)"
    using list_del_removes [OF assms] by blast
  have "is_list (list_add p head e h') head ([] @ p # xs @ ys)"
    using is_listD [OF assms] h'(2) by (intro list_add_after) auto
  with h' show ?thesis by (simp add: list_move_def)
qed

lemma list_move_tail_back:
  assumes "is_list h head (xs @ p # ys)"
  shows "\<exists>h'. list_move_tail p head e h = Some h' \<and> is_list h' head (xs @ ys @ [p])"
proof -
  obtain h' where h': "list_del p h = Some h'" "is_list h' head (xs @ ys)"
    using list_del_removes [OF assms] by blast
  have "is_list (list_add_tail p head e h') head ((xs @ ys) @ [p])"
    using is_listD [OF assms] h'(2) by (intro list_add_tail_last) auto
  with h' show ?thesis by (simp add: list_move_tail_def)
qed

lemma list_replace_loads:
  assumes "new \<noteq> old" "lnext (h old) \<noteq> new" "lprev (h old) \<noteq> new" "lnext (h old) \<noteq> old" "lprev (h old) \<noteq> old"
  shows "lnext (list_replace old new h q) = (if q = lprev (h old) then new else if q = new then lnext (h old) else lnext (h q))"
    "lprev (list_replace old new h q) = (if q = new then lprev (h old) else if q = lnext (h old) then new else lprev (h q))"
    "contain_ptr (list_replace old new h q) = contain_ptr (h q)"
  using assms by (simp_all add: list_replace_def Let_def heap_simps)

lemma list_splice_head:
  assumes "is_list h l xs" "is_list h head ys" "set (l # xs) \<inter> set (head # ys) = {}"
  shows "is_list (list_splice l head (lnext (h head)) h) head (xs @ ys)"
proof (cases "xs = []")
  case True
  with assms show ?thesis by (simp add: list_splice_def list_empty_iff)
next
  case False
  note d = is_listD [OF assms(1)] is_listD [OF assms(2)]
  have e: "\<not> list_empty h l" using assms(1) False by (simp add: list_empty_iff)
  have f: "lnext (h l) = hd xs" "lprev (h l) = last xs" "lnext (h head) = hd (ys @ [head])"
    using linked_next_first [OF d(3)] linked_prev_last [OF d(3)] linked_next_first [OF d(6)] False
    by (auto simp: hd_append)
  have m: "hd xs \<in> set xs" "last xs \<in> set xs" "hd (ys @ [head]) \<in> set (ys @ [head])"
    using False by (auto simp: hd_append)
  let ?h = "list_splice l head (lnext (h head)) h"
  have nx: "lnext (?h q) = (if q = last xs then hd (ys @ [head]) else if q = head then hd xs else lnext (h q))" for q
    using e f by (simp add: list_splice_def Let_def heap_simps)
  have pv: "lprev (?h q) = (if q = hd (ys @ [head]) then last xs else if q = hd xs then head else lprev (h q))" for q
    using e f by (simp add: list_splice_def Let_def heap_simps)
  define g where "g = set_next head (hd xs) (set_prev (hd xs) head h)"
  have x: "linked g head xs l"
  proof (cases xs)
    case (Cons z zs)
    have "linked g z zs l = linked h z zs l"
      using d assms(3) Cons by (intro linked_cong) (auto simp: g_def heap_simps)
    with d(3) Cons show ?thesis by (auto simp: g_def heap_simps)
  qed (use False in simp)
  have "linked ?h head (xs @ ys) head"
  proof (rule linked_join)
    show "linked g head xs l" by (rule x)
    show "linked g (hd ys) (tl ys) head" if "ys \<noteq> []"
    proof -
      have "linked h (hd ys) (tl ys) head" using d(6) that by (cases ys) auto
      moreover have "linked g (hd ys) (tl ys) head = linked h (hd ys) (tl ys) head"
        using d assms(3) that m(1) by (cases ys; intro linked_cong) (auto simp: g_def heap_simps)
      ultimately show ?thesis by simp
    qed
    show "distinct (head # xs @ ys)" "head \<notin> set (xs @ ys)" using d assms(3) by auto
  qed (use d assms(3) m False in \<open>auto simp: nx pv g_def heap_simps\<close>)
  then show ?thesis using d assms(3) by (auto simp: is_list_def)
qed


lemma list_replace_swaps:
  assumes "is_list h head (xs @ old # ys)" "new \<notin> set (head # xs @ old # ys)" "new \<noteq> NULL"
  shows "is_list (list_replace old new h) head (xs @ new # ys)"
proof -
  note d = is_listD [OF assms(1)]
  note nb = is_list_split [OF assms(1)]
  have l: "last (head # xs) \<in> set (head # xs)" "hd (ys @ [head]) \<in> set (ys @ [head])"
    by (rule last_in_set, simp) (rule list.set_sel, simp)
  then have ne: "lnext (h old) \<noteq> new" "lprev (h old) \<noteq> new" "lnext (h old) \<noteq> old" "lprev (h old) \<noteq> old"
    using d(1) assms(2) unfolding nb by (auto simp del: last.simps)
  have "new \<noteq> old" using assms(2) by auto
  note loads = list_replace_loads [where h = h and old = old and new = new, OF this ne, unfolded nb]
  define g where "g = set_next (last (head # xs)) new (set_prev new (last (head # xs)) h)"
  have c: "linked h head xs old" "linked h old ys head" using d(3) by (auto simp: linked_append)
  have "linked (list_replace old new h) head (xs @ [new]) (hd (ys @ [head]))"
    unfolding linked_append linked.simps
  proof (intro conjI)
    have "linked (list_replace old new h) head (xs @ []) new"
      using d(1) assms(2) l by (intro linked_join [where h = h, OF c(1)]) (auto simp: loads)
    then show "linked (list_replace old new h) head xs new" by simp
  qed (use l d(1) assms(2) in \<open>auto simp: loads simp del: last.simps\<close>)
  then have 1: "linked (list_replace old new h) head xs new"
    "lnext (list_replace old new h new) = hd (ys @ [head])"
    "lprev (list_replace old new h (hd (ys @ [head]))) = new"
    by (simp_all add: linked_append)
  have "linked (list_replace old new h) new ys head"
  proof (cases ys)
    case (Cons z zs)
    have "linked (list_replace old new h) z zs head = linked h z zs head"
      using d(1) assms(2) l Cons by (intro linked_cong) (auto simp: loads)
    with c(2) 1 Cons show ?thesis by simp
  qed (use 1 in simp)
  with 1 d assms(2,3) show ?thesis by (auto simp: is_list_def linked_append)
qed

section \<open>Iteration\<close>

lemma list_for_each_linked:
  assumes "linked h a xs head" "head \<notin> set xs" "length xs < fuel"
  shows "list_for_each fuel h head (lnext (h a)) = Some xs"
  using assms
proof (induction xs arbitrary: a fuel)
  case Nil
  then show ?case by (cases fuel) auto
next
  case (Cons x xs)
  then obtain f where f: "fuel = Suc f" by (cases fuel) auto
  have "list_for_each f h head (lnext (h x)) = Some xs"
    using Cons.prems f by (intro Cons.IH) auto
  with Cons.prems f show ?case by auto
qed

lemma list_for_each_entry_linked:
  assumes "linked h a xs head" "list_entry h head = NULL"
    and "\<And>x. x \<in> set xs \<Longrightarrow> list_entry h x \<noteq> NULL \<and> memb (list_entry h x) = x" "length xs < fuel"
  shows "list_for_each_entry fuel h memb (list_entry h (lnext (h a))) = Some (map (list_entry h) xs)"
  using assms
proof (induction xs arbitrary: a fuel)
  case Nil
  then show ?case by (cases fuel) auto
next
  case (Cons x xs)
  then obtain f where f: "fuel = Suc f" by (cases fuel) auto
  have "list_for_each_entry f h memb (list_entry h (lnext (h x))) = Some (map (list_entry h) xs)"
    using Cons.prems f by (intro Cons.IH) auto
  with Cons.prems f show ?case by auto
qed

text \<open>
  When every node of the ring, the head included, has a container, the walk never meets a
  null pointer.
\<close>

lemma list_for_each_entry_runs_on:
  assumes ring: "\<And>x. x \<in> S \<Longrightarrow> lnext (h x) \<in> S \<and> list_entry h x \<noteq> NULL \<and> memb (list_entry h x) = x"
    and "x \<in> S"
  shows "list_for_each_entry fuel h memb (list_entry h x) = None"
  using assms(2)
proof (induction fuel arbitrary: x)
  case (Suc fuel)
  have "list_for_each_entry fuel h memb (list_entry h (lnext (h x))) = None"
    using ring [OF Suc.prems] by (intro Suc.IH) auto
  with ring [OF Suc.prems] show ?case by simp
qed simp

lemma is_list_next_closed:
  assumes "is_list h head xs" "x \<in> set (head # xs)"
  shows "lnext (h x) \<in> set (head # xs)"
proof -
  have "lnext (h x) \<in> set (xs @ [b])" if "linked h a xs b" "x \<in> set (a # xs)" for a b
    using that by (induction xs arbitrary: a) auto
  from this [of head head] show ?thesis
    using assms by (auto simp: is_list_def)
qed

section \<open>The interface\<close>

text \<open>
  What the drivers rely on when they keep objects on a list: a representation of sequences
  that insertion at either end and removal of any member respect. Everything the clients do
  with lists is a composition of these.
\<close>

locale dlist =
  fixes rep :: "'h \<Rightarrow> 'a \<Rightarrow> 'a list \<Rightarrow> bool"
    and node :: "'a \<Rightarrow> bool"
    and add_front :: "'a \<Rightarrow> 'a \<Rightarrow> 'h \<Rightarrow> 'h"
    and add_back :: "'a \<Rightarrow> 'a \<Rightarrow> 'h \<Rightarrow> 'h"
    and unlink :: "'a \<Rightarrow> 'h \<Rightarrow> 'h option"
  assumes rep_wf: "rep h l xs \<Longrightarrow> distinct (l # xs) \<and> (\<forall>x \<in> set xs. node x)"
    and rep_front: "rep h l xs \<Longrightarrow> n \<notin> set (l # xs) \<Longrightarrow> node n \<Longrightarrow> rep (add_front n l h) l (n # xs)"
    and rep_back: "rep h l xs \<Longrightarrow> n \<notin> set (l # xs) \<Longrightarrow> node n \<Longrightarrow> rep (add_back n l h) l (xs @ [n])"
    and rep_unlink: "rep h l (xs @ n # ys) \<Longrightarrow> \<exists>h'. unlink n h = Some h' \<and> rep h' l (xs @ ys)"
begin

lemma front_then_unlink:
  assumes "rep h l xs" "n \<notin> set (l # xs)" "node n"
  shows "\<exists>h'. unlink n (add_front n l h) = Some h' \<and> rep h' l xs"
  using rep_unlink [of "add_front n l h" l "[]" n xs] rep_front [OF assms] by simp

lemma back_then_unlink:
  assumes "rep h l xs" "n \<notin> set (l # xs)" "node n"
  shows "\<exists>h'. unlink n (add_back n l h) = Some h' \<and> rep h' l xs"
  using rep_unlink [of "add_back n l h" l xs n "[]"] rep_back [OF assms] by simp

lemma move_to_front:
  assumes "rep h l (xs @ n # ys)"
  shows "\<exists>h'. map_option (add_front n l) (unlink n h) = Some h' \<and> rep h' l (n # xs @ ys)"
proof -
  obtain g where g: "unlink n h = Some g" "rep g l (xs @ ys)"
    using rep_unlink [OF assms] by blast
  have "rep (add_front n l g) l (n # xs @ ys)"
    using rep_wf [OF assms] g(2) by (intro rep_front) auto
  with g show ?thesis by simp
qed

lemma move_to_back:
  assumes "rep h l (xs @ n # ys)"
  shows "\<exists>h'. map_option (add_back n l) (unlink n h) = Some h' \<and> rep h' l (xs @ ys @ [n])"
proof -
  obtain g where g: "unlink n h = Some g" "rep g l (xs @ ys)"
    using rep_unlink [OF assms] by blast
  have "rep (add_back n l g) l ((xs @ ys) @ [n])"
    using rep_wf [OF assms] g(2) by (intro rep_back) auto
  with g show ?thesis by simp
qed

text \<open>Nodes added at the back come out in the order they went in.\<close>

lemma fold_back:
  assumes "rep h l xs" "distinct ns" "set ns \<inter> set (l # xs) = {}" "\<And>n. n \<in> set ns \<Longrightarrow> node n"
  shows "rep (fold (\<lambda>n. add_back n l) ns h) l (xs @ ns)"
  using assms
proof (induction ns arbitrary: h xs)
  case Nil
  then show ?case by simp
next
  case (Cons n ns)
  have "rep (add_back n l h) l (xs @ [n])"
    using Cons.prems by (intro rep_back) auto
  then have "rep (fold (\<lambda>n. add_back n l) ns (add_back n l h)) l ((xs @ [n]) @ ns)"
    by (rule Cons.IH) (use Cons.prems in auto)
  then show ?case by simp
qed

end

interpretation ll: dlist is_list "\<lambda>p. p \<noteq> NULL" "\<lambda>p l. list_add p l (cont p)"
  "\<lambda>p l. list_add_tail p l (cont p)" list_del for cont
proof unfold_locales
  show "distinct (l # xs) \<and> (\<forall>x\<in>set xs. x \<noteq> NULL)" if "is_list h l xs" for h l xs
    using is_listD [OF that] by (metis list.set_intros(2))
  show "is_list (list_add n l (cont n) h) l (n # xs)"
    if "is_list h l xs" "n \<notin> set (l # xs)" "n \<noteq> NULL" for h l xs n
    using list_add_after [of h l "[]" xs n l "cont n"] that by simp
qed (simp_all add: list_add_tail_last list_del_removes)


section \<open>Properties\<close>

text \<open>
  On a well-formed list, \<^verbatim>\<open>list_add\<close> of a new node followed by \<^verbatim>\<open>list_del\<close> of that node
  does not fault and gives back a well-formed list of the same nodes in the same order; a
  second \<^verbatim>\<open>list_del\<close> of the node dereferences a null pointer.
\<close>

theorem list_add_del_roundtrip:
  assumes "is_list h head xs" "p \<notin> set (head # xs)" "p \<noteq> NULL"
  shows "is_list (list_add p head e h) head (p # xs) \<and>
    (\<exists>h'. list_del p (list_add p head e h) = Some h' \<and> is_list h' head xs \<and> list_del p h' = None)"
proof -
  obtain h' where "list_del p (list_add p head e h) = Some h'" "is_list h' head xs"
    using ll.front_then_unlink [OF assms, of "\<lambda>_. e"] by blast
  then show ?thesis
    using ll.rep_front [OF assms, of "\<lambda>_. e"] list_del_twice_panics by blast
qed

text \<open>
  \<^verbatim>\<open>list_move_tail\<close>, with which the drivers keep their least-recently-used lists, moves
  any member of a well-formed list to its end and keeps the order of the others.
\<close>

theorem list_move_tail_lru:
  assumes "is_list h head (xs @ p # ys)"
  shows "\<exists>h'. list_move_tail p head e h = Some h' \<and> is_list h' head (xs @ ys @ [p])"
  using ll.move_to_back [OF assms, of "\<lambda>_. e"] by (simp add: list_move_tail_def)

text \<open>
  \<^verbatim>\<open>list_for_each_entry\<close> over a well-formed list whose head has a null \<^verbatim>\<open>contain_ptr\<close>
  (as \<^verbatim>\<open>INIT_LIST_HEAD\<close> leaves it) terminates after visiting the containers of the nodes in
  order; one more iteration than there are nodes is enough.
\<close>

theorem list_for_each_entry_terminates:
  assumes "is_list h head xs" "contain_ptr (h head) = NULL"
    and "\<And>x. x \<in> set xs \<Longrightarrow> contain_ptr (h x) \<noteq> NULL \<and> memb (contain_ptr (h x)) = x"
  shows "list_for_each_entry (Suc (length xs)) h memb (list_entry h (lnext (h head))) =
    Some (map (\<lambda>x. contain_ptr (h x)) xs)"
proof -
  have n: "\<And>x. x \<in> set (head # xs) \<Longrightarrow> x \<noteq> NULL" using is_listD(2) [OF assms(1)] by metis
  have "list_for_each_entry (Suc (length xs)) h memb (list_entry h (lnext (h head))) =
      Some (map (list_entry h) xs)"
    by (rule list_for_each_entry_linked [OF is_listD(3) [OF assms(1)]])
      (use assms(2,3) n in \<open>auto simp: list_entry_def\<close>)
  also have "map (list_entry h) xs = map (\<lambda>x. contain_ptr (h x)) xs"
    using n by (auto simp: list_entry_def)
  finally show ?thesis .
qed

text \<open>
  \<^verbatim>\<open>list_for_each_entry\<close> never terminates on a well-formed list whose head, like the head
  node of the range allocator, carries a container of its own: the macro compares the
  container with null and never the node with the head.
\<close>

theorem list_for_each_entry_diverges:
  assumes "is_list h head xs"
    and "\<And>x. x \<in> set (head # xs) \<Longrightarrow> contain_ptr (h x) \<noteq> NULL \<and> memb (contain_ptr (h x)) = x"
  shows "list_for_each_entry fuel h memb (list_entry h (lnext (h head))) = None"
proof (rule list_for_each_entry_runs_on [where S = "set (head # xs)"])
  fix x assume x: "x \<in> set (head # xs)"
  then have "x \<noteq> NULL" using is_listD(2) [OF assms(1)] by metis
  then show "lnext (h x) \<in> set (head # xs) \<and> list_entry h x \<noteq> NULL \<and> memb (list_entry h x) = x"
    using x assms(2) is_list_next_closed [OF assms(1) x] by (simp add: list_entry_def del: set_simps)
next
  show "lnext (h head) \<in> set (head # xs)" by (rule is_list_next_closed [OF assms(1)]) simp
qed

section \<open>Witnesses\<close>

text \<open>A heap of three empty nodes, and the list of the nodes 2 and 3 on the head 1.\<close>

definition heap0 :: lheap where
  "heap0 = (\<lambda>_. \<lparr>lnext = NULL, lprev = NULL, contain_ptr = NULL\<rparr>)"

definition heap23 :: lheap where
  "heap23 = list_add_tail 3 1 3 (list_add_tail 2 1 2 (INIT_LIST_HEAD 1 heap0))"

lemma heap23_list: "is_list heap23 1 ([2] @ [3])"
  unfolding heap23_def
  by (intro list_add_tail_last) (simp_all add: list_add_tail_last [where xs = "[]", simplified] INIT_LIST_HEAD_empty)

lemma heap23_contain: "contain_ptr (heap23 p) = (if p = 2 \<or> p = 3 then p else NULL)"
  by (simp add: heap23_def heap0_def list_add_tail_def INIT_LIST_HEAD_def Let_def heap_simps)

theorem list_add_del_roundtrip_witness:
  "\<exists>h'. list_del 4 (list_add 4 1 4 heap23) = Some h' \<and> is_list h' 1 [2, 3]"
  using list_add_del_roundtrip [of heap23 1 "[2, 3]" 4 4] heap23_list by auto

theorem list_move_tail_lru_witness:
  "\<exists>h'. list_move_tail 2 1 2 heap23 = Some h' \<and> is_list h' 1 [3, 2]"
  using list_move_tail_lru [of heap23 1 "[]" 2 "[3]" 2] heap23_list by simp

theorem list_for_each_entry_terminates_witness:
  "list_for_each_entry (Suc (length [2, 3 :: addr])) heap23 id (list_entry heap23 (lnext (heap23 1))) =
    Some [2, 3]"
proof -
  have "list_for_each_entry (Suc (length [2, 3 :: addr])) heap23 id (list_entry heap23 (lnext (heap23 1))) =
      Some (map (\<lambda>x. contain_ptr (heap23 x)) [2, 3])"
    by (rule list_for_each_entry_terminates) (use heap23_list in \<open>auto simp: heap23_contain\<close>)
  then show ?thesis by (simp only: list.map heap23_contain simp_thms if_True)
qed

theorem list_for_each_entry_diverges_witness:
  "list_for_each_entry 100 (set_contain 1 1 heap23) id
     (list_entry (set_contain 1 1 heap23) (lnext (set_contain 1 1 heap23 1))) = None"
proof -
  have "is_list (set_contain 1 1 heap23) 1 [2, 3]"
    by (rule is_list_frame [where h = heap23]) (use heap23_list in \<open>auto simp: heap_simps\<close>)
  then show ?thesis
    by (rule list_for_each_entry_diverges) (auto simp: heap_simps heap23_contain)
qed

end
