(* ===== verification/Drm_Mm.thy ===== *)
theory Drm_Mm
  imports Linux_List
begin

text \<open>
  The range allocator of \<^verbatim>\<open>uts/common/io/drm/drm_mm.c\<close>, with which the i915 driver manages
  the graphics address space and stolen memory. A \<^verbatim>\<open>struct drm_mm_node\<close> is a record in a store
  indexed by address; the three lists of a \<^verbatim>\<open>struct drm_mm\<close> are the sequences that
  \<open>Linux_List\<close> shows the list macros to maintain. The embedded \<^verbatim>\<open>head_node\<close> is the node at
  the address \<open>head_node\<close>; it ends where the managed space starts, and it starts where the
  space ends, so the ring of nodes has no special cases. An \<^verbatim>\<open>unsigned long\<close> is a non-negative
  \<open>int\<close> reduced by \<open>u64\<close>. \<open>None\<close> is a failed \<^verbatim>\<open>BUG_ON\<close>.
\<close>

section \<open>Model\<close>

subsection \<open>Data\<close>

record drm_mm_node =
  hole_follows :: bool
  scanned_block :: bool
  scanned_prev_free :: bool
  scanned_next_free :: bool
  scanned_preceeds_hole :: bool
  allocated :: bool
  n_color :: int
  n_start :: int
  n_size :: int
  scan_prev :: addr \<comment> \<open>\<^verbatim>\<open>node_list.prev\<close> while the node is off the list for a scan\<close>
  scan_next :: "addr option" \<comment> \<open>\<^verbatim>\<open>node_list.next\<close> while the node is off the list for a scan\<close>

type_synonym node_store = "addr \<Rightarrow> drm_mm_node"

text \<open>The callback sees the node, its neighbours on the list, and the ends of the hole.\<close>

type_synonym color_fn = "node_store \<Rightarrow> addr list \<Rightarrow> addr \<Rightarrow> int \<Rightarrow> int \<times> int \<Rightarrow> int \<times> int"

record drm_mm =
  mm_nodes :: node_store
  node_list :: "addr list"
  hole_stack :: "addr list"
  unused_nodes :: "addr list"
  num_unused :: int
  scan_check_range :: bool
  scan_alignment :: int
  scan_color :: int
  scan_size :: int
  scan_hit_start :: int
  scan_hit_end :: int
  scanned_blocks :: int
  scan_start :: int
  scan_end :: int
  prev_scanned_node :: "addr option"
  color_adjust :: "color_fn option"

definition MM_UNUSED_TARGET :: int where "MM_UNUSED_TARGET = 4"

definition head_node :: addr where "head_node = 0"

definition zero_node :: drm_mm_node where
  "zero_node = \<lparr>hole_follows = False, scanned_block = False, scanned_prev_free = False,
     scanned_next_free = False, scanned_preceeds_hole = False, allocated = False, n_color = 0,
     n_start = 0, n_size = 0, scan_prev = 0, scan_next = None\<rparr>"

definition upd_node :: "addr \<Rightarrow> (drm_mm_node \<Rightarrow> drm_mm_node) \<Rightarrow> drm_mm \<Rightarrow> drm_mm" where
  "upd_node a f mm = mm\<lparr>mm_nodes := (mm_nodes mm)(a := f (mm_nodes mm a))\<rparr>"

subsection \<open>Neighbours on the ring\<close>

text \<open>
  The ring is \<open>head_node # node_list\<close>; the neighbour of its last node is the head again.
\<close>

fun succ_in :: "addr \<Rightarrow> addr list \<Rightarrow> addr \<Rightarrow> addr" where
  "succ_in a [] d = d"
| "succ_in a [x] d = d"
| "succ_in a (x # y # ys) d = (if x = a then y else succ_in a (y # ys) d)"

fun pred_in :: "addr \<Rightarrow> addr list \<Rightarrow> addr \<Rightarrow> addr" where
  "pred_in a [] d = d"
| "pred_in a [x] d = d"
| "pred_in a (x # y # ys) d = (if y = a then x else pred_in a (y # ys) d)"

text \<open>\<^verbatim>\<open>list_add(&n->node_list, &a->node_list, ..)\<close>: the node comes right after \<open>a\<close>.\<close>

fun insert_after :: "addr \<Rightarrow> addr \<Rightarrow> addr list \<Rightarrow> addr list" where
  "insert_after a n [] = []"
| "insert_after a n (x # xs) = (if x = a then x # n # xs else x # insert_after a n xs)"

definition next_node :: "drm_mm \<Rightarrow> addr \<Rightarrow> addr" where
  "next_node mm a = succ_in a (head_node # node_list mm) head_node"

definition prev_node :: "drm_mm \<Rightarrow> addr \<Rightarrow> addr" where
  "prev_node mm a = pred_in a (head_node # node_list mm) head_node"

definition add_node_after :: "addr \<Rightarrow> addr \<Rightarrow> drm_mm \<Rightarrow> drm_mm" where
  "add_node_after a n mm = mm\<lparr>node_list := tl (insert_after a n (head_node # node_list mm))\<rparr>"

subsection \<open>Holes\<close>

definition drm_mm_node_allocated :: "drm_mm \<Rightarrow> addr \<Rightarrow> bool" where
  "drm_mm_node_allocated mm a = allocated (mm_nodes mm a)"

definition hole_node_start_raw :: "drm_mm \<Rightarrow> addr \<Rightarrow> int" where
  "hole_node_start_raw mm a = u64 (n_start (mm_nodes mm a) + n_size (mm_nodes mm a))"

definition drm_mm_hole_node_start :: "drm_mm \<Rightarrow> addr \<Rightarrow> int option" where
  "drm_mm_hole_node_start mm a = do {
     bug_on (\<not> hole_follows (mm_nodes mm a));
     Some (hole_node_start_raw mm a) }"

definition hole_node_end_raw :: "drm_mm \<Rightarrow> addr \<Rightarrow> int" where
  "hole_node_end_raw mm a = n_start (mm_nodes mm (next_node mm a))"

definition drm_mm_hole_node_end :: "drm_mm \<Rightarrow> addr \<Rightarrow> int" where
  "drm_mm_hole_node_end mm a = hole_node_end_raw mm a"

definition adjust_hole :: "drm_mm \<Rightarrow> addr \<Rightarrow> int \<Rightarrow> int \<times> int \<Rightarrow> int \<times> int" where
  "adjust_hole mm a color se =
     (case color_adjust mm of None \<Rightarrow> se
      | Some f \<Rightarrow> f (mm_nodes mm) (node_list mm) a color se)"

definition align_up :: "int \<Rightarrow> int \<Rightarrow> int" where
  "align_up start alignment =
     (if alignment \<noteq> 0 then
        (let tmp = start mod alignment
         in if tmp \<noteq> 0 then u64 (start + u32 (alignment - tmp)) else start)
      else start)"

subsection \<open>Allocation of node structures\<close>

text \<open>
  \<open>mem\<close> is what \<^verbatim>\<open>kzalloc\<close> returned: the address of a zeroed structure, or nothing.
\<close>

definition drm_mm_kmalloc :: "drm_mm \<Rightarrow> addr option \<Rightarrow> addr option \<times> drm_mm" where
  "drm_mm_kmalloc mm mem =
     (case mem of
        Some child \<Rightarrow> (Some child, upd_node child (\<lambda>_. zero_node) mm)
      | None \<Rightarrow>
          (case unused_nodes mm of
             [] \<Rightarrow> (None, mm)
           | child # rest \<Rightarrow> (Some child, mm\<lparr>unused_nodes := rest, num_unused := num_unused mm - 1\<rparr>)))"

text \<open>The loop draws structures from the list \<open>mems\<close> of allocation results; past its end, allocation fails.\<close>

function drm_mm_pre_get :: "drm_mm \<Rightarrow> addr option list \<Rightarrow> int \<times> drm_mm" where
  "drm_mm_pre_get mm mems =
     (if num_unused mm < MM_UNUSED_TARGET then
        (case mems of
           Some node # rest \<Rightarrow>
             drm_mm_pre_get
               ((upd_node node (\<lambda>_. zero_node) mm)\<lparr>num_unused := num_unused mm + 1,
                                  unused_nodes := unused_nodes mm @ [node]\<rparr>) rest
         | _ \<Rightarrow> ((if num_unused mm < 2 then - ENOMEM else 0), mm))
      else (0, mm))"
  by pat_completeness auto
termination
  by (relation "measure (\<lambda>(mm, mems). length mems)") auto

declare drm_mm_pre_get.simps [simp del]

subsection \<open>Insertion\<close>

definition drm_mm_insert_helper ::
  "addr \<Rightarrow> addr \<Rightarrow> int \<Rightarrow> int \<Rightarrow> int \<Rightarrow> drm_mm \<Rightarrow> drm_mm option" where
  "drm_mm_insert_helper hole node sz alignment color mm = do {
     hole_start \<leftarrow> drm_mm_hole_node_start mm hole;
     let hole_end = drm_mm_hole_node_end mm hole;
     bug_on (allocated (mm_nodes mm node));
     let (adj_start, adj_end) = adjust_hole mm hole color (hole_start, hole_end);
     let adj_start = align_up adj_start alignment;
     let mm = (if adj_start = hole_start
               then (upd_node hole (\<lambda>n. n\<lparr>hole_follows := False\<rparr>) mm)\<lparr>hole_stack := remove1 hole (hole_stack mm)\<rparr>
               else mm);
     let mm = upd_node node (\<lambda>n. n\<lparr>n_start := adj_start, n_size := sz, n_color := color, allocated := True\<rparr>) mm;
     let mm = add_node_after hole node mm;
     bug_on (u64 (adj_start + sz) > adj_end);
     let mm = upd_node node (\<lambda>n. n\<lparr>hole_follows := False\<rparr>) mm;
     Some (if hole_node_start_raw mm node < hole_end
           then (upd_node node (\<lambda>n. n\<lparr>hole_follows := True\<rparr>) mm)\<lparr>hole_stack := node # hole_stack mm\<rparr>
           else mm) }"

definition drm_mm_insert_helper_range ::
  "addr \<Rightarrow> addr \<Rightarrow> int \<Rightarrow> int \<Rightarrow> int \<Rightarrow> int \<Rightarrow> int \<Rightarrow> drm_mm \<Rightarrow> drm_mm option" where
  "drm_mm_insert_helper_range hole node sz alignment color start end mm = do {
     hole_start \<leftarrow> drm_mm_hole_node_start mm hole;
     let hole_end = drm_mm_hole_node_end mm hole;
     bug_on (\<not> hole_follows (mm_nodes mm hole) \<or> allocated (mm_nodes mm node));
     let adj_start = (if hole_start < start then start else hole_start);
     let adj_end = (if hole_end > end then end else hole_end);
     let (adj_start, adj_end) = adjust_hole mm hole color (adj_start, adj_end);
     let adj_start = align_up adj_start alignment;
     let mm = (if adj_start = hole_start
               then (upd_node hole (\<lambda>n. n\<lparr>hole_follows := False\<rparr>) mm)\<lparr>hole_stack := remove1 hole (hole_stack mm)\<rparr>
               else mm);
     let mm = upd_node node (\<lambda>n. n\<lparr>n_start := adj_start, n_size := sz, n_color := color, allocated := True\<rparr>) mm;
     let mm = add_node_after hole node mm;
     bug_on (u64 (adj_start + sz) > adj_end);
     bug_on (u64 (adj_start + sz) > end);
     let mm = upd_node node (\<lambda>n. n\<lparr>hole_follows := False\<rparr>) mm;
     Some (if hole_node_start_raw mm node < hole_end
           then (upd_node node (\<lambda>n. n\<lparr>hole_follows := True\<rparr>) mm)\<lparr>hole_stack := node # hole_stack mm\<rparr>
           else mm) }"

definition create_block_at :: "addr \<Rightarrow> addr \<Rightarrow> int \<Rightarrow> int \<Rightarrow> int \<Rightarrow> int \<Rightarrow> drm_mm \<Rightarrow> drm_mm" where
  "create_block_at hole node start sz hole_start hole_end mm =
     (let end = u64 (start + sz);
          mm = upd_node node (\<lambda>n. n\<lparr>n_start := start, n_size := sz, allocated := True\<rparr>) mm;
          mm = add_node_after hole node mm;
          mm = (if start = hole_start
                then (upd_node hole (\<lambda>n. n\<lparr>hole_follows := False\<rparr>) mm)\<lparr>hole_stack := remove1 hole (hole_stack mm)\<rparr>
                else mm);
          mm = upd_node node (\<lambda>n. n\<lparr>hole_follows := False\<rparr>) mm
      in if end \<noteq> hole_end
         then (upd_node node (\<lambda>n. n\<lparr>hole_follows := True\<rparr>) mm)\<lparr>hole_stack := node # hole_stack mm\<rparr>
         else mm)"

fun create_block_loop ::
  "addr list \<Rightarrow> int \<Rightarrow> int \<Rightarrow> addr option \<Rightarrow> drm_mm \<Rightarrow> (addr option \<times> drm_mm) option" where
  "create_block_loop [] start sz mem mm = Some (None, mm)"
| "create_block_loop (hole # holes) start sz mem mm = do {
     hole_start \<leftarrow> drm_mm_hole_node_start mm hole;
     let hole_end = drm_mm_hole_node_end mm hole;
     if hole_start > start \<or> hole_end < u64 (start + sz)
     then create_block_loop holes start sz mem mm
     else (case drm_mm_kmalloc mm mem of
             (None, mm') \<Rightarrow> Some (None, mm')
           | (Some node, mm') \<Rightarrow>
               Some (Some node, create_block_at hole node start sz hole_start hole_end mm')) }"

definition drm_mm_create_block ::
  "drm_mm \<Rightarrow> int \<Rightarrow> int \<Rightarrow> addr option \<Rightarrow> (addr option \<times> drm_mm) option" where
  "drm_mm_create_block mm start sz mem = create_block_loop (hole_stack mm) start sz mem mm"

subsection \<open>Searching\<close>

definition check_free_hole :: "int \<Rightarrow> int \<Rightarrow> int \<Rightarrow> int \<Rightarrow> bool" where
  "check_free_hole start end sz alignment =
     (if u64 (end - start) < sz then False
      else (let start = align_up start alignment in end \<ge> u64 (start + sz)))"

text \<open>
  One loop serves both searches: the range-restricted one first narrows the hole. \<open>best\<close> and
  \<open>best_size\<close> are the candidate so far.
\<close>

fun search_free_loop ::
  "drm_mm \<Rightarrow> int \<Rightarrow> int \<Rightarrow> int \<Rightarrow> (int \<times> int \<Rightarrow> int \<times> int) \<Rightarrow> bool \<Rightarrow> addr list \<Rightarrow> addr option \<Rightarrow> int
     \<Rightarrow> addr option option" where
  "search_free_loop mm sz alignment color narrow best_match [] best best_size = Some best"
| "search_free_loop mm sz alignment color narrow best_match (entry # rest) best best_size = do {
     hole_start \<leftarrow> drm_mm_hole_node_start mm entry;
     let (adj_start, adj_end) = narrow (hole_start, drm_mm_hole_node_end mm entry);
     let (adj_start, adj_end) = adjust_hole mm entry color (adj_start, adj_end);
     if color_adjust mm \<noteq> None \<and> adj_end \<le> adj_start
       then search_free_loop mm sz alignment color narrow best_match rest best best_size
     else if \<not> check_free_hole adj_start adj_end sz alignment
       then search_free_loop mm sz alignment color narrow best_match rest best best_size
     else if \<not> best_match then Some (Some entry)
     else if n_size (mm_nodes mm entry) < best_size
       then search_free_loop mm sz alignment color narrow best_match rest
              (Some entry) (n_size (mm_nodes mm entry))
     else search_free_loop mm sz alignment color narrow best_match rest best best_size }"

definition ULONG_MAX :: int where "ULONG_MAX = 18446744073709551615"

definition drm_mm_search_free_generic ::
  "drm_mm \<Rightarrow> int \<Rightarrow> int \<Rightarrow> int \<Rightarrow> bool \<Rightarrow> addr option option" where
  "drm_mm_search_free_generic mm sz alignment color best_match = do {
     bug_on (scanned_blocks mm \<noteq> 0);
     search_free_loop mm sz alignment color id best_match (hole_stack mm) None ULONG_MAX }"

definition narrow_range :: "int \<Rightarrow> int \<Rightarrow> int \<times> int \<Rightarrow> int \<times> int" where
  "narrow_range start end = (\<lambda>(adj_start, adj_end).
     ((if adj_start < start then start else adj_start), (if adj_end > end then end else adj_end)))"

definition drm_mm_search_free_in_range_generic ::
  "drm_mm \<Rightarrow> int \<Rightarrow> int \<Rightarrow> int \<Rightarrow> int \<Rightarrow> int \<Rightarrow> bool \<Rightarrow> addr option option" where
  "drm_mm_search_free_in_range_generic mm sz alignment color start end best_match = do {
     bug_on (scanned_blocks mm \<noteq> 0);
     search_free_loop mm sz alignment color (narrow_range start end) best_match (hole_stack mm) None ULONG_MAX }"

definition drm_mm_search_free :: "drm_mm \<Rightarrow> int \<Rightarrow> int \<Rightarrow> bool \<Rightarrow> addr option option" where
  "drm_mm_search_free mm sz alignment best_match =
     drm_mm_search_free_generic mm sz alignment 0 best_match"

definition drm_mm_search_free_in_range ::
  "drm_mm \<Rightarrow> int \<Rightarrow> int \<Rightarrow> int \<Rightarrow> int \<Rightarrow> bool \<Rightarrow> addr option option" where
  "drm_mm_search_free_in_range mm sz alignment start end best_match =
     drm_mm_search_free_in_range_generic mm sz alignment 0 start end best_match"

subsection \<open>The allocation entry points\<close>

definition drm_mm_get_block_generic ::
  "addr \<Rightarrow> int \<Rightarrow> int \<Rightarrow> int \<Rightarrow> addr option \<Rightarrow> drm_mm \<Rightarrow> (addr option \<times> drm_mm) option" where
  "drm_mm_get_block_generic hole sz alignment color mem mm =
     (case drm_mm_kmalloc mm mem of
        (None, mm') \<Rightarrow> Some (None, mm')
      | (Some node, mm') \<Rightarrow> do {
          mm'' \<leftarrow> drm_mm_insert_helper hole node sz alignment color mm';
          Some (Some node, mm'') })"

definition drm_mm_get_block_range_generic ::
  "addr \<Rightarrow> int \<Rightarrow> int \<Rightarrow> int \<Rightarrow> int \<Rightarrow> int \<Rightarrow> addr option \<Rightarrow> drm_mm \<Rightarrow> (addr option \<times> drm_mm) option" where
  "drm_mm_get_block_range_generic hole sz alignment color start end mem mm =
     (case drm_mm_kmalloc mm mem of
        (None, mm') \<Rightarrow> Some (None, mm')
      | (Some node, mm') \<Rightarrow> do {
          mm'' \<leftarrow> drm_mm_insert_helper_range hole node sz alignment color start end mm';
          Some (Some node, mm'') })"

definition drm_mm_get_block :: "addr \<Rightarrow> int \<Rightarrow> int \<Rightarrow> addr option \<Rightarrow> drm_mm \<Rightarrow> (addr option \<times> drm_mm) option" where
  "drm_mm_get_block parent sz alignment mem mm = drm_mm_get_block_generic parent sz alignment 0 mem mm"

definition drm_mm_get_block_range ::
  "addr \<Rightarrow> int \<Rightarrow> int \<Rightarrow> int \<Rightarrow> int \<Rightarrow> addr option \<Rightarrow> drm_mm \<Rightarrow> (addr option \<times> drm_mm) option" where
  "drm_mm_get_block_range parent sz alignment start end mem mm =
     drm_mm_get_block_range_generic parent sz alignment 0 start end mem mm"

definition drm_mm_insert_node_generic ::
  "drm_mm \<Rightarrow> addr \<Rightarrow> int \<Rightarrow> int \<Rightarrow> int \<Rightarrow> (int \<times> drm_mm) option" where
  "drm_mm_insert_node_generic mm node sz alignment color = do {
     hole \<leftarrow> drm_mm_search_free_generic mm sz alignment color False;
     (case hole of
        None \<Rightarrow> Some (- ENOSPC, mm)
      | Some h \<Rightarrow> do {
          mm' \<leftarrow> drm_mm_insert_helper h node sz alignment color mm;
          Some (0, mm') }) }"

definition drm_mm_insert_node :: "drm_mm \<Rightarrow> addr \<Rightarrow> int \<Rightarrow> int \<Rightarrow> (int \<times> drm_mm) option" where
  "drm_mm_insert_node mm node sz alignment = drm_mm_insert_node_generic mm node sz alignment 0"

definition drm_mm_insert_node_in_range_generic ::
  "drm_mm \<Rightarrow> addr \<Rightarrow> int \<Rightarrow> int \<Rightarrow> int \<Rightarrow> int \<Rightarrow> int \<Rightarrow> (int \<times> drm_mm) option" where
  "drm_mm_insert_node_in_range_generic mm node sz alignment color start end = do {
     hole \<leftarrow> drm_mm_search_free_in_range_generic mm sz alignment color start end False;
     (case hole of
        None \<Rightarrow> Some (- ENOSPC, mm)
      | Some h \<Rightarrow> do {
          mm' \<leftarrow> drm_mm_insert_helper_range h node sz alignment color start end mm;
          Some (0, mm') }) }"

definition drm_mm_insert_node_in_range ::
  "drm_mm \<Rightarrow> addr \<Rightarrow> int \<Rightarrow> int \<Rightarrow> int \<Rightarrow> int \<Rightarrow> (int \<times> drm_mm) option" where
  "drm_mm_insert_node_in_range mm node sz alignment start end =
     drm_mm_insert_node_in_range_generic mm node sz alignment 0 start end"

subsection \<open>Removal\<close>

definition drm_mm_remove_node :: "addr \<Rightarrow> drm_mm \<Rightarrow> drm_mm option" where
  "drm_mm_remove_node node mm = do {
     bug_on (scanned_block (mm_nodes mm node) \<or> scanned_prev_free (mm_nodes mm node)
             \<or> scanned_next_free (mm_nodes mm node));
     let prev = prev_node mm node;
     mm \<leftarrow> (if hole_follows (mm_nodes mm node) then do {
              bug_on (hole_node_start_raw mm node = hole_node_end_raw mm node);
              Some (mm\<lparr>hole_stack := remove1 node (hole_stack mm)\<rparr>) }
            else do {
              bug_on (hole_node_start_raw mm node \<noteq> hole_node_end_raw mm node);
              Some mm });
     let mm = (if \<not> hole_follows (mm_nodes mm prev)
               then (upd_node prev (\<lambda>n. n\<lparr>hole_follows := True\<rparr>) mm)\<lparr>hole_stack := prev # hole_stack mm\<rparr>
               else mm\<lparr>hole_stack := prev # remove1 prev (hole_stack mm)\<rparr>);
     let mm = mm\<lparr>node_list := remove1 node (node_list mm)\<rparr>;
     Some (upd_node node (\<lambda>n. n\<lparr>allocated := False\<rparr>) mm) }"

definition drm_mm_put_block :: "addr \<Rightarrow> drm_mm \<Rightarrow> drm_mm option" where
  "drm_mm_put_block node mm = do {
     mm \<leftarrow> drm_mm_remove_node node mm;
     Some (if num_unused mm < MM_UNUSED_TARGET
           then mm\<lparr>unused_nodes := node # unused_nodes mm, num_unused := num_unused mm + 1\<rparr>
           else mm) }"

subsection \<open>Scanning\<close>

definition drm_mm_init_scan :: "drm_mm \<Rightarrow> int \<Rightarrow> int \<Rightarrow> int \<Rightarrow> drm_mm" where
  "drm_mm_init_scan mm sz alignment color =
     mm\<lparr>scan_color := color, scan_alignment := alignment, scan_size := sz, scanned_blocks := 0,
        scan_hit_start := 0, scan_hit_end := 0, scan_check_range := False, prev_scanned_node := None\<rparr>"

definition drm_mm_init_scan_with_range :: "drm_mm \<Rightarrow> int \<Rightarrow> int \<Rightarrow> int \<Rightarrow> int \<Rightarrow> int \<Rightarrow> drm_mm" where
  "drm_mm_init_scan_with_range mm sz alignment color start end =
     mm\<lparr>scan_color := color, scan_alignment := alignment, scan_size := sz, scanned_blocks := 0,
        scan_hit_start := 0, scan_hit_end := 0, scan_start := start, scan_end := end,
        scan_check_range := True, prev_scanned_node := None\<rparr>"

definition drm_mm_scan_add_block :: "addr \<Rightarrow> drm_mm \<Rightarrow> (bool \<times> drm_mm) option" where
  "drm_mm_scan_add_block node mm = do {
     let mm = mm\<lparr>scanned_blocks := u32 (scanned_blocks mm + 1)\<rparr>;
     bug_on (scanned_block (mm_nodes mm node));
     let mm = upd_node node (\<lambda>n. n\<lparr>scanned_block := True\<rparr>) mm;
     let prev = prev_node mm node;
     let mm = upd_node node (\<lambda>n. n\<lparr>scanned_preceeds_hole := hole_follows (mm_nodes mm prev)\<rparr>) mm;
     let mm = upd_node prev (\<lambda>n. n\<lparr>hole_follows := True\<rparr>) mm;
     let mm = mm\<lparr>node_list := remove1 node (node_list mm)\<rparr>;
     let mm = upd_node node (\<lambda>n. n\<lparr>scan_prev := prev, scan_next := prev_scanned_node mm\<rparr>) mm;
     let mm = mm\<lparr>prev_scanned_node := Some node\<rparr>;
     hole_start \<leftarrow> drm_mm_hole_node_start mm prev;
     let hole_end = drm_mm_hole_node_end mm prev;
     let (adj_start, adj_end) =
       (if scan_check_range mm
        then ((if hole_start < scan_start mm then scan_start mm else hole_start),
              (if hole_end > scan_end mm then scan_end mm else hole_end))
        else (hole_start, hole_end));
     let (adj_start, adj_end) = adjust_hole mm prev (scan_color mm) (adj_start, adj_end);
     Some (if check_free_hole adj_start adj_end (scan_size mm) (scan_alignment mm)
           then (True, mm\<lparr>scan_hit_start := hole_start, scan_hit_end := hole_end\<rparr>)
           else (False, mm)) }"

text \<open>
  The node goes back behind the neighbour it had when it was added; if that neighbour is itself off the
  list, the \<^verbatim>\<open>list_add\<close> of the code would write through its stale links, which the model answers with
  \<open>None\<close>.
\<close>

definition drm_mm_scan_remove_block :: "addr \<Rightarrow> drm_mm \<Rightarrow> (bool \<times> drm_mm) option" where
  "drm_mm_scan_remove_block node mm = do {
     let mm = mm\<lparr>scanned_blocks := u32 (scanned_blocks mm - 1)\<rparr>;
     bug_on (\<not> scanned_block (mm_nodes mm node));
     let mm = upd_node node (\<lambda>n. n\<lparr>scanned_block := False\<rparr>) mm;
     let prev = scan_prev (mm_nodes mm node);
     bug_on (prev \<notin> set (head_node # node_list mm));
     let mm = upd_node prev (\<lambda>n. n\<lparr>hole_follows := scanned_preceeds_hole (mm_nodes mm node)\<rparr>) mm;
     let mm = add_node_after prev node mm;
     Some (drm_mm_hole_node_end mm node > scan_hit_start mm \<and>
           n_start (mm_nodes mm node) < scan_hit_end mm, mm) }"

subsection \<open>Setup and teardown\<close>

text \<open>\<^verbatim>\<open>head->next->next == head\<close>.\<close>

definition drm_mm_clean :: "drm_mm \<Rightarrow> bool" where
  "drm_mm_clean mm \<longleftrightarrow> next_node mm (next_node mm head_node) = head_node"

definition drm_mm_init :: "drm_mm \<Rightarrow> int \<Rightarrow> int \<Rightarrow> drm_mm" where
  "drm_mm_init mm start sz =
     (let mm = mm\<lparr>hole_stack := [], unused_nodes := [], num_unused := 0, scanned_blocks := 0, node_list := []\<rparr>;
          hs = u64 (start + sz);
          mm = upd_node head_node (\<lambda>n. n\<lparr>hole_follows := True, scanned_block := False,
                 scanned_prev_free := False, scanned_next_free := False,
                 n_start := hs, n_size := u64 (start - hs)\<rparr>) mm
      in mm\<lparr>hole_stack := [head_node], color_adjust := None\<rparr>)"

text \<open>\<open>True\<close> when the manager was clean and its cached structures were freed.\<close>

definition drm_mm_takedown :: "drm_mm \<Rightarrow> (bool \<times> drm_mm) option" where
  "drm_mm_takedown mm =
     (if node_list mm \<noteq> [] then Some (False, mm)
      else do {
        let mm = mm\<lparr>num_unused := num_unused mm - int (length (unused_nodes mm)), unused_nodes := []\<rparr>;
        bug_on (num_unused mm \<noteq> 0);
        Some (True, mm) })"

subsection \<open>The coloring of the i915 address space\<close>

text \<open>
  \<^verbatim>\<open>i915_gtt_color_adjust\<close> of \<^verbatim>\<open>i915_gem_gtt.c\<close> keeps a page between objects of different cache
  levels. \<^verbatim>\<open>!list_empty(&node->node_list)\<close> holds for every node when the ring has another
  node.
\<close>

definition i915_gtt_color_adjust :: color_fn where
  "i915_gtt_color_adjust nodes nl a color = (\<lambda>(start, end).
     (let start = (if n_color (nodes a) \<noteq> color then u64 (start + 4096) else start)
      in if nl \<noteq> []
         then (let n = succ_in a (head_node # nl) head_node
               in (start, if allocated (nodes n) \<and> n_color (nodes n) \<noteq> color then u64 (end - 4096) else end))
         else (start, end)))"

end
