(* ===== verification/Drm_Mm_Inv.thy ===== *)
theory Drm_Mm_Inv
  imports Drm_Mm
begin

text \<open>
  The invariant of the range allocator: the ring of nodes lies in order in the managed range without
  overlap, the flag \<^verbatim>\<open>hole_follows\<close> of a member says exactly whether a gap follows it, the hole stack lists
  exactly the members with a gap, and the cached unused nodes are disjoint from the ring.  The
  lemmas show that every operation of \<^verbatim>\<open>drm_mm.c\<close> keeps it and what the operation does to the
  allocated ranges.
\<close>

section \<open>The invariant\<close>

fun layout :: "node_store \<Rightarrow> int \<Rightarrow> addr \<Rightarrow> addr list \<Rightarrow> int \<Rightarrow> bool" where
  "layout N pos a [] hi \<longleftrightarrow> pos \<le> hi \<and> (hole_follows (N a) \<longleftrightarrow> pos < hi)"
| "layout N pos a (n # ns) hi \<longleftrightarrow>
     pos \<le> n_start (N n) \<and> (hole_follows (N a) \<longleftrightarrow> pos < n_start (N n)) \<and> 0 < n_size (N n) \<and>
     layout N (n_start (N n) + n_size (N n)) n ns hi"

lemma layout_cong:
  assumes "hole_follows (N' a) = hole_follows (N a)"
    and "\<And>n. n \<in> set ns \<Longrightarrow> n_start (N' n) = n_start (N n) \<and> n_size (N' n) = n_size (N n) \<and>
           hole_follows (N' n) = hole_follows (N n)"
  shows "layout N' pos a ns hi = layout N pos a ns hi"
  using assms by (induction ns arbitrary: pos a) auto

text \<open>Where the hole after a member of the ring starts and ends.\<close>

definition end_of :: "node_store \<Rightarrow> int \<Rightarrow> addr \<Rightarrow> addr \<Rightarrow> int" where
  "end_of N pos a h = (if h = a then pos else n_start (N h) + n_size (N h))"

fun start_after :: "node_store \<Rightarrow> addr \<Rightarrow> addr list \<Rightarrow> int \<Rightarrow> int" where
  "start_after N h [] hi = hi"
| "start_after N h [x] hi = hi"
| "start_after N h (x # y # ys) hi = (if x = h then n_start (N y) else start_after N h (y # ys) hi)"

lemma layout_hole:
  assumes "layout N pos a ns hi" "h \<in> set (a # ns)" "distinct (a # ns)"
  shows "end_of N pos a h \<le> start_after N h (a # ns) hi \<and>
    (hole_follows (N h) \<longleftrightarrow> end_of N pos a h < start_after N h (a # ns) hi)"
  using assms
proof (induction ns arbitrary: pos a)
  case Nil
  then show ?case by (simp add: end_of_def)
next
  case (Cons n ns)
  show ?case
  proof (cases "h = a")
    case True
    with Cons.prems show ?thesis by (simp add: end_of_def)
  next
    case False
    then have "end_of N (n_start (N n) + n_size (N n)) n h = end_of N pos a h"
      by (simp add: end_of_def)
    with Cons.IH [of "n_start (N n) + n_size (N n)" n] Cons.prems False show ?thesis by auto
  qed
qed

lemma layout_bounds:
  assumes "layout N pos a ns hi" "n \<in> set ns"
  shows "pos \<le> n_start (N n) \<and> 0 < n_size (N n) \<and> n_start (N n) + n_size (N n) \<le> hi"
  using assms
proof (induction ns arbitrary: pos a)
  case (Cons x xs)
  have le: "layout N p b ys hi \<Longrightarrow> p \<le> hi" for p b ys
    by (induction ys arbitrary: p b) fastforce+
  from Cons le [of "n_start (N x) + n_size (N x)" x xs] show ?case by fastforce
qed simp

lemma layout_le: "layout N pos a ns hi \<Longrightarrow> pos \<le> hi"
  by (induction ns arbitrary: pos a) fastforce+

lemma start_after_le:
  assumes "layout N pos a ns hi" "h \<in> set (a # ns)"
  shows "start_after N h (a # ns) hi \<le> hi"
  using assms
proof (induction ns arbitrary: pos a)
  case (Cons n ns)
  show ?case
  proof (cases "h = a")
    case True
    with Cons.prems layout_le [of N "n_start (N n) + n_size (N n)" n ns hi] show ?thesis by auto
  next
    case False
    with Cons.IH [of "n_start (N n) + n_size (N n)" n] Cons.prems show ?thesis by auto
  qed
qed simp

text \<open>Nodes of the layout are pairwise disjoint, and no node reaches into a hole.\<close>

lemma layout_disjoint:
  assumes "layout N pos a ns hi" "m \<in> set ns" "n \<in> set ns" "m \<noteq> n" "distinct ns"
  shows "n_start (N m) + n_size (N m) \<le> n_start (N n) \<or> n_start (N n) + n_size (N n) \<le> n_start (N m)"
  using assms
proof (induction ns arbitrary: pos a)
  case (Cons x xs)
  then have l: "layout N (n_start (N x) + n_size (N x)) x xs hi" by simp
  show ?case
    using Cons.IH [OF l] Cons.prems layout_bounds [OF l] by auto
qed simp

lemma layout_hole_free:
  assumes "layout N pos a ns hi" "h \<in> set (a # ns)" "distinct (a # ns)" "m \<in> set ns"
  shows "n_start (N m) + n_size (N m) \<le> end_of N pos a h \<or> start_after N h (a # ns) hi \<le> n_start (N m)"
  using assms
proof (induction ns arbitrary: pos a)
  case (Cons x xs)
  then have l: "layout N (n_start (N x) + n_size (N x)) x xs hi" by simp
  show ?case
  proof (cases "h = a")
    case True
    with Cons.prems layout_bounds [OF l, of m] show ?thesis by fastforce
  next
    case False
    then have e: "end_of N (n_start (N x) + n_size (N x)) x h = end_of N pos a h"
      by (simp add: end_of_def)
    have h: "h \<in> set (x # xs)" using False Cons.prems by auto
    show ?thesis
    proof (cases "m = x")
      case True
      have "n_start (N x) + n_size (N x) \<le> end_of N (n_start (N x) + n_size (N x)) x h"
        using layout_bounds [OF l, of h] h by (auto simp: end_of_def)
      with e True show ?thesis by simp
    next
      case m: False
      with Cons.IH [OF l h] Cons.prems False e show ?thesis by auto
    qed
  qed
qed simp

lemma layout_insert:
  assumes "layout N pos a ns hi" "h \<in> set (a # ns)" "distinct (a # ns)" "n \<notin> set (a # ns)"
    and "\<And>x. x \<in> set (a # ns) \<Longrightarrow> n_start (N' x) = n_start (N x) \<and> n_size (N' x) = n_size (N x)"
    and "\<And>x. x \<in> set (a # ns) \<Longrightarrow> x \<noteq> h \<Longrightarrow> hole_follows (N' x) = hole_follows (N x)"
    and "end_of N pos a h \<le> n_start (N' n)" "0 < n_size (N' n)"
    and "n_start (N' n) + n_size (N' n) \<le> start_after N h (a # ns) hi"
    and "hole_follows (N' h) \<longleftrightarrow> end_of N pos a h < n_start (N' n)"
    and "hole_follows (N' n) \<longleftrightarrow> n_start (N' n) + n_size (N' n) < start_after N h (a # ns) hi"
  shows "layout N' pos a (tl (insert_after h n (a # ns))) hi"
  using assms
proof (induction ns arbitrary: pos a)
  case Nil
  then show ?case by (auto simp: end_of_def)
next
  case (Cons x xs)
  then have l: "layout N (n_start (N x) + n_size (N x)) x xs hi" by simp
  show ?case
  proof (cases "h = a")
    case True
    have "layout N' (n_start (N x) + n_size (N x)) x xs hi = layout N (n_start (N x) + n_size (N x)) x xs hi"
      using Cons.prems True by (intro layout_cong) auto
    with Cons.prems True l show ?thesis by (auto simp: end_of_def)
  next
    case False
    then have e: "end_of N (n_start (N x) + n_size (N x)) x h = end_of N pos a h"
      by (simp add: end_of_def)
    have "layout N' (n_start (N x) + n_size (N x)) x (tl (insert_after h n (x # xs))) hi"
      using Cons.prems False e by (intro Cons.IH [OF l]) auto
    with Cons.prems False show ?thesis by (auto split: if_splits)
  qed
qed

lemma layout_remove:
  assumes "layout N pos a ns hi" "n \<in> set ns" "distinct (a # ns)"
    and "\<And>x. x \<in> set (a # ns) \<Longrightarrow> x \<noteq> n \<Longrightarrow> n_start (N' x) = n_start (N x) \<and> n_size (N' x) = n_size (N x)"
    and "\<And>x. x \<in> set (a # ns) \<Longrightarrow> x \<noteq> n \<Longrightarrow> x \<noteq> pred_in n (a # ns) d \<Longrightarrow>
           hole_follows (N' x) = hole_follows (N x)"
    and "hole_follows (N' (pred_in n (a # ns) d))"
  shows "layout N' pos a (remove1 n ns) hi"
  using assms
proof (induction ns arbitrary: pos a)
  case (Cons x xs)
  then have l: "layout N (n_start (N x) + n_size (N x)) x xs hi" by simp
  show ?case
  proof (cases "n = x")
    case True
    show ?thesis
    proof (cases xs)
      case Nil
      with Cons.prems True show ?thesis by auto
    next
      case (Cons y ys)
      have "layout N' (n_start (N y) + n_size (N y)) y ys hi = layout N (n_start (N y) + n_size (N y)) y ys hi"
        using Cons.prems True Cons by (intro layout_cong) auto
      with Cons.prems True Cons l show ?thesis by auto
    qed
  next
    case False
    have p: "pred_in n (a # x # xs) d = pred_in n (x # xs) d" using False by simp
    have "n \<in> set xs" using False Cons.prems by auto
    then have "pred_in n (x # xs) d \<in> set (x # xs)"
      by (induction xs arbitrary: x) auto
    then have "pred_in n (x # xs) d \<noteq> a" using Cons.prems by auto
    moreover have "layout N' (n_start (N x) + n_size (N x)) x (remove1 n xs) hi"
      using Cons.prems False p \<open>n \<in> set xs\<close> by (intro Cons.IH [OF l]) auto
    ultimately show ?thesis using Cons.prems False p by auto
  qed
qed simp


subsection \<open>Well-formed managers\<close>

definition ring :: "drm_mm \<Rightarrow> addr list" where
  "ring mm = head_node # node_list mm"

text \<open>
  Addresses stay below \<open>2 ^ 62\<close>, so that the sums of an address, an alignment and a size that
  the code forms do not wrap around.
\<close>

definition MM_LIMIT :: int where "MM_LIMIT = 4611686018427387904"

definition mm_inv :: "int \<Rightarrow> int \<Rightarrow> drm_mm \<Rightarrow> bool" where
  "mm_inv lo hi mm \<longleftrightarrow>
     0 \<le> lo \<and> lo < hi \<and> hi < MM_LIMIT \<and> distinct (ring mm) \<and>
     n_start (mm_nodes mm head_node) = hi \<and> n_size (mm_nodes mm head_node) = u64 (lo - hi) \<and>
     layout (mm_nodes mm) lo head_node (node_list mm) hi \<and>
     distinct (hole_stack mm) \<and>
     set (hole_stack mm) = {a \<in> set (ring mm). hole_follows (mm_nodes mm a)} \<and>
     (\<forall>a \<in> set (node_list mm). allocated (mm_nodes mm a)) \<and>
     (\<forall>a \<in> set (ring mm). \<not> scanned_block (mm_nodes mm a) \<and> \<not> scanned_prev_free (mm_nodes mm a) \<and>
        \<not> scanned_next_free (mm_nodes mm a)) \<and>
     scanned_blocks mm = 0"

definition hole_lo :: "int \<Rightarrow> drm_mm \<Rightarrow> addr \<Rightarrow> int" where
  "hole_lo lo mm h = end_of (mm_nodes mm) lo head_node h"

definition hole_hi :: "int \<Rightarrow> drm_mm \<Rightarrow> addr \<Rightarrow> int" where
  "hole_hi hi mm h = start_after (mm_nodes mm) h (ring mm) hi"

lemma succ_in_start: "n_start (N (succ_in h xs d)) = start_after N h xs (n_start (N d))"
  by (induction h xs d rule: succ_in.induct) auto

lemma hole_end_eq:
  assumes "mm_inv lo hi mm"
  shows "drm_mm_hole_node_end mm h = hole_hi hi mm h" "hole_node_end_raw mm h = hole_hi hi mm h"
  using assms
  by (simp_all add: drm_mm_hole_node_end_def hole_node_end_raw_def next_node_def hole_hi_def ring_def
      succ_in_start mm_inv_def)

lemma hole_start_eq:
  assumes "mm_inv lo hi mm" "h \<in> set (ring mm)"
  shows "hole_node_start_raw mm h = hole_lo lo mm h"
proof (cases "h = head_node")
  case True
  have "u64 (hi + u64 (lo - hi)) = lo"
  proof -
    have b: "0 \<le> lo" "lo < hi" "hi < 18446744073709551616"
      using assms(1) by (simp_all add: mm_inv_def MM_LIMIT_def)
    then have "u64 (hi + u64 (lo - hi)) = u64 (hi + (lo - hi + 18446744073709551616))"
      by (simp only: u64_diff_borrow)
    also have "\<dots> = lo" using b by (simp add: u64_def)
    finally show ?thesis .
  qed
  then show ?thesis
    using assms(1) True by (simp add: hole_node_start_raw_def hole_lo_def end_of_def mm_inv_def)
next
  case False
  then have "h \<in> set (node_list mm)" using assms(2) by (simp add: ring_def)
  then have "lo \<le> n_start (mm_nodes mm h) \<and> 0 < n_size (mm_nodes mm h) \<and>
      n_start (mm_nodes mm h) + n_size (mm_nodes mm h) \<le> hi"
    using assms(1) layout_bounds by (blast dest: mm_inv_def [THEN iffD1])
  with assms(1) False show ?thesis
    by (simp add: hole_node_start_raw_def hole_lo_def end_of_def mm_inv_def MM_LIMIT_def u64_id)
qed

lemma hole_bounds:
  assumes "mm_inv lo hi mm" "h \<in> set (ring mm)"
  shows "lo \<le> hole_lo lo mm h" "hole_lo lo mm h \<le> hole_hi hi mm h" "hole_hi hi mm h \<le> hi"
    "hole_follows (mm_nodes mm h) \<longleftrightarrow> hole_lo lo mm h < hole_hi hi mm h"
proof -
  have l: "layout (mm_nodes mm) lo head_node (node_list mm) hi" "distinct (head_node # node_list mm)"
    "h \<in> set (head_node # node_list mm)"
    using assms by (auto simp: mm_inv_def ring_def)
  show "hole_lo lo mm h \<le> hole_hi hi mm h"
    "hole_follows (mm_nodes mm h) \<longleftrightarrow> hole_lo lo mm h < hole_hi hi mm h"
    using layout_hole [OF l(1,3,2)] by (simp_all add: hole_lo_def hole_hi_def ring_def)
  show "hole_hi hi mm h \<le> hi"
    using start_after_le [OF l(1,3)] by (simp add: hole_hi_def ring_def)
  show "lo \<le> hole_lo lo mm h"
    using layout_bounds [OF l(1), of h] l(3) by (auto simp: hole_lo_def end_of_def)
qed

lemma hole_start_Some:
  assumes "mm_inv lo hi mm" "h \<in> set (hole_stack mm)"
  shows "drm_mm_hole_node_start mm h = Some (hole_lo lo mm h)"
  using assms hole_start_eq [OF assms(1), of h]
  by (auto simp: drm_mm_hole_node_start_def mm_inv_def)

subsection \<open>Placing a node in a hole\<close>

text \<open>
  What the three insertion functions do to the manager when they put the node \<open>n\<close> at \<open>st\<close>
  in the hole after \<open>h\<close>.
\<close>

definition placed :: "addr \<Rightarrow> addr \<Rightarrow> int \<Rightarrow> int \<Rightarrow> int \<Rightarrow> int \<Rightarrow> drm_mm \<Rightarrow> drm_mm \<Rightarrow> bool" where
  "placed h n st sz hs he mm mm' \<longleftrightarrow>
     node_list mm' = tl (insert_after h n (ring mm)) \<and>
     hole_stack mm' = (if st + sz < he then [n] else []) @
       (if st = hs then remove1 h (hole_stack mm) else hole_stack mm) \<and>
     (\<forall>x. x \<noteq> h \<longrightarrow> x \<noteq> n \<longrightarrow> mm_nodes mm' x = mm_nodes mm x) \<and>
     mm_nodes mm' h = (mm_nodes mm h)\<lparr>hole_follows := hs < st\<rparr> \<and>
     n_start (mm_nodes mm' n) = st \<and> n_size (mm_nodes mm' n) = sz \<and> allocated (mm_nodes mm' n) \<and>
     (hole_follows (mm_nodes mm' n) \<longleftrightarrow> st + sz < he) \<and>
     scanned_block (mm_nodes mm' n) = scanned_block (mm_nodes mm n) \<and>
     scanned_prev_free (mm_nodes mm' n) = scanned_prev_free (mm_nodes mm n) \<and>
     scanned_next_free (mm_nodes mm' n) = scanned_next_free (mm_nodes mm n) \<and>
     scanned_blocks mm' = scanned_blocks mm"

text \<open>A node that can be inserted: not on the ring, not allocated, not part of a scan.\<close>

definition cleared :: "drm_mm \<Rightarrow> addr \<Rightarrow> bool" where
  "cleared mm n \<longleftrightarrow> n \<notin> set (ring mm) \<and> \<not> allocated (mm_nodes mm n) \<and> \<not> scanned_block (mm_nodes mm n) \<and>
     \<not> scanned_prev_free (mm_nodes mm n) \<and> \<not> scanned_next_free (mm_nodes mm n)"

lemma insert_after_set: "set (insert_after h n xs) = set xs \<union> (if h \<in> set xs then {n} else {})"
  by (induction xs) auto

lemma insert_after_distinct: "distinct xs \<Longrightarrow> n \<notin> set xs \<Longrightarrow> distinct (insert_after h n xs)"
  by (induction xs) (auto simp: insert_after_set)

lemma insert_after_Cons: "insert_after h n (x # xs) = x # tl (insert_after h n (x # xs))"
  by simp

lemma placed_inv:
  assumes inv: "mm_inv lo hi mm" and h: "h \<in> set (hole_stack mm)" and n: "cleared mm n"
    and pl: "placed h n st sz (hole_lo lo mm h) (hole_hi hi mm h) mm mm'"
    and fit: "hole_lo lo mm h \<le> st" "0 < sz" "st + sz \<le> hole_hi hi mm h"
  shows "mm_inv lo hi mm'"
proof -
  have hr: "h \<in> set (ring mm)" "h \<noteq> n" using inv h n by (auto simp: mm_inv_def cleared_def)
  have nh: "n \<noteq> head_node" using n by (auto simp: cleared_def ring_def)
  have ring': "ring mm' = insert_after h n (ring mm)"
    using pl insert_after_Cons [of h n head_node "node_list mm"] by (simp add: placed_def ring_def)
  then have sr: "set (ring mm') = insert n (set (ring mm))" using hr by (simp add: insert_after_set)
  have d: "distinct (ring mm')"
    using inv n ring' by (simp add: insert_after_distinct mm_inv_def cleared_def)
  have same: "n_start (mm_nodes mm' x) = n_start (mm_nodes mm x)" "n_size (mm_nodes mm' x) = n_size (mm_nodes mm x)"
    "scanned_block (mm_nodes mm' x) = scanned_block (mm_nodes mm x)"
    "scanned_prev_free (mm_nodes mm' x) = scanned_prev_free (mm_nodes mm x)"
    "scanned_next_free (mm_nodes mm' x) = scanned_next_free (mm_nodes mm x)"
    "allocated (mm_nodes mm' x) = allocated (mm_nodes mm x)" if "x \<noteq> n" for x
    using pl that by (cases "x = h"; simp add: placed_def)+
  have hf: "hole_follows (mm_nodes mm' x) = hole_follows (mm_nodes mm x)" if "x \<noteq> n" "x \<noteq> h" for x
    using pl that by (simp add: placed_def)
  have lay: "layout (mm_nodes mm') lo head_node (tl (insert_after h n (head_node # node_list mm))) hi"
  proof (rule layout_insert [where N = "mm_nodes mm"])
    show "layout (mm_nodes mm) lo head_node (node_list mm) hi" "distinct (head_node # node_list mm)"
      "h \<in> set (head_node # node_list mm)" "n \<notin> set (head_node # node_list mm)"
      using inv hr n by (auto simp: mm_inv_def ring_def cleared_def)
    show "n_start (mm_nodes mm' x) = n_start (mm_nodes mm x) \<and> n_size (mm_nodes mm' x) = n_size (mm_nodes mm x)"
      if "x \<in> set (head_node # node_list mm)" for x
      using same(1,2) that n by (metis cleared_def ring_def)
    show "hole_follows (mm_nodes mm' x) = hole_follows (mm_nodes mm x)"
      if "x \<in> set (head_node # node_list mm)" "x \<noteq> h" for x
      using hf that n by (metis cleared_def ring_def)
  qed (use pl fit in \<open>simp_all add: placed_def hole_lo_def hole_hi_def ring_def\<close>)
  have nl: "node_list mm' = tl (insert_after h n (head_node # node_list mm))"
    using pl by (simp add: placed_def ring_def)
  have "n \<notin> set (hole_stack mm)" using inv n by (auto simp: mm_inv_def cleared_def)
  then have hd: "distinct (hole_stack mm')"
    using pl inv by (auto simp: placed_def mm_inv_def)
  have hs: "set (hole_stack mm') = {a \<in> set (ring mm'). hole_follows (mm_nodes mm' a)}"
  proof -
    have s: "set (hole_stack mm) = {a \<in> set (ring mm). hole_follows (mm_nodes mm a)}" "distinct (hole_stack mm)"
      using inv by (simp_all add: mm_inv_def)
    have "hole_follows (mm_nodes mm' h) \<longleftrightarrow> hole_lo lo mm h < st" "hole_follows (mm_nodes mm' n) \<longleftrightarrow> st + sz < hole_hi hi mm h"
      using pl by (simp_all add: placed_def)
    moreover have "set (hole_stack mm') = (if st + sz < hole_hi hi mm h then {n} else {}) \<union>
        (if st = hole_lo lo mm h then set (hole_stack mm) - {h} else set (hole_stack mm))"
      using pl s(2) by (simp add: placed_def)
    moreover have "n \<notin> set (ring mm)" using n by (simp add: cleared_def)
    ultimately have "x \<in> set (hole_stack mm') \<longleftrightarrow> x \<in> set (ring mm') \<and> hole_follows (mm_nodes mm' x)" for x
      using s(1) sr hf [of x] fit(1) h hr by (cases "x = n"; cases "x = h") (auto split: if_splits)
    then show ?thesis by blast
  qed
  have al: "allocated (mm_nodes mm' a)" if "a \<in> set (node_list mm')" for a
  proof (cases "a = n")
    case False
    with that sr d have "a \<in> set (node_list mm)" by (auto simp: ring_def)
    with inv same False show ?thesis by (simp add: mm_inv_def)
  qed (use pl in \<open>simp add: placed_def\<close>)
  have sc: "\<not> scanned_block (mm_nodes mm' a) \<and> \<not> scanned_prev_free (mm_nodes mm' a) \<and> \<not> scanned_next_free (mm_nodes mm' a)"
    if "a \<in> set (ring mm')" for a
    using that sr inv n pl same by (cases "a = n") (auto simp: mm_inv_def cleared_def placed_def)
  show ?thesis
    unfolding mm_inv_def
    using inv d hd hs al sc lay nl same [OF nh [symmetric]] pl
    by (auto simp: mm_inv_def placed_def)
qed


subsection \<open>Alignment and the test of a hole\<close>

definition aligned :: "int \<Rightarrow> int \<Rightarrow> bool" where
  "aligned al x \<longleftrightarrow> al \<noteq> 0 \<longrightarrow> al dvd x"

lemma align_up_props:
  assumes "0 \<le> s" "s < MM_LIMIT" "0 \<le> al" "al < 4294967296"
  shows "s \<le> align_up s al" "align_up s al < s + 4294967296" "aligned al (align_up s al)"
    "\<And>t. s \<le> t \<Longrightarrow> aligned al t \<Longrightarrow> align_up s al \<le> t"
proof -
  have eq: "align_up s al = (if al \<noteq> 0 \<and> s mod al \<noteq> 0 then s + (al - s mod al) else s)"
  proof (cases "al \<noteq> 0 \<and> s mod al \<noteq> 0")
    case True
    then have "0 < al" using assms(3) by simp
    then have "0 < al - s mod al" "al - s mod al < 4294967296"
      using assms(4) pos_mod_bound [of al s] pos_mod_sign [of al s] by linarith+
    with True assms(1,2) show ?thesis
      by (simp add: align_up_def Let_def MM_LIMIT_def u32_id u64_id)
  qed (auto simp: align_up_def)
  have m: "al \<noteq> 0 \<longrightarrow> 0 \<le> s mod al \<and> s mod al < al" using assms by simp
  have "s \<le> align_up s al \<and> align_up s al < s + 4294967296"
  proof (cases "al \<noteq> 0 \<and> s mod al \<noteq> 0")
    case True
    then have "align_up s al = s + (al - s mod al)" by (simp add: eq)
    moreover have "0 \<le> s mod al \<and> s mod al < al" using m True by blast
    ultimately show ?thesis using assms(4) by linarith
  qed (auto simp: eq)
  then show "s \<le> align_up s al" "align_up s al < s + 4294967296" by blast+
  show al: "aligned al (align_up s al)"
    unfolding eq aligned_def using minus_mod_eq_mult_div [of s al]
    by (auto simp: mod_eq_0_iff_dvd) (metis add_diff_eq diff_add_eq dvd_add_triv_right_iff dvd_triv_left)
  fix t assume t: "s \<le> t" "aligned al t"
  show "align_up s al \<le> t"
  proof (cases "al \<noteq> 0 \<and> s mod al \<noteq> 0")
    case True
    then have "al dvd t" "al dvd s - s mod al" using t by (auto simp: aligned_def)
    then have d: "al dvd t - (s - s mod al)" by (rule dvd_diff)
    have "0 < t - (s - s mod al)" using m True t(1) by linarith
    with d have "al \<le> t - (s - s mod al)" by (intro zdvd_imp_le) auto
    with True show ?thesis unfolding eq by simp
  qed (use t eq in auto)
qed

lemma check_free_hole_iff:
  assumes "0 \<le> s" "s < MM_LIMIT" "0 \<le> e" "e < MM_LIMIT" "0 < sz" "sz < MM_LIMIT" "0 \<le> al" "al < 4294967296"
  shows "check_free_hole s e sz al \<longleftrightarrow> align_up s al + sz \<le> e"
proof -
  note a = align_up_props [OF assms(1,2,7,8)]
  have u: "u64 (align_up s al + sz) = align_up s al + sz"
    using a assms by (intro u64_id) (auto simp: MM_LIMIT_def)
  show ?thesis
  proof (cases "s \<le> e")
    case True
    then have "u64 (e - s) = e - s" using assms by (intro u64_id) (auto simp: MM_LIMIT_def)
    then show ?thesis using a(1) by (auto simp: check_free_hole_def Let_def u)
  next
    case False
    then show ?thesis using a(1) assms by (auto simp: check_free_hole_def Let_def u)
  qed
qed

text \<open>An aligned block of the size fits between \<open>s\<close> and \<open>e\<close>.\<close>

definition block_fits :: "int \<Rightarrow> int \<Rightarrow> int \<Rightarrow> int \<Rightarrow> bool" where
  "block_fits s e sz al \<longleftrightarrow> (\<exists>st \<ge> s. aligned al st \<and> st + sz \<le> e)"

lemma check_free_hole_fits:
  assumes "0 \<le> s" "s < MM_LIMIT" "0 \<le> e" "e < MM_LIMIT" "0 < sz" "sz < MM_LIMIT" "0 \<le> al" "al < 4294967296"
  shows "check_free_hole s e sz al \<longleftrightarrow> block_fits s e sz al"
  unfolding check_free_hole_iff [OF assms] block_fits_def
  using align_up_props [OF assms(1,2,7,8)] by (meson add_le_cancel_right order_trans)

subsection \<open>Insertion\<close>

lemma upd_node_sels [simp]:
  "mm_nodes (upd_node a f mm) x = (if x = a then f (mm_nodes mm a) else mm_nodes mm x)"
  "node_list (upd_node a f mm) = node_list mm" "hole_stack (upd_node a f mm) = hole_stack mm"
  "unused_nodes (upd_node a f mm) = unused_nodes mm" "num_unused (upd_node a f mm) = num_unused mm"
  "scanned_blocks (upd_node a f mm) = scanned_blocks mm" "color_adjust (upd_node a f mm) = color_adjust mm"
  "scan_hit_start (upd_node a f mm) = scan_hit_start mm" "scan_hit_end (upd_node a f mm) = scan_hit_end mm"
  "scan_check_range (upd_node a f mm) = scan_check_range mm"
  "prev_scanned_node (upd_node a f mm) = prev_scanned_node mm"
  "scan_size (upd_node a f mm) = scan_size mm" "scan_alignment (upd_node a f mm) = scan_alignment mm"
  "scan_start (upd_node a f mm) = scan_start mm" "scan_end (upd_node a f mm) = scan_end mm"
  "scan_color (upd_node a f mm) = scan_color mm"
  by (simp_all add: upd_node_def)

lemma add_node_after_sels [simp]:
  "mm_nodes (add_node_after a n mm) = mm_nodes mm"
  "node_list (add_node_after a n mm) = tl (insert_after a n (ring mm))"
  "hole_stack (add_node_after a n mm) = hole_stack mm"
  "scanned_blocks (add_node_after a n mm) = scanned_blocks mm" "color_adjust (add_node_after a n mm) = color_adjust mm"
  "unused_nodes (add_node_after a n mm) = unused_nodes mm" "num_unused (add_node_after a n mm) = num_unused mm"
  "scan_hit_start (add_node_after a n mm) = scan_hit_start mm" "scan_hit_end (add_node_after a n mm) = scan_hit_end mm"
  by (simp_all add: add_node_after_def ring_def)

lemma ring_sels [simp]:
  "ring (upd_node a f mm) = ring mm" "ring (mm\<lparr>hole_stack := hs\<rparr>) = ring mm"
  "ring (mm\<lparr>unused_nodes := us\<rparr>) = ring mm" "ring (mm\<lparr>num_unused := k\<rparr>) = ring mm"
  "ring (mm\<lparr>scanned_blocks := k\<rparr>) = ring mm" "ring (mm\<lparr>prev_scanned_node := q\<rparr>) = ring mm"
  "ring (mm\<lparr>scan_hit_start := k\<rparr>) = ring mm" "ring (mm\<lparr>scan_hit_end := k\<rparr>) = ring mm"
  by (simp_all add: ring_def)

text \<open>The common end of the two insertion helpers, with all values given.\<close>

definition place :: "addr \<Rightarrow> addr \<Rightarrow> int \<Rightarrow> int \<Rightarrow> int \<Rightarrow> int \<Rightarrow> int \<Rightarrow> drm_mm \<Rightarrow> drm_mm" where
  "place h n st sz c hs he mm =
     (let mm = (if st = hs
                then (upd_node h (\<lambda>n. n\<lparr>hole_follows := False\<rparr>) mm)\<lparr>hole_stack := remove1 h (hole_stack mm)\<rparr>
                else mm);
          mm = upd_node n (\<lambda>n. n\<lparr>n_start := st, n_size := sz, n_color := c, allocated := True\<rparr>) mm;
          mm = add_node_after h n mm;
          mm = upd_node n (\<lambda>n. n\<lparr>hole_follows := False\<rparr>) mm
      in if hole_node_start_raw mm n < he
         then (upd_node n (\<lambda>n. n\<lparr>hole_follows := True\<rparr>) mm)\<lparr>hole_stack := n # hole_stack mm\<rparr>
         else mm)"

lemma node_hole_id: "hole_follows x = b \<Longrightarrow> x\<lparr>hole_follows := b\<rparr> = (x :: drm_mm_node)"
  by simp

lemma place_placed:
  assumes "h \<noteq> n" "hole_follows (mm_nodes mm h)" "hs \<le> st" "u64 (st + sz) = st + sz"
  shows "placed h n st sz hs he mm (place h n st sz c hs he mm)"
    "color_adjust (place h n st sz c hs he mm) = color_adjust mm"
    "n_color (mm_nodes (place h n st sz c hs he mm) n) = c"
  using assms
  by (cases "st = hs"; cases "st + sz < he";
      simp add: placed_def place_def Let_def hole_node_start_raw_def node_hole_id)+

lemma hole_stack_ring:
  assumes "mm_inv lo hi mm" "h \<in> set (hole_stack mm)"
  shows "h \<in> set (ring mm)" "hole_follows (mm_nodes mm h)"
  using assms by (auto simp: mm_inv_def)

lemma insert_helper_placed:
  assumes inv: "mm_inv lo hi mm" and h: "h \<in> set (hole_stack mm)" and n: "cleared mm n"
    and adj: "adjust_hole mm h c (hole_lo lo mm h, hole_hi hi mm h) = (s, e)"
    and fit: "hole_lo lo mm h \<le> align_up s al" "align_up s al + sz \<le> e" "e \<le> hole_hi hi mm h" "0 < sz"
  shows "drm_mm_insert_helper h n sz al c mm =
      Some (place h n (align_up s al) sz c (hole_lo lo mm h) (hole_hi hi mm h) mm)"
    and "placed h n (align_up s al) sz (hole_lo lo mm h) (hole_hi hi mm h) mm
      (place h n (align_up s al) sz c (hole_lo lo mm h) (hole_hi hi mm h) mm)"
proof -
  note hr = hole_stack_ring [OF inv h]
  have hn: "h \<noteq> n" using hr n by (auto simp: cleared_def)
  note b = hole_bounds [OF inv hr(1)]
  have u: "u64 (align_up s al + sz) = align_up s al + sz"
    using b fit inv by (intro u64_id) (auto simp: mm_inv_def MM_LIMIT_def)
  show "placed h n (align_up s al) sz (hole_lo lo mm h) (hole_hi hi mm h) mm
      (place h n (align_up s al) sz c (hole_lo lo mm h) (hole_hi hi mm h) mm)"
    using hn hr fit u by (intro place_placed) auto
  have "\<not> e < align_up s al + sz" "\<not> allocated (mm_nodes mm n)" using fit n by (auto simp: cleared_def)
  then show "drm_mm_insert_helper h n sz al c mm =
      Some (place h n (align_up s al) sz c (hole_lo lo mm h) (hole_hi hi mm h) mm)"
    by (simp add: drm_mm_insert_helper_def hole_start_Some [OF inv h] hole_end_eq [OF inv] adj u place_def Let_def)
qed

lemma insert_helper_range_placed:
  assumes inv: "mm_inv lo hi mm" and h: "h \<in> set (hole_stack mm)" and n: "cleared mm n"
    and adj: "adjust_hole mm h c (narrow_range rs re (hole_lo lo mm h, hole_hi hi mm h)) = (s, e)"
    and fit: "hole_lo lo mm h \<le> align_up s al" "align_up s al + sz \<le> e" "e \<le> min re (hole_hi hi mm h)" "0 < sz"
  shows "drm_mm_insert_helper_range h n sz al c rs re mm =
      Some (place h n (align_up s al) sz c (hole_lo lo mm h) (hole_hi hi mm h) mm)"
    and "placed h n (align_up s al) sz (hole_lo lo mm h) (hole_hi hi mm h) mm
      (place h n (align_up s al) sz c (hole_lo lo mm h) (hole_hi hi mm h) mm)"
proof -
  note hr = hole_stack_ring [OF inv h]
  have hn: "h \<noteq> n" using hr n by (auto simp: cleared_def)
  note b = hole_bounds [OF inv hr(1)]
  have u: "u64 (align_up s al + sz) = align_up s al + sz"
    using b fit inv by (intro u64_id) (auto simp: mm_inv_def MM_LIMIT_def)
  show "placed h n (align_up s al) sz (hole_lo lo mm h) (hole_hi hi mm h) mm
      (place h n (align_up s al) sz c (hole_lo lo mm h) (hole_hi hi mm h) mm)"
    using hn hr fit u by (intro place_placed) auto
  have "\<not> e < align_up s al + sz" "\<not> re < align_up s al + sz" "\<not> allocated (mm_nodes mm n)"
    using fit n by (auto simp: cleared_def)
  then show "drm_mm_insert_helper_range h n sz al c rs re mm =
      Some (place h n (align_up s al) sz c (hole_lo lo mm h) (hole_hi hi mm h) mm)"
    using adj hr
    by (simp add: drm_mm_insert_helper_range_def hole_start_Some [OF inv h] hole_end_eq [OF inv] u place_def
        Let_def narrow_range_def)
qed

subsection \<open>Searching\<close>

text \<open>
  What the allocator relies on of the coloring callback: it only ever shrinks the hole it is
  shown.
\<close>

definition adjusted :: "int \<Rightarrow> int \<Rightarrow> drm_mm \<Rightarrow> int \<Rightarrow> (int \<times> int \<Rightarrow> int \<times> int) \<Rightarrow> addr \<Rightarrow> int \<times> int" where
  "adjusted lo hi mm color narrow h = adjust_hole mm h color (narrow (hole_lo lo mm h, hole_hi hi mm h))"

definition adjust_shrinks :: "int \<Rightarrow> int \<Rightarrow> drm_mm \<Rightarrow> int \<Rightarrow> (int \<times> int \<Rightarrow> int \<times> int) \<Rightarrow> bool" where
  "adjust_shrinks lo hi mm color narrow \<longleftrightarrow>
     (\<forall>h \<in> set (hole_stack mm).
        fst (narrow (hole_lo lo mm h, hole_hi hi mm h)) \<le> fst (adjusted lo hi mm color narrow h) \<and>
        fst (adjusted lo hi mm color narrow h) < MM_LIMIT \<and>
        0 \<le> snd (adjusted lo hi mm color narrow h) \<and>
        snd (adjusted lo hi mm color narrow h) \<le> snd (narrow (hole_lo lo mm h, hole_hi hi mm h)))"

definition hole_fits :: "int \<Rightarrow> int \<Rightarrow> drm_mm \<Rightarrow> int \<Rightarrow> int \<Rightarrow> int \<Rightarrow> (int \<times> int \<Rightarrow> int \<times> int) \<Rightarrow> addr \<Rightarrow> bool" where
  "hole_fits lo hi mm sz al color narrow h \<longleftrightarrow>
     block_fits (fst (adjusted lo hi mm color narrow h)) (snd (adjusted lo hi mm color narrow h)) sz al"

lemma block_fits_less: "block_fits s e sz al \<Longrightarrow> 0 < sz \<Longrightarrow> s < e"
  by (auto simp: block_fits_def)

lemma search_first_fit:
  assumes inv: "mm_inv lo hi mm" and "set es \<subseteq> set (hole_stack mm)"
    and "0 < sz" "sz < MM_LIMIT" "0 \<le> al" "al < 4294967296"
    and adj: "\<And>h. h \<in> set es \<Longrightarrow> 0 \<le> fst (adjusted lo hi mm c narrow h) \<and> fst (adjusted lo hi mm c narrow h) < MM_LIMIT \<and>
        0 \<le> snd (adjusted lo hi mm c narrow h) \<and> snd (adjusted lo hi mm c narrow h) < MM_LIMIT"
  shows "search_free_loop mm sz al c narrow False es None k = Some (find (hole_fits lo hi mm sz al c narrow) es)"
  using assms(2) adj
proof (induction es)
  case (Cons h es)
  have h: "h \<in> set (hole_stack mm)" using Cons.prems by auto
  obtain s e where se: "adjusted lo hi mm c narrow h = (s, e)" by force
  have chk: "check_free_hole s e sz al \<longleftrightarrow> hole_fits lo hi mm sz al c narrow h"
    using Cons.prems(2) [of h] se assms by (simp add: check_free_hole_fits hole_fits_def)
  have "hole_fits lo hi mm sz al c narrow h \<Longrightarrow> s < e"
    using se assms(3) block_fits_less by (auto simp: hole_fits_def)
  with Cons se chk show ?case
    by (auto simp: hole_start_Some [OF inv h] hole_end_eq [OF inv] adjusted_def Let_def split: prod.splits)
qed simp


lemma adjust_shrinksD:
  assumes "adjust_shrinks lo hi mm c narrow" "h \<in> set (hole_stack mm)"
  shows "fst (narrow (hole_lo lo mm h, hole_hi hi mm h)) \<le> fst (adjusted lo hi mm c narrow h)"
    "fst (adjusted lo hi mm c narrow h) < MM_LIMIT" "0 \<le> snd (adjusted lo hi mm c narrow h)"
    "snd (adjusted lo hi mm c narrow h) \<le> snd (narrow (hole_lo lo mm h, hole_hi hi mm h))"
  using assms by (auto simp: adjust_shrinks_def)

text \<open>What a successful insertion promises, whatever the entry point.\<close>

definition inserted :: "int \<Rightarrow> int \<Rightarrow> drm_mm \<Rightarrow> addr \<Rightarrow> int \<Rightarrow> int \<Rightarrow> drm_mm \<Rightarrow> bool" where
  "inserted lo hi mm n sz al mm' \<longleftrightarrow>
     mm_inv lo hi mm' \<and> set (node_list mm') = insert n (set (node_list mm)) \<and>
     n_size (mm_nodes mm' n) = sz \<and> aligned al (n_start (mm_nodes mm' n)) \<and>
     lo \<le> n_start (mm_nodes mm' n) \<and> n_start (mm_nodes mm' n) + sz \<le> hi \<and>
     (\<forall>m \<in> set (node_list mm).
        n_start (mm_nodes mm' m) = n_start (mm_nodes mm m) \<and> n_size (mm_nodes mm' m) = n_size (mm_nodes mm m) \<and>
        (n_start (mm_nodes mm m) + n_size (mm_nodes mm m) \<le> n_start (mm_nodes mm' n) \<or>
         n_start (mm_nodes mm' n) + sz \<le> n_start (mm_nodes mm m)))"

lemma placed_inserted:
  assumes inv: "mm_inv lo hi mm" and h: "h \<in> set (hole_stack mm)" and n: "cleared mm n"
    and pl: "placed h n st sz (hole_lo lo mm h) (hole_hi hi mm h) mm mm'"
    and fit: "hole_lo lo mm h \<le> st" "0 < sz" "st + sz \<le> hole_hi hi mm h" and al: "aligned al st"
  shows "inserted lo hi mm n sz al mm'"
proof -
  have inv': "mm_inv lo hi mm'" by (rule placed_inv [OF inv h n pl fit])
  note hr = hole_stack_ring [OF inv h]
  note b = hole_bounds [OF inv hr(1)]
  have nn: "n \<notin> set (node_list mm)" "n \<noteq> head_node" using n by (auto simp: cleared_def ring_def)
  have "set (insert_after h n (ring mm)) = insert n (set (ring mm))"
    using hr by (simp add: insert_after_set)
  then have "insert head_node (set (tl (insert_after h n (ring mm)))) = insert n (insert head_node (set (node_list mm)))"
    using insert_after_Cons [of h n head_node "node_list mm"] by (metis list.simps(15) ring_def)
  moreover have "head_node \<notin> set (tl (insert_after h n (ring mm)))" "head_node \<notin> set (node_list mm)"
    using inv' inv pl by (auto simp: mm_inv_def ring_def placed_def)
  ultimately have sl: "set (node_list mm') = insert n (set (node_list mm))"
    using pl nn by (metis insert_commute insert_ident insert_iff placed_def)
  have same: "n_start (mm_nodes mm' m) = n_start (mm_nodes mm m)" "n_size (mm_nodes mm' m) = n_size (mm_nodes mm m)"
    if "m \<in> set (node_list mm)" for m
    using pl nn that by (cases "m = h"; auto simp: placed_def)+
  have disj: "n_start (mm_nodes mm m) + n_size (mm_nodes mm m) \<le> st \<or> st + sz \<le> n_start (mm_nodes mm m)"
    if "m \<in> set (node_list mm)" for m
  proof -
    have "n_start (mm_nodes mm m) + n_size (mm_nodes mm m) \<le> hole_lo lo mm h \<or> hole_hi hi mm h \<le> n_start (mm_nodes mm m)"
      using layout_hole_free [of "mm_nodes mm" lo head_node "node_list mm" hi h m] inv hr that
      by (simp add: mm_inv_def ring_def hole_lo_def hole_hi_def)
    with fit show ?thesis by auto
  qed
  show ?thesis
    using inv' sl same disj b fit al pl by (auto simp: inserted_def placed_def)
qed

lemma fitting_hole:
  assumes inv: "mm_inv lo hi mm" and h: "h \<in> set (hole_stack mm)" and sz: "0 < sz" "sz < MM_LIMIT"
    and al: "0 \<le> al" "al < 4294967296" and adj: "adjust_shrinks lo hi mm c narrow"
    and nar: "hole_lo lo mm h \<le> fst (narrow (hole_lo lo mm h, hole_hi hi mm h))"
      "snd (narrow (hole_lo lo mm h, hole_hi hi mm h)) \<le> hole_hi hi mm h"
  shows "0 \<le> fst (adjusted lo hi mm c narrow h) \<and> fst (adjusted lo hi mm c narrow h) < MM_LIMIT \<and>
      0 \<le> snd (adjusted lo hi mm c narrow h) \<and> snd (adjusted lo hi mm c narrow h) < MM_LIMIT"
    and "adjusted lo hi mm c narrow h = (s, e) \<Longrightarrow> hole_fits lo hi mm sz al c narrow h \<Longrightarrow>
      align_up s al + sz \<le> e \<and> fst (narrow (hole_lo lo mm h, hole_hi hi mm h)) \<le> align_up s al \<and>
      e \<le> snd (narrow (hole_lo lo mm h, hole_hi hi mm h)) \<and> aligned al (align_up s al)"
proof -
  have b: "0 \<le> hole_lo lo mm h" "hole_hi hi mm h < MM_LIMIT"
    using hole_bounds [OF inv hole_stack_ring(1) [OF inv h]] inv by (auto simp: mm_inv_def)
  note a = adjust_shrinksD [OF adj h]
  show r: "0 \<le> fst (adjusted lo hi mm c narrow h) \<and> fst (adjusted lo hi mm c narrow h) < MM_LIMIT \<and>
      0 \<le> snd (adjusted lo hi mm c narrow h) \<and> snd (adjusted lo hi mm c narrow h) < MM_LIMIT"
    using a b nar by simp
  assume se: "adjusted lo hi mm c narrow h = (s, e)" and fits: "hole_fits lo hi mm sz al c narrow h"
  have r': "0 \<le> s" "s < MM_LIMIT" "0 \<le> e" "e < MM_LIMIT" using r se by auto
  have "align_up s al + sz \<le> e"
    using fits se check_free_hole_fits [OF r' sz al] check_free_hole_iff [OF r' sz al] by (simp add: hole_fits_def)
  then show "align_up s al + sz \<le> e \<and> fst (narrow (hole_lo lo mm h, hole_hi hi mm h)) \<le> align_up s al \<and>
      e \<le> snd (narrow (hole_lo lo mm h, hole_hi hi mm h)) \<and> aligned al (align_up s al)"
    using align_up_props [OF r'(1,2) al] a se by auto
qed

lemma insert_node_generic_result:
  assumes inv: "mm_inv lo hi mm" and n: "cleared mm n" and sz: "0 < sz" "sz < MM_LIMIT"
    and al: "0 \<le> al" "al < 4294967296" and adj: "adjust_shrinks lo hi mm c id"
  shows "\<exists>r mm'. drm_mm_insert_node_generic mm n sz al c = Some (r, mm') \<and>
    (if \<exists>h \<in> set (hole_stack mm). hole_fits lo hi mm sz al c id h
     then r = 0 \<and> inserted lo hi mm n sz al mm' else r = - ENOSPC \<and> mm' = mm)"
proof -
  note fh = fitting_hole [OF inv _ sz al adj, simplified]
  have "scanned_blocks mm = 0" using inv by (simp add: mm_inv_def)
  then have s: "drm_mm_search_free_generic mm sz al c False = Some (find (hole_fits lo hi mm sz al c id) (hole_stack mm))"
    by (simp add: drm_mm_search_free_generic_def search_first_fit [OF inv subset_refl sz al fh(1)])
  show ?thesis
  proof (cases "find (hole_fits lo hi mm sz al c id) (hole_stack mm)")
    case None
    then have "\<not> (\<exists>h \<in> set (hole_stack mm). hole_fits lo hi mm sz al c id h)" by (auto simp: find_None_iff)
    with None show ?thesis by (simp add: drm_mm_insert_node_generic_def s)
  next
    case (Some h)
    then have h: "h \<in> set (hole_stack mm)" and fits: "hole_fits lo hi mm sz al c id h"
      by (auto simp: find_Some_iff)
    obtain s e where se: "adjusted lo hi mm c id h = (s, e)" by force
    note up = fh(2) [OF h se fits]
    have ah: "adjust_hole mm h c (hole_lo lo mm h, hole_hi hi mm h) = (s, e)"
      using se by (simp add: adjusted_def)
    note pl = insert_helper_placed [OF inv h n ah, of al sz]
    have "inserted lo hi mm n sz al (place h n (align_up s al) sz c (hole_lo lo mm h) (hole_hi hi mm h) mm)"
      using up sz by (intro placed_inserted [OF inv h n pl(2)]) auto
    moreover have "\<exists>h \<in> set (hole_stack mm). hole_fits lo hi mm sz al c id h" using h fits by blast
    ultimately show ?thesis using up sz by (simp add: drm_mm_insert_node_generic_def s Some pl(1))
  qed
qed

lemma insert_in_range_result:
  assumes inv: "mm_inv lo hi mm" and n: "cleared mm n" and sz: "0 < sz" "sz < MM_LIMIT"
    and al: "0 \<le> al" "al < 4294967296" and adj: "adjust_shrinks lo hi mm c (narrow_range rs re)"
  shows "\<exists>r mm'. drm_mm_insert_node_in_range_generic mm n sz al c rs re = Some (r, mm') \<and>
    (if \<exists>h \<in> set (hole_stack mm). hole_fits lo hi mm sz al c (narrow_range rs re) h
     then r = 0 \<and> inserted lo hi mm n sz al mm' \<and>
       rs \<le> n_start (mm_nodes mm' n) \<and> n_start (mm_nodes mm' n) + sz \<le> re
     else r = - ENOSPC \<and> mm' = mm)"
proof -
  have nar: "hole_lo lo mm h \<le> fst (narrow_range rs re (hole_lo lo mm h, hole_hi hi mm h))"
      "snd (narrow_range rs re (hole_lo lo mm h, hole_hi hi mm h)) \<le> hole_hi hi mm h"
      "rs \<le> fst (narrow_range rs re (hole_lo lo mm h, hole_hi hi mm h))"
      "snd (narrow_range rs re (hole_lo lo mm h, hole_hi hi mm h)) \<le> re" for h
    by (auto simp: narrow_range_def)
  note fh = fitting_hole [OF inv _ sz al adj nar(1,2)]
  have "scanned_blocks mm = 0" using inv by (simp add: mm_inv_def)
  then have s: "drm_mm_search_free_in_range_generic mm sz al c rs re False =
      Some (find (hole_fits lo hi mm sz al c (narrow_range rs re)) (hole_stack mm))"
    by (simp add: drm_mm_search_free_in_range_generic_def search_first_fit [OF inv subset_refl sz al fh(1)])
  show ?thesis
  proof (cases "find (hole_fits lo hi mm sz al c (narrow_range rs re)) (hole_stack mm)")
    case None
    then have "\<not> (\<exists>h \<in> set (hole_stack mm). hole_fits lo hi mm sz al c (narrow_range rs re) h)"
      by (auto simp: find_None_iff)
    with None show ?thesis by (simp add: drm_mm_insert_node_in_range_generic_def s)
  next
    case (Some h)
    then have h: "h \<in> set (hole_stack mm)" and fits: "hole_fits lo hi mm sz al c (narrow_range rs re) h"
      by (auto simp: find_Some_iff)
    obtain s e where se: "adjusted lo hi mm c (narrow_range rs re) h = (s, e)" by force
    note up = fh(2) [OF h se fits]
    have ah: "adjust_hole mm h c (narrow_range rs re (hole_lo lo mm h, hole_hi hi mm h)) = (s, e)"
      using se by (simp add: adjusted_def)
    have lim: "hole_lo lo mm h \<le> align_up s al" "align_up s al + sz \<le> e" "e \<le> min re (hole_hi hi mm h)" "rs \<le> align_up s al"
      using up nar [of h] by auto
    note pl = insert_helper_range_placed [OF inv h n ah lim(1-3) sz(1)]
    have "inserted lo hi mm n sz al (place h n (align_up s al) sz c (hole_lo lo mm h) (hole_hi hi mm h) mm)"
      using up lim sz by (intro placed_inserted [OF inv h n pl(2)]) auto
    moreover have "n_start (mm_nodes (place h n (align_up s al) sz c (hole_lo lo mm h) (hole_hi hi mm h) mm) n) = align_up s al"
      using pl(2) by (simp add: placed_def)
    moreover have "\<exists>h \<in> set (hole_stack mm). hole_fits lo hi mm sz al c (narrow_range rs re) h" using h fits by blast
    ultimately show ?thesis using lim by (simp add: drm_mm_insert_node_in_range_generic_def s Some pl(1))
  qed
qed

subsection \<open>Removal\<close>

lemma pred_in_props:
  "n \<in> set xs \<Longrightarrow> distinct (x # xs) \<Longrightarrow> pred_in n (x # xs) d \<in> set (x # xs) \<and> pred_in n (x # xs) d \<noteq> n"
  by (induction xs arbitrary: x) auto

lemma remove_node_result:
  assumes inv: "mm_inv lo hi mm" and n: "n \<in> set (node_list mm)"
  shows "\<exists>mm'. drm_mm_remove_node n mm = Some mm' \<and> mm_inv lo hi mm' \<and> cleared mm' n \<and>
    node_list mm' = remove1 n (node_list mm) \<and> hole_stack mm' \<noteq> [] \<and>
    hd (hole_stack mm') = prev_node mm n \<and>
    (\<forall>m. n_start (mm_nodes mm' m) = n_start (mm_nodes mm m) \<and> n_size (mm_nodes mm' m) = n_size (mm_nodes mm m))"
proof -
  define p where "p = prev_node mm n"
  have d: "distinct (head_node # node_list mm)" using inv by (simp add: mm_inv_def ring_def)
  have p: "p \<in> set (ring mm)" "p \<noteq> n"
    using pred_in_props [OF n d, of head_node] by (simp_all add: p_def prev_node_def ring_def)
  have nr: "n \<in> set (ring mm)" "n \<noteq> head_node" using n d by (auto simp: ring_def)
  note b = hole_bounds [OF inv nr(1)]
  define hs where "hs = (if hole_follows (mm_nodes mm n) then remove1 n (hole_stack mm) else hole_stack mm)"
  define mm' where "mm' = upd_node n (\<lambda>x. x\<lparr>allocated := False\<rparr>)
    ((upd_node p (\<lambda>x. x\<lparr>hole_follows := True\<rparr>) mm)\<lparr>hole_stack := p # remove1 p hs, node_list := remove1 n (node_list mm)\<rparr>)"
  have s: "set (hole_stack mm) = {a \<in> set (ring mm). hole_follows (mm_nodes mm a)}" "distinct (hole_stack mm)"
    using inv by (simp_all add: mm_inv_def)
  have hs': "set hs = set (hole_stack mm) - {n}" "distinct hs" using s by (auto simp: hs_def)
  have pid: "(mm_nodes mm p)\<lparr>hole_follows := True\<rparr> = mm_nodes mm p" if "hole_follows (mm_nodes mm p)"
    using that by (rule node_hole_id [OF eqTrueI])
  have rm: "drm_mm_remove_node n mm = Some mm'"
  proof -
    have "remove1 p hs = hs" if "\<not> hole_follows (mm_nodes mm p)"
      using that s hs' p by (intro remove1_idem) auto
    moreover have "(mm_nodes mm)(n := x, p := (mm_nodes mm p)\<lparr>hole_follows := True\<rparr>) = (mm_nodes mm)(n := x)"
      if "hole_follows (mm_nodes mm p)" for x
      using pid [OF that] p(2) by (intro ext) simp
    moreover have "\<not> (scanned_block (mm_nodes mm n) \<or> scanned_prev_free (mm_nodes mm n) \<or> scanned_next_free (mm_nodes mm n))"
      using inv nr by (auto simp: mm_inv_def)
    ultimately show ?thesis
      using b(2,4) p(2)
      by (auto simp: drm_mm_remove_node_def p_def [symmetric] hole_start_eq [OF inv nr(1)] hole_end_eq [OF inv]
          Let_def mm'_def hs_def upd_node_def fun_upd_twist)
  qed
  have rl: "ring mm' = head_node # remove1 n (node_list mm)" by (simp add: mm'_def ring_def)
  have sr: "set (ring mm') = set (ring mm) - {n}" using d nr unfolding rl by (auto simp: ring_def)
  have same: "n_start (mm_nodes mm' m) = n_start (mm_nodes mm m)" "n_size (mm_nodes mm' m) = n_size (mm_nodes mm m)"
    "scanned_block (mm_nodes mm' m) = scanned_block (mm_nodes mm m)"
    "scanned_prev_free (mm_nodes mm' m) = scanned_prev_free (mm_nodes mm m)"
    "scanned_next_free (mm_nodes mm' m) = scanned_next_free (mm_nodes mm m)" for m
    using p by (auto simp: mm'_def)
  have hf: "hole_follows (mm_nodes mm' m) \<longleftrightarrow> m = p \<or> hole_follows (mm_nodes mm m)" for m
    using p by (auto simp: mm'_def)
  have lay: "layout (mm_nodes mm') lo head_node (remove1 n (node_list mm)) hi"
  proof (rule layout_remove [where N = "mm_nodes mm" and d = head_node])
    show "layout (mm_nodes mm) lo head_node (node_list mm) hi" using inv by (simp add: mm_inv_def)
  qed (use n d same hf in \<open>auto simp: p_def prev_node_def\<close>)
  have hst: "set (hole_stack mm') = {a \<in> set (ring mm'). hole_follows (mm_nodes mm' a)}" "distinct (hole_stack mm')"
    using hs' s p sr hf by (auto simp: mm'_def)
  have al: "allocated (mm_nodes mm' a)" if "a \<in> set (node_list mm')" for a
    using that d inv p by (auto simp: mm'_def mm_inv_def)
  have "mm_inv lo hi mm'"
    unfolding mm_inv_def
    using inv hst al lay same sr rl d by (auto simp: mm_inv_def mm'_def [THEN arg_cong [where f = node_list]] mm'_def [THEN arg_cong [where f = scanned_blocks]])
  moreover have "cleared mm' n"
    using sr same inv nr by (auto simp: cleared_def mm_inv_def) (simp add: mm'_def)
  ultimately show ?thesis
    using rm same by (auto simp: mm'_def p_def)
qed


subsection \<open>Setup\<close>

lemma init_inv:
  assumes "0 \<le> lo" "0 < sz" "lo + sz < MM_LIMIT"
  shows "mm_inv lo (lo + sz) (drm_mm_init mm lo sz)"
proof -
  have "u64 (lo + sz) = lo + sz" using assms by (intro u64_id) (auto simp: MM_LIMIT_def)
  then show ?thesis
    using assms by (auto simp: drm_mm_init_def mm_inv_def ring_def Let_def)
qed

lemma init_unused: "unused_nodes (drm_mm_init mm lo sz) = []" "num_unused (drm_mm_init mm lo sz) = 0"
  "node_list (drm_mm_init mm lo sz) = []" "color_adjust (drm_mm_init mm lo sz) = None"
  by (simp_all add: drm_mm_init_def Let_def)

subsection \<open>Node structures\<close>

text \<open>Structures that are not on the ring do not matter.\<close>

lemma start_after_cong:
  "(\<And>x. x \<in> set xs \<Longrightarrow> n_start (N' x) = n_start (N x)) \<Longrightarrow> start_after N' h xs hi = start_after N h xs hi"
  by (induction N h xs hi rule: start_after.induct) auto

lemma outside_ring:
  assumes "n \<notin> set (ring mm)"
  shows "mm_inv lo hi (upd_node n f mm) = mm_inv lo hi mm"
    "h \<in> set (ring mm) \<Longrightarrow> hole_lo lo (upd_node n f mm) h = hole_lo lo mm h"
    "hole_hi hi (upd_node n f mm) h = hole_hi hi mm h"
proof -
  have nh: "head_node \<noteq> n" and nl: "n \<notin> set (node_list mm)" using assms by (auto simp: ring_def)
  have "layout (mm_nodes (upd_node n f mm)) lo head_node (node_list mm) hi =
      layout (mm_nodes mm) lo head_node (node_list mm) hi"
    using nh nl by (intro layout_cong) auto
  then show "mm_inv lo hi (upd_node n f mm) = mm_inv lo hi mm"
    unfolding mm_inv_def using nh nl assms by (auto cong: conj_cong simp: ring_def)
  show "h \<in> set (ring mm) \<Longrightarrow> hole_lo lo (upd_node n f mm) h = hole_lo lo mm h"
    using assms by (auto simp: hole_lo_def end_of_def)
  show "hole_hi hi (upd_node n f mm) h = hole_hi hi mm h"
    unfolding hole_hi_def ring_sels using assms by (intro start_after_cong) auto
qed

lemma kmalloc_fresh:
  assumes "mm_inv lo hi mm" "n \<notin> set (ring mm)"
  shows "drm_mm_kmalloc mm (Some n) = (Some n, upd_node n (\<lambda>_. zero_node) mm)"
    "mm_inv lo hi (upd_node n (\<lambda>_. zero_node) mm)" "cleared (upd_node n (\<lambda>_. zero_node) mm) n"
  using assms outside_ring(1) [OF assms(2)] by (simp_all add: drm_mm_kmalloc_def cleared_def zero_node_def)

text \<open>The cache of spare structures.\<close>

definition unused_inv :: "drm_mm \<Rightarrow> bool" where
  "unused_inv mm \<longleftrightarrow> num_unused mm = int (length (unused_nodes mm)) \<and> num_unused mm \<le> MM_UNUSED_TARGET \<and>
     distinct (unused_nodes mm) \<and> (\<forall>a \<in> set (unused_nodes mm). cleared mm a)"

lemma remove_node_unused:
  assumes "drm_mm_remove_node n mm = Some mm'"
  shows "unused_nodes mm' = unused_nodes mm" "num_unused mm' = num_unused mm"
  using assms by (auto simp: drm_mm_remove_node_def Let_def bind_eq_Some_conv split: if_splits)

lemma remove_node_others:
  assumes "drm_mm_remove_node n mm = Some mm'" "m \<noteq> n" "m \<noteq> prev_node mm n"
  shows "mm_nodes mm' m = mm_nodes mm m"
  using assms by (auto simp: drm_mm_remove_node_def Let_def bind_eq_Some_conv split: if_splits)

lemma put_block_result:
  assumes inv: "mm_inv lo hi mm" and un: "unused_inv mm" and n: "n \<in> set (node_list mm)"
  shows "\<exists>mm'. drm_mm_put_block n mm = Some mm' \<and> mm_inv lo hi mm' \<and> unused_inv mm' \<and>
    node_list mm' = remove1 n (node_list mm)"
proof -
  obtain m1 where m1: "drm_mm_remove_node n mm = Some m1" "mm_inv lo hi m1" "cleared m1 n"
    "node_list m1 = remove1 n (node_list mm)"
    using remove_node_result [OF inv n] by blast
  note u = remove_node_unused [OF m1(1)]
  have d: "distinct (head_node # node_list mm)" using inv by (simp add: mm_inv_def ring_def)
  have pr: "prev_node mm n \<in> set (ring mm)"
    using pred_in_props [OF n d, of head_node] by (simp add: prev_node_def ring_def)
  have cl: "cleared m1 a" if "a \<in> set (unused_nodes mm)" for a
  proof -
    have a: "cleared mm a" using un that by (simp add: unused_inv_def)
    then have "a \<noteq> n" "a \<noteq> prev_node mm n" using n pr by (auto simp: cleared_def ring_def)
    then have "mm_nodes m1 a = mm_nodes mm a" by (rule remove_node_others [OF m1(1)])
    moreover have "set (ring m1) \<subseteq> set (ring mm)" using m1(4) by (auto simp: ring_def dest: notin_set_remove1)
    ultimately show ?thesis using a by (auto simp: cleared_def)
  qed
  have nu: "n \<notin> set (unused_nodes mm)" using un n by (auto simp: unused_inv_def cleared_def ring_def)
  have inv': "mm_inv lo hi (m1\<lparr>unused_nodes := us, num_unused := k\<rparr>)" for us k
    using m1(2) by (simp add: mm_inv_def ring_def)
  have cl': "cleared (m1\<lparr>unused_nodes := us, num_unused := k\<rparr>) a = cleared m1 a" for us k a
    by (simp add: cleared_def ring_def)
  show ?thesis
    using m1 u cl nu un inv' cl' by (auto simp: drm_mm_put_block_def unused_inv_def MM_UNUSED_TARGET_def)
qed

lemma pre_get_result:
  assumes "drm_mm_pre_get mm mems = (r, mm')" "num_unused mm = int (length (unused_nodes mm))"
  shows "num_unused mm' = int (length (unused_nodes mm')) \<and>
    (r = 0 \<longleftrightarrow> 2 \<le> num_unused mm') \<and> (r = 0 \<or> r = - ENOMEM) \<and> num_unused mm \<le> num_unused mm'"
  using assms
proof (induction mm mems rule: drm_mm_pre_get.induct)
  case (1 mm mems)
  show ?case
  proof (cases "num_unused mm < MM_UNUSED_TARGET \<and> (\<exists>a rest. mems = Some a # rest)")
    case True
    then obtain a rest where m: "num_unused mm < MM_UNUSED_TARGET" "mems = Some a # rest" by blast
    let ?m = "(upd_node a (\<lambda>_. zero_node) mm)\<lparr>num_unused := num_unused mm + 1, unused_nodes := unused_nodes mm @ [a]\<rparr>"
    have "drm_mm_pre_get ?m rest = (r, mm')" using 1(2) m by (simp add: drm_mm_pre_get.simps [of mm])
    with 1(1) [OF m, of a] 1(3) show ?thesis by auto
  next
    case False
    then show ?thesis
      using 1(2,3) by (auto simp: drm_mm_pre_get.simps [of mm] errno_defs MM_UNUSED_TARGET_def
          split: list.splits option.splits if_splits)
  qed
qed


subsection \<open>Reserving a given range\<close>

lemma create_block_at_placed:
  assumes "h \<noteq> n" "hole_follows (mm_nodes mm h)" "hs \<le> st" "u64 (st + sz) = st + sz" "st + sz \<le> he"
  shows "placed h n st sz hs he mm (create_block_at h n st sz hs he mm)"
  using assms
  by (cases "st = hs"; cases "st + sz < he";
      simp add: placed_def create_block_at_def Let_def node_hole_id ring_def)

definition hole_covers :: "int \<Rightarrow> int \<Rightarrow> drm_mm \<Rightarrow> int \<Rightarrow> int \<Rightarrow> addr \<Rightarrow> bool" where
  "hole_covers lo hi mm st sz h \<longleftrightarrow> hole_lo lo mm h \<le> st \<and> st + sz \<le> hole_hi hi mm h"

lemma create_block_loop_find:
  assumes inv: "mm_inv lo hi mm" and "set hs \<subseteq> set (hole_stack mm)" and u: "u64 (st + sz) = st + sz"
    and n: "n \<notin> set (ring mm)"
  shows "create_block_loop hs st sz (Some n) mm =
    Some (case find (hole_covers lo hi mm st sz) hs of None \<Rightarrow> (None, mm)
      | Some h \<Rightarrow> (Some n, create_block_at h n st sz (hole_lo lo mm h) (hole_hi hi mm h) (upd_node n (\<lambda>_. zero_node) mm)))"
  using assms(2)
proof (induction hs)
  case (Cons h hs)
  then have h: "h \<in> set (hole_stack mm)" by simp
  have c: "(hole_lo lo mm h > st \<or> hole_hi hi mm h < u64 (st + sz)) \<longleftrightarrow> \<not> hole_covers lo hi mm st sz h"
    by (auto simp: hole_covers_def u)
  show ?case
    using Cons by (simp add: hole_start_Some [OF inv h] hole_end_eq [OF inv] c kmalloc_fresh [OF inv n] del: not_less)
qed simp

lemma create_block_result:
  assumes inv: "mm_inv lo hi mm" and n: "n \<notin> set (ring mm)" and st: "0 \<le> st" "0 < sz" "st + sz < MM_LIMIT"
  shows "\<exists>r mm'. drm_mm_create_block mm st sz (Some n) = Some (r, mm') \<and>
    (if \<exists>h \<in> set (hole_stack mm). hole_covers lo hi mm st sz h
     then r = Some n \<and> inserted lo hi mm n sz 0 mm' \<and> n_start (mm_nodes mm' n) = st
     else r = None \<and> mm' = mm)"
proof -
  have u: "u64 (st + sz) = st + sz" using st by (intro u64_id) (auto simp: MM_LIMIT_def)
  note l = create_block_loop_find [OF inv subset_refl u n]
  show ?thesis
  proof (cases "find (hole_covers lo hi mm st sz) (hole_stack mm)")
    case None
    then have "\<not> (\<exists>h \<in> set (hole_stack mm). hole_covers lo hi mm st sz h)" by (auto simp: find_None_iff)
    with None l show ?thesis by (simp add: drm_mm_create_block_def)
  next
    case (Some h)
    then have h: "h \<in> set (hole_stack mm)" and c: "hole_covers lo hi mm st sz h" by (auto simp: find_Some_iff)
    note hr = hole_stack_ring [OF inv h]
    let ?m = "upd_node n (\<lambda>_. zero_node) mm"
    note k = kmalloc_fresh [OF inv n]
    have hn: "h \<noteq> n" using hr n by auto
    have h': "h \<in> set (hole_stack ?m)" using h by simp
    have lohi: "hole_lo lo ?m h = hole_lo lo mm h" "hole_hi hi ?m h = hole_hi hi mm h"
      using outside_ring(2,3) [OF n] hr by auto
    have pl: "placed h n st sz (hole_lo lo ?m h) (hole_hi hi ?m h) ?m
        (create_block_at h n st sz (hole_lo lo mm h) (hole_hi hi mm h) ?m)"
      unfolding lohi using hn hr c u by (intro create_block_at_placed) (auto simp: hole_covers_def)
    have "inserted lo hi ?m n sz 0 (create_block_at h n st sz (hole_lo lo mm h) (hole_hi hi mm h) ?m)"
      using c st by (intro placed_inserted [OF k(2) h' k(3) pl]) (auto simp: hole_covers_def lohi aligned_def)
    moreover have "inserted lo hi ?m n sz 0 m' = inserted lo hi mm n sz 0 m'" for m'
      using n by (auto simp: inserted_def ring_def)
    ultimately show ?thesis
      using Some l h c pl by (auto simp: drm_mm_create_block_def placed_def)
  qed
qed

subsection \<open>Scanning\<close>

lemma insert_after_pred:
  "n \<in> set xs \<Longrightarrow> distinct (x # xs) \<Longrightarrow> insert_after (pred_in n (x # xs) d) n (x # remove1 n xs) = x # xs"
proof (induction xs arbitrary: x)
  case (Cons a xs)
  show ?case
  proof (cases "a = n")
    case False
    then have n: "n \<in> set xs" "distinct (a # xs)" using Cons.prems by auto
    then have "pred_in n (a # xs) d \<noteq> x" using pred_in_props [OF n, of d] Cons.prems by auto
    with False Cons.IH [OF n] show ?thesis by simp
  qed simp
qed simp

fun scan_add_all :: "addr list \<Rightarrow> drm_mm \<Rightarrow> drm_mm option" where
  "scan_add_all [] mm = Some mm"
| "scan_add_all (n # ns) mm = do { (_, mm') \<leftarrow> drm_mm_scan_add_block n mm; scan_add_all ns mm' }"

fun scan_remove_all :: "addr list \<Rightarrow> drm_mm \<Rightarrow> drm_mm option" where
  "scan_remove_all [] mm = Some mm"
| "scan_remove_all (n # ns) mm = do { (_, mm') \<leftarrow> drm_mm_scan_remove_block n mm; scan_remove_all ns mm' }"

text \<open>
  Two managers agree up to the bookkeeping of the scan, and for nodes outside \<open>S\<close> also on what
  the scan stored in the node.
\<close>

definition scan_same :: "addr set \<Rightarrow> drm_mm \<Rightarrow> drm_mm \<Rightarrow> bool" where
  "scan_same S mm mm' \<longleftrightarrow> node_list mm' = node_list mm \<and> hole_stack mm' = hole_stack mm \<and>
     (\<forall>a. hole_follows (mm_nodes mm' a) = hole_follows (mm_nodes mm a) \<and>
          n_start (mm_nodes mm' a) = n_start (mm_nodes mm a) \<and> n_size (mm_nodes mm' a) = n_size (mm_nodes mm a) \<and>
          allocated (mm_nodes mm' a) = allocated (mm_nodes mm a) \<and>
          scanned_block (mm_nodes mm' a) = scanned_block (mm_nodes mm a) \<and>
          scanned_prev_free (mm_nodes mm' a) = scanned_prev_free (mm_nodes mm a) \<and>
          scanned_next_free (mm_nodes mm' a) = scanned_next_free (mm_nodes mm a)) \<and>
     scanned_blocks mm' = scanned_blocks mm \<and>
     (\<forall>a. a \<notin> S \<longrightarrow> scan_prev (mm_nodes mm' a) = scan_prev (mm_nodes mm a) \<and>
          scanned_preceeds_hole (mm_nodes mm' a) = scanned_preceeds_hole (mm_nodes mm a))"

lemma scan_add_block_effect:
  assumes n: "n \<in> set (node_list mm)" and d: "distinct (ring mm)" and ns: "\<not> scanned_block (mm_nodes mm n)"
  shows "\<exists>b mm'. drm_mm_scan_add_block n mm = Some (b, mm') \<and>
    node_list mm' = remove1 n (node_list mm) \<and> hole_stack mm' = hole_stack mm \<and>
    scanned_blocks mm' = u32 (scanned_blocks mm + 1) \<and>
    (\<forall>a. a \<noteq> n \<longrightarrow> a \<noteq> prev_node mm n \<longrightarrow> mm_nodes mm' a = mm_nodes mm a) \<and>
    mm_nodes mm' (prev_node mm n) = (mm_nodes mm (prev_node mm n))\<lparr>hole_follows := True\<rparr> \<and>
    mm_nodes mm' n = (mm_nodes mm n)\<lparr>scanned_block := True,
      scanned_preceeds_hole := hole_follows (mm_nodes mm (prev_node mm n)),
      scan_prev := prev_node mm n, scan_next := prev_scanned_node mm\<rparr>"
proof -
  have p: "prev_node mm n \<noteq> n"
    using pred_in_props [OF n, of head_node head_node] d by (simp add: prev_node_def ring_def)
  have pr: "prev_node (upd_node a f (mm\<lparr>scanned_blocks := k\<rparr>)) n = prev_node mm n" for a f k
    by (simp add: prev_node_def)
  have pick: "\<exists>b mm'. (if c then (True, x) else (False, y)) = (b, mm') \<and> P mm'" if "P x" "P y"
    for c x y and P :: "drm_mm \<Rightarrow> bool"
    using that by auto
  show ?thesis
    using p ns
    apply (simp add: drm_mm_scan_add_block_def Let_def pr drm_mm_hole_node_start_def case_prod_unfold
        split del: if_split)
    apply (rule pick)
     apply (simp_all add: pr)
    done
qed

lemma scan_remove_block_effect:
  assumes "scanned_block (mm_nodes mm n)" "scan_prev (mm_nodes mm n) = p" "p \<noteq> n" "p \<in> set (ring mm)"
  shows "\<exists>b mm'. drm_mm_scan_remove_block n mm = Some (b, mm') \<and>
    node_list mm' = tl (insert_after p n (ring mm)) \<and> hole_stack mm' = hole_stack mm \<and>
    scanned_blocks mm' = u32 (scanned_blocks mm - 1) \<and>
    (\<forall>a. a \<noteq> n \<longrightarrow> a \<noteq> p \<longrightarrow> mm_nodes mm' a = mm_nodes mm a) \<and>
    mm_nodes mm' p = (mm_nodes mm p)\<lparr>hole_follows := scanned_preceeds_hole (mm_nodes mm n)\<rparr> \<and>
    mm_nodes mm' n = (mm_nodes mm n)\<lparr>scanned_block := False\<rparr>"
  using assms by (cases "p = head_node") (simp_all add: drm_mm_scan_remove_block_def Let_def ring_def)

lemma scan_roundtrip:
  assumes "distinct ns" "set ns \<subseteq> set (node_list mm)" "distinct (ring mm)"
    and "\<And>n. n \<in> set ns \<Longrightarrow> \<not> scanned_block (mm_nodes mm n)"
    and "0 \<le> scanned_blocks mm" "scanned_blocks mm < 4294967296"
  shows "\<exists>m1 m2. scan_add_all ns mm = Some m1 \<and> scan_remove_all (rev ns) m1 = Some m2 \<and> scan_same (set ns) mm m2"
  using assms
proof (induction ns arbitrary: mm)
  case Nil
  then show ?case by (simp add: scan_same_def)
next
  case (Cons n ns)
  have n: "n \<in> set (node_list mm)" "\<not> scanned_block (mm_nodes mm n)" using Cons.prems by auto
  define p where "p = prev_node mm n"
  obtain b m1 where m1: "drm_mm_scan_add_block n mm = Some (b, m1)"
    "node_list m1 = remove1 n (node_list mm)" "hole_stack m1 = hole_stack mm"
    "scanned_blocks m1 = u32 (scanned_blocks mm + 1)"
    "\<And>a. a \<noteq> n \<Longrightarrow> a \<noteq> p \<Longrightarrow> mm_nodes m1 a = mm_nodes mm a"
    "mm_nodes m1 p = (mm_nodes mm p)\<lparr>hole_follows := True\<rparr>"
    "mm_nodes m1 n = (mm_nodes mm n)\<lparr>scanned_block := True, scanned_preceeds_hole := hole_follows (mm_nodes mm p),
      scan_prev := p, scan_next := prev_scanned_node mm\<rparr>"
    using scan_add_block_effect [OF n(1) Cons.prems(3) n(2)] p_def by blast
  have p: "p \<noteq> n" "p \<in> set (ring mm)"
    using pred_in_props [OF n(1), of head_node head_node] Cons.prems(3) by (auto simp: p_def prev_node_def ring_def)
  have "\<exists>m2 m3. scan_add_all ns m1 = Some m2 \<and> scan_remove_all (rev ns) m2 = Some m3 \<and> scan_same (set ns) m1 m3"
  proof (rule Cons.IH)
    show "set ns \<subseteq> set (node_list m1)" "distinct ns" "distinct (ring m1)"
      using Cons.prems m1(2) by (auto simp: ring_def)
    show "0 \<le> scanned_blocks m1" "scanned_blocks m1 < 4294967296"
      unfolding m1(4) by (simp_all add: u32_def)
    fix a assume "a \<in> set ns"
    then show "\<not> scanned_block (mm_nodes m1 a)"
      using Cons.prems m1(5) [of a] m1(6) by (cases "a = n"; cases "a = p") auto
  qed
  then obtain m2 m3 where m2: "scan_add_all ns m1 = Some m2" "scan_remove_all (rev ns) m2 = Some m3"
    and same: "scan_same (set ns) m1 m3" by blast
  have n3: "scanned_block (mm_nodes m3 n)" "scan_prev (mm_nodes m3 n) = p"
    "scanned_preceeds_hole (mm_nodes m3 n) = hole_follows (mm_nodes mm p)" "ring m3 = head_node # remove1 n (node_list mm)"
    using same m1 Cons.prems(1) by (auto simp: scan_same_def ring_def)
  have p3: "p \<in> set (ring m3)" using n3(4) p by (auto simp: ring_def)
  obtain b' m4 where m4: "drm_mm_scan_remove_block n m3 = Some (b', m4)"
    "node_list m4 = tl (insert_after p n (ring m3))" "hole_stack m4 = hole_stack m3"
    "scanned_blocks m4 = u32 (scanned_blocks m3 - 1)"
    "\<And>a. a \<noteq> n \<Longrightarrow> a \<noteq> p \<Longrightarrow> mm_nodes m4 a = mm_nodes m3 a"
    "mm_nodes m4 p = (mm_nodes m3 p)\<lparr>hole_follows := hole_follows (mm_nodes mm p)\<rparr>"
    "mm_nodes m4 n = (mm_nodes m3 n)\<lparr>scanned_block := False\<rparr>"
    using scan_remove_block_effect [OF n3(1,2) p(1) p3] n3(3) by auto
  have nl: "node_list m4 = node_list mm"
    using insert_after_pred [OF n(1), of head_node head_node] Cons.prems(3)
    unfolding m4(2) n3(4) p_def prev_node_def by (simp add: ring_def)
  have "scan_same (set (n # ns)) mm m4"
    unfolding scan_same_def
  proof (intro conjI allI impI)
    show "node_list m4 = node_list mm" by (rule nl)
    show "hole_stack m4 = hole_stack mm" using m4(3) same m1(3) by (simp add: scan_same_def)
    show "scanned_blocks m4 = scanned_blocks mm"
      using m4(4) same m1(4) Cons.prems(5,6) by (simp add: scan_same_def u32_def mod_simps)
  next
    fix a
    have sa: "hole_follows (mm_nodes m3 a) = hole_follows (mm_nodes m1 a)"
      "n_start (mm_nodes m3 a) = n_start (mm_nodes m1 a)" "n_size (mm_nodes m3 a) = n_size (mm_nodes m1 a)"
      "allocated (mm_nodes m3 a) = allocated (mm_nodes m1 a)"
      "scanned_block (mm_nodes m3 a) = scanned_block (mm_nodes m1 a)"
      "scanned_prev_free (mm_nodes m3 a) = scanned_prev_free (mm_nodes m1 a)"
      "scanned_next_free (mm_nodes m3 a) = scanned_next_free (mm_nodes m1 a)"
      using same by (simp_all add: scan_same_def)
    consider "a = n" | "a \<noteq> n" "a = p" | "a \<noteq> n" "a \<noteq> p" by blast
    then have r: "hole_follows (mm_nodes m4 a) = hole_follows (mm_nodes mm a) \<and>
      n_start (mm_nodes m4 a) = n_start (mm_nodes mm a) \<and> n_size (mm_nodes m4 a) = n_size (mm_nodes mm a) \<and>
      allocated (mm_nodes m4 a) = allocated (mm_nodes mm a) \<and>
      scanned_block (mm_nodes m4 a) = scanned_block (mm_nodes mm a) \<and>
      scanned_prev_free (mm_nodes m4 a) = scanned_prev_free (mm_nodes mm a) \<and>
      scanned_next_free (mm_nodes m4 a) = scanned_next_free (mm_nodes mm a)"
    proof cases
      case 1 with sa n(2) show ?thesis unfolding 1 m4(7) by (simp add: m1(7))
    next
      case 2 with sa show ?thesis unfolding 2 m4(6) by (simp add: m1(6))
    next
      case 3 with sa show ?thesis unfolding m4(5) [OF 3] by (simp add: m1(5) [OF 3])
    qed
    show "hole_follows (mm_nodes m4 a) = hole_follows (mm_nodes mm a)"
      "n_start (mm_nodes m4 a) = n_start (mm_nodes mm a)" "n_size (mm_nodes m4 a) = n_size (mm_nodes mm a)"
      "allocated (mm_nodes m4 a) = allocated (mm_nodes mm a)"
      "scanned_block (mm_nodes m4 a) = scanned_block (mm_nodes mm a)"
      "scanned_prev_free (mm_nodes m4 a) = scanned_prev_free (mm_nodes mm a)"
      "scanned_next_free (mm_nodes m4 a) = scanned_next_free (mm_nodes mm a)"
      using r by simp_all
    assume a: "a \<notin> set (n # ns)"
    have "scan_prev (mm_nodes m3 a) = scan_prev (mm_nodes m1 a) \<and>
      scanned_preceeds_hole (mm_nodes m3 a) = scanned_preceeds_hole (mm_nodes m1 a)"
      using same a by (simp add: scan_same_def)
    then have "scan_prev (mm_nodes m4 a) = scan_prev (mm_nodes mm a) \<and>
      scanned_preceeds_hole (mm_nodes m4 a) = scanned_preceeds_hole (mm_nodes mm a)"
      using a m1(5) [of a] m4(5) [of a] m1(6) m4(6) by (cases "a = p") simp_all
    then show "scan_prev (mm_nodes m4 a) = scan_prev (mm_nodes mm a)"
      "scanned_preceeds_hole (mm_nodes m4 a) = scanned_preceeds_hole (mm_nodes mm a)" by simp_all
  qed
  moreover have "scan_remove_all (rev (n # ns)) m2 = Some m4"
  proof -
    have "scan_remove_all (xs @ ys) m = scan_remove_all xs m \<bind> scan_remove_all ys" for xs ys m
      by (induction xs arbitrary: m) (auto split: Option.bind_split)
    with m2 m4 show ?thesis by simp
  qed
  ultimately show ?case using m1(1) m2(1) by auto
qed

end
