(* ===== verification/Drm_Mm_Thms.thy ===== *)
theory Drm_Mm_Thms
  imports Drm_Mm_Inv
begin

text \<open>
  The contract of a range allocator as a locale, its interpretation on the operations of
  \<open>Drm_Mm\<close>, and the properties of the allocator.
\<close>

section \<open>The contract of a range allocator\<close>

text \<open>
  A client names blocks by keys. \<open>ins\<close> answers whether it found room; the result \<open>None\<close> of
  an operation is a failed assertion. The client calls \<open>ins\<close> for keys that are not live and
  \<open>rem\<close> for live keys only.
\<close>

datatype 'k range_cmd = Alloc 'k int int | Free 'k

locale range_alloc =
  fixes inv :: "'s \<Rightarrow> bool" and live :: "'s \<Rightarrow> 'k \<Rightarrow> bool" and usable :: "'k \<Rightarrow> bool"
    and start_of :: "'s \<Rightarrow> 'k \<Rightarrow> int" and size_of :: "'s \<Rightarrow> 'k \<Rightarrow> int" and lo hi :: int
    and request_ok :: "int \<Rightarrow> int \<Rightarrow> bool"
    and ins :: "'s \<Rightarrow> 'k \<Rightarrow> int \<Rightarrow> int \<Rightarrow> (int \<times> 's) option" and rem :: "'k \<Rightarrow> 's \<Rightarrow> 's option"
  assumes ins_law: "inv s \<Longrightarrow> usable k \<Longrightarrow> \<not> live s k \<Longrightarrow> request_ok sz al \<Longrightarrow>
      \<exists>r s'. ins s k sz al = Some (r, s') \<and> inv s' \<and>
        (r = 0 \<and> live s' = (live s)(k := True) \<and> size_of s' k = sz \<or> r = - ENOSPC \<and> s' = s)"
    and rem_law: "inv s \<Longrightarrow> usable k \<Longrightarrow> live s k \<Longrightarrow> \<exists>s'. rem k s = Some s' \<and> inv s' \<and> live s' = (live s)(k := False)"
    and inv_inside: "inv s \<Longrightarrow> usable k \<Longrightarrow> live s k \<Longrightarrow> lo \<le> start_of s k \<and> 0 < size_of s k \<and> start_of s k + size_of s k \<le> hi"
    and inv_disjoint: "inv s \<Longrightarrow> usable k \<Longrightarrow> usable j \<Longrightarrow> live s k \<Longrightarrow> live s j \<Longrightarrow> k \<noteq> j \<Longrightarrow>
      start_of s k + size_of s k \<le> start_of s j \<or> start_of s j + size_of s j \<le> start_of s k"

text \<open>A guarded run, as the callers do it: they test whether a node is allocated first.\<close>

fun guarded_run :: "('s \<Rightarrow> 'k \<Rightarrow> bool) \<Rightarrow> ('s \<Rightarrow> 'k \<Rightarrow> int \<Rightarrow> int \<Rightarrow> (int \<times> 's) option) \<Rightarrow> ('k \<Rightarrow> 's \<Rightarrow> 's option)
    \<Rightarrow> 'k range_cmd list \<Rightarrow> 's \<Rightarrow> 's option" where
  "guarded_run live ins rem [] s = Some s"
| "guarded_run live ins rem (Alloc k sz al # cs) s =
     (if live s k then guarded_run live ins rem cs s
      else (case ins s k sz al of None \<Rightarrow> None | Some (_, s') \<Rightarrow> guarded_run live ins rem cs s'))"
| "guarded_run live ins rem (Free k # cs) s =
     (if \<not> live s k then guarded_run live ins rem cs s
      else (case rem k s of None \<Rightarrow> None | Some s' \<Rightarrow> guarded_run live ins rem cs s'))"

fun cmd_ok :: "('k \<Rightarrow> bool) \<Rightarrow> (int \<Rightarrow> int \<Rightarrow> bool) \<Rightarrow> 'k range_cmd \<Rightarrow> bool" where
  "cmd_ok usable request_ok (Alloc k sz al) \<longleftrightarrow> usable k \<and> request_ok sz al"
| "cmd_ok usable request_ok (Free k) \<longleftrightarrow> usable k"

context range_alloc
begin

lemma run_total:
  assumes "inv s" "list_all (cmd_ok usable request_ok) cs"
  shows "\<exists>s'. guarded_run live ins rem cs s = Some s' \<and> inv s'"
  using assms
proof (induction cs arbitrary: s)
  case (Cons c cs)
  show ?case
  proof (cases c)
    case (Alloc k sz al)
    with Cons show ?thesis using ins_law [of s k sz al] by (cases "live s k") force+
  next
    case (Free k)
    with Cons show ?thesis using rem_law [of s k] by (cases "live s k") force+
  qed
qed simp

lemma run_disjoint:
  assumes "inv s" "list_all (cmd_ok usable request_ok) cs"
  shows "\<exists>s'. guarded_run live ins rem cs s = Some s' \<and>
    (\<forall>k. usable k \<longrightarrow> live s' k \<longrightarrow> lo \<le> start_of s' k \<and> start_of s' k + size_of s' k \<le> hi) \<and>
    (\<forall>k j. usable k \<longrightarrow> usable j \<longrightarrow> live s' k \<longrightarrow> live s' j \<longrightarrow> k \<noteq> j \<longrightarrow>
       start_of s' k + size_of s' k \<le> start_of s' j \<or> start_of s' j + size_of s' j \<le> start_of s' k)"
  using run_total [OF assms] inv_inside inv_disjoint by metis

end

section \<open>The allocator meets the contract\<close>

text \<open>Nodes off the ring are cleared; no coloring is in use.\<close>

definition plain_inv :: "int \<Rightarrow> int \<Rightarrow> drm_mm \<Rightarrow> bool" where
  "plain_inv lo hi mm \<longleftrightarrow> mm_inv lo hi mm \<and> color_adjust mm = None \<and> (\<forall>a. a \<notin> set (ring mm) \<longrightarrow> cleared mm a)"

definition request_ok :: "int \<Rightarrow> int \<Rightarrow> bool" where
  "request_ok sz al \<longleftrightarrow> 0 < sz \<and> sz < MM_LIMIT \<and> 0 \<le> al \<and> al < 4294967296"

definition usable_node :: "addr \<Rightarrow> bool" where "usable_node a \<longleftrightarrow> a \<noteq> head_node"

lemma plain_shrinks:
  assumes "mm_inv lo hi mm" "color_adjust mm = None"
  shows "adjust_shrinks lo hi mm c id"
proof -
  have "hole_lo lo mm h < MM_LIMIT \<and> 0 \<le> hole_hi hi mm h" if "h \<in> set (hole_stack mm)" for h
    using hole_bounds [OF assms(1) hole_stack_ring(1) [OF assms(1) that]] assms(1) by (auto simp: mm_inv_def)
  then show ?thesis using assms(2) by (simp add: adjust_shrinks_def adjusted_def adjust_hole_def)
qed

lemma plain_shrinks_range:
  assumes "mm_inv lo hi mm" "color_adjust mm = None" "rs < MM_LIMIT" "0 \<le> re"
  shows "adjust_shrinks lo hi mm c (narrow_range rs re)"
proof -
  have "hole_lo lo mm h < MM_LIMIT \<and> 0 \<le> hole_hi hi mm h" if "h \<in> set (hole_stack mm)" for h
    using hole_bounds [OF assms(1) hole_stack_ring(1) [OF assms(1) that]] assms(1) by (auto simp: mm_inv_def)
  then show ?thesis using assms(2-4) by (auto simp: adjust_shrinks_def adjusted_def adjust_hole_def narrow_range_def)
qed

lemma search_in_stack:
  "search_free_loop mm sz al c nar b es best k = Some (Some h) \<Longrightarrow> h \<in> set es \<or> best = Some h"
  by (induction es arbitrary: best k)
    (fastforce simp: Let_def bind_eq_Some_conv case_prod_unfold split: if_split_asm)+

lemma insert_helper_frame:
  assumes "drm_mm_insert_helper h n sz al c mm = Some mm'"
  shows "color_adjust mm' = color_adjust mm" "x \<noteq> h \<Longrightarrow> x \<noteq> n \<Longrightarrow> mm_nodes mm' x = mm_nodes mm x"
  using assms by (auto simp: drm_mm_insert_helper_def Let_def bind_eq_Some_conv case_prod_unfold split: if_splits)

lemma insert_node_frame:
  assumes "drm_mm_insert_node_generic mm n sz al c = Some (r, mm')"
  shows "color_adjust mm' = color_adjust mm" "x \<notin> set (hole_stack mm) \<Longrightarrow> x \<noteq> n \<Longrightarrow> mm_nodes mm' x = mm_nodes mm x"
proof -
  have "color_adjust mm' = color_adjust mm \<and> (x \<notin> set (hole_stack mm) \<longrightarrow> x \<noteq> n \<longrightarrow> mm_nodes mm' x = mm_nodes mm x)"
    using assms
    by (auto simp: drm_mm_insert_node_generic_def drm_mm_search_free_generic_def bind_eq_Some_conv
        split: option.splits dest!: search_in_stack)
      (auto dest: insert_helper_frame(1), metis insert_helper_frame(2))
  then show "color_adjust mm' = color_adjust mm" "x \<notin> set (hole_stack mm) \<Longrightarrow> x \<noteq> n \<Longrightarrow> mm_nodes mm' x = mm_nodes mm x"
    by auto
qed

lemma insert_node_plain:
  assumes inv: "plain_inv lo hi mm" and n: "n \<notin> set (ring mm)" and rq: "request_ok sz al"
  shows "\<exists>r mm'. drm_mm_insert_node mm n sz al = Some (r, mm') \<and> plain_inv lo hi mm' \<and>
    (r = 0 \<and> inserted lo hi mm n sz al mm' \<or> r = - ENOSPC \<and> mm' = mm)"
proof -
  have i: "mm_inv lo hi mm" "color_adjust mm = None" "\<And>a. a \<notin> set (ring mm) \<Longrightarrow> cleared mm a"
    using inv by (auto simp: plain_inv_def)
  have q: "0 < sz" "sz < MM_LIMIT" "0 \<le> al" "al < 4294967296" using rq by (auto simp: request_ok_def)
  obtain r mm' where r: "drm_mm_insert_node_generic mm n sz al 0 = Some (r, mm')"
    "r = 0 \<and> inserted lo hi mm n sz al mm' \<or> r = - ENOSPC \<and> mm' = mm"
    using insert_node_generic_result [OF i(1) i(3) [OF n] q plain_shrinks [OF i(1,2)]] by metis
  note fr = insert_node_frame [OF r(1)]
  have "cleared mm' a" if "inserted lo hi mm n sz al mm'" "a \<notin> set (ring mm')" for a
  proof -
    have "a \<notin> set (ring mm)" "a \<noteq> n" using that by (auto simp: inserted_def ring_def)
    moreover from this have "a \<notin> set (hole_stack mm)" using hole_stack_ring [OF i(1)] by blast
    ultimately show ?thesis using i(3) [of a] fr(2) [of a] that(2) by (simp add: cleared_def)
  qed
  then have "plain_inv lo hi mm'" using r(2) inv fr(1) i(2) by (auto simp: plain_inv_def inserted_def)
  then show ?thesis using r by (auto simp: drm_mm_insert_node_def)
qed

lemma remove_node_plain:
  assumes inv: "plain_inv lo hi mm" and n: "n \<in> set (node_list mm)"
  shows "\<exists>mm'. drm_mm_remove_node n mm = Some mm' \<and> plain_inv lo hi mm' \<and> node_list mm' = remove1 n (node_list mm)"
proof -
  have i: "mm_inv lo hi mm" "color_adjust mm = None" "\<And>a. a \<notin> set (ring mm) \<Longrightarrow> cleared mm a"
    using inv by (auto simp: plain_inv_def)
  obtain mm' where r: "drm_mm_remove_node n mm = Some mm'" "mm_inv lo hi mm'" "cleared mm' n"
    "node_list mm' = remove1 n (node_list mm)"
    using remove_node_result [OF i(1) n] by blast
  have d: "distinct (head_node # node_list mm)" using i(1) by (simp add: mm_inv_def ring_def)
  have pr: "prev_node mm n \<in> set (ring mm')"
    using pred_in_props [OF n d, of head_node] d r(4) by (auto simp: prev_node_def ring_def)
  have ca: "color_adjust mm' = None"
    using r(1) i(2) by (auto simp: drm_mm_remove_node_def Let_def bind_eq_Some_conv split: if_splits)
  have "cleared mm' a" if "a \<notin> set (ring mm')" for a
  proof (cases "a = n")
    case False
    then have a: "a \<notin> set (ring mm)" "a \<noteq> prev_node mm n" using that r(4) d pr by (auto simp: ring_def)
    show ?thesis using i(3) [OF a(1)] remove_node_others [OF r(1) False a(2)] that by (simp add: cleared_def)
  qed (use r in simp)
  with r ca show ?thesis by (auto simp: plain_inv_def)
qed

lemma plain_live:
  assumes "plain_inv lo hi mm" "a \<noteq> head_node"
  shows "drm_mm_node_allocated mm a \<longleftrightarrow> a \<in> set (node_list mm)"
  using assms by (auto simp: plain_inv_def cleared_def drm_mm_node_allocated_def mm_inv_def ring_def)

text \<open>The embedded head node is never the subject of an operation.\<close>

definition node_live :: "drm_mm \<Rightarrow> addr \<Rightarrow> bool" where
  "node_live mm a \<longleftrightarrow> a \<noteq> head_node \<and> drm_mm_node_allocated mm a"

lemma plain_node_live: "plain_inv lo hi mm \<Longrightarrow> node_live mm a \<longleftrightarrow> a \<in> set (node_list mm)"
  using plain_live [of lo hi mm a] by (auto simp: node_live_def plain_inv_def mm_inv_def ring_def)

lemma mm_inv_extent:
  assumes "mm_inv lo hi mm" "a \<in> set (node_list mm)"
  shows "lo \<le> n_start (mm_nodes mm a)" "0 < n_size (mm_nodes mm a)" "n_start (mm_nodes mm a) + n_size (mm_nodes mm a) \<le> hi"
  using layout_bounds [of "mm_nodes mm" lo head_node "node_list mm" hi a] assms by (auto simp: mm_inv_def)

interpretation mm: range_alloc "plain_inv lo hi" node_live usable_node "\<lambda>mm a. n_start (mm_nodes mm a)"
  "\<lambda>mm a. n_size (mm_nodes mm a)" lo hi request_ok drm_mm_insert_node drm_mm_remove_node for lo hi
proof (unfold_locales, goal_cases)
  case (1 s k sz al)
  have "k \<notin> set (ring s)" using 1 plain_node_live [of lo hi s k] by (auto simp: ring_def usable_node_def)
  then obtain r s' where r: "drm_mm_insert_node s k sz al = Some (r, s')" "plain_inv lo hi s'"
    "r = 0 \<and> inserted lo hi s k sz al s' \<or> r = - ENOSPC \<and> s' = s"
    using insert_node_plain [of lo hi s k sz al] 1 by blast
  have "node_live s' = (node_live s)(k := True)" if "inserted lo hi s k sz al s'"
    using that by (auto simp: fun_eq_iff plain_node_live [OF r(2)] plain_node_live [OF 1(1)] inserted_def)
  then show ?case using r by (auto simp: inserted_def)
next
  case (2 s k)
  then have k: "k \<in> set (node_list s)" by (simp add: plain_node_live)
  obtain s' where r: "drm_mm_remove_node k s = Some s'" "plain_inv lo hi s'" "node_list s' = remove1 k (node_list s)"
    using remove_node_plain [OF 2(1) k] by blast
  have "distinct (node_list s)" using 2(1) by (simp add: plain_inv_def mm_inv_def ring_def)
  then have "node_live s' = (node_live s)(k := False)"
    using r(3) by (auto simp: fun_eq_iff plain_node_live [OF r(2)] plain_node_live [OF 2(1)])
  then show ?case using r by blast
next
  case (3 s k)
  then have "k \<in> set (node_list s)" "mm_inv lo hi s" by (simp_all add: plain_node_live, simp add: plain_inv_def)
  then show ?case using mm_inv_extent [of lo hi s k] by simp
next
  case (4 s k j)
  then have "k \<in> set (node_list s)" "j \<in> set (node_list s)" "mm_inv lo hi s"
    by (simp_all add: plain_node_live, simp add: plain_inv_def)
  then show ?case
    using layout_disjoint [of "mm_nodes s" lo head_node "node_list s" hi k j] 4(6)
    by (auto simp: mm_inv_def ring_def)
qed

lemma init_plain:
  assumes "0 \<le> lo" "0 < sz" "lo + sz < MM_LIMIT" "\<And>a. mm_nodes mm a = zero_node"
  shows "plain_inv lo (lo + sz) (drm_mm_init mm lo sz)"
  using init_inv [OF assms(1-3), of mm] assms(4)
  by (auto simp: plain_inv_def drm_mm_init_def Let_def cleared_def ring_def zero_node_def)

text \<open>The range of a node lies in the hole that its removal leaves.\<close>

lemma removed_inside:
  assumes "layout N pos x ns hi" "n \<in> set ns" "distinct (x # ns)"
  shows "end_of N pos x (pred_in n (x # ns) d) \<le> n_start (N n) \<and>
    n_start (N n) + n_size (N n) \<le> start_after N (pred_in n (x # ns) d) (x # remove1 n ns) hi"
  using assms
proof (induction ns arbitrary: pos x)
  case (Cons y ys)
  have l: "layout N (n_start (N y) + n_size (N y)) y ys hi" using Cons.prems(1) by simp
  show ?case
  proof (cases "y = n")
    case True
    have "n_start (N y) + n_size (N y) \<le> start_after N x (x # ys) hi"
      using layout_le [OF l] l by (cases ys) auto
    with True Cons.prems show ?thesis by (auto simp: end_of_def)
  next
    case False
    then have n: "n \<in> set ys" using Cons.prems by simp
    define p where "p = pred_in n (y # ys) d"
    have p: "p \<in> set (y # ys)" "p \<noteq> n" using pred_in_props [OF n, of y d] Cons.prems p_def by auto
    then have "p \<noteq> x" using Cons.prems by auto
    with False Cons.IH [OF l n] Cons.prems show ?thesis
      by (auto simp: p_def [symmetric] end_of_def split: if_splits)
  qed
qed simp

lemma scan_same_inv:
  assumes "scan_same S mm mm'" "mm_inv lo hi mm"
  shows "mm_inv lo hi mm'"
proof -
  have "layout (mm_nodes mm') lo head_node (node_list mm) hi = layout (mm_nodes mm) lo head_node (node_list mm) hi"
    using assms(1) by (intro layout_cong) (auto simp: scan_same_def)
  with assms show ?thesis by (simp add: mm_inv_def scan_same_def ring_def)
qed

section \<open>Properties of the allocator\<close>

subsection \<open>A concrete manager\<close>

text \<open>Memory with nothing in it, and a manager of the range from 0 to 1000 after a few operations.\<close>

definition blank_mm :: drm_mm where
  "blank_mm = \<lparr>mm_nodes = (\<lambda>_. zero_node), node_list = [], hole_stack = [], unused_nodes = [], num_unused = 0,
     scan_check_range = False, scan_alignment = 0, scan_color = 0, scan_size = 0, scan_hit_start = 0, scan_hit_end = 0,
     scanned_blocks = 0, scan_start = 0, scan_end = 0, prev_scanned_node = None, color_adjust = None\<rparr>"

definition fresh_mm :: drm_mm where "fresh_mm = drm_mm_init blank_mm 0 1000"

definition used_mm :: drm_mm where
  "used_mm = the (guarded_run node_live drm_mm_insert_node drm_mm_remove_node
     [Alloc 1 100 0, Alloc 2 300 0, Alloc 3 50 64, Free 2] fresh_mm)"

lemma fresh_plain: "plain_inv 0 1000 fresh_mm"
  using init_plain [of 0 1000 blank_mm] by (simp add: fresh_mm_def MM_LIMIT_def blank_mm_def)

lemma used_plain: "plain_inv 0 1000 used_mm"
  using mm.run_total [OF fresh_plain, of "[Alloc 1 100 0, Alloc 2 300 0, Alloc 3 50 64, Free 2]"]
  by (auto simp: used_mm_def usable_node_def head_node_def request_ok_def MM_LIMIT_def)

lemma used_inv: "mm_inv 0 1000 used_mm" "color_adjust used_mm = None"
  using used_plain by (simp_all add: plain_inv_def)

lemma used_nodes: "node_list used_mm = [1, 3] \<and> hole_stack used_mm = [1, 3] \<and>
   n_start (mm_nodes used_mm 1) = 0 \<and> n_start (mm_nodes used_mm 3) = 448"
  by code_simp

subsection \<open>Insertion\<close>

text \<open>
  C1: On a well-formed manager, \<^verbatim>\<open>drm_mm_insert_node_generic\<close> never fails an assertion. If some
  hole, as narrowed by the coloring callback, has room for an aligned block of the requested size,
  it returns 0: the node is then the only new one, has the requested size and alignment, lies in the
  managed range, overlaps no other node, moves no other node, and the manager is well formed
  again. If no hole has room it returns \<^verbatim>\<open>-ENOSPC\<close> and changes nothing.
\<close>

theorem drm_mm_insert_node_correct:
  assumes "mm_inv lo hi mm" "cleared mm n" "0 < sz" "sz < MM_LIMIT" "0 \<le> al" "al < 4294967296"
    and "adjust_shrinks lo hi mm c id"
  shows "\<exists>r mm'. drm_mm_insert_node_generic mm n sz al c = Some (r, mm') \<and>
    (if \<exists>h \<in> set (hole_stack mm). hole_fits lo hi mm sz al c id h
     then r = 0 \<and> inserted lo hi mm n sz al mm' else r = - ENOSPC \<and> mm' = mm)"
  by (rule insert_node_generic_result [OF assms])

lemma used_cleared: "cleared used_mm 2" "cleared used_mm 7"
  by code_simp+

lemma used_shrinks: "adjust_shrinks 0 1000 used_mm c id"
  by (rule plain_shrinks [OF used_inv])

theorem drm_mm_insert_node_correct_witness:
  "(\<exists>r mm'. drm_mm_insert_node_generic used_mm 7 200 128 0 = Some (r, mm') \<and>
    (if \<exists>h \<in> set (hole_stack used_mm). hole_fits 0 1000 used_mm 200 128 0 id h
     then r = 0 \<and> inserted 0 1000 used_mm 7 200 128 mm' else r = - ENOSPC \<and> mm' = used_mm)) \<and>
   map_option fst (drm_mm_insert_node_generic used_mm 7 200 128 0) = Some 0 \<and>
   map_option fst (drm_mm_insert_node_generic used_mm 7 600 0 0) = Some (- ENOSPC)"
proof (intro conjI)
  show "\<exists>r mm'. drm_mm_insert_node_generic used_mm 7 200 128 0 = Some (r, mm') \<and>
    (if \<exists>h \<in> set (hole_stack used_mm). hole_fits 0 1000 used_mm 200 128 0 id h
     then r = 0 \<and> inserted 0 1000 used_mm 7 200 128 mm' else r = - ENOSPC \<and> mm' = used_mm)"
    by (rule drm_mm_insert_node_correct [OF used_inv(1) used_cleared(2) _ _ _ _ used_shrinks])
      (simp_all add: MM_LIMIT_def)
qed code_simp+

text \<open>
  \<^verbatim>\<open>drm_mm_insert_node_in_range_generic\<close> behaves like the unrestricted insertion, and
  places the node inside the range that the caller asked for.
\<close>

theorem drm_mm_insert_node_in_range_correct:
  assumes "mm_inv lo hi mm" "cleared mm n" "0 < sz" "sz < MM_LIMIT" "0 \<le> al" "al < 4294967296"
    and "adjust_shrinks lo hi mm c (narrow_range rs re)"
  shows "\<exists>r mm'. drm_mm_insert_node_in_range_generic mm n sz al c rs re = Some (r, mm') \<and>
    (if \<exists>h \<in> set (hole_stack mm). hole_fits lo hi mm sz al c (narrow_range rs re) h
     then r = 0 \<and> inserted lo hi mm n sz al mm' \<and>
       rs \<le> n_start (mm_nodes mm' n) \<and> n_start (mm_nodes mm' n) + sz \<le> re
     else r = - ENOSPC \<and> mm' = mm)"
  by (rule insert_in_range_result [OF assms])

theorem drm_mm_insert_node_in_range_witness:
  "(\<exists>r mm'. drm_mm_insert_node_in_range_generic used_mm 7 100 0 0 500 700 = Some (r, mm') \<and>
    (if \<exists>h \<in> set (hole_stack used_mm). hole_fits 0 1000 used_mm 100 0 0 (narrow_range 500 700) h
     then r = 0 \<and> inserted 0 1000 used_mm 7 100 0 mm' \<and>
       500 \<le> n_start (mm_nodes mm' 7) \<and> n_start (mm_nodes mm' 7) + 100 \<le> 700
     else r = - ENOSPC \<and> mm' = used_mm)) \<and>
   map_option fst (drm_mm_insert_node_in_range_generic used_mm 7 100 0 0 500 700) = Some 0"
proof
  show "\<exists>r mm'. drm_mm_insert_node_in_range_generic used_mm 7 100 0 0 500 700 = Some (r, mm') \<and>
    (if \<exists>h \<in> set (hole_stack used_mm). hole_fits 0 1000 used_mm 100 0 0 (narrow_range 500 700) h
     then r = 0 \<and> inserted 0 1000 used_mm 7 100 0 mm' \<and>
       500 \<le> n_start (mm_nodes mm' 7) \<and> n_start (mm_nodes mm' 7) + 100 \<le> 700
     else r = - ENOSPC \<and> mm' = used_mm)"
    by (rule drm_mm_insert_node_in_range_correct [OF used_inv(1) used_cleared(2)])
      (simp_all add: MM_LIMIT_def plain_shrinks_range [OF used_inv])
qed code_simp

subsection \<open>Removal and traces\<close>

text \<open>
  C13: On a well-formed manager, \<^verbatim>\<open>drm_mm_remove_node\<close> of any node on the list never fails an
  assertion, takes exactly that node off, moves no node, leaves the manager well formed and the
  node ready to be inserted again, and puts the hole that now contains the freed range on top of the hole
  stack, where the next first-fit search looks first.
\<close>

theorem drm_mm_remove_node_correct:
  assumes "mm_inv lo hi mm" "n \<in> set (node_list mm)"
  shows "\<exists>mm'. drm_mm_remove_node n mm = Some mm' \<and> mm_inv lo hi mm' \<and> cleared mm' n \<and>
    node_list mm' = remove1 n (node_list mm) \<and> hole_stack mm' \<noteq> [] \<and>
    hd (hole_stack mm') = prev_node mm n \<and>
    hole_lo lo mm' (prev_node mm n) \<le> n_start (mm_nodes mm n) \<and>
    n_start (mm_nodes mm n) + n_size (mm_nodes mm n) \<le> hole_hi hi mm' (prev_node mm n) \<and>
    (\<forall>m. n_start (mm_nodes mm' m) = n_start (mm_nodes mm m) \<and> n_size (mm_nodes mm' m) = n_size (mm_nodes mm m))"
proof -
  obtain mm' where r: "drm_mm_remove_node n mm = Some mm'" "mm_inv lo hi mm'" "cleared mm' n"
    "node_list mm' = remove1 n (node_list mm)" "hole_stack mm' \<noteq> []" "hd (hole_stack mm') = prev_node mm n"
    "\<forall>m. n_start (mm_nodes mm' m) = n_start (mm_nodes mm m) \<and> n_size (mm_nodes mm' m) = n_size (mm_nodes mm m)"
    using remove_node_result [OF assms] by blast
  have d: "distinct (head_node # node_list mm)" using assms(1) by (simp add: mm_inv_def ring_def)
  have lay: "layout (mm_nodes mm) lo head_node (node_list mm) hi" using assms(1) by (simp add: mm_inv_def)
  have "hole_lo lo mm' (prev_node mm n) = end_of (mm_nodes mm) lo head_node (prev_node mm n)"
    using r(7) by (simp add: hole_lo_def end_of_def)
  moreover have "hole_hi hi mm' (prev_node mm n) = start_after (mm_nodes mm) (prev_node mm n) (head_node # remove1 n (node_list mm)) hi"
    unfolding hole_hi_def ring_def r(4) using r(7) by (intro start_after_cong) simp
  ultimately show ?thesis
    using r removed_inside [OF lay assms(2) d, of head_node] unfolding prev_node_def by auto
qed

theorem drm_mm_remove_node_witness:
  "(\<exists>mm'. drm_mm_remove_node 3 used_mm = Some mm' \<and> mm_inv 0 1000 mm' \<and> cleared mm' 3 \<and>
    node_list mm' = remove1 3 (node_list used_mm) \<and> hole_stack mm' \<noteq> [] \<and>
    hd (hole_stack mm') = prev_node used_mm 3 \<and>
    hole_lo 0 mm' (prev_node used_mm 3) \<le> n_start (mm_nodes used_mm 3) \<and>
    n_start (mm_nodes used_mm 3) + n_size (mm_nodes used_mm 3) \<le> hole_hi 1000 mm' (prev_node used_mm 3) \<and>
    (\<forall>m. n_start (mm_nodes mm' m) = n_start (mm_nodes used_mm m) \<and> n_size (mm_nodes mm' m) = n_size (mm_nodes used_mm m)))"
  by (rule drm_mm_remove_node_correct [OF used_inv(1)]) (simp add: used_nodes)

text \<open>
  C2: Whatever sequence of allocations and frees callers perform on a freshly initialised
  manager, guarded by \<^verbatim>\<open>drm_mm_node_allocated\<close> as they do, no assertion ever fails, and at the end the
  allocated nodes lie inside the managed range and are pairwise disjoint.
\<close>

theorem drm_mm_trace_safe:
  assumes "0 \<le> lo" "0 < sz" "lo + sz < MM_LIMIT" "\<And>a. mm_nodes mm a = zero_node"
    and "list_all (cmd_ok usable_node request_ok) cmds"
  shows "\<exists>mm'. guarded_run node_live drm_mm_insert_node drm_mm_remove_node cmds (drm_mm_init mm lo sz) = Some mm' \<and>
    (\<forall>k. usable_node k \<longrightarrow> node_live mm' k \<longrightarrow>
       lo \<le> n_start (mm_nodes mm' k) \<and> n_start (mm_nodes mm' k) + n_size (mm_nodes mm' k) \<le> lo + sz) \<and>
    (\<forall>k j. usable_node k \<longrightarrow> usable_node j \<longrightarrow> node_live mm' k \<longrightarrow> node_live mm' j \<longrightarrow> k \<noteq> j \<longrightarrow>
       n_start (mm_nodes mm' k) + n_size (mm_nodes mm' k) \<le> n_start (mm_nodes mm' j) \<or>
       n_start (mm_nodes mm' j) + n_size (mm_nodes mm' j) \<le> n_start (mm_nodes mm' k))"
  by (rule mm.run_disjoint [OF init_plain [OF assms(1-4)] assms(5)])

theorem drm_mm_trace_safe_witness:
  "\<exists>mm'. guarded_run node_live drm_mm_insert_node drm_mm_remove_node [Alloc 1 100 0, Alloc 2 300 0, Alloc 3 50 64, Free 2]
      (drm_mm_init blank_mm 0 1000) = Some mm' \<and>
    (\<forall>k. usable_node k \<longrightarrow> node_live mm' k \<longrightarrow>
       0 \<le> n_start (mm_nodes mm' k) \<and> n_start (mm_nodes mm' k) + n_size (mm_nodes mm' k) \<le> 0 + 1000) \<and>
    (\<forall>k j. usable_node k \<longrightarrow> usable_node j \<longrightarrow> node_live mm' k \<longrightarrow> node_live mm' j \<longrightarrow> k \<noteq> j \<longrightarrow>
       n_start (mm_nodes mm' k) + n_size (mm_nodes mm' k) \<le> n_start (mm_nodes mm' j) \<or>
       n_start (mm_nodes mm' j) + n_size (mm_nodes mm' j) \<le> n_start (mm_nodes mm' k))"
  by (rule drm_mm_trace_safe) (simp_all add: MM_LIMIT_def blank_mm_def usable_node_def head_node_def request_ok_def)

text \<open>
  \<^verbatim>\<open>drm_mm_create_block\<close> reserves exactly the range it is asked for: if one hole covers the
  range, the new node has that start and that size and no other node changes or overlaps it; if no hole covers the range
  the call returns NULL and changes nothing.
\<close>

theorem drm_mm_create_block_correct:
  assumes "mm_inv lo hi mm" "n \<notin> set (ring mm)" "0 \<le> st" "0 < sz" "st + sz < MM_LIMIT"
  shows "\<exists>r mm'. drm_mm_create_block mm st sz (Some n) = Some (r, mm') \<and>
    (if \<exists>h \<in> set (hole_stack mm). hole_covers lo hi mm st sz h
     then r = Some n \<and> inserted lo hi mm n sz 0 mm' \<and> n_start (mm_nodes mm' n) = st
     else r = None \<and> mm' = mm)"
  by (rule create_block_result [OF assms])

theorem drm_mm_create_block_witness:
  "(\<exists>r mm'. drm_mm_create_block used_mm 600 100 (Some 9) = Some (r, mm') \<and>
    (if \<exists>h \<in> set (hole_stack used_mm). hole_covers 0 1000 used_mm 600 100 h
     then r = Some 9 \<and> inserted 0 1000 used_mm 9 100 0 mm' \<and> n_start (mm_nodes mm' 9) = 600
     else r = None \<and> mm' = used_mm)) \<and>
   map_option fst (drm_mm_create_block used_mm 600 100 (Some 9)) = Some (Some 9) \<and>
   map_option fst (drm_mm_create_block used_mm 400 100 (Some 9)) = Some None"
proof (intro conjI)
  show "\<exists>r mm'. drm_mm_create_block used_mm 600 100 (Some 9) = Some (r, mm') \<and>
    (if \<exists>h \<in> set (hole_stack used_mm). hole_covers 0 1000 used_mm 600 100 h
     then r = Some 9 \<and> inserted 0 1000 used_mm 9 100 0 mm' \<and> n_start (mm_nodes mm' 9) = 600
     else r = None \<and> mm' = used_mm)"
    by (rule drm_mm_create_block_correct [OF used_inv(1)])
      (simp_all add: MM_LIMIT_def ring_def head_node_def used_nodes)
qed code_simp+

subsection \<open>Node structures\<close>

text \<open>
  When \<^verbatim>\<open>drm_mm_pre_get\<close> returns 0, the next two calls of \<^verbatim>\<open>drm_mm_kmalloc\<close> succeed even if
  the system allocator has no memory left; it fails with \<^verbatim>\<open>-ENOMEM\<close> only when fewer than
  two structures could be cached, and never discards cached ones.
\<close>

theorem drm_mm_pre_get_guarantee:
  assumes "drm_mm_pre_get mm mems = (r, mm')" "num_unused mm = int (length (unused_nodes mm))"
  shows "(r = 0 \<longrightarrow> (\<exists>a b m1 m2. drm_mm_kmalloc mm' None = (Some a, m1) \<and> drm_mm_kmalloc m1 None = (Some b, m2) \<and>
      num_unused m2 = num_unused mm' - 2 \<and> num_unused m2 = int (length (unused_nodes m2)))) \<and>
    (r \<noteq> 0 \<longrightarrow> r = - ENOMEM \<and> num_unused mm' < 2) \<and> num_unused mm \<le> num_unused mm'"
proof -
  note r = pre_get_result [OF assms]
  have "\<exists>a b rest. unused_nodes mm' = a # b # rest" if "r = 0"
    using r that by (cases "unused_nodes mm'"; cases "tl (unused_nodes mm')") auto
  then show ?thesis using r by (auto simp: drm_mm_kmalloc_def)
qed

theorem drm_mm_pre_get_witness:
  "(let (r, mm') = drm_mm_pre_get fresh_mm [Some 20, Some 21] in r = 0 \<and> num_unused fresh_mm \<le> num_unused mm') \<and>
   fst (drm_mm_pre_get fresh_mm [Some 20, None]) = - ENOMEM"
proof
  show "let (r, mm') = drm_mm_pre_get fresh_mm [Some 20, Some 21] in r = 0 \<and> num_unused fresh_mm \<le> num_unused mm'"
    using drm_mm_pre_get_guarantee [of fresh_mm "[Some 20, Some 21]"] init_unused [of blank_mm 0 1000]
    by (auto simp: drm_mm_pre_get.simps MM_UNUSED_TARGET_def fresh_mm_def)
  show "fst (drm_mm_pre_get fresh_mm [Some 20, None]) = - ENOMEM"
    using init_unused [of blank_mm 0 1000]
    by (simp add: drm_mm_pre_get.simps MM_UNUSED_TARGET_def fresh_mm_def)
qed

text \<open>
  \<^verbatim>\<open>drm_mm_put_block\<close> of an allocated node keeps the manager well formed and its cache
  consistent: the counter equals the length of the list of spare structures and stays within the target, and every
  spare structure is off the ring and can be inserted again.
\<close>

theorem drm_mm_put_block_cache:
  assumes "mm_inv lo hi mm" "unused_inv mm" "n \<in> set (node_list mm)"
  shows "\<exists>mm'. drm_mm_put_block n mm = Some mm' \<and> mm_inv lo hi mm' \<and> unused_inv mm' \<and>
    node_list mm' = remove1 n (node_list mm)"
  by (rule put_block_result [OF assms])

theorem drm_mm_put_block_witness:
  "(\<exists>mm'. drm_mm_put_block 3 used_mm = Some mm' \<and> mm_inv 0 1000 mm' \<and> unused_inv mm' \<and>
    node_list mm' = remove1 3 (node_list used_mm)) \<and>
   map_option unused_nodes (drm_mm_put_block 3 used_mm) = Some [3]"
proof
  have "unused_nodes used_mm = [] \<and> num_unused used_mm = 0" by code_simp
  then have "unused_inv used_mm" by (simp add: unused_inv_def MM_UNUSED_TARGET_def)
  then show "\<exists>mm'. drm_mm_put_block 3 used_mm = Some mm' \<and> mm_inv 0 1000 mm' \<and> unused_inv mm' \<and>
    node_list mm' = remove1 3 (node_list used_mm)"
    by (intro drm_mm_put_block_cache [OF used_inv(1)]) (simp_all add: used_nodes)
qed code_simp

subsection \<open>Scanning\<close>

text \<open>
  A scan is transparent when its blocks are removed in the reverse order of their addition, as
  \<^verbatim>\<open>i915_gem_evict_something\<close> does: neither pass fails an assertion, and afterwards the lists, the
  extents and the hole flags are what they were, so that the manager is well formed again and the
  allocator can be used.
\<close>

theorem drm_mm_scan_transparent:
  assumes "mm_inv lo hi mm" "distinct ns" "set ns \<subseteq> set (node_list mm)"
  shows "\<exists>m1 m2. scan_add_all ns (drm_mm_init_scan mm sz al c) = Some m1 \<and> scan_remove_all (rev ns) m1 = Some m2 \<and>
    scan_same (set ns) (drm_mm_init_scan mm sz al c) m2 \<and> mm_inv lo hi m2"
proof -
  let ?m = "drm_mm_init_scan mm sz al c"
  have s: "mm_nodes ?m = mm_nodes mm" "node_list ?m = node_list mm" "ring ?m = ring mm" "scanned_blocks ?m = 0"
    "hole_stack ?m = hole_stack mm"
    by (simp_all add: drm_mm_init_scan_def ring_def)
  have i: "mm_inv lo hi ?m" using assms(1) s by (simp add: mm_inv_def)
  have "\<not> scanned_block (mm_nodes ?m n)" if "n \<in> set ns" for n
    using assms that s by (auto simp: mm_inv_def ring_def)
  then obtain m1 m2 where m: "scan_add_all ns ?m = Some m1" "scan_remove_all (rev ns) m1 = Some m2" "scan_same (set ns) ?m m2"
    using scan_roundtrip [of ns ?m] assms s by (auto simp: mm_inv_def)
  with scan_same_inv [OF m(3) i] show ?thesis by blast
qed

theorem drm_mm_scan_transparent_witness:
  "\<exists>m1 m2. scan_add_all [1, 3] (drm_mm_init_scan used_mm 900 0 0) = Some m1 \<and> scan_remove_all (rev [1, 3]) m1 = Some m2 \<and>
    scan_same (set [1, 3]) (drm_mm_init_scan used_mm 900 0 0) m2 \<and> mm_inv 0 1000 m2"
  by (rule drm_mm_scan_transparent [OF used_inv(1)]) (simp_all add: used_nodes)

definition same_order_mm :: drm_mm where
  "same_order_mm = the (do { m1 \<leftarrow> scan_add_all [1, 3] (drm_mm_init_scan used_mm 900 0 0); scan_remove_all [1, 3] m1 })"

text \<open>
  Removing the blocks of a scan in the order in which they were added, the order that the comment
  above \<^verbatim>\<open>drm_mm_scan_remove_block\<close> asks for, corrupts the manager: with two nodes at 0 and at
  448, the list is out of address order afterwards, the hole between them is lost (the first node claims the
  space from 100 to the end of the range, where the other node still is), and the manager is no longer well formed.
\<close>

theorem drm_mm_scan_same_order_corrupts:
  "node_list used_mm = [1, 3] \<and> mm_inv 0 1000 used_mm \<and> node_list same_order_mm = [3, 1] \<and>
   drm_mm_hole_node_start same_order_mm 1 = Some 100 \<and> drm_mm_hole_node_end same_order_mm 1 = 1000 \<and>
   drm_mm_node_allocated same_order_mm 3 \<and> n_start (mm_nodes same_order_mm 3) = 448 \<and> \<not> mm_inv 0 1000 same_order_mm"
proof -
  have e: "node_list same_order_mm = [3, 1] \<and> drm_mm_hole_node_start same_order_mm 1 = Some 100 \<and>
    drm_mm_hole_node_end same_order_mm 1 = 1000 \<and> drm_mm_node_allocated same_order_mm 3 \<and>
    n_start (mm_nodes same_order_mm 3) = 448 \<and> n_start (mm_nodes same_order_mm 1) = 0 \<and> n_size (mm_nodes same_order_mm 3) = 50"
    by code_simp
  then have "\<not> mm_inv 0 1000 same_order_mm" by (auto simp: mm_inv_def)
  with e used_inv(1) used_nodes show ?thesis by blast
qed

subsection \<open>Coloring\<close>

text \<open>Page-granular managers, as the graphics address space is one.\<close>

definition page_aligned :: "drm_mm \<Rightarrow> bool" where
  "page_aligned mm \<longleftrightarrow> (\<forall>a \<in> set (node_list mm). n_start (mm_nodes mm a) mod 4096 = 0 \<and> n_size (mm_nodes mm a) mod 4096 = 0)"

lemma succ_in_start_member:
  "succ_in h (x # xs) d \<noteq> d \<Longrightarrow> succ_in h (x # xs) d \<in> set xs"
  by (induction xs arbitrary: x) (auto split: if_splits)

lemma page_gap: "(a::int) < b \<Longrightarrow> a mod 4096 = 0 \<Longrightarrow> b mod 4096 = 0 \<Longrightarrow> a + 4096 \<le> b"
  using zdvd_imp_le [of 4096 "b - a"] by (simp add: mod_eq_0_iff_dvd dvd_diff)

lemma hole_hi_next: "mm_inv lo hi mm \<Longrightarrow> hole_hi hi mm h = n_start (mm_nodes mm (next_node mm h))"
  using hole_end_eq(2) [of lo hi mm h] by (simp add: hole_node_end_raw_def)

text \<open>
  A node is the one before the hole, or the one after it, or a page or more away from the hole.
\<close>

lemma layout_away:
  assumes "layout N pos x ns hi" "h \<in> set (x # ns)" "m \<in> set ns" "distinct (x # ns)"
    "\<forall>a \<in> set ns. n_start (N a) mod 4096 = 0 \<and> n_size (N a) mod 4096 = 0"
  shows "m = h \<or> m = succ_in h (x # ns) d \<or> n_start (N m) + n_size (N m) + 4096 \<le> end_of N pos x h \<or>
    start_after N h (x # ns) hi + 4096 \<le> n_start (N m)"
  using assms
proof (induction ns arbitrary: pos x)
  case (Cons y ys)
  have l: "layout N (n_start (N y) + n_size (N y)) y ys hi" using Cons.prems(1) by simp
  have y: "0 < n_size (N y)" "n_start (N y) mod 4096 = 0" "n_size (N y) mod 4096 = 0" "4096 \<le> n_size (N y)"
    using Cons.prems page_gap [of 0 "n_size (N y)"] by auto
  consider "h = x" | "h \<noteq> x" "m = y" "h = y" | "h \<noteq> x" "m = y" "h \<in> set ys" | "h \<noteq> x" "m \<in> set ys" using Cons.prems by auto
  then show ?case
  proof cases
    case 1
    have "n_start (N y) + 4096 \<le> n_start (N m)" if "m \<in> set ys"
      using layout_bounds [OF l that] y by simp
    with 1 Cons.prems(3) show ?thesis by auto
  next
    case 3
    have "4096 \<le> n_size (N h)" using 3 Cons.prems page_gap [of 0 "n_size (N h)"] layout_bounds [OF l 3(3)] by auto
    with 3 layout_bounds [OF l 3(3)] show ?thesis by (auto simp: end_of_def)
  next
    case 4
    have h: "h \<in> set (y # ys)" using 4 Cons.prems by auto
    show ?thesis using Cons.IH [OF l h 4(2)] Cons.prems 4 by (auto simp: end_of_def split: if_splits)
  qed simp
qed simp

lemma node_away:
  assumes "mm_inv lo hi mm" "page_aligned mm" "h \<in> set (hole_stack mm)" "m \<in> set (node_list mm)"
  shows "m = h \<and> hole_lo lo mm h = n_start (mm_nodes mm m) + n_size (mm_nodes mm m) \<or>
    m = next_node mm h \<and> next_node mm h \<noteq> head_node \<and> hole_hi hi mm h = n_start (mm_nodes mm m) \<or>
    n_start (mm_nodes mm m) + n_size (mm_nodes mm m) + 4096 \<le> hole_lo lo mm h \<or>
    hole_hi hi mm h + 4096 \<le> n_start (mm_nodes mm m)"
proof -
  have d: "distinct (head_node # node_list mm)" "layout (mm_nodes mm) lo head_node (node_list mm) hi"
    using assms(1) by (simp_all add: mm_inv_def ring_def)
  have "h \<in> set (head_node # node_list mm)" using hole_stack_ring(1) [OF assms(1,3)] by (simp add: ring_def)
  moreover have "m \<noteq> head_node" using d assms(4) by auto
  ultimately show ?thesis
    using layout_away [OF d(2) _ assms(4) d(1), of h head_node] assms(2) hole_hi_next [OF assms(1), of h]
    by (auto simp: page_aligned_def hole_lo_def hole_hi_def ring_def next_node_def end_of_def)
qed

text \<open>The two halves of what the callback does to a hole.\<close>

lemma color_adjust_eq:
  assumes inv: "mm_inv lo hi mm" and pg: "page_aligned mm" and h: "h \<in> set (hole_stack mm)"
    and ca: "color_adjust mm = Some i915_gtt_color_adjust" and al: "\<not> allocated (mm_nodes mm head_node)"
  shows "adjust_hole mm h c (hole_lo lo mm h, hole_hi hi mm h) =
    (if n_color (mm_nodes mm h) \<noteq> c then hole_lo lo mm h + 4096 else hole_lo lo mm h,
     if next_node mm h \<noteq> head_node \<and> n_color (mm_nodes mm (next_node mm h)) \<noteq> c then hole_hi hi mm h - 4096 else hole_hi hi mm h) \<and>
    (next_node mm h \<noteq> head_node \<longrightarrow> next_node mm h \<in> set (node_list mm) \<and> 4096 \<le> hole_hi hi mm h)"
proof -
  note hr = hole_stack_ring [OF inv h]
  note b = hole_bounds [OF inv hr(1)]
  have lim: "0 \<le> hole_lo lo mm h" "hole_hi hi mm h < MM_LIMIT" using b inv by (auto simp: mm_inv_def)
  have lt: "hole_lo lo mm h < hole_hi hi mm h" using b(4) hr by simp
  have nx: "next_node mm h \<in> set (node_list mm) \<and> 4096 \<le> hole_hi hi mm h" if "next_node mm h \<noteq> head_node"
  proof -
    have m: "next_node mm h \<in> set (node_list mm)"
      using that succ_in_start_member [of h head_node "node_list mm" head_node] by (simp add: next_node_def)
    then have "hole_hi hi mm h mod 4096 = 0" using pg hole_hi_next [OF inv] by (simp add: page_aligned_def)
    with m page_gap [of 0 "hole_hi hi mm h"] lim lt show ?thesis by auto
  qed
  have u: "u64 (hole_lo lo mm h + 4096) = hole_lo lo mm h + 4096"
    using lim lt by (intro u64_id) (auto simp: MM_LIMIT_def)
  have v: "u64 (hole_hi hi mm h - 4096) = hole_hi hi mm h - 4096" if "next_node mm h \<noteq> head_node"
    using lim nx [OF that] by (intro u64_id) (auto simp: MM_LIMIT_def)
  have alloc: "allocated (mm_nodes mm (next_node mm h)) \<longleftrightarrow> next_node mm h \<noteq> head_node"
    using nx al inv by (auto simp: mm_inv_def)
  have sc: "succ_in h (head_node # node_list mm) head_node = next_node mm h" by (simp add: next_node_def)
  have e: "next_node mm h = head_node" if "node_list mm = []" using that by (simp add: next_node_def)
  have "adjust_hole mm h c (hole_lo lo mm h, hole_hi hi mm h) =
    (if n_color (mm_nodes mm h) \<noteq> c then hole_lo lo mm h + 4096 else hole_lo lo mm h,
     if next_node mm h \<noteq> head_node \<and> n_color (mm_nodes mm (next_node mm h)) \<noteq> c then hole_hi hi mm h - 4096 else hole_hi hi mm h)"
    unfolding adjust_hole_def ca option.case i915_gtt_color_adjust_def Let_def prod.case sc alloc u
    using v e by (cases "node_list mm = []"; cases "next_node mm h = head_node") simp_all
  with nx show ?thesis by blast
qed

lemma color_shrinks:
  assumes "mm_inv lo hi mm" "page_aligned mm" "color_adjust mm = Some i915_gtt_color_adjust"
    "\<not> allocated (mm_nodes mm head_node)" "hi + 4096 < MM_LIMIT"
  shows "adjust_shrinks lo hi mm c id"
proof -
  have "hole_lo lo mm h \<le> fst (adjusted lo hi mm c id h) \<and> fst (adjusted lo hi mm c id h) < MM_LIMIT \<and>
      0 \<le> snd (adjusted lo hi mm c id h) \<and> snd (adjusted lo hi mm c id h) \<le> hole_hi hi mm h"
    if h: "h \<in> set (hole_stack mm)" for h
    using color_adjust_eq [OF assms(1,2) h assms(3,4), of c] assms(1,5)
      hole_bounds [OF assms(1) hole_stack_ring(1) [OF assms(1) h]]
    by (auto simp: adjusted_def mm_inv_def)
  then show ?thesis by (simp add: adjust_shrinks_def)
qed

lemma insert_helper_start:
  assumes "drm_mm_insert_helper h n sz al c mm = Some mm'" "drm_mm_hole_node_start mm h = Some hs"
    "adjust_hole mm h c (hs, drm_mm_hole_node_end mm h) = (s, e)"
  shows "n_start (mm_nodes mm' n) = align_up s al \<and> u64 (align_up s al + sz) \<le> e"
  using assms by (auto simp: drm_mm_insert_helper_def Let_def bind_eq_Some_conv case_prod_unfold split: if_splits)

text \<open>Which hole a successful insertion used, and where in it.\<close>

lemma insert_node_hole:
  assumes inv: "mm_inv lo hi mm" and r: "drm_mm_insert_node_generic mm n sz al c = Some (0, mm')"
    and q: "0 < sz" "sz < MM_LIMIT" "0 \<le> al" "al < 4294967296" and adj: "adjust_shrinks lo hi mm c id"
  shows "\<exists>h \<in> set (hole_stack mm). fst (adjusted lo hi mm c id h) \<le> n_start (mm_nodes mm' n) \<and>
    n_start (mm_nodes mm' n) + sz \<le> snd (adjusted lo hi mm c id h)"
proof -
  obtain h where h: "drm_mm_search_free_generic mm sz al c False = Some (Some h)" "drm_mm_insert_helper h n sz al c mm = Some mm'"
    using r by (auto simp: drm_mm_insert_node_generic_def bind_eq_Some_conv errno_defs split: option.splits)
  have hs: "h \<in> set (hole_stack mm)"
    using h(1) by (auto simp: drm_mm_search_free_generic_def bind_eq_Some_conv dest: search_in_stack)
  obtain s e where se: "adjusted lo hi mm c id h = (s, e)" by force
  have "adjust_hole mm h c (hole_lo lo mm h, drm_mm_hole_node_end mm h) = (s, e)"
    using se by (simp add: adjusted_def hole_end_eq [OF inv])
  note st = insert_helper_start [OF h(2) hole_start_Some [OF inv hs] this]
  have b: "0 \<le> s" "s < MM_LIMIT"
    using fitting_hole(1) [OF inv hs q adj] se by auto
  have up: "s \<le> align_up s al" "align_up s al < s + 4294967296 + 1"
    using align_up_props [OF b q(3,4)] q by auto
  then have "u64 (align_up s al + sz) = align_up s al + sz"
    using b q by (intro u64_id) (auto simp: MM_LIMIT_def)
  with st up hs se show ?thesis by (intro bexI [of _ h]) auto
qed

text \<open>
  With \<^verbatim>\<open>i915_gtt_color_adjust\<close> as the callback of a page-granular address space, a node that is inserted
  successfully keeps at least one page of distance from every node of a different color, in both directions.
\<close>

theorem i915_color_guard_page:
  assumes "mm_inv lo hi mm" "page_aligned mm" "color_adjust mm = Some i915_gtt_color_adjust"
    "\<not> allocated (mm_nodes mm head_node)" "hi + 4096 < MM_LIMIT"
    and "cleared mm n" "0 < sz" "sz < MM_LIMIT" "0 \<le> al" "al < 4294967296"
    and "drm_mm_insert_node_generic mm n sz al c = Some (0, mm')"
    and "m \<in> set (node_list mm)" "n_color (mm_nodes mm m) \<noteq> c"
  shows "n_start (mm_nodes mm' m) + n_size (mm_nodes mm' m) + 4096 \<le> n_start (mm_nodes mm' n) \<or>
    n_start (mm_nodes mm' n) + sz + 4096 \<le> n_start (mm_nodes mm' m)"
proof -
  note adj = color_shrinks [OF assms(1-5), of c]
  obtain h where h: "h \<in> set (hole_stack mm)" "fst (adjusted lo hi mm c id h) \<le> n_start (mm_nodes mm' n)"
    "n_start (mm_nodes mm' n) + sz \<le> snd (adjusted lo hi mm c id h)"
    using insert_node_hole [OF assms(1,11,7-10) adj] by blast
  have "- ENOSPC \<noteq> 0" by (simp add: errno_defs)
  then have "inserted lo hi mm n sz al mm'"
    using insert_node_generic_result [OF assms(1,6-10) adj] assms(11) by (auto split: if_splits)
  then have same: "n_start (mm_nodes mm' m) = n_start (mm_nodes mm m)" "n_size (mm_nodes mm' m) = n_size (mm_nodes mm m)"
    using assms(12) by (auto simp: inserted_def)
  note eq = color_adjust_eq [OF assms(1,2) h(1) assms(3,4), of c]
  note away = node_away [OF assms(1,2) h(1) assms(12)]
  show ?thesis
    using away h(2,3) eq assms(13) unfolding same adjusted_def by (auto split: if_splits)
qed

definition colored_mm :: drm_mm where
  "colored_mm = snd (the (drm_mm_insert_node_generic
     ((drm_mm_init blank_mm 0 65536)\<lparr>color_adjust := Some i915_gtt_color_adjust\<rparr>) 1 8192 0 1))"

definition colored_mm' :: drm_mm where
  "colored_mm' = snd (the (drm_mm_insert_node_generic colored_mm 2 4096 0 2))"

lemma colored_adjust: "color_adjust colored_mm = Some i915_gtt_color_adjust"
proof -
  let ?m = "(drm_mm_init blank_mm 0 65536)\<lparr>color_adjust := Some i915_gtt_color_adjust\<rparr>"
  have "\<not> Option.is_none (drm_mm_insert_node_generic ?m 1 8192 0 1)" by code_simp
  then obtain r m where "drm_mm_insert_node_generic ?m 1 8192 0 1 = Some (r, m)" by (auto simp: Option.is_none_def)
  with insert_node_frame(1) [OF this] show ?thesis by (simp add: colored_mm_def)
qed

theorem i915_color_guard_page_witness:
  "(n_start (mm_nodes colored_mm' 1) + n_size (mm_nodes colored_mm' 1) + 4096 \<le> n_start (mm_nodes colored_mm' 2) \<or>
    n_start (mm_nodes colored_mm' 2) + 4096 + 4096 \<le> n_start (mm_nodes colored_mm' 1)) \<and>
   n_start (mm_nodes colored_mm' 1) = 4096 \<and> n_start (mm_nodes colored_mm' 2) = 16384"
proof
  show "n_start (mm_nodes colored_mm' 1) + n_size (mm_nodes colored_mm' 1) + 4096 \<le> n_start (mm_nodes colored_mm' 2) \<or>
    n_start (mm_nodes colored_mm' 2) + 4096 + 4096 \<le> n_start (mm_nodes colored_mm' 1)"
  proof (rule i915_color_guard_page [where lo = 0 and hi = 65536 and mm = colored_mm and al = 0 and c = 2])
    show "mm_inv 0 65536 colored_mm" by code_simp
    show "color_adjust colored_mm = Some i915_gtt_color_adjust"
      using colored_adjust .
  next
    have "\<not> Option.is_none (drm_mm_insert_node_generic colored_mm 2 4096 0 2) \<and>
      fst (the (drm_mm_insert_node_generic colored_mm 2 4096 0 2)) = 0" by code_simp
    then show "drm_mm_insert_node_generic colored_mm 2 4096 0 2 = Some (0, colored_mm')"
      by (auto simp: colored_mm'_def Option.is_none_def)
  qed code_simp+
qed code_simp

subsection \<open>Divergences\<close>

definition two_holes_mm :: drm_mm where
  "two_holes_mm = the (guarded_run node_live drm_mm_insert_node drm_mm_remove_node
     [Alloc 1 500 0, Alloc 2 40 0, Alloc 3 50 0, Free 2] fresh_mm)"

text \<open>
  The best-fit search compares the sizes of the nodes before the holes, not the
  sizes of the holes: with a hole of 40 after a node of 500 and a hole of 410 after a
  node of 50, a request of 30 is served from the larger hole.
\<close>

theorem drm_mm_best_match_not_best_fit:
  "hole_stack two_holes_mm = [1, 3] \<and>
   drm_mm_hole_node_start two_holes_mm 1 = Some 500 \<and> drm_mm_hole_node_end two_holes_mm 1 = 540 \<and>
   drm_mm_hole_node_start two_holes_mm 3 = Some 590 \<and> drm_mm_hole_node_end two_holes_mm 3 = 1000 \<and>
   drm_mm_search_free two_holes_mm 30 0 True = Some (Some 3)"
  by code_simp

text \<open>
  \<^verbatim>\<open>drm_mm_clean\<close> reports a manager that still holds exactly one node as clean, although
  \<^verbatim>\<open>drm_mm_takedown\<close> refuses to take it down.
\<close>

theorem drm_mm_clean_misses_one_node:
  assumes "node_list mm = [n]" "n \<noteq> head_node"
  shows "drm_mm_clean mm \<and> drm_mm_takedown mm = Some (False, mm)"
  using assms by (simp add: drm_mm_clean_def next_node_def drm_mm_takedown_def)

theorem drm_mm_clean_misses_one_node_witness:
  "\<exists>mm. node_list mm = [1] \<and> mm_inv 0 65536 mm \<and> drm_mm_clean mm \<and> drm_mm_takedown mm = Some (False, mm)"
proof -
  have "node_list colored_mm = [1] \<and> mm_inv 0 65536 colored_mm" by code_simp
  with drm_mm_clean_misses_one_node [of colored_mm 1] show ?thesis by (auto simp: head_node_def)
qed

end
