(* ===== verification/Drm_Idr.thy ===== *)
theory Drm_Idr
  imports Gfx_Prelude
begin

text \<open>
  The two identifier tables of \<^verbatim>\<open>uts/common/io/drm/drm_sun_idr.c\<close>.

  \<^verbatim>\<open>struct idr\<close> hands out small integers from a list of consecutive ranges; every start value that was ever
  asked for splits a range. Its tree of used identifiers is kept by the AVL routines of the operating system and is
  modelled as what such a tree represents, an association list in ascending order. Identifiers are
  non-negative \<^verbatim>\<open>int\<close>s; \<open>ID_END\<close> is the end of the last range.

  \<^verbatim>\<open>struct idr_list\<close> is a hash table of 1024 chains; its identifiers come from two
  counters that all tables of the system share.

  A boolean argument \<open>mem\<close> says whether the \<^verbatim>\<open>KM_NOSLEEP\<close> allocation of the call succeeds.
\<close>

section \<open>The range-based table\<close>

subsection \<open>Data\<close>

record idr_free_id_range =
  fr_start :: int
  fr_end :: int
  min_unused_id :: int
  free_ids :: "int list"

record 'o idr =
  used_ids :: "(int \<times> 'o) list"
  free_id_ranges :: "idr_free_id_range list"

definition ID_END :: int where "ID_END = 0x7fffffff"

definition fr_isfull :: "idr_free_id_range \<Rightarrow> bool" where
  "fr_isfull rng \<longleftrightarrow> min_unused_id rng \<ge> fr_end rng"

definition fr_new :: "int \<Rightarrow> idr_free_id_range" where
  "fr_new start = \<lparr>fr_start = start, fr_end = ID_END, min_unused_id = start, free_ids = []\<rparr>"

text \<open>The position of the range with the given start.\<close>

fun fr_get :: "idr_free_id_range list \<Rightarrow> int \<Rightarrow> nat option" where
  "fr_get [] start = None"
| "fr_get (entry # rest) start = (if fr_start entry \<noteq> start then map_option Suc (fr_get rest start) else Some 0)"

text \<open>
  The loop over \<^verbatim>\<open>prev->free_ids\<close>: what stays with the old range, and the chain of the new range, to whose
  front every moved identifier is pushed.
\<close>

fun move_free_ids :: "int \<Rightarrow> int list \<Rightarrow> int list \<Rightarrow> int list \<times> int list" where
  "move_free_ids start [] moved = ([], moved)"
| "move_free_ids start (x # xs) moved =
     (if x < start then (case move_free_ids start xs moved of (kept, m) \<Rightarrow> (x # kept, m))
      else move_free_ids start xs (x # moved))"

definition fr_split :: "idr_free_id_range \<Rightarrow> idr_free_id_range list \<Rightarrow> int \<Rightarrow> idr_free_id_range list" where
  "fr_split prev rest start =
     (let n = fr_new start;
          prev = prev\<lparr>fr_end := start\<rparr>;
          n = (case rest of [] \<Rightarrow> n | nx # _ \<Rightarrow> n\<lparr>fr_end := fr_start nx\<rparr>)
      in if fr_isfull prev
         then (case move_free_ids start (free_ids prev) [] of
                 (kept, moved) \<Rightarrow>
                   prev\<lparr>min_unused_id := start, free_ids := kept\<rparr> #
                   n\<lparr>min_unused_id := min_unused_id prev, free_ids := moved\<rparr> # rest)
         else prev # n # rest)"

text \<open>The position of the new range, and the list with it. The list always has a first range.\<close>

fun fr_insert :: "idr_free_id_range list \<Rightarrow> int \<Rightarrow> nat \<times> idr_free_id_range list" where
  "fr_insert [] start = (0, [])"
| "fr_insert [prev] start = (1, fr_split prev [] start)"
| "fr_insert (prev # nx # rest) start =
     (if fr_start nx < start
      then (case fr_insert (nx # rest) start of (i, rs) \<Rightarrow> (Suc i, prev # rs))
      else (1, fr_split prev (nx # rest) start))"

definition idr_get_free_id_in_range :: "idr_free_id_range \<Rightarrow> int \<times> idr_free_id_range" where
  "idr_get_free_id_in_range rng =
     (case free_ids rng of
        ident # rest \<Rightarrow> (ident, rng\<lparr>free_ids := rest\<rparr>)
      | [] \<Rightarrow> (if \<not> fr_isfull rng
              then (min_unused_id rng, rng\<lparr>min_unused_id := min_unused_id rng + 1\<rparr>)
              else (-1, rng)))"

subsection \<open>The ordered tree of used identifiers\<close>

fun avl_add :: "int \<Rightarrow> 'o \<Rightarrow> (int \<times> 'o) list \<Rightarrow> (int \<times> 'o) list" where
  "avl_add i x [] = [(i, x)]"
| "avl_add i x ((j, y) # t) = (if i < j then (i, x) # (j, y) # t else (j, y) # avl_add i x t)"

definition avl_remove :: "int \<Rightarrow> (int \<times> 'o) list \<Rightarrow> (int \<times> 'o) list" where
  "avl_remove i t = filter (\<lambda>(j, _). j \<noteq> i) t"

subsection \<open>Operations\<close>

definition idr_init :: "'o idr \<Rightarrow> 'o idr" where
  "idr_init idrp = idrp\<lparr>used_ids := [], free_id_ranges := [fr_new 0]\<rparr>"

fun get_from_ranges :: "idr_free_id_range list \<Rightarrow> int \<times> idr_free_id_range list" where
  "get_from_ranges [] = (-1, [])"
| "get_from_ranges (rng # rest) =
     (case idr_get_free_id_in_range rng of (ident, rng') \<Rightarrow>
        if ident \<ge> 0 then (ident, rng' # rest)
        else (case get_from_ranges rest of (i, rest') \<Rightarrow> (i, rng' # rest')))"

definition idr_get_new_above :: "bool \<Rightarrow> 'o idr \<Rightarrow> 'o \<Rightarrow> int \<Rightarrow> int \<times> int option \<times> 'o idr" where
  "idr_get_new_above mem idrp obj start =
     (if start < 0 then (- EINVAL, None, idrp)
      else (let (pos, ranges) = (case fr_get (free_id_ranges idrp) start of
                                   Some i \<Rightarrow> (i, free_id_ranges idrp)
                                 | None \<Rightarrow> fr_insert (free_id_ranges idrp) start);
                (ident, tail) = get_from_ranges (drop pos ranges);
                idrp = idrp\<lparr>free_id_ranges := take pos ranges @ tail\<rparr>
            in if ident < 0 then (-1, None, idrp)
               else if \<not> mem then (- ENOMEM, None, idrp)
               else (0, Some ident, idrp\<lparr>used_ids := avl_add ident obj (used_ids idrp)\<rparr>)))"

definition idr_find :: "'o idr \<Rightarrow> int \<Rightarrow> 'o option" where
  "idr_find idrp ident = map_of (used_ids idrp) ident"

text \<open>\<open>None\<close>: no range contains the identifier, and the code would follow a null pointer.\<close>

fun free_into :: "int \<Rightarrow> idr_free_id_range list \<Rightarrow> idr_free_id_range list option" where
  "free_into ident [] = None"
| "free_into ident (rng # rest) =
     (if fr_end rng \<le> ident then map_option (\<lambda>rs. rng # rs) (free_into ident rest)
      else Some (rng\<lparr>free_ids := ident # free_ids rng\<rparr> # rest))"

definition idr_remove :: "bool \<Rightarrow> 'o idr \<Rightarrow> int \<Rightarrow> (int \<times> 'o idr) option" where
  "idr_remove mem idrp ident =
     (if idr_find idrp ident = None then Some (- EINVAL, idrp)
      else if \<not> mem then Some (- ENOMEM, idrp)
      else do {
        ranges \<leftarrow> free_into ident (free_id_ranges idrp);
        Some (0, idrp\<lparr>free_id_ranges := ranges, used_ids := avl_remove ident (used_ids idrp)\<rparr>) })"

definition idr_replace :: "'o idr \<Rightarrow> 'o \<Rightarrow> int \<Rightarrow> (int + 'o) \<times> 'o idr" where
  "idr_replace idrp obj ident =
     (case idr_find idrp ident of
        None \<Rightarrow> (Inl (- EINVAL), idrp)
      | Some old \<Rightarrow> (Inr old, idrp\<lparr>used_ids := map (\<lambda>(j, y). if j = ident then (j, obj) else (j, y)) (used_ids idrp)\<rparr>))"

text \<open>The callback threads a state; the walk follows the tree as it is at the start.\<close>

fun idr_walk :: "(int \<times> 'o) list \<Rightarrow> (int \<Rightarrow> 'o \<Rightarrow> 'd \<Rightarrow> int \<times> 'd) \<Rightarrow> 'd \<Rightarrow> int \<times> 'd" where
  "idr_walk [] fn d = (0, d)"
| "idr_walk ((i, x) # t) fn d = (case fn i x d of (ret, d') \<Rightarrow> if ret \<noteq> 0 then (ret, d') else idr_walk t fn d')"

definition idr_for_each :: "'o idr \<Rightarrow> (int \<Rightarrow> 'o \<Rightarrow> 'd \<Rightarrow> int \<times> 'd) \<Rightarrow> 'd \<Rightarrow> int \<times> 'd" where
  "idr_for_each idrp fn d = idr_walk (used_ids idrp) fn d"

definition idr_pre_get :: int where "idr_pre_get = -1"

definition idr_destroy :: "'o idr \<Rightarrow> 'o idr" where
  "idr_destroy idrp = idrp\<lparr>used_ids := [], free_id_ranges := []\<rparr>"

definition idr_remove_all :: "'o idr \<Rightarrow> 'o idr" where
  "idr_remove_all idrp = idr_init (idr_destroy idrp)"

section \<open>The hashed table\<close>

text \<open>The counters \<^verbatim>\<open>fr_id\<close> and \<^verbatim>\<open>fr_time\<close> that all tables share.\<close>

record id_counters =
  fr_id :: int
  fr_time :: int

definition HASHNODE :: int where "HASHNODE = 1024"

type_synonym 'o idr_list = "int \<Rightarrow> (int \<times> 'o) list"

definition idr_list_pre_get :: int where "idr_list_pre_get = -1"

definition idr_list_init :: "'o idr_list" where "idr_list_init = (\<lambda>_. [])"

definition idr_list_find :: "'o idr_list \<Rightarrow> int \<Rightarrow> 'o option" where
  "idr_list_find head name = map_of (head (name mod HASHNODE)) name"

text \<open>\<^verbatim>\<open>do obj_temp = idr_list_find(head, id); while (obj_temp != NULL && ++id < 0x7fffffff)\<close>\<close>

function first_unused :: "'o idr_list \<Rightarrow> int \<Rightarrow> int" where
  "first_unused head ident =
     (if idr_list_find head ident \<noteq> None
      then (if ident + 1 < ID_END then first_unused head (ident + 1) else ident + 1)
      else ident)"
  by auto
termination
  by (relation "measure (\<lambda>(head, ident). nat (ID_END - ident))") auto

declare first_unused.simps [simp del]

definition next_counter :: "id_counters \<Rightarrow> id_counters \<times> int" where
  "next_counter g =
     (let g = g\<lparr>fr_id := u32 (fr_id g + 1)\<rparr>; ident = fr_id g
      in if ident = ID_END then (g\<lparr>fr_time := u32 (fr_time g + 1), fr_id := 1\<rparr>, 1) else (g, ident))"

definition idr_list_get_new_above ::
  "bool \<Rightarrow> id_counters \<Rightarrow> 'o idr_list \<Rightarrow> 'o \<Rightarrow> int \<times> int option \<times> id_counters \<times> 'o idr_list" where
  "idr_list_get_new_above mem g head obj =
     (let (g, ident) = next_counter g;
          ident = (if fr_time g \<noteq> 0 then first_unused head ident else ident);
          full = (fr_time g \<noteq> 0 \<and> \<not> ident < ID_END);
          g = (if fr_time g \<noteq> 0 then g\<lparr>fr_id := (if ident < ID_END then ident else 0)\<rparr> else g)
      in if full then (- EAGAIN, None, g, head)
         else if \<not> mem then (-1, None, g, head)
         else (let key = ident mod HASHNODE in (0, Some ident, g, head(key := (ident, obj) # head key))))"

fun remove_first :: "int \<Rightarrow> (int \<times> 'o) list \<Rightarrow> (int \<times> 'o) list option" where
  "remove_first name [] = None"
| "remove_first name (e # es) = (if fst e = name then Some es else map_option (\<lambda>r. e # r) (remove_first name es))"

definition idr_list_remove :: "'o idr_list \<Rightarrow> int \<Rightarrow> int \<times> 'o idr_list" where
  "idr_list_remove head name =
     (let key = name mod HASHNODE
      in case remove_first name (head key) of None \<Rightarrow> (-1, head) | Some es \<Rightarrow> (0, head(key := es)))"

text \<open>\<^verbatim>\<open>idr_list_for_each\<close>: the entries in the order in which the loop meets them.\<close>

definition idr_list_entries :: "'o idr_list \<Rightarrow> (int \<times> 'o) list" where
  "idr_list_entries head = concat (map (\<lambda>key. head (int key)) [0..<1024])"

definition idr_list_free :: "'o idr_list \<Rightarrow> 'o idr_list" where
  "idr_list_free head = fold (\<lambda>key h. h(int key := [])) [0..<1024] head"

fun buckets_empty :: "nat list \<Rightarrow> 'o idr_list \<Rightarrow> int" where
  "buckets_empty [] head = 1"
| "buckets_empty (key # keys) head = (if head (int key) \<noteq> [] then 0 else buckets_empty keys head)"

definition idr_list_empty :: "'o idr_list \<Rightarrow> int" where
  "idr_list_empty head = buckets_empty [0..<1024] head"

end
