(* ===== verification/Drm_Idr_Inv.thy ===== *)
theory Drm_Idr_Inv
  imports Drm_Idr
begin

text \<open>
  The invariants of the two identifier tables, what every operation keeps of them, and the contract that both
  implement: a finite map whose keys the table chooses.
\<close>

section \<open>Invariant of the range-based table\<close>

text \<open>
  The ranges tile the identifiers from \<open>s\<close> to \<open>e\<close>. A range has handed out the identifiers below
  \<open>min_unused_id\<close>, and has those in \<open>free_ids\<close> back.
\<close>

definition range_ok :: "idr_free_id_range \<Rightarrow> bool" where
  "range_ok r \<longleftrightarrow> fr_start r \<le> min_unused_id r \<and> min_unused_id r \<le> fr_end r \<and> distinct (free_ids r) \<and>
     set (free_ids r) \<subseteq> {fr_start r ..< min_unused_id r}"

fun tiles :: "int \<Rightarrow> idr_free_id_range list \<Rightarrow> int \<Rightarrow> bool" where
  "tiles s [] e \<longleftrightarrow> s = e"
| "tiles s (r # rs) e \<longleftrightarrow> fr_start r = s \<and> range_ok r \<and> tiles (fr_end r) rs e"

definition issued_by :: "idr_free_id_range \<Rightarrow> int set" where
  "issued_by r = {fr_start r ..< min_unused_id r} - set (free_ids r)"

definition issued :: "idr_free_id_range list \<Rightarrow> int set" where
  "issued rs = (\<Union>r \<in> set rs. issued_by r)"

definition used_keys :: "'o idr \<Rightarrow> int set" where
  "used_keys I = fst ` set (used_ids I)"

definition idr_inv :: "'o idr \<Rightarrow> bool" where
  "idr_inv I \<longleftrightarrow> free_id_ranges I \<noteq> [] \<and> tiles 0 (free_id_ranges I) ID_END \<and>
     sorted_wrt (<) (map fst (used_ids I)) \<and> used_keys I \<subseteq> issued (free_id_ranges I)"

text \<open>No identifier is lost: every one that was handed out and not given back is in use.\<close>

definition idr_tight :: "'o idr \<Rightarrow> bool" where
  "idr_tight I \<longleftrightarrow> idr_inv I \<and> used_keys I = issued (free_id_ranges I)"

lemma issued_simps [simp]: "issued [] = {}" "issued (r # rs) = issued_by r \<union> issued rs"
  "issued (xs @ ys) = issued xs \<union> issued ys"
  by (auto simp: issued_def)

lemma tiles_append: "tiles s (xs @ ys) e \<longleftrightarrow> (\<exists>m. tiles s xs m \<and> tiles m ys e)"
  by (induction xs arbitrary: s) auto

lemma tiles_le: "tiles s rs e \<Longrightarrow> s \<le> e"
  by (induction rs arbitrary: s) (force simp: range_ok_def)+

lemma issued_by_bounds: "range_ok r \<Longrightarrow> issued_by r \<subseteq> {fr_start r ..< fr_end r}"
  by (auto simp: range_ok_def issued_by_def)

lemma issued_bounds: "tiles s rs e \<Longrightarrow> issued rs \<subseteq> {s ..< e}"
proof (induction rs arbitrary: s)
  case (Cons r rs)
  then have "issued_by r \<subseteq> {s ..< fr_end r}" "issued rs \<subseteq> {fr_end r ..< e}" "s \<le> fr_end r" "fr_end r \<le> e"
    using issued_by_bounds [of r] tiles_le [of "fr_end r" rs e] by (auto simp: range_ok_def)
  then show ?case by auto
qed simp

subsection \<open>Splitting a range\<close>

lemma move_free_ids_eq:
  "move_free_ids start xs acc = (filter (\<lambda>x. x < start) xs, rev (filter (\<lambda>x. \<not> x < start) xs) @ acc)"
  by (induction xs arbitrary: acc) auto

lemma fr_split_tiles:
  assumes "range_ok r" "fr_start r \<le> start" "start \<le> fr_end r" "tiles (fr_end r) rs e"
    "rs = [] \<Longrightarrow> fr_end r = ID_END"
  shows "tiles (fr_start r) (fr_split r rs start) e" "issued (fr_split r rs start) = issued (r # rs)"
    "\<exists>p n. fr_split r rs start = p # n # rs \<and> fr_start n = start"
proof -
  have nx: "(case rs of [] \<Rightarrow> fr_new start | nx # _ \<Rightarrow> (fr_new start)\<lparr>fr_end := fr_start nx\<rparr>) =
    \<lparr>fr_start = start, fr_end = fr_end r, min_unused_id = start, free_ids = []\<rparr>"
    using assms(4,5) by (cases rs) (auto simp: fr_new_def)
  define full where "full = (min_unused_id r \<ge> start)"
  have sp: "fr_split r rs start =
    (if full
     then [r\<lparr>fr_end := start, min_unused_id := start, free_ids := filter (\<lambda>x. x < start) (free_ids r)\<rparr>,
       \<lparr>fr_start = start, fr_end = fr_end r, min_unused_id = min_unused_id r, free_ids = rev (filter (\<lambda>x. \<not> x < start) (free_ids r))\<rparr>]
     else [r\<lparr>fr_end := start\<rparr>, \<lparr>fr_start = start, fr_end = fr_end r, min_unused_id = start, free_ids = []\<rparr>]) @ rs"
    by (simp add: fr_split_def Let_def nx fr_isfull_def full_def move_free_ids_eq)
  show "tiles (fr_start r) (fr_split r rs start) e"
    using assms by (auto simp: sp range_ok_def full_def)
  show "issued (fr_split r rs start) = issued (r # rs)"
    using assms by (auto simp: sp range_ok_def issued_by_def full_def)
  show "\<exists>p n. fr_split r rs start = p # n # rs \<and> fr_start n = start" by (simp add: sp)
qed

lemma fr_insert_tiles:
  assumes "tiles s rs ID_END" "rs \<noteq> []" "s \<le> start" "start \<le> ID_END" "fr_insert rs start = (i, rs')"
  shows "tiles s rs' ID_END \<and> issued rs' = issued rs \<and> i < length rs' \<and> fr_start (rs' ! i) = start"
  using assms
proof (induction rs start arbitrary: s i rs' rule: fr_insert.induct)
  case (2 prev start)
  then show ?case using fr_split_tiles [of prev start "[]" ID_END] by auto
next
  case (3 prev nx rest start)
  show ?case
  proof (cases "fr_start nx < start")
    case True
    obtain j rs2 where rec: "fr_insert (nx # rest) start = (j, rs2)" by force
    have "tiles (fr_start nx) rs2 ID_END \<and> issued rs2 = issued (nx # rest) \<and> j < length rs2 \<and> fr_start (rs2 ! j) = start"
      using 3(1) [OF True _ _ _ _ rec] 3(2-) True by auto
    with rec True 3(2-) show ?thesis by auto
  next
    case False
    then have "start \<le> fr_end prev" using 3(2) by simp
    with False 3(2-) fr_split_tiles [of prev start "nx # rest" ID_END] show ?thesis by auto
  qed
qed simp

lemma fr_get_pos:
  "fr_get rs start = Some i \<Longrightarrow> i < length rs \<and> fr_start (rs ! i) = start"
  by (induction rs arbitrary: i) (auto split: if_splits)

subsection \<open>Taking and returning an identifier\<close>

lemma get_free_id_in_range:
  assumes "range_ok r" "idr_get_free_id_in_range r = (k, r')" "0 \<le> fr_start r"
  shows "range_ok r' \<and> fr_start r' = fr_start r \<and> fr_end r' = fr_end r \<and>
    (if k \<ge> 0 then k \<notin> issued_by r \<and> fr_start r \<le> k \<and> k < fr_end r \<and> issued_by r' = insert k (issued_by r)
     else r' = r \<and> issued_by r = {fr_start r ..< fr_end r})"
proof (cases "free_ids r")
  case Nil
  with assms show ?thesis
    by (auto simp: idr_get_free_id_in_range_def range_ok_def issued_by_def fr_isfull_def split: if_splits)
next
  case (Cons x xs)
  with assms show ?thesis
    by (auto simp: idr_get_free_id_in_range_def range_ok_def issued_by_def split: if_splits)
qed

lemma get_from_ranges_tiles:
  assumes "tiles s rs e" "0 \<le> s" "get_from_ranges rs = (k, rs')"
  shows "tiles s rs' e \<and>
    (if k \<ge> 0 then k \<notin> issued rs \<and> s \<le> k \<and> k < e \<and> issued rs' = insert k (issued rs)
     else rs' = rs \<and> issued rs = {s ..< e})"
  using assms
proof (induction rs arbitrary: s k rs')
  case (Cons r rs)
  obtain j r' where g: "idr_get_free_id_in_range r = (j, r')" by force
  have ok: "range_ok r" "fr_start r = s" "tiles (fr_end r) rs e" "s \<le> fr_end r" "fr_end r \<le> e"
    using Cons.prems tiles_le by (auto simp: range_ok_def)
  note gr = get_free_id_in_range [OF ok(1) g]
  note out = issued_bounds [OF ok(3)]
  show ?case
  proof (cases "j \<ge> 0")
    case True
    with Cons.prems g have "k = j" "rs' = r' # rs" by auto
    with True gr out ok Cons.prems show ?thesis by auto
  next
    case False
    obtain k2 rs2 where rec: "get_from_ranges rs = (k2, rs2)" by force
    have e: "k = k2" "rs' = r # rs2" "issued_by r = {s ..< fr_end r}" using False g rec gr ok Cons.prems by auto
    have ih: "tiles (fr_end r) rs2 e \<and>
      (if k2 \<ge> 0 then k2 \<notin> issued rs \<and> fr_end r \<le> k2 \<and> k2 < e \<and> issued rs2 = insert k2 (issued rs)
       else rs2 = rs \<and> issued rs = {fr_end r ..< e})"
      using Cons.IH [OF ok(3) _ rec] ok Cons.prems by auto
    show ?thesis
    proof (cases "k2 \<ge> 0")
      case True
      with ih e ok show ?thesis by auto
    next
      case False
      with ih e ok show ?thesis by auto
    qed
  qed
qed simp

lemma free_into_tiles:
  assumes "tiles s rs e" "k \<in> issued rs"
  shows "\<exists>rs'. free_into k rs = Some rs' \<and> tiles s rs' e \<and> issued rs' = issued rs - {k}"
  using assms
proof (induction rs arbitrary: s)
  case (Cons r rs)
  have ok: "range_ok r" "fr_start r = s" "tiles (fr_end r) rs e" using Cons.prems by auto
  show ?case
  proof (cases "fr_end r \<le> k")
    case True
    then have "k \<notin> issued_by r" using issued_by_bounds [OF ok(1)] by auto
    then obtain rs' where "free_into k rs = Some rs'" "tiles (fr_end r) rs' e" "issued rs' = issued rs - {k}"
      using Cons.IH [OF ok(3)] Cons.prems by auto
    with True ok \<open>k \<notin> issued_by r\<close> show ?thesis by auto
  next
    case False
    then have "k \<notin> issued rs" using issued_bounds [OF ok(3)] by auto
    with False Cons.prems have "k \<in> issued_by r" by simp
    with False ok \<open>k \<notin> issued rs\<close> show ?thesis by (auto simp: range_ok_def issued_by_def)
  qed
qed simp

subsection \<open>The used identifiers\<close>

lemma avl_add_set: "set (avl_add i x t) = insert (i, x) (set t)"
  by (induction i x t rule: avl_add.induct) auto

lemma avl_add_sorted:
  "sorted_wrt (<) (map fst t) \<Longrightarrow> i \<notin> fst ` set t \<Longrightarrow> sorted_wrt (<) (map fst (avl_add i x t))"
proof (induction i x t rule: avl_add.induct)
  case (2 i x j y t)
  then show ?case by (fastforce simp: avl_add_set)
qed simp

lemma avl_add_map_of: "i \<notin> fst ` set t \<Longrightarrow> map_of (avl_add i x t) = (map_of t)(i \<mapsto> x)"
  by (induction i x t rule: avl_add.induct) (auto simp: fun_eq_iff)

lemma avl_remove_map_of: "map_of (avl_remove i t) = (map_of t)(i := None)"
  by (induction t) (auto simp: avl_remove_def fun_eq_iff)

lemma avl_remove_keys: "fst ` set (avl_remove i t) = fst ` set t - {i}"
  by (auto simp: avl_remove_def image_iff)

lemma avl_remove_sorted: "sorted_wrt (<) (map fst t) \<Longrightarrow> sorted_wrt (<) (map fst (avl_remove i t))"
  by (induction t) (auto simp: avl_remove_def)

lemma idr_find_None: "idr_find I k = None \<longleftrightarrow> k \<notin> used_keys I"
  by (auto simp: idr_find_def used_keys_def map_of_eq_None_iff)

subsection \<open>The operations\<close>

lemma idr_init_tight: "idr_tight (idr_init I)"
  by (auto simp: idr_tight_def idr_inv_def idr_init_def used_keys_def fr_new_def range_ok_def issued_by_def ID_END_def)

text \<open>The part of an allocation that finds an identifier.\<close>

lemma ranges_step:
  assumes "tiles 0 rs ID_END" "rs \<noteq> []" "0 \<le> start" "start \<le> ID_END"
    "(case fr_get rs start of Some i \<Rightarrow> (i, rs) | None \<Rightarrow> fr_insert rs start) = (pos, rs1)"
    "get_from_ranges (drop pos rs1) = (k, tl')"
  shows "tiles 0 (take pos rs1 @ tl') ID_END \<and> take pos rs1 @ tl' \<noteq> [] \<and>
    (if k \<ge> 0 then k \<notin> issued rs \<and> start \<le> k \<and> k < ID_END \<and> issued (take pos rs1 @ tl') = insert k (issued rs)
     else issued (take pos rs1 @ tl') = issued rs \<and> {start ..< ID_END} \<subseteq> issued rs)"
proof -
  have p: "tiles 0 rs1 ID_END" "issued rs1 = issued rs" "pos < length rs1" "fr_start (rs1 ! pos) = start"
    using fr_insert_tiles [OF assms(1,2,3,4)] fr_get_pos assms(1,5) by (auto split: option.splits)
  have "tiles 0 (take pos rs1 @ drop pos rs1) ID_END" using p(1) by simp
  then obtain m where m: "tiles 0 (take pos rs1) m" "tiles m (drop pos rs1) ID_END" unfolding tiles_append by blast
  have "drop pos rs1 = rs1 ! pos # drop (Suc pos) rs1" using p(3) by (simp add: Cons_nth_drop_Suc)
  then have "m = start" using m(2) p(4) by simp
  note g = get_from_ranges_tiles [OF m(2) _ assms(6)]
  have i: "issued rs = issued (take pos rs1) \<union> issued (drop pos rs1)"
    using p(2) issued_simps(3) [of "take pos rs1" "drop pos rs1"] by simp
  have lo: "issued (take pos rs1) \<subseteq> {0 ..< start}" using issued_bounds [OF m(1)] \<open>m = start\<close> by simp
  have ne: "take pos rs1 @ tl' \<noteq> []"
  proof -
    have "tl' \<noteq> []" using assms(6) \<open>drop pos rs1 = _\<close> by (auto split: prod.splits if_splits)
    then show ?thesis by simp
  qed
  have "tiles 0 (take pos rs1 @ tl') ID_END"
    using m(1) g \<open>m = start\<close> assms(3) by (auto simp: tiles_append)
  with g i lo ne p(2) \<open>m = start\<close> assms(3) show ?thesis by (cases "k \<ge> 0") auto
qed

lemma idr_get_new_above_result:
  assumes inv: "idr_inv I" and r: "idr_get_new_above mem I x start = (ret, k, I')" and st: "start \<le> ID_END"
  shows "idr_inv I' \<and> (ret = 0 \<longleftrightarrow> k \<noteq> None) \<and>
    (case k of Some i \<Rightarrow> start \<le> i \<and> 0 \<le> i \<and> i < ID_END \<and> idr_find I i = None \<and> idr_find I' = (idr_find I)(i \<mapsto> x) \<and>
         (idr_tight I \<longrightarrow> idr_tight I')
     | None \<Rightarrow> idr_find I' = idr_find I \<and>
         (ret = - EINVAL \<and> start < 0 \<or> ret = - ENOMEM \<and> \<not> mem \<or>
          ret = -1 \<and> (idr_tight I \<longrightarrow> idr_tight I' \<and> (\<forall>i. start \<le> i \<longrightarrow> i < ID_END \<longrightarrow> idr_find I i \<noteq> None))))"
proof (cases "start < 0")
  case True
  with inv r show ?thesis by (auto simp: idr_get_new_above_def errno_defs)
next
  case False
  obtain pos rs1 where a: "(case fr_get (free_id_ranges I) start of Some i \<Rightarrow> (i, free_id_ranges I)
      | None \<Rightarrow> fr_insert (free_id_ranges I) start) = (pos, rs1)" by force
  obtain j tl' where g: "get_from_ranges (drop pos rs1) = (j, tl')" by force
  define rs' where "rs' = take pos rs1 @ tl'"
  have i: "tiles 0 (free_id_ranges I) ID_END" "free_id_ranges I \<noteq> []" "sorted_wrt (<) (map fst (used_ids I))"
    "used_keys I \<subseteq> issued (free_id_ranges I)"
    using inv by (auto simp: idr_inv_def)
  have s: "tiles 0 rs' ID_END \<and> rs' \<noteq> [] \<and>
    (if j \<ge> 0 then j \<notin> issued (free_id_ranges I) \<and> start \<le> j \<and> j < ID_END \<and> issued rs' = insert j (issued (free_id_ranges I))
     else issued rs' = issued (free_id_ranges I) \<and> {start ..< ID_END} \<subseteq> issued (free_id_ranges I))"
    unfolding rs'_def by (rule ranges_step [OF i(1,2) _ st a g]) (use False in simp)
  have r': "(ret, k, I') = (if j < 0 then (-1, None, I\<lparr>free_id_ranges := rs'\<rparr>)
      else if \<not> mem then (- ENOMEM, None, I\<lparr>free_id_ranges := rs'\<rparr>)
      else (0, Some j, I\<lparr>free_id_ranges := rs', used_ids := avl_add j x (used_ids I)\<rparr>))"
    using r False unfolding idr_get_new_above_def a by (simp add: g rs'_def Let_def split: if_splits)
  have uk: "used_keys (I\<lparr>free_id_ranges := rs'\<rparr>) = used_keys I" by (simp add: used_keys_def)
  show ?thesis
  proof (cases "j < 0")
    case True
    have "idr_find (I\<lparr>free_id_ranges := rs'\<rparr>) = idr_find I" by (simp add: idr_find_def fun_eq_iff)
    moreover have "k = None" "ret = -1" "I' = I\<lparr>free_id_ranges := rs'\<rparr>" using True r' by auto
    moreover have "idr_inv I'" using True s i uk calculation by (simp add: idr_inv_def)
    moreover have "idr_tight I \<longrightarrow> idr_tight I' \<and> (\<forall>i. start \<le> i \<longrightarrow> i < ID_END \<longrightarrow> i \<in> used_keys I)"
      using True s uk calculation by (auto simp: idr_tight_def)
    ultimately show ?thesis by (simp add: idr_find_None del: not_None_eq)
  next
    case pos: False
    then have nk: "j \<notin> used_keys I" using s i by auto
    show ?thesis
    proof (cases mem)
      case False
      with pos r' s i uk show ?thesis by (auto simp: idr_inv_def idr_find_def errno_defs)
    next
      case True
      have uk': "used_keys I' = insert j (used_keys I)" using True pos r' by (auto simp: used_keys_def avl_add_set)
      have "sorted_wrt (<) (map fst (used_ids I'))"
        using True pos r' nk i by (auto simp: used_keys_def intro: avl_add_sorted)
      moreover have "idr_find I' = (idr_find I)(j \<mapsto> x)"
        using True pos r' nk by (auto simp: idr_find_def used_keys_def avl_add_map_of fun_eq_iff)
      ultimately show ?thesis
        using True pos r' s i uk' nk by (auto simp: idr_inv_def idr_tight_def idr_find_None)
    qed
  qed
qed

lemma idr_remove_result:
  assumes inv: "idr_inv I"
  shows "\<exists>ret I'. idr_remove mem I k = Some (ret, I') \<and> idr_inv I' \<and> (idr_tight I \<longrightarrow> idr_tight I') \<and>
    (if idr_find I k = None then ret = - EINVAL \<and> I' = I
     else if mem then ret = 0 \<and> idr_find I' = (idr_find I)(k := None) else ret = - ENOMEM \<and> I' = I)"
proof (cases "idr_find I k \<noteq> None \<and> mem")
  case True
  then have k: "k \<in> issued (free_id_ranges I)" using inv by (auto simp: idr_inv_def idr_find_None)
  have t: "tiles 0 (free_id_ranges I) ID_END" using inv by (simp add: idr_inv_def)
  obtain rs' where rs: "free_into k (free_id_ranges I) = Some rs'" "tiles 0 rs' ID_END"
    "issued rs' = issued (free_id_ranges I) - {k}"
    using free_into_tiles [OF t k] by blast
  have ne: "rs' \<noteq> []" using rs(2) by (auto simp: ID_END_def)
  let ?I = "I\<lparr>free_id_ranges := rs', used_ids := avl_remove k (used_ids I)\<rparr>"
  have uk: "used_keys ?I = used_keys I - {k}" by (simp add: used_keys_def avl_remove_keys)
  have iv: "idr_inv ?I" using inv rs ne uk by (auto simp: idr_inv_def avl_remove_sorted)
  moreover have "idr_tight I \<longrightarrow> idr_tight ?I" using iv rs(3) uk by (simp add: idr_tight_def)
  moreover have "idr_find ?I = (idr_find I)(k := None)" by (simp add: idr_find_def avl_remove_map_of fun_eq_iff)
  moreover have "idr_remove mem I k = Some (0, ?I)" using True rs(1) by (auto simp: idr_remove_def)
  moreover have "idr_find I k \<noteq> None" "mem" using True by auto
  ultimately show ?thesis by (intro exI [of _ 0] exI [of _ ?I]) (simp del: not_None_eq)
qed (use inv in \<open>auto simp: idr_remove_def\<close>)

lemma map_of_overwrite:
  "k \<in> fst ` set t \<Longrightarrow> map_of (map (\<lambda>(j, y). if j = k then (j, x) else (j, y)) t) = (map_of t)(k \<mapsto> x)"
proof (induction t)
  case (Cons e t)
  have "map (\<lambda>(j, y). if j = k then (j, x) else (j, y)) t = t" if "k \<notin> fst ` set t"
    using that by (intro map_idI) (force split: prod.splits)
  with Cons show ?case by (cases "k \<in> fst ` set t"; cases e) (auto simp: fun_eq_iff)
qed simp

lemma idr_replace_result:
  assumes "idr_inv I" "idr_replace I x k = (r, I')"
  shows "idr_inv I' \<and> (idr_tight I \<longrightarrow> idr_tight I') \<and>
    (case idr_find I k of None \<Rightarrow> r = Inl (- EINVAL) \<and> I' = I
     | Some y \<Rightarrow> r = Inr y \<and> idr_find I' = (idr_find I)(k \<mapsto> x))"
proof (cases "idr_find I k")
  case (Some y)
  let ?u = "map (\<lambda>(j, y). if j = k then (j, x) else (j, y)) (used_ids I)"
  have f: "map fst ?u = map fst (used_ids I)" by (simp add: case_prod_unfold comp_def if_distrib)
  then have uk: "fst ` set ?u = used_keys I" by (metis list.set_map used_keys_def)
  have I': "I' = I\<lparr>used_ids := ?u\<rparr>" "r = Inr y" using assms(2) Some by (auto simp: idr_replace_def)
  have "map_of ?u = (map_of (used_ids I))(k \<mapsto> x)" if "k \<in> fst ` set (used_ids I)"
    using that by (rule map_of_overwrite)
  moreover have "k \<in> fst ` set (used_ids I)" using Some by (auto simp: idr_find_def dest: map_of_SomeD intro: rev_image_eqI)
  ultimately have "idr_find I' = (idr_find I)(k \<mapsto> x)" by (simp add: I' idr_find_def fun_eq_iff)
  moreover have "used_keys I' = used_keys I" unfolding I' using uk by (simp add: used_keys_def)
  moreover have "sorted_wrt (<) (map fst (used_ids I')) = sorted_wrt (<) (map fst (used_ids I))"
    unfolding I' using f by (simp del: map_map)
  moreover have "free_id_ranges I' = free_id_ranges I" unfolding I' by simp
  ultimately show ?thesis using assms(1) Some I'(2) by (simp add: idr_inv_def idr_tight_def)
qed (use assms in \<open>auto simp: idr_replace_def\<close>)

lemma idr_walk_all:
  "(\<And>i y d. fst (fn i y d) = 0) \<Longrightarrow> idr_walk t fn d = (0, fold (\<lambda>(i, y) d. snd (fn i y d)) t d)"
  by (induction t arbitrary: d) (auto simp: case_prod_unfold)

section \<open>Invariant of the hashed table\<close>

text \<open>
  An entry sits in the chain of its identifier; identifiers are positive and unique. As long as the
  counter has not wrapped around, no identifier of any table is above it.
\<close>

definition counters_ok :: "id_counters \<Rightarrow> bool" where
  "counters_ok g \<longleftrightarrow> 0 \<le> fr_id g \<and> fr_id g < ID_END \<and> 0 \<le> fr_time g"

definition chain_ok :: "int \<Rightarrow> (int \<times> 'o) list \<Rightarrow> bool" where
  "chain_ok key es \<longleftrightarrow> distinct (map fst es) \<and> (\<forall>(i, _) \<in> set es. 0 < i \<and> i < ID_END \<and> i mod HASHNODE = key)"

definition idr_list_inv :: "id_counters \<Rightarrow> 'o idr_list \<Rightarrow> bool" where
  "idr_list_inv g L \<longleftrightarrow> (\<forall>key. chain_ok key (L key)) \<and>
     (fr_time g = 0 \<longrightarrow> (\<forall>i. idr_list_find L i \<noteq> None \<longrightarrow> i \<le> fr_id g))"

lemma idr_list_find_upd:
  assumes "i = name mod HASHNODE"
  shows "idr_list_find (L(i := (name, x) # L i)) = (idr_list_find L)(name \<mapsto> x)"
  using assms by (auto simp: idr_list_find_def fun_eq_iff)

lemma first_unused_props:
  assumes "k < ID_END"
  shows "k \<le> first_unused L k \<and> first_unused L k \<le> ID_END \<and>
    (first_unused L k < ID_END \<longrightarrow> idr_list_find L (first_unused L k) = None) \<and>
    (\<forall>i. k \<le> i \<longrightarrow> i < first_unused L k \<longrightarrow> idr_list_find L i \<noteq> None)"
  using assms
proof (induction L k rule: first_unused.induct)
  case (1 L k)
  show ?case
  proof (cases "idr_list_find L k = None")
    case True
    with 1(2) show ?thesis by (auto simp: first_unused.simps [of L k])
  next
    case f: False
    show ?thesis
    proof (cases "k + 1 < ID_END")
      case True
      have e: "first_unused L k = first_unused L (k + 1)" using f True by (simp add: first_unused.simps [of L k])
      have all: "idr_list_find L i \<noteq> None" if "k \<le> i" "i < first_unused L (k + 1)" for i
        using 1(1) [OF f True True] f that by (cases "i = k") auto
      show ?thesis unfolding e using 1(1) [OF f True True] all by auto
    next
      case False
      then have e: "first_unused L k = k + 1" using f by (simp add: first_unused.simps [of L k])
      have "i = k" if "k \<le> i" "i < k + 1" for i using that by simp
      with e False 1(2) f show ?thesis by auto
    qed
  qed
qed

lemma next_counter_props:
  assumes "counters_ok g" "next_counter g = (g', k)" "fr_time g < 4294967295"
  shows "counters_ok g' \<and> fr_id g' = k \<and> 0 < k \<and> (fr_time g' = 0 \<longrightarrow> fr_time g = 0 \<and> k = fr_id g + 1)"
  using assms by (auto simp: next_counter_def counters_ok_def Let_def u32_def ID_END_def split: if_splits)

lemma chain_ok_Cons:
  "chain_ok key ((i, x) # es) \<longleftrightarrow> chain_ok key es \<and> i \<notin> fst ` set es \<and> 0 < i \<and> i < ID_END \<and> i mod HASHNODE = key"
  by (auto simp: chain_ok_def)

lemma idr_list_find_None: "idr_list_find L i = None \<longleftrightarrow> i \<notin> fst ` set (L (i mod HASHNODE))"
  by (simp add: idr_list_find_def map_of_eq_None_iff)

lemma idr_list_get_new_above_result:
  assumes cnt: "counters_ok g" "fr_time g < 4294967295" and inv: "idr_list_inv g L"
    and r: "idr_list_get_new_above mem g L x = (ret, k, g', L')"
  shows "counters_ok g' \<and> idr_list_inv g' L' \<and> (ret = 0 \<longleftrightarrow> k \<noteq> None) \<and>
    (fr_time g' = 0 \<longrightarrow> fr_time g = 0 \<and> fr_id g < fr_id g') \<and>
    (case k of Some i \<Rightarrow> 0 < i \<and> i < ID_END \<and> idr_list_find L i = None \<and> idr_list_find L' = (idr_list_find L)(i \<mapsto> x)
     | None \<Rightarrow> L' = L \<and> (ret = - EAGAIN \<and> fr_id g' = 0 \<and> (\<forall>i. fr_id (fst (next_counter g)) \<le> i \<longrightarrow> i < ID_END \<longrightarrow> idr_list_find L i \<noteq> None) \<or>
          ret = -1 \<and> \<not> mem))"
proof -
  obtain g1 n where n: "next_counter g = (g1, n)" by force
  note np = next_counter_props [OF cnt(1) n cnt(2)]
  have n0: "n < ID_END" using np by (auto simp: counters_ok_def)
  define i where "i = (if fr_time g1 \<noteq> 0 then first_unused L n else n)"
  define g2 where "g2 = (if fr_time g1 \<noteq> 0 then g1\<lparr>fr_id := (if i < ID_END then i else 0)\<rparr> else g1)"
  have fu: "n \<le> i" "i \<le> ID_END" "fr_time g1 \<noteq> 0 \<longrightarrow> i < ID_END \<longrightarrow> idr_list_find L i = None"
    "\<forall>j. n \<le> j \<longrightarrow> j < i \<longrightarrow> idr_list_find L j \<noteq> None"
    using first_unused_props [OF n0, of L] n0 by (auto simp: i_def)
  have r': "(ret, k, g', L') =
    (if fr_time g1 \<noteq> 0 \<and> \<not> i < ID_END then (- EAGAIN, None, g2, L)
     else if \<not> mem then (-1, None, g2, L)
     else (0, Some i, g2, L(i mod HASHNODE := (i, x) # L (i mod HASHNODE))))"
    unfolding i_def g2_def r [symmetric] idr_list_get_new_above_def n Let_def prod.case by (rule refl)
  have c2: "counters_ok g2" "fr_time g2 = fr_time g1"
    using np fu by (auto simp: g2_def counters_ok_def ID_END_def)
  have small: "j \<le> fr_id g" if "fr_time g1 = 0" "idr_list_find L j \<noteq> None" for j
    using inv np that by (auto simp: idr_list_inv_def)
  have id2: "fr_id g2 = n" "i = n" "fr_id g < n" if "fr_time g1 = 0" using that np by (auto simp: g2_def i_def)
  have inv2: "idr_list_inv g2 L"
    using inv small id2 c2(2) unfolding idr_list_inv_def by force
  have step: "fr_time g2 = 0 \<longrightarrow> fr_time g = 0 \<and> fr_id g < fr_id g2" using np c2 id2 by auto
  show ?thesis
  proof (cases "fr_time g1 \<noteq> 0 \<and> \<not> i < ID_END")
    case True
    then have "i = ID_END" using fu by simp
    with True r' c2 inv2 step fu np n show ?thesis by (auto simp: errno_defs g2_def)
  next
    case ok: False
    have il: "0 < i" "i < ID_END" using ok fu np n0 id2 by (auto simp: i_def)
    have fresh: "idr_list_find L i = None"
      using ok fu(3) il small [of i] id2 by (cases "fr_time g1 = 0") fastforce+
    show ?thesis
    proof (cases mem)
      case False
      with ok r' c2 inv2 step show ?thesis by (auto simp: errno_defs)
    next
      case True
      let ?L = "L(i mod HASHNODE := (i, x) # L (i mod HASHNODE))"
      have f: "idr_list_find ?L = (idr_list_find L)(i \<mapsto> x)" by (rule idr_list_find_upd) simp
      have ch: "chain_ok key (?L key)" for key
        using inv fresh il by (auto simp: idr_list_inv_def chain_ok_Cons idr_list_find_None)
      have "j \<le> fr_id g2" if "fr_time g2 = 0" "idr_list_find ?L j \<noteq> None" for j
        using that small [of j] id2 c2 unfolding f by (cases "j = i") auto
      with ch have "idr_list_inv g2 ?L" by (auto simp: idr_list_inv_def)
      with True ok r' c2 il fresh f step show ?thesis by auto
    qed
  qed
qed

lemma remove_first_props:
  "distinct (map fst es) \<Longrightarrow> (case remove_first name es of
     None \<Rightarrow> name \<notin> fst ` set es
   | Some es' \<Rightarrow> name \<in> fst ` set es \<and> set es' \<subseteq> set es \<and> distinct (map fst es') \<and> map_of es' = (map_of es)(name := None))"
proof (induction es)
  case (Cons e es)
  have "map_of es name = None" if "fst e = name" using that Cons.prems by (auto simp: map_of_eq_None_iff)
  with Cons show ?case
    by (cases e) (auto split: option.splits if_splits simp: fun_eq_iff map_of_eq_None_iff)
qed simp

lemma idr_list_remove_result:
  assumes inv: "idr_list_inv g L" and r: "idr_list_remove L name = (ret, L')"
  shows "idr_list_inv g L' \<and>
    (if idr_list_find L name = None then ret = -1 \<and> L' = L
     else ret = 0 \<and> idr_list_find L' = (idr_list_find L)(name := None))"
proof -
  define key where "key = name mod HASHNODE"
  have c: "chain_ok key (L key)" using inv by (simp add: idr_list_inv_def)
  note p = remove_first_props [of "L key" name]
  show ?thesis
  proof (cases "remove_first name (L key)")
    case None
    with p c r inv show ?thesis by (auto simp: idr_list_remove_def key_def [symmetric] idr_list_find_None chain_ok_def)
  next
    case (Some es)
    have q: "name \<in> fst ` set (L key)" "set es \<subseteq> set (L key)" "distinct (map fst es)" "map_of es = (map_of (L key))(name := None)"
      using p c Some by (auto simp: chain_ok_def)
    have L': "L' = L(key := es)" "ret = 0" using r Some by (auto simp: idr_list_remove_def key_def)
    have f: "idr_list_find L' = (idr_list_find L)(name := None)"
      using q(4) by (auto simp: fun_eq_iff idr_list_find_def L' key_def)
    have "chain_ok key es" using c q(2,3) unfolding chain_ok_def by blast
    then have "chain_ok k' (L' k')" for k' using inv by (simp add: L' idr_list_inv_def)
    then have "idr_list_inv g L'" using inv unfolding idr_list_inv_def f by auto
    with f q L' show ?thesis by (auto simp: idr_list_find_None key_def)
  qed
qed

text \<open>An allocation in one table keeps the invariant of every other table.\<close>

lemma idr_list_inv_other:
  assumes "idr_list_inv g L" "fr_time g' = 0 \<longrightarrow> fr_time g = 0 \<and> fr_id g < fr_id g'"
  shows "idr_list_inv g' L"
  using assms unfolding idr_list_inv_def by force

lemma idr_list_init_inv: "idr_list_inv g idr_list_init"
  by (simp add: idr_list_inv_def idr_list_init_def chain_ok_def idr_list_find_def)

text \<open>The walk over all chains meets every entry exactly once.\<close>

lemma idr_list_entries_set:
  assumes "idr_list_inv g L"
  shows "set (idr_list_entries L) = {(i, x). idr_list_find L i = Some x}"
proof -
  have c: "chain_ok key (L key)" for key using assms by (simp add: idr_list_inv_def)
  have "(i, x) \<in> set (L key) \<longleftrightarrow> idr_list_find L i = Some x \<and> key = i mod HASHNODE" for i x key
    using c [of key] by (auto simp: chain_ok_def idr_list_find_def)
  moreover have "\<exists>key \<in> {0..<1024}. int key = i mod HASHNODE" for i
    by (intro bexI [of _ "nat (i mod HASHNODE)"]) (auto simp: HASHNODE_def)
  ultimately show ?thesis by (auto simp: idr_list_entries_def)
qed

lemma idr_list_entries_distinct:
  assumes "idr_list_inv g L"
  shows "distinct (map fst (idr_list_entries L))"
proof -
  have c: "chain_ok key (L key)" for key using assms by (simp add: idr_list_inv_def)
  have "distinct (map fst (concat (map (\<lambda>key. L (int key)) [0..<n])))" for n
  proof (induction n)
    case (Suc n)
    have "i \<noteq> j" if "(i, x) \<in> set (L (int a))" "a < n" "(j, y) \<in> set (L (int n))" for i j x y a
      using c [of "int a"] c [of "int n"] that by (force simp: chain_ok_def)
    with Suc c [of "int n"] show ?case by (fastforce simp: chain_ok_def)
  qed simp
  then show ?thesis by (simp add: idr_list_entries_def)
qed

lemma idr_list_empty_iff:
  assumes "idr_list_inv g L"
  shows "idr_list_empty L = 1 \<longleftrightarrow> (\<forall>i. idr_list_find L i = None)" "idr_list_empty L \<in> {0, 1}"
proof -
  have b: "buckets_empty ks L = (if concat (map (\<lambda>k. L (int k)) ks) = [] then 1 else 0)" for ks by (induction ks) auto
  have e: "idr_list_empty L = (if idr_list_entries L = [] then 1 else 0)"
    unfolding idr_list_empty_def idr_list_entries_def by (rule b)
  have "(\<exists>i x. idr_list_find L i = Some x) \<longleftrightarrow> set (idr_list_entries L) \<noteq> {}"
    unfolding idr_list_entries_set [OF assms] by auto
  then show "idr_list_empty L = 1 \<longleftrightarrow> (\<forall>i. idr_list_find L i = None)" using e by auto
  show "idr_list_empty L \<in> {0, 1}" using e by simp
qed

end
