(* ===== verification/Drm_Idr_Thms.thy ===== *)
theory Drm_Idr_Thms
  imports Drm_Idr_Inv
begin

text \<open>
  The contract that both identifier tables implement, as a locale; its interpretations; and the properties of
  the tables.
\<close>

section \<open>The contract\<close>

datatype 'o table_op = Add 'o | Del int

text \<open>
  The specification: a finite map. Adding an object binds it to some unused identifier or leaves
  the map alone; deleting removes the binding.
\<close>

fun spec_run :: "(int \<rightharpoonup> 'o) \<Rightarrow> 'o table_op list \<Rightarrow> int option list \<Rightarrow> (int \<rightharpoonup> 'o) \<Rightarrow> bool" where
  "spec_run m [] [] m' \<longleftrightarrow> m' = m"
| "spec_run m (Add x # ops) (Some i # ids) m' \<longleftrightarrow> 0 \<le> i \<and> m i = None \<and> spec_run (m(i \<mapsto> x)) ops ids m'"
| "spec_run m (Add x # ops) (None # ids) m' \<longleftrightarrow> spec_run m ops ids m'"
| "spec_run m (Del i # ops) (k # ids) m' \<longleftrightarrow> spec_run (m(i := None)) ops ids m'"
| "spec_run m _ _ m' \<longleftrightarrow> False"

fun table_run :: "('s \<Rightarrow> 'o \<Rightarrow> int option \<times> 's) \<Rightarrow> ('s \<Rightarrow> int \<Rightarrow> 's) \<Rightarrow> 'o table_op list \<Rightarrow> 's \<Rightarrow> int option list \<times> 's" where
  "table_run add del [] s = ([], s)"
| "table_run add del (Add x # ops) s =
     (case add s x of (k, s1) \<Rightarrow> (case table_run add del ops s1 of (ks, s2) \<Rightarrow> (k # ks, s2)))"
| "table_run add del (Del i # ops) s = (case table_run add del ops (del s i) of (ks, s2) \<Rightarrow> (None # ks, s2))"

text \<open>\<open>room s\<close> bounds the number of additions for which the table answers.\<close>

locale id_table =
  fixes inv :: "'s \<Rightarrow> bool" and lookup :: "'s \<Rightarrow> int \<Rightarrow> 'o option" and room :: "'s \<Rightarrow> nat"
    and add :: "'s \<Rightarrow> 'o \<Rightarrow> int option \<times> 's" and del :: "'s \<Rightarrow> int \<Rightarrow> 's"
  assumes add_inv: "inv s \<Longrightarrow> 0 < room s \<Longrightarrow> inv (snd (add s x))"
    and add_room: "inv s \<Longrightarrow> 0 < room s \<Longrightarrow> room s \<le> Suc (room (snd (add s x)))"
    and add_Some: "inv s \<Longrightarrow> 0 < room s \<Longrightarrow> fst (add s x) = Some i \<Longrightarrow>
        0 \<le> i \<and> lookup s i = None \<and> lookup (snd (add s x)) = (lookup s)(i \<mapsto> x)"
    and add_None: "inv s \<Longrightarrow> 0 < room s \<Longrightarrow> fst (add s x) = None \<Longrightarrow> lookup (snd (add s x)) = lookup s"
    and del_inv: "inv s \<Longrightarrow> inv (del s i)"
    and del_room: "inv s \<Longrightarrow> room (del s i) = room s"
    and del_lookup: "inv s \<Longrightarrow> lookup (del s i) = (lookup s)(i := None)"
begin

lemma refines_map:
  assumes "inv s" "length ops \<le> room s" "table_run add del ops s = (ids, s')"
  shows "inv s' \<and> spec_run (lookup s) ops ids (lookup s')"
  using assms
proof (induction ops arbitrary: s ids)
  case (Cons c ops)
  show ?case
  proof (cases c)
    case (Add x)
    obtain k s1 where a: "add s x = (k, s1)" by force
    obtain ks where r: "table_run add del ops s1 = (ks, s')" "ids = k # ks"
      using Cons.prems(3) Add a by (auto split: prod.splits)
    have pos: "0 < room s" using Cons.prems(2) by simp
    have "inv s1" "length ops \<le> room s1" using add_inv [of s x] add_room [of s x] Cons.prems pos a by auto
    with Cons.IH r(1) have "inv s' \<and> spec_run (lookup s1) ops ks (lookup s')" by blast
    then show ?thesis
      using Add r(2) add_Some [of s x] add_None [of s x] Cons.prems(1) pos a by (cases k) auto
  next
    case (Del i)
    obtain ks where r: "table_run add del ops (del s i) = (ks, s')" "ids = None # ks"
      using Cons.prems(3) Del by (auto split: prod.splits)
    have "inv (del s i)" "length ops \<le> room (del s i)" using del_inv del_room Cons.prems by auto
    with Cons.IH r(1) have "inv s' \<and> spec_run (lookup (del s i)) ops ks (lookup s')" by blast
    then show ?thesis using Del r(2) del_lookup Cons.prems(1) by simp
  qed
qed simp

lemma add_del_restores:
  assumes "inv s" "0 < room s" "add s x = (Some i, s1)"
  shows "lookup (del s1 i) = lookup s"
proof -
  have "lookup s i = None" "lookup s1 = (lookup s)(i \<mapsto> x)" "inv s1"
    using add_Some [of s x i] add_inv [of s x] assms by auto
  then show ?thesis using del_lookup [of s1 i] by (simp add: fun_upd_idem_iff fun_upd_idem)
qed

end

section \<open>The tables meet the contract\<close>

definition idr_add :: "int \<Rightarrow> 'o idr \<Rightarrow> 'o \<Rightarrow> int option \<times> 'o idr" where
  "idr_add start I x = (case idr_get_new_above True I x start of (_, k, I') \<Rightarrow> (k, I'))"

definition idr_del :: "'o idr \<Rightarrow> int \<Rightarrow> 'o idr" where
  "idr_del I i = (case idr_remove True I i of Some (_, I') \<Rightarrow> I' | None \<Rightarrow> I)"

text \<open>A start value of a caller, in the range of \<^verbatim>\<open>int\<close>.\<close>

definition int_arg :: "int \<Rightarrow> int" where "int_arg n = min n ID_END"

interpretation idr: id_table idr_inv idr_find "\<lambda>_. room" "idr_add (int_arg start)" idr_del for start room
proof (unfold_locales, goal_cases)
  case (1 s x)
  then show ?case
    using idr_get_new_above_result [of s True x "int_arg start"]
    by (force simp: idr_add_def int_arg_def split: prod.splits)
next
  case (3 s x i)
  obtain r k s' where e: "idr_get_new_above True s x (int_arg start) = (r, k, s')" by (metis prod_cases3)
  have le: "int_arg start \<le> ID_END" by (simp add: int_arg_def)
  show ?case using idr_get_new_above_result [OF 3(1) e le] 3(3) e by (auto simp: idr_add_def)
next
  case (4 s x)
  obtain r k s' where e: "idr_get_new_above True s x (int_arg start) = (r, k, s')" by (metis prod_cases3)
  have le: "int_arg start \<le> ID_END" by (simp add: int_arg_def)
  show ?case using idr_get_new_above_result [OF 4(1) e le] 4(3) e by (auto simp: idr_add_def)
next
  case (5 s i)
  then show ?case using idr_remove_result [of s True i] by (auto simp: idr_del_def)
next
  case (7 s i)
  then obtain r s' where e: "idr_remove True s i = Some (r, s')"
    "if idr_find s i = None then r = - EINVAL \<and> s' = s else r = 0 \<and> idr_find s' = (idr_find s)(i := None)"
    using idr_remove_result [of s True i] by auto
  then show ?case by (cases "idr_find s i") (auto simp: idr_del_def fun_upd_idem_iff)
qed simp_all

text \<open>The hashed table with the shared counters.\<close>

definition hashed_inv :: "id_counters \<times> 'o idr_list \<Rightarrow> bool" where
  "hashed_inv = (\<lambda>(g, L). counters_ok g \<and> idr_list_inv g L)"

definition hashed_room :: "id_counters \<times> 'o idr_list \<Rightarrow> nat" where
  "hashed_room = (\<lambda>(g, L). nat (4294967295 - fr_time g))"

definition hashed_add :: "id_counters \<times> 'o idr_list \<Rightarrow> 'o \<Rightarrow> int option \<times> (id_counters \<times> 'o idr_list)" where
  "hashed_add = (\<lambda>(g, L) x. case idr_list_get_new_above True g L x of (_, k, s) \<Rightarrow> (k, s))"

definition hashed_del :: "id_counters \<times> 'o idr_list \<Rightarrow> int \<Rightarrow> id_counters \<times> 'o idr_list" where
  "hashed_del = (\<lambda>(g, L) i. (g, snd (idr_list_remove L i)))"

definition hashed_find :: "id_counters \<times> 'o idr_list \<Rightarrow> int \<Rightarrow> 'o option" where
  "hashed_find = (\<lambda>(g, L). idr_list_find L)"

lemma hashed_add_cases:
  assumes "hashed_inv s" "0 < hashed_room s" "hashed_add s x = (k, s')"
  shows "hashed_inv s' \<and> hashed_room s \<le> Suc (hashed_room s') \<and>
    (case k of Some i \<Rightarrow> 0 \<le> i \<and> hashed_find s i = None \<and> hashed_find s' = (hashed_find s)(i \<mapsto> x)
     | None \<Rightarrow> hashed_find s' = hashed_find s)"
proof -
  obtain g L where s: "s = (g, L)" by force
  obtain r g' L' where e: "idr_list_get_new_above True g L x = (r, k, g', L')" "s' = (g', L')"
    using assms(3) by (auto simp: hashed_add_def s split: prod.splits)
  have c: "counters_ok g" "fr_time g < 4294967295" "idr_list_inv g L" using assms s by (auto simp: hashed_inv_def hashed_room_def)
  have t: "fr_time g' \<le> fr_time g + 1"
    using e(1) c by (auto simp: idr_list_get_new_above_def next_counter_def Let_def u32_def counters_ok_def split: if_splits)
  then have "hashed_room s \<le> Suc (hashed_room s')" by (simp add: s e(2) hashed_room_def)
  with idr_list_get_new_above_result [OF c e(1)] show ?thesis
    by (auto simp: s e(2) hashed_inv_def hashed_find_def split: option.splits)
qed

interpretation hashed: id_table hashed_inv hashed_find hashed_room hashed_add hashed_del
proof (unfold_locales, goal_cases)
  case (1 s x) then show ?case using hashed_add_cases [of s x] by (metis prod.collapse)
next
  case (2 s x) then show ?case using hashed_add_cases [of s x] by (metis prod.collapse)
next
  case (3 s x i) then show ?case using hashed_add_cases [of s x "Some i"] by (simp add: prod_eq_iff)
next
  case (4 s x) then show ?case using hashed_add_cases [of s x None] by (simp add: prod_eq_iff)
next
  case (5 s i)
  then show ?case using idr_list_remove_result [of "fst s" "snd s" i]
    by (auto simp: hashed_inv_def hashed_del_def split: prod.splits) (metis prod.collapse)
next
  case (6 s i) then show ?case by (auto simp: hashed_room_def hashed_del_def split: prod.splits)
next
  case (7 s i)
  obtain g L where s: "s = (g, L)" by force
  obtain r L' where e: "idr_list_remove L i = (r, L')" by force
  show ?case
    using idr_list_remove_result [OF _ e, of g] 7
    by (cases "idr_list_find L i") (auto simp: s e hashed_inv_def hashed_del_def hashed_find_def fun_upd_idem_iff)
qed

section \<open>Properties\<close>

subsection \<open>The range-based table\<close>

text \<open>
  \<^verbatim>\<open>idr_get_new_above\<close> keeps the table well formed. When it returns 0 the new identifier is at least the
  requested start, below \<open>0x7fffffff\<close>, was not in use, and now finds the object, while every
  other lookup is unchanged. It fails with \<^verbatim>\<open>-EINVAL\<close> for a negative start, with \<^verbatim>\<open>-ENOMEM\<close> when
  memory is exhausted, and with -1 only, if no identifier was lost before, when every
  identifier from the start on is in use; no failure changes a lookup.
\<close>

theorem idr_get_new_above_correct:
  assumes "idr_inv I" "start \<le> ID_END" "idr_get_new_above mem I x start = (ret, k, I')"
  shows "idr_inv I' \<and> (ret = 0 \<longleftrightarrow> k \<noteq> None) \<and>
    (case k of Some i \<Rightarrow> start \<le> i \<and> 0 \<le> i \<and> i < ID_END \<and> idr_find I i = None \<and> idr_find I' = (idr_find I)(i \<mapsto> x) \<and>
         (idr_tight I \<longrightarrow> idr_tight I')
     | None \<Rightarrow> idr_find I' = idr_find I \<and>
         (ret = - EINVAL \<and> start < 0 \<or> ret = - ENOMEM \<and> \<not> mem \<or>
          ret = -1 \<and> (idr_tight I \<longrightarrow> idr_tight I' \<and> (\<forall>i. start \<le> i \<longrightarrow> i < ID_END \<longrightarrow> idr_find I i \<noteq> None))))"
  by (rule idr_get_new_above_result [OF assms(1,3,2)])

definition sample_idr :: "nat idr" where
  "sample_idr = snd (table_run (idr_add 5) idr_del [Add 10, Add 11, Add 12, Del 6] (idr_init \<lparr>used_ids = [], free_id_ranges = []\<rparr>))"

lemma sample_idr_inv: "idr_inv sample_idr"
proof -
  let ?ops = "[Add 10, Add 11, Add 12, Del 6]" and ?I = "idr_init \<lparr>used_ids = [], free_id_ranges = []\<rparr> :: nat idr"
  obtain ids where r: "table_run (idr_add (int_arg 5)) idr_del ?ops ?I = (ids, sample_idr)"
    by (simp add: sample_idr_def prod_eq_iff int_arg_def ID_END_def del: table_run.simps)
  have "idr_inv ?I" using idr_init_tight unfolding idr_tight_def by blast
  from idr.refines_map [OF this _ r, of 4] show ?thesis by simp
qed

theorem idr_get_new_above_witness:
  "\<exists>I'. idr_get_new_above True sample_idr 13 5 = (0, Some 6, I') \<and> idr_inv I' \<and> idr_find sample_idr 6 = None \<and>
     idr_find I' = (idr_find sample_idr)(6 \<mapsto> 13)"
proof -
  have "case idr_get_new_above True sample_idr 13 5 of (r, k, _) \<Rightarrow> r = 0 \<and> k = Some 6" by code_simp
  then obtain I' where I': "idr_get_new_above True sample_idr 13 5 = (0, Some 6, I')" by (auto split: prod.splits)
  with idr_get_new_above_correct [OF sample_idr_inv _ I'] show ?thesis by (simp add: ID_END_def)
qed



text \<open>
  \<^verbatim>\<open>idr_remove\<close> never walks past the last range. It returns 0 exactly for
  an identifier in use when memory is available, and then only that lookup changes; otherwise it returns the error and
  changes nothing. No identifier is lost: the table stays tight.
\<close>

theorem idr_remove_correct:
  assumes "idr_inv I"
  shows "\<exists>ret I'. idr_remove mem I k = Some (ret, I') \<and> idr_inv I' \<and> (idr_tight I \<longrightarrow> idr_tight I') \<and>
    (if idr_find I k = None then ret = - EINVAL \<and> I' = I
     else if mem then ret = 0 \<and> idr_find I' = (idr_find I)(k := None) else ret = - ENOMEM \<and> I' = I)"
  by (rule idr_remove_result [OF assms])

theorem idr_remove_witness:
  "\<exists>I'. idr_remove True sample_idr 5 = Some (0, I') \<and> idr_inv I' \<and> idr_find I' = (idr_find sample_idr)(5 := None)"
proof -
  have "idr_find sample_idr 5 = Some 10" by code_simp
  with idr_remove_correct [OF sample_idr_inv, of True 5] show ?thesis by auto
qed

text \<open>
  When the allocation of the tree node fails, \<^verbatim>\<open>idr_get_new_above\<close> has already taken the identifier from
  its range and does not put it back: the identifier is lost for good, so that the next call skips it.
\<close>

theorem idr_get_new_above_leaks_id:
  "\<exists>I'. idr_get_new_above False (idr_init I) x 0 = (- ENOMEM, None, I') \<and> \<not> idr_tight I' \<and> idr_find I' 0 = None \<and>
     fst (snd (idr_get_new_above True I' x 0)) = Some 1"
proof -
  define I' where "I' = (idr_init I)\<lparr>free_id_ranges := [(fr_new 0)\<lparr>min_unused_id := 1\<rparr>]\<rparr>"
  have "idr_get_new_above False (idr_init I) x 0 = (- ENOMEM, None, I')"
    by (simp add: idr_get_new_above_def idr_init_def fr_new_def idr_get_free_id_in_range_def fr_isfull_def ID_END_def I'_def)
  moreover have "\<not> idr_tight I'"
    by (auto simp: idr_tight_def used_keys_def issued_by_def I'_def idr_init_def fr_new_def)
  moreover have "idr_find I' 0 = None" by (simp add: idr_find_def I'_def idr_init_def)
  moreover have "fst (snd (idr_get_new_above True I' x 0)) = Some 1"
    by (simp add: idr_get_new_above_def idr_init_def fr_new_def idr_get_free_id_in_range_def fr_isfull_def ID_END_def I'_def)
  ultimately show ?thesis by blast
qed

subsection \<open>The hashed table\<close>

text \<open>
  \<^verbatim>\<open>idr_list_get_new_above\<close> returns identifiers that are positive, below
  \<open>0x7fffffff\<close> and not in use in the table, also after the shared counter has wrapped around, and
  binds exactly the new one. \<^verbatim>\<open>-EAGAIN\<close> means that every identifier from the counter on was taken and
  that the next attempt starts again at 1. The counters stay in range, and the
  invariant of every other table that shares them is kept.
\<close>

theorem idr_list_get_new_above_correct:
  assumes "counters_ok g" "fr_time g < 4294967295" "idr_list_inv g L" "idr_list_inv g M"
    and "idr_list_get_new_above mem g L x = (ret, k, g', L')"
  shows "counters_ok g' \<and> idr_list_inv g' L' \<and> idr_list_inv g' M \<and> (ret = 0 \<longleftrightarrow> k \<noteq> None) \<and>
    (case k of Some i \<Rightarrow> 0 < i \<and> i < ID_END \<and> idr_list_find L i = None \<and> idr_list_find L' = (idr_list_find L)(i \<mapsto> x)
     | None \<Rightarrow> L' = L \<and> (ret = - EAGAIN \<and> fr_id g' = 0 \<and>
            (\<forall>i. fr_id (fst (next_counter g)) \<le> i \<longrightarrow> i < ID_END \<longrightarrow> idr_list_find L i \<noteq> None) \<or>
          ret = -1 \<and> \<not> mem))"
  using idr_list_get_new_above_result [OF assms(1-3,5)] idr_list_inv_other [OF assms(4)] by blast

definition wrapped :: id_counters where "wrapped = \<lparr>fr_id = 0x7ffffffe, fr_time = 3\<rparr>"

definition sample_list :: "nat idr_list" where "sample_list = (\<lambda>k. if k = 1 then [(1025, 8), (1, 7)] else [])"

lemma sample_list_inv: "idr_list_inv wrapped sample_list" "counters_ok wrapped"
  by (auto simp: idr_list_inv_def sample_list_def chain_ok_def wrapped_def HASHNODE_def ID_END_def counters_ok_def)

theorem idr_list_get_new_above_witness:
  "\<exists>g' L'. idr_list_get_new_above True wrapped sample_list 9 = (0, Some 2, g', L') \<and>
     counters_ok g' \<and> idr_list_inv g' L' \<and> idr_list_find L' = (idr_list_find sample_list)(2 \<mapsto> 9)"
proof -
  have f: "idr_list_find sample_list 1 = Some 7 \<and> idr_list_find sample_list 2 = None" by code_simp
  then have "first_unused sample_list 1 = 2" by (simp add: first_unused.simps ID_END_def)
  then have "case idr_list_get_new_above True wrapped sample_list 9 of (r, k, _) \<Rightarrow> r = 0 \<and> k = Some 2"
    by (simp add: idr_list_get_new_above_def next_counter_def wrapped_def u32_def ID_END_def Let_def)
  then obtain g' L' where e: "idr_list_get_new_above True wrapped sample_list 9 = (0, Some 2, g', L')" by (auto split: prod.splits)
  with idr_list_get_new_above_correct [OF sample_list_inv(2) _ sample_list_inv(1) sample_list_inv(1) e] show ?thesis
    by (simp add: wrapped_def)
qed

text \<open>
  Every sequence of allocations and removals on a hashed table, shorter than the number of
  wrap-arounds that the second counter can record, behaves like a finite map with keys chosen by the table.
\<close>

theorem idr_list_refines_map:
  fixes ops :: "'o table_op list"
  assumes "counters_ok g" "int (length ops) + fr_time g \<le> 4294967295"
    and "table_run hashed_add hashed_del ops (g, idr_list_init) = (ids, s')"
  shows "hashed_inv s' \<and> spec_run Map.empty ops ids (hashed_find s')"
proof -
  let ?s = "(g, idr_list_init) :: id_counters \<times> 'o idr_list"
  have "hashed_inv ?s" using assms(1) idr_list_init_inv by (simp add: hashed_inv_def)
  moreover have "length ops \<le> hashed_room ?s" using assms(2) by (simp add: hashed_room_def)
  moreover have "hashed_find ?s = Map.empty"
    by (simp add: hashed_find_def idr_list_find_def idr_list_init_def fun_eq_iff)
  ultimately show ?thesis using hashed.refines_map [of ?s ops ids s'] assms(3) by simp
qed

theorem idr_list_refines_map_witness:
  "\<exists>s'. table_run hashed_add hashed_del [Add (10::nat), Add 11, Del 1, Add 12] (\<lparr>fr_id = 0, fr_time = 0\<rparr>, idr_list_init) =
      ([Some 1, Some 2, None, Some 3], s') \<and>
    hashed_inv s' \<and> spec_run Map.empty [Add 10, Add 11, Del 1, Add 12] [Some 1, Some 2, None, Some 3] (hashed_find s')"
proof -
  have "fst (table_run hashed_add hashed_del [Add (10::nat), Add 11, Del 1, Add 12] (\<lparr>fr_id = 0, fr_time = 0\<rparr>, idr_list_init)) =
      [Some 1, Some 2, None, Some 3]"
    by code_simp
  then obtain s' where e: "table_run hashed_add hashed_del [Add (10::nat), Add 11, Del 1, Add 12]
      (\<lparr>fr_id = 0, fr_time = 0\<rparr>, idr_list_init) = ([Some 1, Some 2, None, Some 3], s')" by (metis prod.collapse)
  with idr_list_refines_map [OF _ _ e] show ?thesis by (auto simp: counters_ok_def ID_END_def)
qed

end
