(* ===== verification/Drm_Gem.thy ===== *)
theory Drm_Gem
  imports Drm_Idr_Inv
begin

text \<open>
  The handles, names and reference counts of graphics memory objects:
  \<^verbatim>\<open>uts/common/io/drm/drm_gem.c\<close>, the reference operations of \<^verbatim>\<open>drm_drv.c\<close> and \<^verbatim>\<open>kref\<close> of
  \<^verbatim>\<open>drm_linux.c\<close>. An object is named by its address. Its memory itself is not modelled: \<open>freed\<close> records that
  the driver's \<^verbatim>\<open>gem_free_object\<close> ran. An operation on a freed object and a failed \<^verbatim>\<open>BUG_ON\<close> give
  \<open>None\<close>, as does the endless loop of \<^verbatim>\<open>goto again\<close>.

  The driver's hooks are parameters: \<^verbatim>\<open>gem_open_object\<close> is a function that returns a status, or absent.
  \<^verbatim>\<open>gem_close_object\<close> returns nothing and touches none of the state below.
\<close>

section \<open>Model\<close>

subsection \<open>Data\<close>

type_synonym obj = nat

record gem_object =
  refcount :: int
  handle_count :: int
  gem_name :: int
  gem_size :: int
  freed :: bool

record gem_state =
  objs :: "obj \<Rightarrow> gem_object"
  object_name_idr :: "obj idr_list"
  object_idr :: "nat \<Rightarrow> obj idr_list" \<comment> \<open>the table of each open file\<close>
  counters :: id_counters

record driver =
  driver_gem :: bool
  gem_open_object :: "(obj \<Rightarrow> nat \<Rightarrow> int) option"

definition upd_obj :: "obj \<Rightarrow> (gem_object \<Rightarrow> gem_object) \<Rightarrow> gem_state \<Rightarrow> gem_state" where
  "upd_obj a f S = S\<lparr>objs := (objs S)(a := f (objs S a))\<rparr>"

text \<open>Access to an object that was freed is an error.\<close>

definition use_obj :: "gem_state \<Rightarrow> obj \<Rightarrow> gem_object option" where
  "use_obj S a = (if freed (objs S a) then None else Some (objs S a))"

subsection \<open>Reference counts\<close>

definition kref_init :: "obj \<Rightarrow> gem_state \<Rightarrow> gem_state" where
  "kref_init a S = upd_obj a (\<lambda>ob. ob\<lparr>refcount := 1\<rparr>) S"

definition kref_get :: "obj \<Rightarrow> gem_state \<Rightarrow> gem_state option" where
  "kref_get a S = do {
     ob \<leftarrow> use_obj S a;
     Some (upd_obj a (\<lambda>ob. ob\<lparr>refcount := u32 (refcount ob + 1)\<rparr>) S) }"

definition kref_put :: "obj \<Rightarrow> (gem_state \<Rightarrow> gem_state option) \<Rightarrow> gem_state \<Rightarrow> gem_state option" where
  "kref_put a release S = do {
     ob \<leftarrow> use_obj S a;
     let S = upd_obj a (\<lambda>ob. ob\<lparr>refcount := u32 (refcount ob - 1)\<rparr>) S;
     if refcount (objs S a) = 0 then release S else Some S }"

definition drm_gem_object_free :: "obj \<Rightarrow> gem_state \<Rightarrow> gem_state option" where
  "drm_gem_object_free a S = Some (upd_obj a (\<lambda>ob. ob\<lparr>freed := True\<rparr>) S)"

definition drm_gem_object_ref_bug :: "gem_state \<Rightarrow> gem_state option" where
  "drm_gem_object_ref_bug S = None"

definition drm_gem_private_object_init :: "obj \<Rightarrow> int \<Rightarrow> gem_state \<Rightarrow> (int \<times> gem_state) option" where
  "drm_gem_private_object_init a sz S = do {
     bug_on (sz mod 4096 \<noteq> 0);
     let S = kref_init a S;
     let S = upd_obj a (\<lambda>ob. ob\<lparr>handle_count := 0\<rparr>) S;
     Some (0, upd_obj a (\<lambda>ob. ob\<lparr>gem_size := sz\<rparr>) S) }"

definition drm_gem_object_reference :: "obj \<Rightarrow> gem_state \<Rightarrow> gem_state option" where
  "drm_gem_object_reference a S = kref_get a S"

definition drm_gem_object_unreference :: "obj \<Rightarrow> gem_state \<Rightarrow> gem_state option" where
  "drm_gem_object_unreference a S = kref_put a (drm_gem_object_free a) S"

text \<open>The same under \<^verbatim>\<open>struct_mutex\<close>.\<close>

definition drm_gem_object_unreference_unlocked :: "obj \<Rightarrow> gem_state \<Rightarrow> gem_state option" where
  "drm_gem_object_unreference_unlocked a S = kref_put a (drm_gem_object_free a) S"

definition drm_gem_object_handle_reference :: "obj \<Rightarrow> gem_state \<Rightarrow> gem_state option" where
  "drm_gem_object_handle_reference a S = do {
     S \<leftarrow> drm_gem_object_reference a S;
     Some (upd_obj a (\<lambda>ob. ob\<lparr>handle_count := u32 (handle_count ob + 1)\<rparr>) S) }"

definition drm_gem_object_handle_free :: "obj \<Rightarrow> gem_state \<Rightarrow> gem_state option" where
  "drm_gem_object_handle_free a S = do {
     ob \<leftarrow> use_obj S a;
     if gem_name ob \<noteq> 0
     then (let S = S\<lparr>object_name_idr := snd (idr_list_remove (object_name_idr S) (gem_name ob))\<rparr>;
               S = upd_obj a (\<lambda>ob. ob\<lparr>gem_name := 0\<rparr>) S
           in kref_put a drm_gem_object_ref_bug S)
     else Some S }"

definition drm_gem_object_handle_unreference :: "obj \<Rightarrow> gem_state \<Rightarrow> gem_state option" where
  "drm_gem_object_handle_unreference a S = do {
     ob \<leftarrow> use_obj S a;
     if handle_count ob = 0 then Some S
     else do {
       let S = upd_obj a (\<lambda>ob. ob\<lparr>handle_count := u32 (handle_count ob - 1)\<rparr>) S;
       S \<leftarrow> (if handle_count (objs S a) = 0 then drm_gem_object_handle_free a S else Some S);
       drm_gem_object_unreference a S } }"

definition drm_gem_object_handle_unreference_unlocked :: "obj \<Rightarrow> gem_state \<Rightarrow> gem_state option" where
  "drm_gem_object_handle_unreference_unlocked a S = do {
     ob \<leftarrow> use_obj S a;
     if handle_count ob = 0 then Some S
     else do {
       let S = upd_obj a (\<lambda>ob. ob\<lparr>handle_count := u32 (handle_count ob - 1)\<rparr>) S;
       S \<leftarrow> (if handle_count (objs S a) = 0 then drm_gem_object_handle_free a S else Some S);
       drm_gem_object_unreference_unlocked a S } }"

subsection \<open>Handles and names\<close>

text \<open>
  The loop \<^verbatim>\<open>again: .. if (ret == -EAGAIN) goto again\<close>, with a bound on the number of attempts.
  After \<^verbatim>\<open>-EAGAIN\<close> the search starts again at identifier 1, so a second attempt sees all of
  them; \<open>alloc_loop_stable\<close> shows that further attempts change nothing.
\<close>

fun alloc_loop :: "nat \<Rightarrow> bool \<Rightarrow> id_counters \<Rightarrow> 'o idr_list \<Rightarrow> 'o
    \<Rightarrow> (int \<times> int option \<times> id_counters \<times> 'o idr_list) option" where
  "alloc_loop 0 mem g L x = None"
| "alloc_loop (Suc n) mem g L x =
     (case idr_list_get_new_above mem g L x of
        (ret, k, g', L') \<Rightarrow> if ret = - EAGAIN then alloc_loop n mem g' L' x else Some (ret, k, g', L'))"

definition drm_gem_handle_delete :: "nat \<Rightarrow> int \<Rightarrow> gem_state \<Rightarrow> (int \<times> gem_state) option" where
  "drm_gem_handle_delete filp handle S =
     (case idr_list_find (object_idr S filp) handle of
        None \<Rightarrow> Some (- EINVAL, S)
      | Some a \<Rightarrow> do {
          ob \<leftarrow> use_obj S a;
          let S = S\<lparr>object_idr := (object_idr S)(filp := snd (idr_list_remove (object_idr S filp) handle))\<rparr>;
          S \<leftarrow> drm_gem_object_handle_unreference_unlocked a S;
          Some (0, S) })"

definition drm_gem_handle_create ::
  "driver \<Rightarrow> bool \<Rightarrow> nat \<Rightarrow> obj \<Rightarrow> gem_state \<Rightarrow> (int \<times> int option \<times> gem_state) option" where
  "drm_gem_handle_create drv mem filp a S = do {
     ob \<leftarrow> use_obj S a;
     if idr_list_pre_get = 0 then Some (- ENOMEM, None, S)
     else do {
       (ret, k, g, L) \<leftarrow> alloc_loop 2 mem (counters S) (object_idr S filp) a;
       let S = S\<lparr>counters := g, object_idr := (object_idr S)(filp := L)\<rparr>;
       (case k of
          None \<Rightarrow> Some (ret, None, S)
        | Some handle \<Rightarrow> do {
            S \<leftarrow> drm_gem_object_handle_reference a S;
            (case gem_open_object drv of
               None \<Rightarrow> Some (0, Some handle, S)
             | Some open \<Rightarrow>
                 if open a filp \<noteq> 0
                 then do {
                   (_, S) \<leftarrow> drm_gem_handle_delete filp handle S;
                   Some (open a filp, Some handle, S) }
                 else Some (0, Some handle, S)) }) } }"

definition drm_gem_object_lookup :: "nat \<Rightarrow> int \<Rightarrow> gem_state \<Rightarrow> (obj option \<times> gem_state) option" where
  "drm_gem_object_lookup filp handle S =
     (case idr_list_find (object_idr S filp) handle of
        None \<Rightarrow> Some (None, S)
      | Some a \<Rightarrow> do {
          S \<leftarrow> drm_gem_object_reference a S;
          Some (Some a, S) })"

definition drm_gem_close_ioctl :: "driver \<Rightarrow> nat \<Rightarrow> int \<Rightarrow> gem_state \<Rightarrow> (int \<times> gem_state) option" where
  "drm_gem_close_ioctl drv file handle S =
     (if \<not> driver_gem drv then Some (- ENODEV, S) else drm_gem_handle_delete file handle S)"

text \<open>The result: the status, the name that the caller reads, and the state.\<close>

definition drm_gem_flink_ioctl :: "driver \<Rightarrow> bool \<Rightarrow> nat \<Rightarrow> int \<Rightarrow> gem_state \<Rightarrow> (int \<times> int \<times> gem_state) option" where
  "drm_gem_flink_ioctl drv mem file handle S =
     (if \<not> driver_gem drv then Some (- ENODEV, 0, S)
      else do {
        (obj, S) \<leftarrow> drm_gem_object_lookup file handle S;
        (case obj of
           None \<Rightarrow> Some (- ENOENT, 0, S)
         | Some a \<Rightarrow> do {
             (ret, name, S) \<leftarrow>
               (if gem_name (objs S a) = 0
                then do {
                  (ret, k, g, L) \<leftarrow> alloc_loop 2 mem (counters S) (object_name_idr S) a;
                  let S = S\<lparr>counters := g, object_name_idr := L\<rparr>;
                  (case k of
                     None \<Rightarrow> Some (ret, 0, S)
                   | Some n \<Rightarrow> do {
                       let S = upd_obj a (\<lambda>ob. ob\<lparr>gem_name := n\<rparr>) S;
                       S \<leftarrow> drm_gem_object_reference a S;
                       Some (0, n, S) }) }
                else Some (0, gem_name (objs S a), S));
             S \<leftarrow> drm_gem_object_unreference_unlocked a S;
             Some (ret, name, S) }) })"

definition drm_gem_open_ioctl :: "driver \<Rightarrow> bool \<Rightarrow> nat \<Rightarrow> int \<Rightarrow> gem_state \<Rightarrow> (int \<times> (int \<times> int) option \<times> gem_state) option" where
  "drm_gem_open_ioctl drv mem file name S =
     (if \<not> driver_gem drv then Some (- ENODEV, None, S)
      else (case idr_list_find (object_name_idr S) name of
              None \<Rightarrow> Some (- ENOENT, None, S)
            | Some a \<Rightarrow> do {
                S \<leftarrow> drm_gem_object_reference a S;
                (ret, k, S) \<leftarrow> drm_gem_handle_create drv mem file a S;
                S \<leftarrow> drm_gem_object_unreference_unlocked a S;
                if ret \<noteq> 0 then Some (ret, None, S)
                else do {
                  ob \<leftarrow> use_obj S a;
                  Some (0, map_option (\<lambda>h. (h, gem_size ob)) k, S) } }))"

subsection \<open>Files\<close>

definition drm_gem_open :: "nat \<Rightarrow> gem_state \<Rightarrow> gem_state" where
  "drm_gem_open file S = S\<lparr>object_idr := (object_idr S)(file := idr_list_init)\<rparr>"

definition drm_gem_object_release_handle :: "obj \<Rightarrow> gem_state \<Rightarrow> gem_state option" where
  "drm_gem_object_release_handle a S = drm_gem_object_handle_unreference_unlocked a S"

fun release_handles :: "(int \<times> obj) list \<Rightarrow> gem_state \<Rightarrow> gem_state option" where
  "release_handles [] S = Some S"
| "release_handles ((h, a) # es) S = do {
     S \<leftarrow> drm_gem_object_release_handle a S;
     release_handles es S }"

definition drm_gem_release :: "nat \<Rightarrow> gem_state \<Rightarrow> gem_state option" where
  "drm_gem_release file S = do {
     S \<leftarrow> release_handles (idr_list_entries (object_idr S file)) S;
     Some (S\<lparr>object_idr := (object_idr S)(file := idr_list_free (object_idr S file))\<rparr>) }"

end
