(* ===== verification/Drm_Gem_Inv.thy ===== *)
theory Drm_Gem_Inv
  imports Drm_Gem
begin

text \<open>
  The reference counts are exact. \<open>H\<close> maps a handle, a pair of a file and a number, to its object; \<open>ext\<close> says how many
  further references the rest of the driver holds on each object.
\<close>

section \<open>The invariant\<close>

definition hcount :: "(nat \<times> int \<rightharpoonup> obj) \<Rightarrow> obj \<Rightarrow> nat" where
  "hcount H a = card {p. H p = Some a}"

definition obj_ok :: "(nat \<times> int \<rightharpoonup> obj) \<Rightarrow> (obj \<Rightarrow> nat) \<Rightarrow> obj \<Rightarrow> gem_object \<Rightarrow> bool" where
  "obj_ok H ext a ob \<longleftrightarrow>
     (if freed ob then hcount H a = 0 \<and> gem_name ob = 0 \<and> ext a = 0
      else handle_count ob = int (hcount H a) \<and>
        refcount ob = int (hcount H a) + (if gem_name ob \<noteq> 0 then 1 else 0) + int (ext a) \<and>
        0 < refcount ob \<and> refcount ob < 4294967296 \<and> (gem_name ob \<noteq> 0 \<longrightarrow> 0 < hcount H a))"

definition counts_ok :: "(nat \<times> int \<rightharpoonup> obj) \<Rightarrow> (obj \<Rightarrow> nat) \<Rightarrow> gem_state \<Rightarrow> bool" where
  "counts_ok H ext S \<longleftrightarrow> finite (dom H) \<and> (\<forall>a. obj_ok H ext a (objs S a)) \<and>
     (\<forall>n a. idr_list_find (object_name_idr S) n = Some a \<longleftrightarrow> gem_name (objs S a) = n \<and> n \<noteq> 0)"

definition tables_ok :: "gem_state \<Rightarrow> bool" where
  "tables_ok S \<longleftrightarrow> counters_ok (counters S) \<and> idr_list_inv (counters S) (object_name_idr S) \<and>
     (\<forall>f. idr_list_inv (counters S) (object_idr S f))"

definition handles :: "gem_state \<Rightarrow> nat \<times> int \<rightharpoonup> obj" where
  "handles S = (\<lambda>(f, h). idr_list_find (object_idr S f) h)"

definition gem_inv :: "(obj \<Rightarrow> nat) \<Rightarrow> gem_state \<Rightarrow> bool" where
  "gem_inv ext S \<longleftrightarrow> counts_ok (handles S) ext S \<and> tables_ok S"

lemma upd_obj_sels [simp]:
  "objs (upd_obj a f S) x = (if x = a then f (objs S a) else objs S x)"
  "object_name_idr (upd_obj a f S) = object_name_idr S" "object_idr (upd_obj a f S) = object_idr S"
  "counters (upd_obj a f S) = counters S"
  by (simp_all add: upd_obj_def)

lemma finite_holders: "finite (dom H) \<Longrightarrow> finite {p. H p = Some a}"
  by (rule finite_subset [of _ "dom H"]) auto

lemma hcount_add:
  assumes "finite (dom H)" "H p = None"
  shows "hcount (H(p \<mapsto> a)) b = hcount H b + (if b = a then 1 else 0)"
proof (cases "b = a")
  case True
  have "{q. (H(p \<mapsto> a)) q = Some a} = insert p {q. H q = Some a}" by auto
  moreover have "p \<notin> {q. H q = Some a}" using assms(2) by simp
  ultimately show ?thesis using True finite_holders [OF assms(1), of a] by (simp add: hcount_def)
next
  case False
  have "{q. (H(p \<mapsto> a)) q = Some b} = {q. H q = Some b}" using False assms(2) by auto
  with False show ?thesis by (simp add: hcount_def)
qed

lemma hcount_del:
  assumes "finite (dom H)" "H p = Some a"
  shows "hcount H b = hcount (H(p := None)) b + (if b = a then 1 else 0)"
proof -
  have "finite (dom (H(p := None)))" using assms(1) by simp
  from hcount_add [OF this, of p a b] assms(2) show ?thesis by (simp add: fun_upd_idem)
qed

lemma counts_okD:
  assumes "counts_ok H ext S"
  shows "finite (dom H)" "obj_ok H ext a (objs S a)"
    "idr_list_find (object_name_idr S) n = Some a \<longleftrightarrow> gem_name (objs S a) = n \<and> n \<noteq> 0"
  using assms by (auto simp: counts_ok_def)

text \<open>An object to which a handle, a name or an external reference exists is live.\<close>

lemma held_live:
  assumes "counts_ok H ext S" "H p = Some a \<or> 0 < ext a \<or> gem_name (objs S a) \<noteq> 0"
  shows "\<not> freed (objs S a)"
proof
  assume "freed (objs S a)"
  then have "hcount H a = 0" "gem_name (objs S a) = 0" "ext a = 0"
    using counts_okD(2) [OF assms(1), of a] by (auto simp: obj_ok_def)
  moreover have "H p = Some a \<Longrightarrow> hcount H a \<noteq> 0"
    using finite_holders [OF counts_okD(1) [OF assms(1)], of a]
    by (metis (mono_tags, lifting) card_0_eq empty_iff hcount_def mem_Collect_eq)
  ultimately show False using assms(2) by auto
qed

section \<open>The reference operations\<close>

text \<open>
  Every proof about an object follows one pattern: the operation changes the record of one
  object, and the counts of the others stay.
\<close>

lemma counts_ok_upd:
  assumes "counts_ok H ext S" "finite (dom H')"
    and "\<And>b. b \<noteq> a \<Longrightarrow> hcount H' b = hcount H b" "\<And>b. b \<noteq> a \<Longrightarrow> ext' b = ext b"
    and "obj_ok H' ext' a (objs S' a)" "\<And>b. b \<noteq> a \<Longrightarrow> objs S' b = objs S b"
    and "object_name_idr S' = object_name_idr S" "gem_name (objs S' a) = gem_name (objs S a)"
  shows "counts_ok H' ext' S'"
  unfolding counts_ok_def
proof (intro conjI allI)
  show "finite (dom H')" by fact
  fix b n
  show "obj_ok H' ext' b (objs S' b)"
    using counts_okD(2) [OF assms(1), of b] assms(3-6) by (cases "b = a") (auto simp: obj_ok_def)
  show "(idr_list_find (object_name_idr S') n = Some b) \<longleftrightarrow> gem_name (objs S' b) = n \<and> n \<noteq> 0"
    using counts_okD(3) [OF assms(1), of n b] assms(6-8) by (cases "b = a") auto
qed

lemma u32_simps: "0 \<le> x \<Longrightarrow> x < 4294967296 \<Longrightarrow> u32 x = x"
  by (simp add: u32_def)

lemma reference_ok:
  assumes c: "counts_ok H ext S" and l: "\<not> freed (objs S a)" "refcount (objs S a) < 4294967295"
  shows "\<exists>S'. drm_gem_object_reference a S = Some S' \<and> counts_ok H (ext(a := Suc (ext a))) S' \<and>
    object_idr S' = object_idr S \<and> counters S' = counters S \<and> object_name_idr S' = object_name_idr S \<and>
    objs S' = (objs S)(a := (objs S a)\<lparr>refcount := refcount (objs S a) + 1\<rparr>)"
proof -
  note o = counts_okD(2) [OF c, of a]
  have u: "u32 (refcount (objs S a) + 1) = refcount (objs S a) + 1"
    using o l by (intro u32_simps) (auto simp: obj_ok_def)
  let ?S = "upd_obj a (\<lambda>ob. ob\<lparr>refcount := u32 (refcount ob + 1)\<rparr>) S"
  have "counts_ok H (ext(a := Suc (ext a))) ?S"
    by (rule counts_ok_upd [OF c counts_okD(1) [OF c], where a = a]) (use o l in \<open>auto simp: obj_ok_def u32_simps\<close>)
  then show ?thesis using l u by (auto simp: drm_gem_object_reference_def kref_get_def use_obj_def upd_obj_def)
qed

lemma unreference_ok:
  assumes c: "counts_ok H ext S" and e: "0 < ext a"
  shows "\<exists>S'. drm_gem_object_unreference_unlocked a S = Some S' \<and> counts_ok H (ext(a := ext a - 1)) S' \<and>
    object_idr S' = object_idr S \<and> counters S' = counters S \<and> object_name_idr S' = object_name_idr S \<and>
    (\<forall>b. gem_size (objs S' b) = gem_size (objs S b))"
proof -
  note o = counts_okD(2) [OF c, of a]
  have l: "\<not> freed (objs S a)" using held_live [OF c, of _ a] e by blast
  have u: "u32 (refcount (objs S a) - 1) = refcount (objs S a) - 1"
    using o l by (intro u32_simps) (auto simp: obj_ok_def)
  let ?S = "upd_obj a (\<lambda>ob. ob\<lparr>refcount := u32 (refcount ob - 1)\<rparr>) S"
  let ?F = "upd_obj a (\<lambda>ob. ob\<lparr>freed := True\<rparr>) ?S"
  have s: "drm_gem_object_unreference_unlocked a S = Some (if refcount (objs S a) = 1 then ?F else ?S)"
    using l u by (simp add: drm_gem_object_unreference_unlocked_def kref_put_def use_obj_def Let_def drm_gem_object_free_def)
  have "counts_ok H (ext(a := ext a - 1)) (if refcount (objs S a) = 1 then ?F else ?S)"
    by (rule counts_ok_upd [OF c counts_okD(1) [OF c], where a = a])
      (use o l e in \<open>auto simp: obj_ok_def u32_simps split: if_splits\<close>)
  with s show ?thesis by auto
qed

lemma handle_reference_ok:
  assumes c: "counts_ok H ext S" and l: "\<not> freed (objs S a)" "refcount (objs S a) < 4294967295" and p: "H p = None"
  shows "\<exists>S'. drm_gem_object_handle_reference a S = Some S' \<and> counts_ok (H(p \<mapsto> a)) ext S' \<and>
    object_idr S' = object_idr S \<and> counters S' = counters S \<and> object_name_idr S' = object_name_idr S \<and>
    (\<forall>b. gem_size (objs S' b) = gem_size (objs S b)) \<and> \<not> freed (objs S' a)"
proof -
  note o = counts_okD(2) [OF c, of a] and f = counts_okD(1) [OF c]
  have u: "u32 (refcount (objs S a) + 1) = refcount (objs S a) + 1" "u32 (handle_count (objs S a) + 1) = handle_count (objs S a) + 1"
    using o l by (auto simp: obj_ok_def u32_def split: if_splits)
  let ?S = "upd_obj a (\<lambda>ob. ob\<lparr>handle_count := u32 (handle_count ob + 1)\<rparr>)
    (upd_obj a (\<lambda>ob. ob\<lparr>refcount := u32 (refcount ob + 1)\<rparr>) S)"
  have s: "drm_gem_object_handle_reference a S = Some ?S"
    using l by (simp add: drm_gem_object_handle_reference_def drm_gem_object_reference_def kref_get_def use_obj_def)
  have "counts_ok (H(p \<mapsto> a)) ext ?S"
    by (rule counts_ok_upd [OF c, where a = a])
      (use o l f hcount_add [OF f p, of a a] hcount_add [OF f p, of a] in \<open>auto simp: obj_ok_def u32_simps split: if_splits\<close>)
  with s l show ?thesis by auto
qed

text \<open>
  Dropping a handle. If it is the last one and the object has a name, the name goes too, and the
  reference that the name held is not the last one.
\<close>

lemma handle_free_ok:
  assumes c: "counts_ok H ext S" and t: "idr_list_inv g (object_name_idr S)" and p: "H p = Some a" and one: "hcount H a = 1"
  defines "S1 \<equiv> upd_obj a (\<lambda>ob. ob\<lparr>handle_count := 0\<rparr>) S"
  shows "\<exists>S'. drm_gem_object_handle_free a S1 = Some S' \<and> idr_list_inv g (object_name_idr S') \<and>
    object_idr S' = object_idr S \<and> counters S' = counters S \<and> (\<forall>b. gem_size (objs S' b) = gem_size (objs S b)) \<and>
    objs S' = (objs S)(a := (objs S a)\<lparr>handle_count := 0, gem_name := 0, refcount := 1 + int (ext a)\<rparr>) \<and>
    (\<forall>n b. idr_list_find (object_name_idr S') n = Some b \<longleftrightarrow> gem_name (objs S' b) = n \<and> n \<noteq> 0)"
proof -
  note o = counts_okD(2) [OF c, of a]
  have l: "\<not> freed (objs S a)" using held_live [OF c] p by blast
  show ?thesis
  proof (cases "gem_name (objs S a) = 0")
    case True
    have r: "refcount (objs S a) = 1 + int (ext a)" using o l True one by (simp add: obj_ok_def)
    have e: "(objs S a)\<lparr>handle_count := 0\<rparr> = (objs S a)\<lparr>handle_count := 0, gem_name := 0, refcount := 1 + int (ext a)\<rparr>"
      using r True by simp
    have "drm_gem_object_handle_free a S1 = Some S1"
      using l True by (simp add: drm_gem_object_handle_free_def use_obj_def S1_def)
    moreover have "objs S1 = (objs S)(a := (objs S a)\<lparr>handle_count := 0, gem_name := 0, refcount := 1 + int (ext a)\<rparr>)"
      unfolding S1_def using e by (auto simp: fun_eq_iff)
    moreover have "idr_list_find (object_name_idr S1) n = Some b \<longleftrightarrow> gem_name (objs S1 b) = n \<and> n \<noteq> 0" for n b
      using counts_okD(3) [OF c, of n b] by (simp add: S1_def)
    moreover have "object_idr S1 = object_idr S" "counters S1 = counters S" "idr_list_inv g (object_name_idr S1)"
      "gem_size (objs S1 b) = gem_size (objs S b)" for b
      using t by (simp_all add: S1_def)
    ultimately show ?thesis by blast
  next
    case False
    define n where "n = gem_name (objs S a)"
    have r: "refcount (objs S a) = 2 + int (ext a)" "refcount (objs S a) < 4294967296"
      using o l False one by (simp_all add: obj_ok_def)
    obtain ret L where L: "idr_list_remove (object_name_idr S) n = (ret, L)" by force
    have fnd: "idr_list_find (object_name_idr S) n = Some a" using counts_okD(3) [OF c, of n a] False by (simp add: n_def)
    have Lr: "idr_list_inv g L" "idr_list_find L = (idr_list_find (object_name_idr S))(n := None)"
      using idr_list_remove_result [OF t L] fnd by auto
    define S' where "S' = upd_obj a (\<lambda>ob. ob\<lparr>refcount := 1 + int (ext a)\<rparr>) (upd_obj a (\<lambda>ob. ob\<lparr>gem_name := 0\<rparr>) (S1\<lparr>object_name_idr := L\<rparr>))"
    have "u32 (refcount (objs S a) - 1) = 1 + int (ext a)" using r by (simp add: u32_def)
    then have "drm_gem_object_handle_free a S1 = Some S'"
      using l False L
      by (simp add: drm_gem_object_handle_free_def use_obj_def S1_def Let_def kref_put_def n_def S'_def upd_obj_def)
    moreover have "objs S' = (objs S)(a := (objs S a)\<lparr>handle_count := 0, gem_name := 0, refcount := 1 + int (ext a)\<rparr>)"
      by (auto simp: S'_def S1_def fun_eq_iff)
    moreover have "idr_list_find (object_name_idr S') m = Some b \<longleftrightarrow> gem_name (objs S' b) = m \<and> m \<noteq> 0" for m b
      using counts_okD(3) [OF c, of m b] counts_okD(3) [OF c, of n b] fnd Lr(2) by (auto simp: S'_def S1_def n_def)
    moreover have "object_idr S' = object_idr S" "counters S' = counters S" "idr_list_inv g (object_name_idr S')"
      "gem_size (objs S' b) = gem_size (objs S b)" for b
      using Lr by (simp_all add: S'_def S1_def)
    ultimately show ?thesis by blast
  qed
qed

lemma handle_unreference_ok:
  assumes c: "counts_ok H ext S" and t: "idr_list_inv g (object_name_idr S)" and p: "H p = Some a"
  shows "\<exists>S'. drm_gem_object_handle_unreference_unlocked a S = Some S' \<and> counts_ok (H(p := None)) ext S' \<and>
    idr_list_inv g (object_name_idr S') \<and> object_idr S' = object_idr S \<and> counters S' = counters S \<and>
    (\<forall>b. gem_size (objs S' b) = gem_size (objs S b))"
proof -
  note o = counts_okD(2) [OF c, of a] and f = counts_okD(1) [OF c]
  have l: "\<not> freed (objs S a)" using held_live [OF c] p by blast
  note hc = hcount_del [OF f p]
  have hpos: "0 < hcount H a" using hc [of a] by simp
  have ob: "handle_count (objs S a) = int (hcount H a)" "0 < refcount (objs S a)" "refcount (objs S a) < 4294967296"
    "refcount (objs S a) = int (hcount H a) + (if gem_name (objs S a) \<noteq> 0 then 1 else 0) + int (ext a)"
    using o l by (auto simp: obj_ok_def)
  have u: "u32 (handle_count (objs S a) - 1) = handle_count (objs S a) - 1"
    using ob hpos by (intro u32_simps) (auto split: if_splits)
  have f': "finite (dom (H(p := None)))" using f by simp
  define S1 where "S1 = upd_obj a (\<lambda>ob. ob\<lparr>handle_count := u32 (handle_count ob - 1)\<rparr>) S"
  show ?thesis
  proof (cases "hcount H a = 1")
    case True
    have S1: "S1 = upd_obj a (\<lambda>ob. ob\<lparr>handle_count := 0\<rparr>) S" using u ob(1) True by (simp add: S1_def upd_obj_def)
    obtain S2 where S2: "drm_gem_object_handle_free a S1 = Some S2" "idr_list_inv g (object_name_idr S2)"
      "object_idr S2 = object_idr S" "counters S2 = counters S" "\<And>b. gem_size (objs S2 b) = gem_size (objs S b)"
      "objs S2 = (objs S)(a := (objs S a)\<lparr>handle_count := 0, gem_name := 0, refcount := 1 + int (ext a)\<rparr>)"
      "\<And>n b. idr_list_find (object_name_idr S2) n = Some b \<longleftrightarrow> gem_name (objs S2 b) = n \<and> n \<noteq> 0"
      using handle_free_ok [OF c t p True] unfolding S1 by blast
    have c2: "counts_ok (H(p := None)) (ext(a := Suc (ext a))) S2"
      unfolding counts_ok_def
    proof (intro conjI allI)
      fix b n
      show "obj_ok (H(p := None)) (ext(a := Suc (ext a))) b (objs S2 b)"
        using counts_okD(2) [OF c, of b] hc [of b] True ob l by (auto simp: S2(6) obj_ok_def split: if_splits)
      show "(idr_list_find (object_name_idr S2) n = Some b) = (gem_name (objs S2 b) = n \<and> n \<noteq> 0)" by (rule S2(7))
    qed (rule f')
    obtain S3 where "drm_gem_object_unreference_unlocked a S2 = Some S3"
      "counts_ok (H(p := None)) ext S3" "object_idr S3 = object_idr S2" "counters S3 = counters S2"
      "object_name_idr S3 = object_name_idr S2" "\<And>b. gem_size (objs S3 b) = gem_size (objs S2 b)"
      using unreference_ok [OF c2, of a] by auto
    with S2 show ?thesis
      using l ob(1) True u by (auto simp: drm_gem_object_handle_unreference_unlocked_def use_obj_def Let_def S1_def [symmetric])
        (simp add: S1_def)
  next
    case False
    then have h2: "1 < hcount H a" using hpos by simp
    have c1: "counts_ok (H(p := None)) (ext(a := Suc (ext a))) S1"
      by (rule counts_ok_upd [OF c f', where a = a])
        (use ob l hc h2 hc [of a] in \<open>auto simp: S1_def obj_ok_def u32_simps split: if_splits\<close>)
    obtain S3 where "drm_gem_object_unreference_unlocked a S1 = Some S3"
      "counts_ok (H(p := None)) ext S3" "object_idr S3 = object_idr S1" "counters S3 = counters S1"
      "object_name_idr S3 = object_name_idr S1" "\<And>b. gem_size (objs S3 b) = gem_size (objs S1 b)"
      using unreference_ok [OF c1, of a] by auto
    with t show ?thesis
      using l ob(1) h2 u by (auto simp: drm_gem_object_handle_unreference_unlocked_def use_obj_def Let_def S1_def)
  qed
qed

section \<open>Allocation of identifiers\<close>

lemma alloc_loop_result:
  assumes c: "counters_ok g" "fr_time g < 4294967294" "idr_list_inv g L"
  shows "case alloc_loop 2 mem g L x of
      None \<Rightarrow> \<forall>i. 0 < i \<longrightarrow> i < ID_END \<longrightarrow> idr_list_find L i \<noteq> None
    | Some (ret, k, g', L') \<Rightarrow> counters_ok g' \<and> idr_list_inv g' L' \<and> (ret = 0 \<longleftrightarrow> k \<noteq> None) \<and>
        (\<forall>M :: 'm idr_list. idr_list_inv g M \<longrightarrow> idr_list_inv g' M) \<and>
        (case k of Some i \<Rightarrow> 0 < i \<and> i < ID_END \<and> idr_list_find L i = None \<and> idr_list_find L' = (idr_list_find L)(i \<mapsto> x)
         | None \<Rightarrow> L' = L \<and> ret = -1 \<and> \<not> mem)"
proof -
  obtain r1 k1 g1 L1 where a: "idr_list_get_new_above mem g L x = (r1, k1, g1, L1)" by (metis prod_cases4)
  have lt: "fr_time g < 4294967295" using c(2) by simp
  note p1 = idr_list_get_new_above_result [OF c(1) lt c(3) a]
  have other1: "idr_list_inv g1 M" if "idr_list_inv g M" for M :: "'m idr_list"
    using idr_list_inv_other [OF that] p1 by blast
  show ?thesis
  proof (cases "r1 = - EAGAIN")
    case False
    have "alloc_loop 2 mem g L x = Some (r1, k1, g1, L1)" using a False by (simp add: numeral_2_eq_2)
    with p1 other1 False show ?thesis by (cases k1) auto
  next
    case True
    then have k1: "k1 = None" "L1 = L" "fr_id g1 = 0" using p1 by (auto simp: errno_defs split: option.splits)
    obtain r2 k2 g2 L2 where b: "idr_list_get_new_above mem g1 L x = (r2, k2, g2, L2)" by (metis prod_cases4)
    have t1: "fr_time g1 < 4294967295"
      using a c by (auto simp: idr_list_get_new_above_def next_counter_def Let_def u32_def counters_ok_def split: if_splits)
    have c1: "counters_ok g1" "idr_list_inv g1 L" using p1 k1 by auto
    note p2 = idr_list_get_new_above_result [OF c1(1) t1 c1(2) b]
    have other2: "idr_list_inv g2 M" if "idr_list_inv g M" for M :: "'m idr_list"
      using idr_list_inv_other [OF other1 [OF that]] p2 by blast
    show ?thesis
    proof (cases "r2 = - EAGAIN")
      case e2: True
      have "alloc_loop 2 mem g L x = None" using a b True e2 k1 by (simp add: numeral_2_eq_2)
      moreover have "fr_id (fst (next_counter g1)) = 1" using k1 by (simp add: next_counter_def Let_def u32_def ID_END_def)
      ultimately show ?thesis using p2 e2 by (auto simp: errno_defs split: option.splits)
    next
      case False
      have "alloc_loop 2 mem g L x = Some (r2, k2, g2, L2)" using a b True False k1 by (simp add: numeral_2_eq_2)
      with p2 other2 False show ?thesis by (cases k2) auto
    qed
  qed
qed

text \<open>More attempts than two never change the outcome.\<close>

lemma alloc_loop_more:
  "alloc_loop n mem g L x = Some r \<Longrightarrow> alloc_loop (n + m) mem g L x = Some r"
proof (induction n arbitrary: g L)
  case (Suc n)
  obtain r1 k1 g1 L1 where a: "idr_list_get_new_above mem g L x = (r1, k1, g1, L1)" by (metis prod_cases4)
  with Suc show ?case by (auto split: if_splits)
qed simp

section \<open>The operations\<close>

definition gem_room :: "gem_state \<Rightarrow> bool" where
  "gem_room S \<longleftrightarrow> fr_time (counters S) < 4294967294"

lemma handles_upd:
  assumes "idr_list_find L' = (idr_list_find (object_idr S f))(h := v)" "object_idr S' = (object_idr S)(f := L')"
  shows "handles S' = (handles S)((f, h) := v)"
  unfolding handles_def assms(2) using assms(1) by (intro ext) (auto split: prod.split)

lemma handle_delete_result:
  assumes inv: "gem_inv ext S"
  shows "\<exists>r S'. drm_gem_handle_delete f h S = Some (r, S') \<and> gem_inv ext S' \<and>
    (if handles S (f, h) = None then r = - EINVAL \<and> S' = S else r = 0 \<and> handles S' = (handles S)((f, h) := None)) \<and>
    counters S' = counters S \<and> (\<forall>b. gem_size (objs S' b) = gem_size (objs S b))"
proof (cases "idr_list_find (object_idr S f) h")
  case None
  with inv show ?thesis by (simp add: drm_gem_handle_delete_def handles_def)
next
  case (Some a)
  have c: "counts_ok (handles S) ext S" and t: "tables_ok S" using inv by (auto simp: gem_inv_def)
  have p: "handles S (f, h) = Some a" using Some by (simp add: handles_def)
  obtain r L where L: "idr_list_remove (object_idr S f) h = (r, L)" by force
  have tf: "idr_list_inv (counters S) (object_idr S f)" "idr_list_inv (counters S) (object_name_idr S)" using t by (auto simp: tables_ok_def)
  have Lr: "idr_list_inv (counters S) L" "idr_list_find L = (idr_list_find (object_idr S f))(h := None)"
    using idr_list_remove_result [OF tf(1) L] Some by auto
  let ?S = "S\<lparr>object_idr := (object_idr S)(f := L)\<rparr>"
  have c1: "counts_ok (handles S) ext ?S" using c by (simp add: counts_ok_def)
  have t1: "idr_list_inv (counters S) (object_name_idr ?S)" using tf by simp
  obtain S' where S': "drm_gem_object_handle_unreference_unlocked a ?S = Some S'" "counts_ok ((handles S)((f, h) := None)) ext S'"
    "idr_list_inv (counters S) (object_name_idr S')" "object_idr S' = (object_idr S)(f := L)" "counters S' = counters S"
    "\<forall>b. gem_size (objs S' b) = gem_size (objs S b)"
    using handle_unreference_ok [OF c1 t1 p] by auto
  have h': "handles S' = (handles S)((f, h) := None)" by (rule handles_upd [OF Lr(2) S'(4)])
  have "tables_ok S'" using t S' Lr by (auto simp: tables_ok_def)
  moreover have "\<not> freed (objs S a)" using held_live [OF c] p by blast
  ultimately show ?thesis
    using S' h' p Some L by (auto simp: drm_gem_handle_delete_def use_obj_def gem_inv_def)
qed

lemma handle_create_result:
  assumes inv: "gem_inv ext S" and room: "gem_room S" and l: "\<not> freed (objs S a)" "refcount (objs S a) < 4294967295"
    and space: "\<exists>i. 0 < i \<and> i < ID_END \<and> handles S (f, i) = None"
  shows "\<exists>r k S'. drm_gem_handle_create drv mem f a S = Some (r, k, S') \<and> gem_inv ext S' \<and>
    (\<forall>b. gem_size (objs S' b) = gem_size (objs S b)) \<and>
    (r = 0 \<longrightarrow> (\<exists>h. k = Some h \<and> 0 < h \<and> h < ID_END \<and> handles S (f, h) = None \<and> handles S' = (handles S)((f, h) \<mapsto> a))) \<and>
    (r \<noteq> 0 \<longrightarrow> handles S' = handles S \<and> (r = -1 \<and> \<not> mem \<or> (\<exists>open. gem_open_object drv = Some open \<and> r = open a f)))"
proof -
  have c: "counts_ok (handles S) ext S" and t: "tables_ok S" using inv by (auto simp: gem_inv_def)
  have tf: "counters_ok (counters S)" "idr_list_inv (counters S) (object_idr S f)" using t by (auto simp: tables_ok_def)
  have rm: "fr_time (counters S) < 4294967294" using room by (simp add: gem_room_def)
  note al = alloc_loop_result [OF tf(1) rm tf(2), of mem a, where 'm = obj]
  have "alloc_loop 2 mem (counters S) (object_idr S f) a \<noteq> None"
    using al space by (cases "alloc_loop 2 mem (counters S) (object_idr S f) a") (auto simp: handles_def)
  then obtain r k g L where e: "alloc_loop 2 mem (counters S) (object_idr S f) a = Some (r, k, g, L)"
    by (metis not_None_eq prod_cases4)
  have al': "counters_ok g" "idr_list_inv g L" "(r = 0) = (k \<noteq> None)" "\<And>M :: obj idr_list. idr_list_inv (counters S) M \<Longrightarrow> idr_list_inv g M"
    "case k of Some i \<Rightarrow> 0 < i \<and> i < ID_END \<and> idr_list_find (object_idr S f) i = None \<and>
         idr_list_find L = (idr_list_find (object_idr S f))(i \<mapsto> a)
       | None \<Rightarrow> L = object_idr S f \<and> r = -1 \<and> \<not> mem"
    using al unfolding e by auto
  define S1 where "S1 = S\<lparr>counters := g, object_idr := (object_idr S)(f := L)\<rparr>"
  have t1: "tables_ok S1" using t al'(1,2,4) by (auto simp: tables_ok_def S1_def)
  have c1: "counts_ok (handles S) ext S1" using c by (simp add: counts_ok_def S1_def)
  have b: "drm_gem_handle_create drv mem f a S = (case k of
        None \<Rightarrow> Some (r, None, S1)
      | Some handle \<Rightarrow> do {
          S \<leftarrow> drm_gem_object_handle_reference a S1;
          (case gem_open_object drv of
             None \<Rightarrow> Some (0, Some handle, S)
           | Some open \<Rightarrow>
               if open a f \<noteq> 0
               then do { (_, S) \<leftarrow> drm_gem_handle_delete f handle S; Some (open a f, Some handle, S) }
               else Some (0, Some handle, S)) })"
    unfolding S1_def using l e by (simp add: drm_gem_handle_create_def use_obj_def idr_list_pre_get_def Let_def)
  show ?thesis
  proof (cases k)
    case None
    then have "L = object_idr S f" "r = -1" "\<not> mem" using al'(5) by auto
    then have "handles S1 = handles S" by (simp add: handles_def S1_def)
    with None b c1 t1 \<open>r = -1\<close> \<open>\<not> mem\<close> show ?thesis by (auto simp: gem_inv_def S1_def)
  next
    case (Some h)
    have hs: "0 < h" "h < ID_END" "handles S (f, h) = None" and Lf: "idr_list_find L = (idr_list_find (object_idr S f))(h \<mapsto> a)"
      using al'(5) Some by (auto simp: handles_def)
    have l1: "\<not> freed (objs S1 a)" "refcount (objs S1 a) < 4294967295" using l by (simp_all add: S1_def)
    obtain S2 where S2: "drm_gem_object_handle_reference a S1 = Some S2" "counts_ok ((handles S)((f, h) \<mapsto> a)) ext S2"
      "object_idr S2 = object_idr S1" "counters S2 = counters S1" "object_name_idr S2 = object_name_idr S1"
      "\<forall>b. gem_size (objs S2 b) = gem_size (objs S1 b)"
      using handle_reference_ok [OF c1 l1 hs(3)] by blast
    have h2: "handles S2 = (handles S)((f, h) \<mapsto> a)" by (rule handles_upd [OF Lf]) (simp add: S2 S1_def)
    have i2: "gem_inv ext S2" using S2 h2 t1 by (simp add: gem_inv_def tables_ok_def)
    have sz: "\<forall>b. gem_size (objs S2 b) = gem_size (objs S b)" using S2(6) by (simp add: S1_def)
    obtain r' S3 where S3: "drm_gem_handle_delete f h S2 = Some (r', S3)" "gem_inv ext S3"
      "handles S3 = (handles S2)((f, h) := None)" "\<forall>b. gem_size (objs S3 b) = gem_size (objs S2 b)"
      using handle_delete_result [OF i2, of f h] h2 by auto
    have h3: "handles S3 = handles S" using S3(3) h2 hs(3) by (simp add: fun_upd_idem)
    show ?thesis
    proof (cases "gem_open_object drv")
      case None
      with b Some S2(1) i2 h2 hs sz show ?thesis by auto
    next
      case (Some opn)
      show ?thesis
      proof (cases "opn a f = 0")
        case True
        with b Some \<open>k = Some h\<close> S2(1) i2 h2 hs sz show ?thesis by auto
      next
        case False
        with b Some \<open>k = Some h\<close> S2(1) S3 h3 sz show ?thesis by auto
      qed
    qed
  qed
qed

lemma lookup_result:
  assumes inv: "gem_inv ext S" and b: "\<And>a. handles S (f, h) = Some a \<Longrightarrow> refcount (objs S a) < 4294967295"
  shows "\<exists>S'. drm_gem_object_lookup f h S = Some (handles S (f, h), S') \<and> handles S' = handles S \<and>
    object_name_idr S' = object_name_idr S \<and> counters S' = counters S \<and>
    (case handles S (f, h) of None \<Rightarrow> S' = S
     | Some a \<Rightarrow> gem_inv (ext(a := Suc (ext a))) S' \<and> objs S' = (objs S)(a := (objs S a)\<lparr>refcount := refcount (objs S a) + 1\<rparr>))"
proof (cases "handles S (f, h)")
  case None
  then show ?thesis by (auto simp: drm_gem_object_lookup_def handles_def)
next
  case (Some a)
  have c: "counts_ok (handles S) ext S" using inv by (auto simp: gem_inv_def)
  have l: "\<not> freed (objs S a)" using held_live [OF c] Some by blast
  obtain S' where S': "drm_gem_object_reference a S = Some S'" "counts_ok (handles S) (ext(a := Suc (ext a))) S'"
    "object_idr S' = object_idr S" "counters S' = counters S" "object_name_idr S' = object_name_idr S"
    "objs S' = (objs S)(a := (objs S a)\<lparr>refcount := refcount (objs S a) + 1\<rparr>)"
    using reference_ok [OF c l b [OF Some]] by auto
  have h: "handles S' = handles S" using S'(3) by (simp add: handles_def)
  have "idr_list_find (object_idr S f) h = Some a" using Some by (simp add: handles_def)
  with S' h Some inv show ?thesis by (auto simp: drm_gem_object_lookup_def gem_inv_def tables_ok_def)
qed

lemma gem_unreference:
  assumes inv: "gem_inv ext S" and e: "0 < ext a"
  shows "\<exists>S'. drm_gem_object_unreference_unlocked a S = Some S' \<and> gem_inv (ext(a := ext a - 1)) S' \<and> handles S' = handles S \<and>
    object_name_idr S' = object_name_idr S \<and> counters S' = counters S \<and> (\<forall>b. gem_size (objs S' b) = gem_size (objs S b))"
proof -
  have c: "counts_ok (handles S) ext S" using inv by (auto simp: gem_inv_def)
  obtain S' where S': "drm_gem_object_unreference_unlocked a S = Some S'" "counts_ok (handles S) (ext(a := ext a - 1)) S'"
    "object_idr S' = object_idr S" "counters S' = counters S" "object_name_idr S' = object_name_idr S"
    "\<forall>b. gem_size (objs S' b) = gem_size (objs S b)"
    using unreference_ok [OF c e] by blast
  have "handles S' = handles S" using S'(3) by (simp add: handles_def)
  with S' inv show ?thesis by (auto simp: gem_inv_def tables_ok_def)
qed

text \<open>Naming an object that has a handle and no name yet.\<close>

lemma name_object_ok:
  assumes inv: "gem_inv ext S" and h: "handles S p = Some a" and n0: "gem_name (objs S a) = 0"
    and rc: "refcount (objs S a) < 4294967295"
    and al: "counters_ok g" "idr_list_inv g L" "\<And>M :: obj idr_list. idr_list_inv (counters S) M \<Longrightarrow> idr_list_inv g M"
    and k: "0 < n" "idr_list_find (object_name_idr S) n = None" "idr_list_find L = (idr_list_find (object_name_idr S))(n \<mapsto> a)"
  shows "\<exists>S'. drm_gem_object_reference a (upd_obj a (\<lambda>ob. ob\<lparr>gem_name := n\<rparr>) (S\<lparr>counters := g, object_name_idr := L\<rparr>)) = Some S' \<and>
    gem_inv ext S' \<and> handles S' = handles S \<and> object_name_idr S' = L"
proof -
  have c: "counts_ok (handles S) ext S" using inv by (simp add: gem_inv_def)
  have l: "\<not> freed (objs S a)" using held_live [OF c] h by blast
  note o = counts_okD(2) [OF c, of a]
  have hp: "0 < hcount (handles S) a"
    using hcount_del [OF counts_okD(1) [OF c] h, of a] by simp
  let ?S = "upd_obj a (\<lambda>ob. ob\<lparr>gem_name := n\<rparr>) (S\<lparr>counters := g, object_name_idr := L\<rparr>)"
  let ?S' = "upd_obj a (\<lambda>ob. ob\<lparr>refcount := u32 (refcount ob + 1)\<rparr>) ?S"
  have e: "drm_gem_object_reference a ?S = Some ?S'"
    using l by (simp add: drm_gem_object_reference_def kref_get_def use_obj_def)
  have u: "u32 (refcount (objs S a) + 1) = refcount (objs S a) + 1"
    using o l rc by (intro u32_simps) (auto simp: obj_ok_def)
  have "counts_ok (handles S) ext ?S'"
    unfolding counts_ok_def
  proof (intro conjI allI)
    show "finite (dom (handles S))" by (rule counts_okD(1) [OF c])
    fix b m
    show "obj_ok (handles S) ext b (objs ?S' b)"
      using counts_okD(2) [OF c, of b] o l n0 rc hp k(1) u by (auto simp: obj_ok_def)
    show "(idr_list_find (object_name_idr ?S') m = Some b) = (gem_name (objs ?S' b) = m \<and> m \<noteq> 0)"
      using counts_okD(3) [OF c, of m b] counts_okD(3) [OF c, of n b] k n0 by auto
  qed
  moreover have "handles ?S' = handles S" by (simp add: handles_def)
  moreover have "tables_ok ?S'" using inv al by (auto simp: gem_inv_def tables_ok_def)
  ultimately show ?thesis using e by (auto simp: gem_inv_def)
qed

lemma flink_result:
  assumes inv: "gem_inv ext S" and room: "gem_room S" and drv: "driver_gem drv"
    and b: "\<And>a. handles S (f, h) = Some a \<Longrightarrow> refcount (objs S a) < 4294967294"
    and space: "\<exists>i. 0 < i \<and> i < ID_END \<and> idr_list_find (object_name_idr S) i = None"
  shows "\<exists>r n S'. drm_gem_flink_ioctl drv mem f h S = Some (r, n, S') \<and> gem_inv ext S' \<and> handles S' = handles S \<and>
    (case handles S (f, h) of None \<Rightarrow> r = - ENOENT \<and> S' = S
     | Some a \<Rightarrow> (if r = 0 then n \<noteq> 0 \<and> idr_list_find (object_name_idr S') n = Some a \<and>
            (gem_name (objs S a) \<noteq> 0 \<longrightarrow> n = gem_name (objs S a)) \<and>
            (\<forall>m x. idr_list_find (object_name_idr S) m = Some x \<longrightarrow> idr_list_find (object_name_idr S') m = Some x)
         else r = -1 \<and> \<not> mem \<and> gem_name (objs S a) = 0 \<and> object_name_idr S' = object_name_idr S))"
proof -
  obtain S1 where S1: "drm_gem_object_lookup f h S = Some (handles S (f, h), S1)" "handles S1 = handles S"
    "object_name_idr S1 = object_name_idr S" "counters S1 = counters S"
    "case handles S (f, h) of None \<Rightarrow> S1 = S
     | Some a \<Rightarrow> gem_inv (ext(a := Suc (ext a))) S1 \<and> objs S1 = (objs S)(a := (objs S a)\<lparr>refcount := refcount (objs S a) + 1\<rparr>)"
    using lookup_result [OF inv, of f h] b by force
  show ?thesis
  proof (cases "handles S (f, h)")
    case None
    with S1 drv inv show ?thesis by (simp add: drm_gem_flink_ioctl_def)
  next
    case (Some a)
    let ?ext = "ext(a := Suc (ext a))"
    have i1: "gem_inv ?ext S1" and o1: "objs S1 a = (objs S a)\<lparr>refcount := refcount (objs S a) + 1\<rparr>" using S1(5) Some by auto
    have bk: "(?ext)(a := (?ext) a - 1) = ext" by (simp add: fun_eq_iff)
    have c: "counts_ok (handles S) ext S" using inv by (simp add: gem_inv_def)
    show ?thesis
    proof (cases "gem_name (objs S a) = 0")
      case False
      obtain S2 where "drm_gem_object_unreference_unlocked a S1 = Some S2" "gem_inv ext S2" "handles S2 = handles S1"
        "object_name_idr S2 = object_name_idr S1"
        using gem_unreference [OF i1, of a] unfolding bk by auto
      with S1 Some False drv o1 counts_okD(3) [OF c, of "gem_name (objs S a)" a] show ?thesis
        by (auto simp: drm_gem_flink_ioctl_def)
    next
      case True
      have tf: "counters_ok (counters S)" "idr_list_inv (counters S) (object_name_idr S)"
        using inv by (auto simp: gem_inv_def tables_ok_def)
      have rm: "fr_time (counters S) < 4294967294" using room by (simp add: gem_room_def)
      note al = alloc_loop_result [OF tf(1) rm tf(2), of mem a, where 'm = obj]
      have "alloc_loop 2 mem (counters S) (object_name_idr S) a \<noteq> None"
        using al space by (cases "alloc_loop 2 mem (counters S) (object_name_idr S) a") auto
      then obtain r k g L where e: "alloc_loop 2 mem (counters S) (object_name_idr S) a = Some (r, k, g, L)"
        by (metis not_None_eq prod_cases4)
      have al': "counters_ok g" "idr_list_inv g L" "(r = 0) = (k \<noteq> None)" "\<And>M :: obj idr_list. idr_list_inv (counters S) M \<Longrightarrow> idr_list_inv g M"
        "case k of Some i \<Rightarrow> 0 < i \<and> i < ID_END \<and> idr_list_find (object_name_idr S) i = None \<and>
             idr_list_find L = (idr_list_find (object_name_idr S))(i \<mapsto> a)
           | None \<Rightarrow> L = object_name_idr S \<and> r = -1 \<and> \<not> mem"
        using al unfolding e by auto
      have n1: "gem_name (objs S1 a) = 0" using o1 True by simp
      show ?thesis
      proof (cases k)
        case None
        let ?S = "S1\<lparr>counters := g, object_name_idr := L\<rparr>"
        have "gem_inv ?ext ?S" using i1 al'(1,2,4) al'(5) None S1(3,4)
          by (auto simp: gem_inv_def tables_ok_def counts_ok_def handles_def)
        from gem_unreference [OF this, of a] obtain S2 where
          "drm_gem_object_unreference_unlocked a ?S = Some S2" "gem_inv ext S2" "handles S2 = handles S1" "object_name_idr S2 = L"
          unfolding bk by (auto simp: handles_def)
        with S1 Some None True drv n1 e al' show ?thesis by (auto simp: drm_gem_flink_ioctl_def)
      next
        case k: (Some n)
        have kn: "0 < n" "idr_list_find (object_name_idr S1) n = None" "idr_list_find L = (idr_list_find (object_name_idr S1))(n \<mapsto> a)"
          using al'(5) k S1(3) by auto
        have hs: "handles S1 (f, h) = Some a" using Some S1(2) by simp
        have rc: "refcount (objs S1 a) < 4294967295" using o1 b [OF Some] by simp
        have al1: "\<And>M :: obj idr_list. idr_list_inv (counters S1) M \<Longrightarrow> idr_list_inv g M" using al'(4) S1(4) by simp
        obtain S2 where S2: "drm_gem_object_reference a (upd_obj a (\<lambda>ob. ob\<lparr>gem_name := n\<rparr>) (S1\<lparr>counters := g, object_name_idr := L\<rparr>)) = Some S2"
          "gem_inv ?ext S2" "handles S2 = handles S1" "object_name_idr S2 = L"
          using name_object_ok [OF i1 hs n1 rc al'(1,2) al1 kn] by blast
        obtain S3 where "drm_gem_object_unreference_unlocked a S2 = Some S3" "gem_inv ext S3" "handles S3 = handles S2" "object_name_idr S3 = object_name_idr S2"
          using gem_unreference [OF S2(2), of a] unfolding bk by auto
        with S1 S2 Some k True drv n1 e kn show ?thesis by (auto simp: drm_gem_flink_ioctl_def)
      qed
    qed
  qed
qed

lemma open_result:
  assumes inv: "gem_inv ext S" and room: "gem_room S" and drv: "driver_gem drv"
    and b: "\<And>a. idr_list_find (object_name_idr S) n = Some a \<Longrightarrow> refcount (objs S a) < 4294967294"
    and space: "\<exists>i. 0 < i \<and> i < ID_END \<and> handles S (f, i) = None"
  shows "\<exists>r k S'. drm_gem_open_ioctl drv mem f n S = Some (r, k, S') \<and> gem_inv ext S' \<and>
    (case idr_list_find (object_name_idr S) n of None \<Rightarrow> r = - ENOENT \<and> S' = S
     | Some a \<Rightarrow> (if r = 0 then \<exists>h. k = Some (h, gem_size (objs S a)) \<and> 0 < h \<and> handles S (f, h) = None \<and> handles S' = (handles S)((f, h) \<mapsto> a)
         else handles S' = handles S))"
proof (cases "idr_list_find (object_name_idr S) n")
  case None
  with drv inv show ?thesis by (simp add: drm_gem_open_ioctl_def)
next
  case (Some a)
  let ?ext = "ext(a := Suc (ext a))"
  have c: "counts_ok (handles S) ext S" using inv by (simp add: gem_inv_def)
  have l: "\<not> freed (objs S a)" using held_live [OF c] counts_okD(3) [OF c, of n a] Some by blast
  have lt: "refcount (objs S a) < 4294967295" using b [OF Some] by simp
  obtain S1 where S1: "drm_gem_object_reference a S = Some S1" "counts_ok (handles S) ?ext S1"
    "object_idr S1 = object_idr S" "counters S1 = counters S" "object_name_idr S1 = object_name_idr S"
    "objs S1 = (objs S)(a := (objs S a)\<lparr>refcount := refcount (objs S a) + 1\<rparr>)"
    using reference_ok [OF c l lt] by auto
  have h1: "handles S1 = handles S" using S1(3) by (simp add: handles_def)
  have i1: "gem_inv ?ext S1" using S1 h1 inv by (simp add: gem_inv_def tables_ok_def)
  have l1: "\<not> freed (objs S1 a)" "refcount (objs S1 a) < 4294967295" "gem_room S1"
    "\<exists>i. 0 < i \<and> i < ID_END \<and> handles S1 (f, i) = None"
    using l b [OF Some] room space h1 by (simp_all add: S1(6) gem_room_def S1(4))
  obtain r k S2 where S2: "drm_gem_handle_create drv mem f a S1 = Some (r, k, S2)" "gem_inv ?ext S2"
    "\<forall>b. gem_size (objs S2 b) = gem_size (objs S1 b)"
    "r = 0 \<longrightarrow> (\<exists>h. k = Some h \<and> 0 < h \<and> h < ID_END \<and> handles S1 (f, h) = None \<and> handles S2 = (handles S1)((f, h) \<mapsto> a))"
    "r \<noteq> 0 \<longrightarrow> handles S2 = handles S1"
    using handle_create_result [OF i1 l1(3,1,2,4), of drv mem] by blast
  have bk: "(?ext)(a := (?ext) a - 1) = ext" by (simp add: fun_eq_iff)
  obtain S3 where S3: "drm_gem_object_unreference_unlocked a S2 = Some S3" "gem_inv ext S3" "handles S3 = handles S2"
    "\<forall>b. gem_size (objs S3 b) = gem_size (objs S2 b)"
    using gem_unreference [OF S2(2), of a] unfolding bk by auto
  have sz: "gem_size (objs S3 a) = gem_size (objs S a)" using S2(3) S3(4) S1(6) by simp
  show ?thesis
  proof (cases "r = 0")
    case True
    then obtain h where h: "k = Some h" "0 < h" "handles S1 (f, h) = None" "handles S2 = (handles S1)((f, h) \<mapsto> a)" using S2(4) by blast
    have "counts_ok (handles S3) ext S3" using S3(2) by (simp add: gem_inv_def)
    moreover have "handles S3 (f, h) = Some a" using h(4) S3(3) by simp
    ultimately have "\<not> freed (objs S3 a)" using held_live by blast
    with True h Some drv S1(1) S2(1) S3 h1 sz show ?thesis by (auto simp: drm_gem_open_ioctl_def use_obj_def)
  next
    case False
    with Some drv S1(1) S2 S3 h1 show ?thesis by (auto simp: drm_gem_open_ioctl_def)
  qed
qed

section \<open>Closing a file\<close>

lemma release_handles_ok:
  assumes "counts_ok H ext S" "idr_list_inv g (object_name_idr S)" "distinct (map fst es)" "\<And>h a. (h, a) \<in> set es \<Longrightarrow> H (f, h) = Some a"
  shows "\<exists>S'. release_handles es S = Some S' \<and> counts_ok (H |` (- ({f} \<times> fst ` set es))) ext S' \<and>
    idr_list_inv g (object_name_idr S') \<and> object_idr S' = object_idr S \<and> counters S' = counters S"
  using assms
proof (induction es arbitrary: H S)
  case Nil
  then show ?case by simp
next
  case (Cons e es)
  obtain h a where e: "e = (h, a)" by force
  have p: "H (f, h) = Some a" using Cons.prems(4) e by simp
  obtain S1 where S1: "drm_gem_object_handle_unreference_unlocked a S = Some S1" "counts_ok (H((f, h) := None)) ext S1"
    "idr_list_inv g (object_name_idr S1)" "object_idr S1 = object_idr S" "counters S1 = counters S"
    using handle_unreference_ok [OF Cons.prems(1,2) p] by blast
  have d: "distinct (map fst es)" using Cons.prems(3) by simp
  have "(H((f, h) := None)) (f, h') = Some a'" if "(h', a') \<in> set es" for h' a'
    using Cons.prems(3,4) e that by force
  then obtain S2 where S2: "release_handles es S1 = Some S2" "counts_ok ((H((f, h) := None)) |` (- ({f} \<times> fst ` set es))) ext S2"
    "idr_list_inv g (object_name_idr S2)" "object_idr S2 = object_idr S1" "counters S2 = counters S1"
    using Cons.IH [OF S1(2,3) d] by blast
  have "(H((f, h) := None)) |` (- ({f} \<times> fst ` set es)) = H |` (- ({f} \<times> fst ` set (e # es)))"
    by (auto simp: fun_eq_iff restrict_map_def e)
  with S1 S2 e show ?case by (auto simp: drm_gem_object_release_handle_def)
qed

lemma fold_clear: "fold (\<lambda>k h. h(int k := [])) ks L x = (if x \<in> int ` set ks then [] else L x)"
  by (induction ks arbitrary: L) auto

lemma idr_list_free_find:
  "idr_list_find (idr_list_free L) i = None"
proof -
  have "i mod HASHNODE \<in> int ` set [0..<1024]"
    unfolding set_upt by (rule image_eqI [of _ _ "nat (i mod HASHNODE)"]) (auto simp: HASHNODE_def)
  then show ?thesis by (simp only: idr_list_find_def idr_list_free_def fold_clear) simp
qed

lemma idr_list_free_inv: "idr_list_inv g L \<Longrightarrow> idr_list_inv g (idr_list_free L)"
proof -
  assume "idr_list_inv g L"
  then have "chain_ok k (if x then [] else L k)" for k x by (auto simp: idr_list_inv_def chain_ok_def)
  then have "chain_ok k (idr_list_free L k)" for k unfolding idr_list_free_def fold_clear by simp
  then show ?thesis unfolding idr_list_inv_def by (simp add: idr_list_free_find)
qed

lemma release_result:
  assumes inv: "gem_inv ext S"
  shows "\<exists>S'. drm_gem_release f S = Some S' \<and> gem_inv ext S' \<and> handles S' = handles S |` {p. fst p \<noteq> f}"
proof -
  have c: "counts_ok (handles S) ext S" and t: "tables_ok S" using inv by (auto simp: gem_inv_def)
  have tf: "idr_list_inv (counters S) (object_idr S f)" "idr_list_inv (counters S) (object_name_idr S)" using t by (auto simp: tables_ok_def)
  let ?es = "idr_list_entries (object_idr S f)"
  note es = idr_list_entries_set [OF tf(1)] idr_list_entries_distinct [OF tf(1)]
  have "handles S (f, h) = Some a" if "(h, a) \<in> set ?es" for h a using that es(1) by (simp add: handles_def)
  then obtain S1 where S1: "release_handles ?es S = Some S1" "counts_ok (handles S |` (- ({f} \<times> fst ` set ?es))) ext S1"
    "idr_list_inv (counters S) (object_name_idr S1)" "object_idr S1 = object_idr S" "counters S1 = counters S"
    using release_handles_ok [OF c tf(2) es(2), of f] by blast
  have "p \<in> {f} \<times> fst ` set ?es \<longleftrightarrow> fst p = f \<and> handles S p \<noteq> None" for p
    unfolding es(1) by (cases p) (auto simp: handles_def image_iff)
  then have H: "handles S |` (- ({f} \<times> fst ` set ?es)) = handles S |` {p. fst p \<noteq> f}"
    by (auto simp: fun_eq_iff restrict_map_def)
  let ?S = "S1\<lparr>object_idr := (object_idr S1)(f := idr_list_free (object_idr S1 f))\<rparr>"
  have h': "handles ?S = handles S |` {p. fst p \<noteq> f}"
    by (auto simp: fun_eq_iff restrict_map_def handles_def S1(4) idr_list_free_find)
  have "counts_ok (handles ?S) ext ?S" using S1(2) unfolding H h' by (simp add: counts_ok_def)
  moreover have "tables_ok ?S" using t S1 idr_list_free_inv [OF tf(1)] by (auto simp: tables_ok_def)
  ultimately show ?thesis using S1(1) h' by (auto simp: drm_gem_release_def gem_inv_def)
qed

text \<open>An object is freed exactly when nothing refers to it any more.\<close>

lemma freed_iff:
  assumes "gem_inv ext S"
  shows "freed (objs S a) \<longleftrightarrow> (\<forall>p. handles S p \<noteq> Some a) \<and> ext a = 0"
proof
  assume "freed (objs S a)"
  then show "(\<forall>p. handles S p \<noteq> Some a) \<and> ext a = 0"
    using held_live [of "handles S" ext S _ a] assms unfolding gem_inv_def by (metis gr0I)
next
  assume r: "(\<forall>p. handles S p \<noteq> Some a) \<and> ext a = 0"
  then have "{p. handles S p = Some a} = {}" by blast
  then have "hcount (handles S) a = 0" by (simp only: hcount_def card.empty)
  with r show "freed (objs S a)"
    using counts_okD(2) [of "handles S" ext S a] assms by (auto simp: gem_inv_def obj_ok_def split: if_splits)
qed

end
