(* ===== verification/Drm_Gem_Thms.thy ===== *)
theory Drm_Gem_Thms
  imports Drm_Gem_Inv
begin

text \<open>
  The ioctls and file operations on graphics memory objects as one step relation, its reachable states,
  and the properties of the single operations.
\<close>

section \<open>Commands\<close>

datatype gem_cmd =
    GCreate nat obj  \<comment> \<open>the driver makes a handle for an object on which it holds a reference\<close>
  | GClose nat int
  | GFlink nat int
  | GOpen nat int
  | GLookup nat int  \<comment> \<open>the driver looks up a handle and keeps the reference\<close>
  | GUnref obj       \<comment> \<open>the driver drops a reference\<close>
  | GRelease nat

fun gem_exec :: "driver \<Rightarrow> bool \<Rightarrow> gem_cmd \<Rightarrow> gem_state \<Rightarrow> gem_state option" where
  "gem_exec drv mem (GCreate f a) S = map_option (\<lambda>(_, _, S'). S') (drm_gem_handle_create drv mem f a S)"
| "gem_exec drv mem (GClose f h) S = map_option snd (drm_gem_close_ioctl drv f h S)"
| "gem_exec drv mem (GFlink f h) S = map_option (\<lambda>(_, _, S'). S') (drm_gem_flink_ioctl drv mem f h S)"
| "gem_exec drv mem (GOpen f n) S = map_option (\<lambda>(_, _, S'). S') (drm_gem_open_ioctl drv mem f n S)"
| "gem_exec drv mem (GLookup f h) S = map_option snd (drm_gem_object_lookup f h S)"
| "gem_exec drv mem (GUnref a) S = drm_gem_object_unreference_unlocked a S"
| "gem_exec drv mem (GRelease f) S = drm_gem_release f S"

text \<open>The references of the driver after a command.\<close>

fun cmd_ext :: "gem_cmd \<Rightarrow> gem_state \<Rightarrow> (obj \<Rightarrow> nat) \<Rightarrow> obj \<Rightarrow> nat" where
  "cmd_ext (GLookup f h) S ext = (case handles S (f, h) of None \<Rightarrow> ext | Some a \<Rightarrow> ext(a := Suc (ext a)))"
| "cmd_ext (GUnref a) S ext = ext(a := ext a - 1)"
| "cmd_ext _ S ext = ext"

text \<open>
  What the callers observe: the driver uses an object only while it holds a reference. The limits say
  that no counter of 32 bits is about to wrap around and that the table in question is not
  completely full.
\<close>

definition limits :: "gem_state \<Rightarrow> bool" where
  "limits S \<longleftrightarrow> gem_room S \<and> (\<forall>a. \<not> freed (objs S a) \<longrightarrow> refcount (objs S a) < 4294967294) \<and>
     (\<forall>f. \<exists>i. 0 < i \<and> i < ID_END \<and> handles S (f, i) = None) \<and>
     (\<exists>i. 0 < i \<and> i < ID_END \<and> idr_list_find (object_name_idr S) i = None)"

fun cmd_ready :: "gem_cmd \<Rightarrow> (obj \<Rightarrow> nat) \<Rightarrow> bool" where
  "cmd_ready (GCreate f a) ext \<longleftrightarrow> 0 < ext a"
| "cmd_ready (GUnref a) ext \<longleftrightarrow> 0 < ext a"
| "cmd_ready _ ext \<longleftrightarrow> True"

inductive gem_step :: "driver \<Rightarrow> (obj \<Rightarrow> nat) \<times> gem_state \<Rightarrow> (obj \<Rightarrow> nat) \<times> gem_state \<Rightarrow> bool" for drv where
  exec: "limits S \<Longrightarrow> cmd_ready c ext \<Longrightarrow> gem_exec drv mem c S = Some S' \<Longrightarrow> gem_step drv (ext, S) (cmd_ext c S ext, S')"

inductive_cases gem_stepE: "gem_step drv (ext, S) s'"

text \<open>No command that is ready gets stuck, and each keeps the counts exact.\<close>

lemma gem_exec_progress:
  assumes inv: "gem_inv ext S" and lim: "limits S" and rdy: "cmd_ready c ext" and drv: "driver_gem drv"
  shows "\<exists>S'. gem_exec drv mem c S = Some S' \<and> gem_inv (cmd_ext c S ext) S'"
proof -
  have c: "counts_ok (handles S) ext S" using inv by (simp add: gem_inv_def)
  have rc: "refcount (objs S a) < 4294967294" if "\<not> freed (objs S a)" for a using lim that by (simp add: limits_def)
  have live: "\<not> freed (objs S a)" if "0 < ext a \<or> handles S p = Some a" for a p
    using held_live [OF c] that by blast
  have named: "\<not> freed (objs S a)" if "idr_list_find (object_name_idr S) n = Some a" for a n
    using held_live [OF c] counts_okD(3) [OF c, of n a] that by blast
  have rm: "gem_room S" and sp: "\<And>f. \<exists>i. 0 < i \<and> i < ID_END \<and> handles S (f, i) = None"
    and sn: "\<exists>i. 0 < i \<and> i < ID_END \<and> idr_list_find (object_name_idr S) i = None"
    using lim by (auto simp: limits_def)
  have rc': "refcount (objs S a) < 4294967295" if "\<not> freed (objs S a)" for a using rc [OF that] by simp
  show ?thesis
  proof (cases c)
    case (GCreate f a)
    then have "\<not> freed (objs S a)" using live rdy by auto
    with handle_create_result [OF inv rm _ rc' sp [of f], of a drv mem] GCreate show ?thesis by auto
  next
    case (GClose f h)
    with handle_delete_result [OF inv, of f h] drv show ?thesis by (auto simp: drm_gem_close_ioctl_def)
  next
    case (GFlink f h)
    have "refcount (objs S a) < 4294967294" if "handles S (f, h) = Some a" for a using rc live that by blast
    with GFlink flink_result [OF inv rm drv _ sn, of f h mem] show ?thesis by auto
  next
    case (GOpen f n)
    have "refcount (objs S a) < 4294967294" if "idr_list_find (object_name_idr S) n = Some a" for a using rc named that by blast
    with GOpen open_result [where n = n and f = f and mem = mem, OF inv rm drv _ sp] show ?thesis by auto
  next
    case (GLookup f h)
    have "refcount (objs S a) < 4294967295" if "handles S (f, h) = Some a" for a using rc' live that by blast
    with GLookup lookup_result [OF inv, of f h] inv show ?thesis by (fastforce split: option.splits)
  next
    case (GUnref a)
    with gem_unreference [OF inv, of a] rdy show ?thesis by auto
  next
    case (GRelease f)
    with release_result [OF inv, of f] show ?thesis by auto
  qed
qed

lemma gem_step_inv:
  assumes "gem_step drv s s'" "driver_gem drv" "gem_inv (fst s) (snd s)"
  shows "gem_inv (fst s') (snd s')"
  using assms(1)
proof cases
  case (exec S c ext mem S')
  with assms(3) have "gem_inv ext S" by simp
  from gem_exec_progress [OF this exec(3,4) assms(2), of mem] exec show ?thesis by auto
qed

section \<open>Properties\<close>

subsection \<open>A concrete state\<close>

definition sample_driver :: driver where
  "sample_driver = \<lparr>driver_gem = True, gem_open_object = None\<rparr>"

text \<open>One object at address 5 with the reference of its creator; everything else is free.\<close>

definition first_gem :: gem_state where
  "first_gem = \<lparr>objs = (\<lambda>a. \<lparr>refcount = 1, handle_count = 0, gem_name = 0, gem_size = 4096, freed = (a \<noteq> 5)\<rparr>),
     object_name_idr = idr_list_init, object_idr = (\<lambda>_. idr_list_init), counters = \<lparr>fr_id = 0, fr_time = 0\<rparr>\<rparr>"

definition creator :: "obj \<Rightarrow> nat" where "creator = (\<lambda>a. if a = 5 then 1 else 0)"

lemma empty_find: "idr_list_find idr_list_init i = None"
  by (simp add: idr_list_find_def idr_list_init_def)

lemma first_gem_inv: "gem_inv creator first_gem"
proof -
  have h: "handles first_gem = (\<lambda>_. None)" by (auto simp: handles_def first_gem_def empty_find fun_eq_iff)
  show ?thesis
    unfolding gem_inv_def h
    by (auto simp: counts_ok_def tables_ok_def obj_ok_def hcount_def first_gem_def creator_def counters_ok_def
        ID_END_def idr_list_init_inv empty_find)
qed

lemma first_gem_limits: "limits first_gem"
proof -
  have "\<exists>i :: int. 0 < i \<and> i < ID_END" by (rule exI [of _ 1]) (simp add: ID_END_def)
  then show ?thesis
    by (auto simp: limits_def gem_room_def first_gem_def handles_def empty_find)
qed

text \<open>
  C3: From every state with exact counts, every sequence of ioctls, lookups, dropped references and
  closed files, in any interleaving of the files, leads to a state with exact counts again: an object's
  reference count is the number of its handles, plus one for a name, plus the references that the driver holds; the
  handle count is the number of handles; a name belongs to an object that has a handle; and an object is freed
  exactly when nothing refers to it.
\<close>

theorem gem_reachable_exact:
  assumes "(gem_step drv)\<^sup>*\<^sup>* (ext, S) (ext', S')" "driver_gem drv" "gem_inv ext S"
  shows "gem_inv ext' S' \<and> (\<forall>a. freed (objs S' a) \<longleftrightarrow> (\<forall>p. handles S' p \<noteq> Some a) \<and> ext' a = 0)"
proof -
  have "gem_inv (fst (ext', S')) (snd (ext', S'))"
    using assms(1)
  proof (induction rule: rtranclp_induct)
    case base
    then show ?case using assms(3) by simp
  next
    case (step s s')
    then show ?case using gem_step_inv [OF step(2) assms(2)] by blast
  qed
  then show ?thesis using freed_iff by auto
qed

lemma first_gem_step:
  "\<exists>S'. gem_step sample_driver (creator, first_gem) (creator, S') \<and> gem_exec sample_driver True (GCreate 1 5) first_gem = Some S'"
proof -
  have r: "cmd_ready (GCreate 1 5) creator" by (simp add: creator_def)
  have d: "driver_gem sample_driver" by (simp add: sample_driver_def)
  obtain S' where S': "gem_exec sample_driver True (GCreate 1 5) first_gem = Some S'"
    using gem_exec_progress [OF first_gem_inv first_gem_limits r d] by blast
  from gem_step.exec [OF first_gem_limits r S'] S' show ?thesis by auto
qed

theorem gem_reachable_exact_witness:
  "\<exists>S'. gem_exec sample_driver True (GCreate 1 5) first_gem = Some S' \<and> gem_inv creator S' \<and>
     (\<forall>a. freed (objs S' a) \<longleftrightarrow> (\<forall>p. handles S' p \<noteq> Some a) \<and> creator a = 0)"
proof -
  obtain S' where S': "gem_step sample_driver (creator, first_gem) (creator, S')"
    "gem_exec sample_driver True (GCreate 1 5) first_gem = Some S'" using first_gem_step by blast
  have d: "driver_gem sample_driver" by (simp add: sample_driver_def)
  from gem_reachable_exact [OF r_into_rtranclp [of "gem_step sample_driver", OF S'(1)] d first_gem_inv] S'(2) show ?thesis by blast
qed



text \<open>
  Two attempts suffice: if an identifier is free in the table, the loop of
  \<^verbatim>\<open>drm_gem_handle_create\<close> and \<^verbatim>\<open>drm_gem_flink_ioctl\<close> returns within two attempts, and every larger bound gives
  the same result.
\<close>

theorem alloc_loop_terminates:
  fixes L :: "'o idr_list"
  assumes "counters_ok g" "fr_time g < 4294967294" "idr_list_inv g L" "0 < i" "i < ID_END" "idr_list_find L i = None"
  shows "\<exists>r. \<forall>n \<ge> 2. alloc_loop n mem g L x = Some r"
proof -
  have "alloc_loop 2 mem g L x \<noteq> None"
    using alloc_loop_result [OF assms(1-3), of mem x, where 'm = 'o] assms(4-6)
    by (cases "alloc_loop 2 mem g L x") auto
  then obtain r where r: "alloc_loop 2 mem g L x = Some r" by auto
  have "alloc_loop n mem g L x = Some r" if "n \<ge> 2" for n
    using alloc_loop_more [OF r, of "n - 2"] that by (metis le_add_diff_inverse)
  then show ?thesis by blast
qed

theorem alloc_loop_terminates_witness:
  "\<exists>r. \<forall>n \<ge> 2. alloc_loop n True \<lparr>fr_id = 0x7ffffffe, fr_time = 1\<rparr> (idr_list_init :: nat idr_list) 8 = Some r"
  by (rule alloc_loop_terminates [where i = 1])
    (simp_all add: counters_ok_def ID_END_def idr_list_init_inv empty_find)

subsection \<open>Handles\<close>

text \<open>
  \<^verbatim>\<open>drm_gem_handle_create\<close> gives the caller a handle that was unused in its file and now
  names the object, and touches no other handle. When the driver's hook refuses the object, the handle is taken back
  and the handles and counts are what they were; the error of the hook is returned.
\<close>

theorem drm_gem_handle_create_correct:
  assumes "gem_inv ext S" "gem_room S" "\<not> freed (objs S a)" "refcount (objs S a) < 4294967295"
    and "\<exists>i. 0 < i \<and> i < ID_END \<and> handles S (f, i) = None"
  shows "\<exists>r k S'. drm_gem_handle_create drv mem f a S = Some (r, k, S') \<and> gem_inv ext S' \<and>
    (r = 0 \<longrightarrow> (\<exists>h. k = Some h \<and> 0 < h \<and> h < ID_END \<and> handles S (f, h) = None \<and> handles S' = (handles S)((f, h) \<mapsto> a))) \<and>
    (r \<noteq> 0 \<longrightarrow> handles S' = handles S \<and> (r = -1 \<and> \<not> mem \<or> (\<exists>open. gem_open_object drv = Some open \<and> r = open a f)))"
  using handle_create_result [OF assms, of drv mem] by blast

theorem drm_gem_handle_create_witness:
  "\<exists>r k S'. drm_gem_handle_create \<lparr>driver_gem = True, gem_open_object = Some (\<lambda>_ _. - EINVAL)\<rparr> True 1 5 first_gem = Some (r, k, S') \<and>
    gem_inv creator S' \<and>
    (r = 0 \<longrightarrow> (\<exists>h. k = Some h \<and> 0 < h \<and> h < ID_END \<and> handles first_gem (1, h) = None \<and> handles S' = (handles first_gem)((1, h) \<mapsto> 5))) \<and>
    (r \<noteq> 0 \<longrightarrow> handles S' = handles first_gem \<and>
       (r = -1 \<and> \<not> True \<or> (\<exists>open. gem_open_object \<lparr>driver_gem = True, gem_open_object = Some (\<lambda>_ _. - EINVAL)\<rparr> = Some open \<and> r = open 5 1)))"
  by (rule drm_gem_handle_create_correct [OF first_gem_inv])
    (use first_gem_limits in \<open>simp_all add: limits_def\<close>, simp_all add: first_gem_def)

text \<open>
  \<^verbatim>\<open>drm_gem_close_ioctl\<close> on a handle that is not in the file's table returns \<^verbatim>\<open>-EINVAL\<close> and
  changes nothing, so that closing twice cannot drop a second reference; on a handle in the table it
  removes exactly that handle and keeps the counts exact.
\<close>

theorem drm_gem_close_correct:
  assumes "gem_inv ext S" "driver_gem drv"
  shows "\<exists>r S'. drm_gem_close_ioctl drv f h S = Some (r, S') \<and> gem_inv ext S' \<and>
    (if handles S (f, h) = None then r = - EINVAL \<and> S' = S else r = 0 \<and> handles S' = (handles S)((f, h) := None)) \<and>
    drm_gem_close_ioctl drv f h S' = Some (- EINVAL, S')"
proof -
  obtain r S' where r: "drm_gem_handle_delete f h S = Some (r, S')" "gem_inv ext S'"
    "if handles S (f, h) = None then r = - EINVAL \<and> S' = S else r = 0 \<and> handles S' = (handles S)((f, h) := None)"
    using handle_delete_result [OF assms(1), of f h] by blast
  then have "handles S' (f, h) = None" by (auto split: if_splits)
  then have "drm_gem_handle_delete f h S' = Some (- EINVAL, S')" by (simp add: drm_gem_handle_delete_def handles_def)
  with r assms(2) show ?thesis by (auto simp: drm_gem_close_ioctl_def)
qed

theorem drm_gem_close_witness:
  "\<exists>r S'. drm_gem_close_ioctl sample_driver 1 7 first_gem = Some (r, S') \<and> gem_inv creator S' \<and>
    (if handles first_gem (1, 7) = None then r = - EINVAL \<and> S' = first_gem
     else r = 0 \<and> handles S' = (handles first_gem)((1, 7) := None)) \<and>
    drm_gem_close_ioctl sample_driver 1 7 S' = Some (- EINVAL, S')"
  by (rule drm_gem_close_correct [OF first_gem_inv]) (simp add: sample_driver_def)

text \<open>
  C15: A global name is stable and shared: after \<^verbatim>\<open>drm_gem_flink_ioctl\<close> succeeds the name table maps the
  returned name to the object, an object that had a name keeps it, and no other name changes. A following
  \<^verbatim>\<open>drm_gem_open_ioctl\<close> with the name, from any file, makes a fresh handle for the same object and reports its
  size.
\<close>

theorem drm_gem_flink_open:
  assumes "gem_inv ext S" "driver_gem drv" "limits S" "handles S (f, h) = Some a"
    and "drm_gem_flink_ioctl drv mem f h S = Some (0, n, S1)" "limits S1"
  shows "gem_inv ext S1 \<and> (gem_name (objs S a) \<noteq> 0 \<longrightarrow> n = gem_name (objs S a)) \<and>
    (\<forall>m x. idr_list_find (object_name_idr S) m = Some x \<longrightarrow> idr_list_find (object_name_idr S1) m = Some x) \<and>
    (\<exists>r k S2. drm_gem_open_ioctl drv mem' f' n S1 = Some (r, k, S2) \<and> gem_inv ext S2 \<and>
      (r = 0 \<longrightarrow> (\<exists>h'. k = Some (h', gem_size (objs S1 a)) \<and> handles S1 (f', h') = None \<and> handles S2 = (handles S1)((f', h') \<mapsto> a))))"
proof -
  have live: "\<not> freed (objs T b)" if "gem_inv ext T" "handles T p = Some b \<or> gem_name (objs T b) \<noteq> 0" for T b p
    using held_live [of "handles T" ext T p b] that by (auto simp: gem_inv_def)
  have "refcount (objs S b) < 4294967294" if "handles S (f, h) = Some b" for b
    using live [OF assms(1)] that assms(3) by (auto simp: limits_def)
  then have fl: "gem_inv ext S1 \<and> idr_list_find (object_name_idr S1) n = Some a \<and> (gem_name (objs S a) \<noteq> 0 \<longrightarrow> n = gem_name (objs S a)) \<and>
    (\<forall>m x. idr_list_find (object_name_idr S) m = Some x \<longrightarrow> idr_list_find (object_name_idr S1) m = Some x)"
    using flink_result [OF assms(1) _ assms(2), of f h mem] assms(3-5) by (auto simp: limits_def)
  then have c1: "counts_ok (handles S1) ext S1" by (simp add: gem_inv_def)
  have "refcount (objs S1 b) < 4294967294" if "idr_list_find (object_name_idr S1) n = Some b" for b
    using live [where T = S1 and b = b] counts_okD(3) [OF c1, of n b] fl that assms(6) by (auto simp: limits_def)
  then obtain r k S2 where "drm_gem_open_ioctl drv mem' f' n S1 = Some (r, k, S2)" "gem_inv ext S2"
    "if r = 0 then \<exists>h. k = Some (h, gem_size (objs S1 a)) \<and> 0 < h \<and> handles S1 (f', h) = None \<and> handles S2 = (handles S1)((f', h) \<mapsto> a)
     else handles S2 = handles S1"
    using open_result [where n = n and f = f' and mem = mem' and S = S1 and ext = ext and drv = drv] fl assms(2,6) by (auto simp: limits_def)
  with fl show ?thesis by auto
qed

text \<open>The object with a handle, and with a name.\<close>

definition second_gem :: gem_state where
  "second_gem = first_gem\<lparr>objs := (objs first_gem)(5 := (objs first_gem 5)\<lparr>refcount := 2, handle_count := 1\<rparr>),
     object_idr := (\<lambda>_. idr_list_init)(3 := idr_list_init(1 := [(1, 5)])), counters := \<lparr>fr_id = 1, fr_time = 0\<rparr>\<rparr>"

definition third_gem :: gem_state where
  "third_gem = second_gem\<lparr>objs := (objs second_gem)(5 := (objs second_gem 5)\<lparr>refcount := 3, gem_name := 2\<rparr>),
     object_name_idr := idr_list_init(2 := [(2, 5)]), counters := \<lparr>fr_id = 2, fr_time = 0\<rparr>\<rparr>"

lemma one_entry_find: "0 \<le> i \<Longrightarrow> i < 1024 \<Longrightarrow> idr_list_find (idr_list_init(i := [(i, x)])) = [i \<mapsto> x]"
  by (auto simp: fun_eq_iff idr_list_find_def idr_list_init_def HASHNODE_def)

lemma second_handles: "handles second_gem = [(3, 1) \<mapsto> 5]" "handles third_gem = [(3, 1) \<mapsto> 5]"
  by (auto simp: handles_def second_gem_def third_gem_def fun_eq_iff one_entry_find empty_find)

lemma second_gem_inv: "gem_inv creator second_gem"
proof -
  have "{p. [(3::nat, 1::int) \<mapsto> (5::nat)] p = Some a} = (if a = 5 then {(3, 1)} else {})" for a by auto
  then have h: "hcount [(3, 1) \<mapsto> 5] a = (if a = 5 then 1 else 0)" for a by (simp add: hcount_def)
  have t: "idr_list_inv \<lparr>fr_id = 1, fr_time = 0\<rparr> (idr_list_init(1 := [(1, 5 :: nat)]))"
    by (auto simp: idr_list_inv_def chain_ok_def HASHNODE_def ID_END_def one_entry_find idr_list_init_def [THEN fun_cong] split: if_splits)
  show ?thesis
    unfolding gem_inv_def second_handles
    using t by (auto simp: counts_ok_def tables_ok_def obj_ok_def h second_gem_def first_gem_def creator_def counters_ok_def
        ID_END_def idr_list_init_inv empty_find)
qed

lemma second_limits: "limits second_gem" "limits third_gem"
proof -
  have i: "\<exists>i :: int. 0 < i \<and> i < ID_END \<and> m i = None" if "m 3 = None" for m :: "int \<Rightarrow> nat option"
    using that by (intro exI [of _ 3]) (simp add: ID_END_def)
  show "limits second_gem"
    unfolding limits_def second_handles
    by (intro conjI allI i) (auto simp: gem_room_def second_gem_def first_gem_def empty_find)
  show "limits third_gem"
    unfolding limits_def second_handles
    by (intro conjI allI i) (auto simp: gem_room_def third_gem_def second_gem_def first_gem_def one_entry_find)
qed

theorem drm_gem_flink_open_witness:
  "drm_gem_flink_ioctl sample_driver True 3 1 second_gem = Some (0, 2, third_gem) \<and> gem_inv creator third_gem \<and>
   (\<exists>r k S2. drm_gem_open_ioctl sample_driver True 9 2 third_gem = Some (r, k, S2) \<and> gem_inv creator S2 \<and>
      (r = 0 \<longrightarrow> (\<exists>h'. k = Some (h', gem_size (objs third_gem 5)) \<and> handles third_gem (9, h') = None \<and>
         handles S2 = (handles third_gem)((9, h') \<mapsto> 5))))"
proof -
  have f: "idr_list_find (object_idr second_gem 3) 1 = Some 5" using second_handles(1) by (simp add: handles_def fun_eq_iff)
  have al: "alloc_loop 2 True \<lparr>fr_id = 1, fr_time = 0\<rparr> (idr_list_init :: obj idr_list) 5 =
      Some (0, Some 2, \<lparr>fr_id = 2, fr_time = 0\<rparr>, idr_list_init(2 := [(2, 5)]))"
    by (simp add: numeral_2_eq_2 idr_list_get_new_above_def next_counter_def u32_def ID_END_def HASHNODE_def
        Let_def errno_defs idr_list_init_def)
  have e: "drm_gem_flink_ioctl sample_driver True 3 1 second_gem = Some (0, 2, third_gem)"
    using f al by (simp add: drm_gem_flink_ioctl_def sample_driver_def drm_gem_object_lookup_def drm_gem_object_reference_def kref_get_def
        use_obj_def second_gem_def first_gem_def third_gem_def upd_obj_def u32_def
        drm_gem_object_unreference_unlocked_def kref_put_def)
  have d: "driver_gem sample_driver" by (simp add: sample_driver_def)
  have h: "handles second_gem (3, 1) = Some 5" by (simp add: second_handles)
  from drm_gem_flink_open [OF second_gem_inv d second_limits(1) h e second_limits(2), of True 9] e show ?thesis by blast
qed

text \<open>
  C16: Closing a file (\<^verbatim>\<open>drm_gem_release\<close>) drops exactly the handles of that file, however many of them name the same object;
  the handles of other files stay, the counts stay exact, and every object that nothing else refers to
  is freed.
\<close>

theorem drm_gem_release_correct:
  assumes "gem_inv ext S"
  shows "\<exists>S'. drm_gem_release f S = Some S' \<and> gem_inv ext S' \<and> handles S' = handles S |` {p. fst p \<noteq> f} \<and>
    (\<forall>a. freed (objs S' a) \<longleftrightarrow> (\<forall>g h. g \<noteq> f \<longrightarrow> handles S (g, h) \<noteq> Some a) \<and> ext a = 0)"
proof -
  obtain S' where S': "drm_gem_release f S = Some S'" "gem_inv ext S'" "handles S' = handles S |` {p. fst p \<noteq> f}"
    using release_result [OF assms, of f] by blast
  have "(\<forall>p. handles S' p \<noteq> Some a) \<longleftrightarrow> (\<forall>g h. g \<noteq> f \<longrightarrow> handles S (g, h) \<noteq> Some a)" for a
    by (auto simp: S'(3) restrict_map_def)
  with S' freed_iff [OF S'(2)] show ?thesis by auto
qed

theorem drm_gem_release_witness:
  "\<exists>S'. drm_gem_release 3 first_gem = Some S' \<and> gem_inv creator S' \<and> handles S' = handles first_gem |` {p. fst p \<noteq> 3} \<and>
    (\<forall>a. freed (objs S' a) \<longleftrightarrow> (\<forall>g h. g \<noteq> 3 \<longrightarrow> handles first_gem (g, h) \<noteq> Some a) \<and> creator a = 0)"
  by (rule drm_gem_release_correct [OF first_gem_inv])

end
