(* ===== verification/Radeon_Mem.thy ===== *)
theory Radeon_Mem
  imports Gfx_Prelude
begin

text \<open>
  The allocator for graphics memory that clients of the radeon driver call: \<^verbatim>\<open>radeon_mem.c\<close>. The
  ring of blocks with its sentinel is the list of the blocks without the sentinel; the sentinel's special owner keeps
  it from being merged, which is what the ends of the list do. \<open>None\<close> as the owner is the
  null pointer: the block is free. \<^verbatim>\<open>int\<close> arithmetic is reduced by \<open>s32\<close>. Booleans named \<open>mem\<close> tell whether an
  allocation of kernel memory succeeds.
\<close>

unbundle bit_operations_syntax

section \<open>Model\<close>

record mem_block =
  b_start :: int
  b_size :: int
  b_filp :: "nat option"

type_synonym heap = "mem_block list"

text \<open>
  The pieces that replace a block: those before the returned one, the returned one, and those after it.
\<close>

definition split_tail :: "bool \<Rightarrow> mem_block \<Rightarrow> int \<Rightarrow> int \<Rightarrow> nat \<Rightarrow> mem_block \<times> heap" where
  "split_tail mem p start sz filp =
     (if sz < b_size p \<and> mem
      then (p\<lparr>b_size := sz, b_filp := Some filp\<rparr>,
            [\<lparr>b_start = s32 (start + sz), b_size = s32 (b_size p - sz), b_filp = None\<rparr>])
      else (p\<lparr>b_filp := Some filp\<rparr>, []))"

definition split_block :: "bool \<Rightarrow> bool \<Rightarrow> mem_block \<Rightarrow> int \<Rightarrow> int \<Rightarrow> nat \<Rightarrow> heap \<times> mem_block \<times> heap" where
  "split_block mem1 mem2 p start sz filp =
     (if start > b_start p
      then (if \<not> mem1 then ([], p\<lparr>b_filp := Some filp\<rparr>, [])
            else (let newblock = \<lparr>b_start = start, b_size = s32 (b_size p - s32 (start - b_start p)), b_filp = None\<rparr>
                  in ([p\<lparr>b_size := s32 (b_size p - b_size newblock)\<rparr>], split_tail mem2 newblock start sz filp)))
      else ([], split_tail mem2 p start sz filp))"

definition align_start :: "int \<Rightarrow> int \<Rightarrow> int" where
  "align_start msk x = s32 (x + msk) AND NOT msk"

fun alloc_in :: "bool \<Rightarrow> bool \<Rightarrow> int \<Rightarrow> int \<Rightarrow> nat \<Rightarrow> heap \<Rightarrow> (mem_block \<times> heap) option" where
  "alloc_in mem1 mem2 msk sz filp [] = None"
| "alloc_in mem1 mem2 msk sz filp (p # ps) =
     (let start = align_start msk (b_start p)
      in if b_filp p = None \<and> s32 (start + sz) \<le> s32 (b_start p + b_size p)
         then (case split_block mem1 mem2 p start sz filp of (pre, b, post) \<Rightarrow> Some (b, pre @ b # post @ ps))
         else map_option (\<lambda>(b, ps'). (b, p # ps')) (alloc_in mem1 mem2 msk sz filp ps))"

definition alloc_block :: "bool \<Rightarrow> bool \<Rightarrow> heap \<Rightarrow> int \<Rightarrow> nat \<Rightarrow> nat \<Rightarrow> (mem_block \<times> heap) option" where
  "alloc_block mem1 mem2 heap sz align2 filp = alloc_in mem1 mem2 (s32 (s32 (2 ^ align2) - 1)) sz filp heap"

text \<open>The block with the given start, with the blocks before and after it.\<close>

fun find_block :: "heap \<Rightarrow> int \<Rightarrow> (heap \<times> mem_block \<times> heap) option" where
  "find_block [] start = None"
| "find_block (p # ps) start =
     (if b_start p = start then Some ([], p, ps)
      else map_option (\<lambda>(pre, b, post). (p # pre, b, post)) (find_block ps start))"

definition merge_next :: "mem_block \<Rightarrow> heap \<Rightarrow> mem_block \<times> heap" where
  "merge_next p post =
     (case post of
        q # qs \<Rightarrow> if b_filp q = None then (p\<lparr>b_size := s32 (b_size p + b_size q)\<rparr>, qs) else (p, post)
      | [] \<Rightarrow> (p, post))"

definition free_block :: "heap \<Rightarrow> mem_block \<Rightarrow> heap \<Rightarrow> heap" where
  "free_block pre p post =
     (case merge_next (p\<lparr>b_filp := None\<rparr>) post of (p, post) \<Rightarrow>
        if pre \<noteq> [] \<and> b_filp (last pre) = None
        then butlast pre @ (last pre)\<lparr>b_size := s32 (b_size (last pre) + b_size p)\<rparr> # post
        else pre @ p # post)"

definition init_heap :: "bool \<Rightarrow> bool \<Rightarrow> int \<Rightarrow> int \<Rightarrow> int \<times> heap option" where
  "init_heap mem1 mem2 start sz =
     (if \<not> mem1 then (ENOMEM, None)
      else if \<not> mem2 then (ENOMEM, None)
      else (0, Some [\<lparr>b_start = start, b_size = sz, b_filp = None\<rparr>]))"

function coalesce :: "heap \<Rightarrow> heap" where
  "coalesce [] = []"
| "coalesce [p] = [p]"
| "coalesce (p # q # ps) =
     (if b_filp p = None \<and> b_filp q = None
      then coalesce (p\<lparr>b_size := s32 (b_size p + b_size q)\<rparr> # ps)
      else p # coalesce (q # ps))"
  by pat_completeness auto
termination
  by (relation "measure length") auto

definition radeon_mem_release :: "nat \<Rightarrow> heap option \<Rightarrow> heap option" where
  "radeon_mem_release filp heap =
     map_option (\<lambda>bs. coalesce (map (\<lambda>p. if b_filp p = Some filp then p\<lparr>b_filp := None\<rparr> else p) bs)) heap"

definition radeon_mem_takedown :: "heap option \<Rightarrow> heap option" where
  "radeon_mem_takedown heap = None"

subsection \<open>The ioctls\<close>

record drm_radeon_private =
  gart_heap :: "heap option"
  fb_heap :: "heap option"

datatype region = Gart_Heap | Fb_Heap

definition get_heap :: "int \<Rightarrow> region option" where
  "get_heap region = (if region = 1 then Some Gart_Heap else if region = 2 then Some Fb_Heap else None)"

fun heap_of :: "region \<Rightarrow> drm_radeon_private \<Rightarrow> heap option" where
  "heap_of Gart_Heap d = gart_heap d"
| "heap_of Fb_Heap d = fb_heap d"

fun set_heap :: "region \<Rightarrow> heap option \<Rightarrow> drm_radeon_private \<Rightarrow> drm_radeon_private" where
  "set_heap Gart_Heap h d = d\<lparr>gart_heap := h\<rparr>"
| "set_heap Fb_Heap h d = d\<lparr>fb_heap := h\<rparr>"

text \<open>
  \<open>copy_ok\<close>: the result can be written to the user's memory. The result is the status, the offset that the user
  reads, and the device. A device that is not initialised has no private state.
\<close>

definition radeon_mem_alloc ::
  "bool \<Rightarrow> bool \<Rightarrow> bool \<Rightarrow> nat \<Rightarrow> int \<Rightarrow> int \<Rightarrow> int \<Rightarrow> drm_radeon_private option
     \<Rightarrow> int \<times> int option \<times> drm_radeon_private option" where
  "radeon_mem_alloc mem1 mem2 copy_ok fpriv region alignment sz dev =
     (case dev of
        None \<Rightarrow> (EINVAL, None, dev)
      | Some d \<Rightarrow>
          (case get_heap region of
             None \<Rightarrow> (EFAULT, None, dev)
           | Some r \<Rightarrow>
               (case heap_of r d of
                  None \<Rightarrow> (EFAULT, None, dev)
                | Some h \<Rightarrow>
                    (case alloc_block mem1 mem2 h sz (nat (if alignment < 12 then 12 else alignment)) fpriv of
                       None \<Rightarrow> (ENOMEM, None, dev)
                     | Some (b, h') \<Rightarrow>
                         if \<not> copy_ok then (EFAULT, None, Some (set_heap r (Some h') d))
                         else (0, Some (b_start b), Some (set_heap r (Some h') d))))))"

definition radeon_mem_free :: "nat \<Rightarrow> int \<Rightarrow> int \<Rightarrow> drm_radeon_private option \<Rightarrow> int \<times> drm_radeon_private option" where
  "radeon_mem_free fpriv region offset dev =
     (case dev of
        None \<Rightarrow> (EINVAL, dev)
      | Some d \<Rightarrow>
          (case get_heap region of
             None \<Rightarrow> (EFAULT, dev)
           | Some r \<Rightarrow>
               (case heap_of r d of
                  None \<Rightarrow> (EFAULT, dev)
                | Some h \<Rightarrow>
                    (case find_block h offset of
                       None \<Rightarrow> (EFAULT, dev)
                     | Some (pre, b, post) \<Rightarrow>
                         if b_filp b \<noteq> Some fpriv then (EPERM, dev)
                         else (0, Some (set_heap r (Some (free_block pre b post)) d))))))"

definition radeon_mem_init_heap ::
  "bool \<Rightarrow> bool \<Rightarrow> int \<Rightarrow> int \<Rightarrow> int \<Rightarrow> drm_radeon_private option \<Rightarrow> int \<times> drm_radeon_private option" where
  "radeon_mem_init_heap mem1 mem2 region start sz dev =
     (case dev of
        None \<Rightarrow> (EINVAL, dev)
      | Some d \<Rightarrow>
          (case get_heap region of
             None \<Rightarrow> (EFAULT, dev)
           | Some r \<Rightarrow>
               if heap_of r d \<noteq> None then (EFAULT, dev)
               else (case init_heap mem1 mem2 start sz of (ret, h) \<Rightarrow> (ret, Some (set_heap r h d)))))"

section \<open>The invariant\<close>

text \<open>The blocks tile the range, and no two free blocks are neighbours.\<close>

fun tiled :: "int \<Rightarrow> heap \<Rightarrow> int \<Rightarrow> bool" where
  "tiled lo [] hi \<longleftrightarrow> lo = hi"
| "tiled lo (b # bs) hi \<longleftrightarrow> b_start b = lo \<and> 0 \<le> b_size b \<and> tiled (lo + b_size b) bs hi"

fun merged :: "heap \<Rightarrow> bool" where
  "merged (p # q # ps) \<longleftrightarrow> \<not> (b_filp p = None \<and> b_filp q = None) \<and> merged (q # ps)"
| "merged _ \<longleftrightarrow> True"

definition MEM_LIMIT :: int where "MEM_LIMIT = 1073741824"

definition heap_inv :: "int \<Rightarrow> int \<Rightarrow> heap \<Rightarrow> bool" where
  "heap_inv lo hi bs \<longleftrightarrow> 0 \<le> lo \<and> hi \<le> MEM_LIMIT \<and> tiled lo bs hi \<and> merged bs"

text \<open>The allocated blocks, in address order.\<close>

definition owned :: "heap \<Rightarrow> mem_block list" where
  "owned bs = filter (\<lambda>b. b_filp b \<noteq> None) bs"

lemma owned_simps [simp]: "owned [] = []" "owned (b # bs) = (if b_filp b = None then owned bs else b # owned bs)"
  "owned (xs @ ys) = owned xs @ owned ys"
  by (auto simp: owned_def)

lemma tiled_append: "tiled lo (xs @ ys) hi \<longleftrightarrow> (\<exists>m. tiled lo xs m \<and> tiled m ys hi)"
  by (induction xs arbitrary: lo) auto

lemma tiled_le: "tiled lo bs hi \<Longrightarrow> lo \<le> hi"
  by (induction bs arbitrary: lo) force+


lemma merged_append: "merged (xs @ ys) \<longleftrightarrow> merged xs \<and> merged ys \<and> (xs \<noteq> [] \<longrightarrow> ys \<noteq> [] \<longrightarrow> \<not> (b_filp (last xs) = None \<and> b_filp (hd ys) = None))"
proof (induction xs)
  case (Cons x xs)
  then show ?case by (cases xs; cases ys) auto
qed simp

subsection \<open>Rounding up\<close>



subsection \<open>Allocation\<close>







subsection \<open>Freeing\<close>

lemma find_block_split: "find_block bs s = Some (pre, b, post) \<Longrightarrow> bs = pre @ b # post \<and> b_start b = s"
  by (induction bs arbitrary: pre) (auto split: if_splits)

lemma free_block_result:
  assumes inv: "heap_inv lo hi (pre @ b # post)" and f: "b_filp b = Some f"
  shows "heap_inv lo hi (free_block pre b post) \<and> owned (free_block pre b post) = owned pre @ owned post"
proof -
  have t: "0 \<le> lo" "hi \<le> MEM_LIMIT" "merged (pre @ b # post)" and til: "tiled lo (pre @ b # post) hi"
    using inv by (auto simp: heap_inv_def)
  obtain m where m: "tiled lo pre m" "b_start b = m" "0 \<le> b_size b" "tiled (m + b_size b) post hi"
    using til by (auto simp: tiled_append)
  have mb: "lo \<le> m" "m + b_size b \<le> hi" using tiled_le [OF m(1)] tiled_le [OF m(4)] by auto
  obtain p post' where mn: "merge_next (b\<lparr>b_filp := None\<rparr>) post = (p, post')" by force
  have p: "b_filp p = None" "b_start p = m" "0 \<le> b_size p" "tiled (m + b_size p) post' hi" "owned post' = owned post"
    "post' = [] \<or> b_filp (hd post') \<noteq> None" "merged post'"
  proof -
    have mp: "merged post" using t(3) by (cases post) (auto simp: merged_append)
    show "b_filp p = None" "b_start p = m" "0 \<le> b_size p" "tiled (m + b_size p) post' hi" "owned post' = owned post"
      "post' = [] \<or> b_filp (hd post') \<noteq> None" "merged post'"
      using mn m mp tiled_le [of "m + b_size b + b_size (hd post)" "tl post" hi] t mb
      by (cases post; cases "tl post"; auto simp: merge_next_def s32_id MEM_LIMIT_def add.assoc split: if_splits)+
  qed
  have pb: "m + b_size p \<le> hi" using tiled_le [OF p(4)] .
  show ?thesis
  proof (cases "pre \<noteq> [] \<and> b_filp (last pre) = None")
    case True
    then obtain xs q where q: "pre = xs @ [q]" "b_filp q = None" by (metis append_butlast_last_id)
    obtain n where n: "tiled lo xs n" "b_start q = n" "0 \<le> b_size q" "n + b_size q = m" using m(1) q(1) by (auto simp: tiled_append)
    have nn: "0 \<le> n" using tiled_le [OF n(1)] t by simp
    have w: "s32 (b_size q + b_size p) = b_size q + b_size p" using n p pb t nn by (intro s32_id) (auto simp: MEM_LIMIT_def)
    have fb: "free_block pre b post = xs @ q\<lparr>b_size := b_size q + b_size p\<rparr> # post'"
      using q mn w by (simp add: free_block_def)
    have "tiled lo (free_block pre b post) hi" unfolding fb using n p by (auto simp: tiled_append add.assoc [symmetric])
    moreover have "merged (free_block pre b post)"
      unfolding fb using t(3) q p(6,7) f by (cases post') (auto simp: merged_append)
    moreover have "owned (free_block pre b post) = owned pre @ owned post" unfolding fb using q p by simp
    ultimately show ?thesis using t by (simp add: heap_inv_def)
  next
    case False
    then have fb: "free_block pre b post = pre @ p # post'" using mn by (auto simp: free_block_def)
    have "tiled lo (free_block pre b post) hi" unfolding fb using m p by (auto simp: tiled_append)
    moreover have "merged (free_block pre b post)"
      unfolding fb using t(3) False p(1,6,7) by (cases post') (auto simp: merged_append)
    moreover have "owned (free_block pre b post) = owned pre @ owned post" unfolding fb using p by simp
    ultimately show ?thesis using t by (simp add: heap_inv_def)
  qed
qed

lemma coalesce_result:
  assumes "tiled lo bs hi" "0 \<le> lo" "hi \<le> MEM_LIMIT"
  shows "tiled lo (coalesce bs) hi \<and> merged (coalesce bs) \<and> owned (coalesce bs) = owned bs \<and>
    (bs \<noteq> [] \<longrightarrow> coalesce bs \<noteq> [] \<and> b_filp (hd (coalesce bs)) = b_filp (hd bs))"
  using assms
proof (induction bs arbitrary: lo rule: coalesce.induct)
  case (3 p q ps)
  have t: "tiled (lo + b_size p + b_size q) ps hi" "0 \<le> b_size p" "0 \<le> b_size q" "b_start p = lo" using 3(3) by auto
  show ?case
  proof (cases "b_filp p = None \<and> b_filp q = None")
    case True
    have "lo + b_size p + b_size q \<le> hi" using tiled_le [OF t(1)] .
    then have "s32 (b_size p + b_size q) = b_size p + b_size q" using t 3(4,5) by (intro s32_id) (auto simp: MEM_LIMIT_def)
    with 3(1) [OF True, of lo] True t 3(4,5) show ?thesis by (auto simp: add.assoc)
  next
    case False
    have "tiled (lo + b_size p) (q # ps) hi" "0 \<le> lo + b_size p" using 3(3,4) by auto
    note ih = 3(2) [OF False this 3(5)]
    then obtain z zs where z: "coalesce (q # ps) = z # zs" "b_filp z = b_filp q" by (cases "coalesce (q # ps)") auto
    from ih z False t show ?thesis by auto
  qed
qed auto

section \<open>Properties\<close>

definition sample_radeon :: drm_radeon_private where
  "sample_radeon = \<lparr>gart_heap = Some [\<lparr>b_start = 0, b_size = 8192, b_filp = Some 4\<rparr>, \<lparr>b_start = 8192, b_size = 57344, b_filp = None\<rparr>],
     fb_heap = None\<rparr>"

lemma sample_heap_inv:
  "heap_inv 0 65536 [\<lparr>b_start = 0, b_size = 8192, b_filp = Some 4\<rparr>, \<lparr>b_start = 8192, b_size = 57344, b_filp = None\<rparr>]"
  by (simp add: heap_inv_def MEM_LIMIT_def)



text \<open>
  \<^verbatim>\<open>radeon_mem_free\<close> frees only a block of the caller: for an offset at which no block starts it returns
  \<^verbatim>\<open>EFAULT\<close>, for a block of another owner \<^verbatim>\<open>EPERM\<close>, both without effect. On success exactly that block is gone from the allocated
  ones and the free space is merged, so that the heap is well formed again.
\<close>

theorem radeon_mem_free_correct:
  assumes "get_heap region = Some r" "heap_of r d = Some h" "heap_inv lo hi h"
  shows "case radeon_mem_free f region off (Some d) of (ret, dev') \<Rightarrow>
    (case find_block h off of
       None \<Rightarrow> ret = EFAULT \<and> dev' = Some d
     | Some (pre, b, post) \<Rightarrow>
         if b_filp b \<noteq> Some f then ret = EPERM \<and> dev' = Some d
         else ret = 0 \<and> (\<exists>h'. dev' = Some (set_heap r (Some h') d) \<and> heap_inv lo hi h' \<and>
           owned h = owned pre @ b # owned post \<and> owned h' = owned pre @ owned post))"
proof (cases "find_block h off")
  case None
  with assms show ?thesis by (simp add: radeon_mem_free_def)
next
  case (Some x)
  obtain pre b post where x: "x = (pre, b, post)" by (cases x)
  have h: "h = pre @ b # post" using find_block_split Some x by blast
  have "heap_inv lo hi (free_block pre b post) \<and> owned (free_block pre b post) = owned pre @ owned post" if "b_filp b = Some f"
    using free_block_result assms(3) that unfolding h by blast
  with assms(1,2) Some x show ?thesis by (auto simp: radeon_mem_free_def h)
qed

theorem radeon_mem_free_witness:
  "fst (radeon_mem_free 4 1 0 (Some sample_radeon)) = 0 \<and> fst (radeon_mem_free 5 1 0 (Some sample_radeon)) = EPERM \<and>
   fst (radeon_mem_free 4 1 17 (Some sample_radeon)) = EFAULT"
proof -
  let ?h = "[\<lparr>b_start = 0, b_size = 8192, b_filp = Some 4\<rparr>, \<lparr>b_start = 8192, b_size = 57344, b_filp = None\<rparr>]"
  have g: "get_heap 1 = Some Gart_Heap" by (simp add: get_heap_def)
  have "heap_of Gart_Heap sample_radeon = Some ?h" by (simp add: sample_radeon_def)
  note c = radeon_mem_free_correct [OF g this sample_heap_inv]
  show ?thesis using c [of 4 0] c [of 5 0] c [of 4 17] by (auto split: prod.splits)
qed

text \<open>
  \<^verbatim>\<open>radeon_mem_release\<close> frees exactly the blocks of the closing file, keeps all other allocated blocks in place, and merges
  the free space; when no other file owns a block, the heap is one free block again.
\<close>

theorem radeon_mem_release_correct:
  assumes "heap_inv lo hi h" "lo < hi"
  shows "\<exists>h'. radeon_mem_release f (Some h) = Some h' \<and> heap_inv lo hi h' \<and> owned h' = filter (\<lambda>b. b_filp b \<noteq> Some f) (owned h) \<and>
    ((\<forall>b \<in> set h. b_filp b = None \<or> b_filp b = Some f) \<longrightarrow> h' = [\<lparr>b_start = lo, b_size = hi - lo, b_filp = None\<rparr>])"
proof -
  let ?c = "map (\<lambda>p. if b_filp p = Some f then p\<lparr>b_filp := None\<rparr> else p) h"
  have i: "0 \<le> lo" "hi \<le> MEM_LIMIT" "tiled lo h hi" using assms by (auto simp: heap_inv_def)
  have tc: "tiled a (map (\<lambda>p. if b_filp p = Some f then p\<lparr>b_filp := None\<rparr> else p) bs) b = tiled a bs b" for a bs b
    by (induction bs arbitrary: a) auto
  have oc: "owned (map (\<lambda>p. if b_filp p = Some f then p\<lparr>b_filp := None\<rparr> else p) bs) = filter (\<lambda>b. b_filp b \<noteq> Some f) (owned bs)" for bs
    by (induction bs) auto
  have t': "tiled lo ?c hi" using i(3) unfolding tc .
  note c = coalesce_result [OF t' i(1,2)]
  have one: "coalesce ?c = [\<lparr>b_start = lo, b_size = hi - lo, b_filp = None\<rparr>]" if all: "\<forall>b \<in> set h. b_filp b = None \<or> b_filp b = Some f"
  proof -
    have "filter (\<lambda>b. b_filp b \<noteq> Some f) (owned h) = []" using all by (auto simp: owned_def filter_empty_conv)
    then have "owned (coalesce ?c) = []" using c oc [of h] by simp
    then have none: "b_filp b = None" if "b \<in> set (coalesce ?c)" for b using that by (auto simp: owned_def filter_empty_conv)
    have "tiled lo (coalesce ?c) hi" "merged (coalesce ?c)" using c by auto
    moreover have "cs = [\<lparr>b_start = lo, b_size = hi - lo, b_filp = None\<rparr>]"
      if "tiled lo cs hi" "merged cs" "\<And>b. b \<in> set cs \<Longrightarrow> b_filp b = None" for cs
    proof (cases cs)
      case Nil
      then show ?thesis using that(1) assms(2) by simp
    next
      case (Cons a as)
      then have "as = []" using that(2,3) by (cases as) auto
      with Cons that(1,3) show ?thesis by auto
    qed
    ultimately show ?thesis using none by blast
  qed
  from c oc [of h] one i show ?thesis by (auto simp: radeon_mem_release_def heap_inv_def)
qed

theorem radeon_mem_release_witness:
  "radeon_mem_release 4 (gart_heap sample_radeon) = Some [\<lparr>b_start = 0, b_size = 65536, b_filp = None\<rparr>]"
  using radeon_mem_release_correct [OF sample_heap_inv, of 4] by (auto simp: sample_radeon_def)

text \<open>
  The size of a request is not checked: a negative one is accepted and corrupts the heap. Here a request of
  -4096 bytes leaves a free block that starts inside the allocation of another file.
\<close>

theorem radeon_mem_alloc_negative_size:
  "case radeon_mem_alloc True True True 7 1 12 (- 4096) (Some sample_radeon) of
     (ret, off, Some d) \<Rightarrow> ret = 0 \<and>
       gart_heap d = Some [\<lparr>b_start = 0, b_size = 8192, b_filp = Some 4\<rparr>, \<lparr>b_start = 8192, b_size = -4096, b_filp = Some 7\<rparr>,
         \<lparr>b_start = 4096, b_size = 61440, b_filp = None\<rparr>]
   | _ \<Rightarrow> False"
  by (simp add: radeon_mem_alloc_def sample_radeon_def get_heap_def alloc_block_def align_start_def s32_def split_block_def
      split_tail_def Let_def)

end
