(* ===== verification/Drm_Lock.thy ===== *)
theory Drm_Lock
  imports Gfx_Prelude
begin

text \<open>
  The hardware lock that clients and the kernel share: \<^verbatim>\<open>uts/common/io/drm/drm_lock.c\<close>. The lock is one word
  in memory that user processes map: the top bit says that it is held, the next one that
  somebody waits for it, and the rest is the number of the context that holds or last held it. A loop around
  \<^verbatim>\<open>atomic_cmpset_int\<close> ends with one atomic update of the word, which is what the model does.
\<close>

unbundle bit_operations_syntax

section \<open>Model\<close>

type_synonym lockword = "32 word"

definition DRM_LOCK_HELD :: lockword where "DRM_LOCK_HELD = 0x80000000"
definition DRM_LOCK_CONT :: lockword where "DRM_LOCK_CONT = 0x40000000"
definition DRM_KERNEL_CONTEXT :: lockword where "DRM_KERNEL_CONTEXT = 0"

definition DRM_LOCK_IS_HELD :: "lockword \<Rightarrow> bool" where
  "DRM_LOCK_IS_HELD w \<longleftrightarrow> w AND DRM_LOCK_HELD \<noteq> 0"

definition DRM_LOCKING_CONTEXT :: "lockword \<Rightarrow> lockword" where
  "DRM_LOCKING_CONTEXT w = w AND NOT (DRM_LOCK_HELD OR DRM_LOCK_CONT)"

record drm_lock_data =
  hw_lock :: lockword
  lock_file :: "nat option"
  kernel_waiters :: lockword
  user_waiters :: lockword
  idle_has_lock :: bool

definition drm_lock_take :: "drm_lock_data \<Rightarrow> lockword \<Rightarrow> int \<times> drm_lock_data" where
  "drm_lock_take ld context =
     (let old = hw_lock ld;
          new = (if DRM_LOCK_IS_HELD old then old OR DRM_LOCK_CONT
                 else context OR DRM_LOCK_HELD OR
                      (if user_waiters ld + kernel_waiters ld > 1 then DRM_LOCK_CONT else 0));
          ld = ld\<lparr>hw_lock := new\<rparr>
      in if DRM_LOCKING_CONTEXT old = context \<and> DRM_LOCK_IS_HELD old then (0, ld)
         else if DRM_LOCKING_CONTEXT new = context \<and> DRM_LOCK_IS_HELD new then (1, ld)
         else (0, ld))"

definition drm_lock_transfer :: "drm_lock_data \<Rightarrow> lockword \<Rightarrow> int \<times> drm_lock_data" where
  "drm_lock_transfer ld context = (1, ld\<lparr>lock_file := None, hw_lock := context OR DRM_LOCK_HELD\<rparr>)"

text \<open>The second component tells whether the waiters are woken up.\<close>

definition drm_lock_free :: "drm_lock_data \<Rightarrow> lockword \<Rightarrow> int \<times> bool \<times> drm_lock_data" where
  "drm_lock_free ld context =
     (if kernel_waiters ld \<noteq> 0
      then (1, False, (snd (drm_lock_transfer ld 0))\<lparr>idle_has_lock := True\<rparr>)
      else (let old = hw_lock ld;
                ld = ld\<lparr>hw_lock := DRM_LOCKING_CONTEXT old\<rparr>
            in if DRM_LOCK_IS_HELD old \<and> DRM_LOCKING_CONTEXT old \<noteq> context then (1, False, ld)
               else (0, True, ld)))"

definition drm_idlelock_take :: "drm_lock_data \<Rightarrow> drm_lock_data" where
  "drm_idlelock_take ld =
     (let ld = ld\<lparr>kernel_waiters := kernel_waiters ld + 1\<rparr>
      in if \<not> idle_has_lock ld
         then (case drm_lock_take ld DRM_KERNEL_CONTEXT of
                 (ret, ld) \<Rightarrow> if ret = 1 then ld\<lparr>idle_has_lock := True\<rparr> else ld)
         else ld)"

definition drm_idlelock_release :: "drm_lock_data \<Rightarrow> bool \<times> drm_lock_data" where
  "drm_idlelock_release ld =
     (let ld = ld\<lparr>kernel_waiters := kernel_waiters ld - 1\<rparr>
      in if kernel_waiters ld = 0 \<and> idle_has_lock ld
         then (True, ld\<lparr>hw_lock := DRM_KERNEL_CONTEXT, idle_has_lock := False\<rparr>)
         else (False, ld))"

definition drm_i_have_hw_lock :: "nat \<Rightarrow> int \<Rightarrow> drm_lock_data option \<Rightarrow> bool" where
  "drm_i_have_hw_lock file lock_count lock =
     (case lock of None \<Rightarrow> False
      | Some ld \<Rightarrow> lock_count \<noteq> 0 \<and> DRM_LOCK_IS_HELD (hw_lock ld) \<and> lock_file ld = Some file)"

text \<open>
  The loop of \<^verbatim>\<open>drm_lock\<close>. Each element of \<open>waits\<close> is what one \<^verbatim>\<open>cv_wait_sig\<close> returns, 0 for a signal and a positive number for a
  wakeup, with the lock as others have left it by then. \<open>None\<close>: still waiting at the end of the list.
\<close>

fun lock_loop :: "(int \<times> drm_lock_data) list \<Rightarrow> lockword \<Rightarrow> nat \<Rightarrow> int \<Rightarrow> drm_lock_data \<Rightarrow> (int \<times> drm_lock_data) option" where
  "lock_loop waits context file ret ld =
     (case drm_lock_take ld context of (taken, ld') \<Rightarrow>
        if taken \<noteq> 0 then Some (ret, ld'\<lparr>lock_file := Some file\<rparr>)
        else (case waits of
                [] \<Rightarrow> None
              | (r, ld'') # rest \<Rightarrow>
                  if r = 0 then Some (- EINTR, ld'') else lock_loop rest context file r ld''))"

text \<open>
  The ioctl: \<open>dma_queue\<close> is the driver feature, \<open>quiescent\<close> the result of the driver's hook if the caller asked for it and the hook
  exists, \<open>lock_count\<close> the counter of the calling file, and the lock is \<open>None\<close> before the shared page with the lock word is mapped.
  The statistics and the time stamp are left out.
\<close>

definition drm_lock ::
  "bool \<Rightarrow> int option \<Rightarrow> (int \<times> drm_lock_data) list \<Rightarrow> int \<Rightarrow> nat \<Rightarrow> int \<Rightarrow> drm_lock_data option
     \<Rightarrow> (int \<times> int \<times> drm_lock_data option) option" where
  "drm_lock dma_queue quiescent waits context file lock_count lock =
     (let lock_count = lock_count + 1
      in if context = 0 then Some (- EINVAL, lock_count, lock)
         else (case lock of
                 None \<Rightarrow> Some (- EINVAL, lock_count, lock)
               | Some ld \<Rightarrow>
                   if dma_queue \<and> context < 0 then Some (- EINVAL, lock_count, lock)
                   else do {
                     (ret, ld) \<leftarrow> lock_loop waits (word_of_int context) file 0 (ld\<lparr>user_waiters := user_waiters ld + 1\<rparr>);
                     let ld = ld\<lparr>user_waiters := user_waiters ld - 1\<rparr>;
                     if ret \<noteq> 0 then Some (ret, lock_count, Some ld)
                     else (case quiescent of
                             Some q \<Rightarrow> if q \<noteq> 0 then Some (- EBUSY, lock_count, Some ld) else Some (0, lock_count, Some ld)
                           | None \<Rightarrow> Some (0, lock_count, Some ld)) }))"

text \<open>
  The other ioctl does not check for a missing lock word: \<open>None\<close> is the fault of reading through the null pointer. \<^verbatim>\<open>drm_lock_free\<close> reads
  the word on both of its paths.
\<close>

definition drm_unlock :: "int \<Rightarrow> drm_lock_data option \<Rightarrow> (int \<times> bool \<times> drm_lock_data option) option" where
  "drm_unlock context lock =
     (if context = 0 then Some (- EINVAL, False, lock)
      else do {
        ld \<leftarrow> lock;
        let (_, wake, ld) = drm_lock_free ld (word_of_int context);
        Some (0, wake, Some ld) })"

section \<open>The word\<close>

text \<open>Who holds the lock, and what a plain context number is.\<close>

definition holder :: "drm_lock_data \<Rightarrow> lockword option" where
  "holder ld = (if DRM_LOCK_IS_HELD (hw_lock ld) then Some (DRM_LOCKING_CONTEXT (hw_lock ld)) else None)"

definition plain_context :: "lockword \<Rightarrow> bool" where
  "plain_context c \<longleftrightarrow> c AND (DRM_LOCK_HELD OR DRM_LOCK_CONT) = 0"

lemma bit_flags:
  "bit DRM_LOCK_HELD n \<longleftrightarrow> n = 31" "bit DRM_LOCK_CONT n \<longleftrightarrow> n = 30"
proof -
  have e: "DRM_LOCK_HELD = 2 ^ 31" "DRM_LOCK_CONT = 2 ^ 30" by (simp_all add: DRM_LOCK_HELD_def DRM_LOCK_CONT_def)
  show "bit DRM_LOCK_HELD n \<longleftrightarrow> n = 31" "bit DRM_LOCK_CONT n \<longleftrightarrow> n = 30"
    unfolding e bit_exp_iff by (auto simp: possible_bit_word)
qed

lemma held_bit: "DRM_LOCK_IS_HELD w \<longleftrightarrow> bit w 31"
  unfolding DRM_LOCK_IS_HELD_def bit_eq_iff by (auto simp: bit_and_iff bit_flags)

lemma context_bit: "bit (DRM_LOCKING_CONTEXT w) n \<longleftrightarrow> bit w n \<and> n \<noteq> 31 \<and> n \<noteq> 30"
  by (auto simp: DRM_LOCKING_CONTEXT_def bit_and_iff bit_not_iff bit_or_iff bit_flags possible_bit_word dest: bit_imp_le_length)

lemma plain_bits: "plain_context c \<longleftrightarrow> \<not> bit c 31 \<and> \<not> bit c 30"
proof
  assume p: "plain_context c"
  have "bit (c AND (DRM_LOCK_HELD OR DRM_LOCK_CONT)) n = False" for n using p by (simp add: plain_context_def)
  from this [of 31] this [of 30] show "\<not> bit c 31 \<and> \<not> bit c 30" by (simp add: bit_and_iff bit_or_iff bit_flags)
next
  assume p: "\<not> bit c 31 \<and> \<not> bit c 30"
  show "plain_context c" unfolding plain_context_def
    by (rule bit_word_eqI) (use p in \<open>auto simp: bit_and_iff bit_or_iff bit_flags\<close>)
qed

lemma context_of_set:
  "DRM_LOCKING_CONTEXT (w OR DRM_LOCK_CONT) = DRM_LOCKING_CONTEXT w"
  "DRM_LOCKING_CONTEXT (w OR DRM_LOCK_HELD) = DRM_LOCKING_CONTEXT w"
  "DRM_LOCKING_CONTEXT (DRM_LOCKING_CONTEXT w) = DRM_LOCKING_CONTEXT w"
  "plain_context (DRM_LOCKING_CONTEXT w)"
proof -
  show "DRM_LOCKING_CONTEXT (w OR DRM_LOCK_CONT) = DRM_LOCKING_CONTEXT w"
    by (rule bit_word_eqI) (auto simp: context_bit bit_or_iff bit_flags)
  show "DRM_LOCKING_CONTEXT (w OR DRM_LOCK_HELD) = DRM_LOCKING_CONTEXT w"
    by (rule bit_word_eqI) (auto simp: context_bit bit_or_iff bit_flags)
  show "DRM_LOCKING_CONTEXT (DRM_LOCKING_CONTEXT w) = DRM_LOCKING_CONTEXT w"
    by (rule bit_word_eqI) (auto simp: context_bit)
qed (simp add: plain_bits context_bit)

lemma context_of_plain: "plain_context c \<longleftrightarrow> DRM_LOCKING_CONTEXT c = c"
proof
  assume "plain_context c"
  then show "DRM_LOCKING_CONTEXT c = c" unfolding plain_bits by (intro bit_word_eqI) (auto simp: context_bit)
qed (metis context_of_set(4))

lemma held_set:
  "DRM_LOCK_IS_HELD (w OR DRM_LOCK_CONT) = DRM_LOCK_IS_HELD w" "DRM_LOCK_IS_HELD (w OR DRM_LOCK_HELD)"
  "\<not> DRM_LOCK_IS_HELD (DRM_LOCKING_CONTEXT w)" "\<not> DRM_LOCK_IS_HELD 0" "plain_context 0"
  by (auto simp: held_bit bit_or_iff bit_flags context_bit plain_bits)

section \<open>The operations\<close>

text \<open>A lock that is free goes to whoever asks; a lock that is held stays with its holder and is marked contended.\<close>

lemma take_free:
  assumes "holder ld = None" "plain_context c"
  shows "\<exists>ld'. drm_lock_take ld c = (1, ld') \<and> holder ld' = Some c \<and> kernel_waiters ld' = kernel_waiters ld \<and>
    idle_has_lock ld' = idle_has_lock ld \<and> lock_file ld' = lock_file ld \<and> user_waiters ld' = user_waiters ld"
proof -
  define w where "w = c OR DRM_LOCK_HELD OR (if user_waiters ld + kernel_waiters ld > 1 then DRM_LOCK_CONT else 0)"
  have "DRM_LOCK_IS_HELD w" by (auto simp: w_def held_bit bit_or_iff bit_flags)
  moreover have "DRM_LOCKING_CONTEXT w = c"
    using assms(2) unfolding plain_bits w_def by (intro bit_word_eqI) (auto simp: context_bit bit_or_iff bit_flags)
  ultimately show ?thesis
    using assms by (auto simp: drm_lock_take_def Let_def holder_def w_def [symmetric] split: if_splits)
qed

lemma take_held:
  assumes "holder ld = Some d"
  shows "drm_lock_take ld c = (0, ld\<lparr>hw_lock := hw_lock ld OR DRM_LOCK_CONT\<rparr>)"
    "holder (ld\<lparr>hw_lock := hw_lock ld OR DRM_LOCK_CONT\<rparr>) = Some d"
  using assms by (auto simp: drm_lock_take_def Let_def holder_def context_of_set held_set split: if_splits)

lemma free_result:
  assumes "holder ld = Some c"
  shows "drm_lock_free ld c = (if kernel_waiters ld \<noteq> 0
      then (1, False, ld\<lparr>lock_file := None, hw_lock := DRM_LOCK_HELD, idle_has_lock := True\<rparr>)
      else (0, True, ld\<lparr>hw_lock := DRM_LOCKING_CONTEXT (hw_lock ld)\<rparr>))"
  using assms by (auto simp: drm_lock_free_def drm_lock_transfer_def Let_def holder_def split: if_splits)

lemma holder_words: "holder (ld\<lparr>hw_lock := DRM_LOCK_HELD\<rparr>) = Some 0" "holder (ld\<lparr>hw_lock := DRM_LOCKING_CONTEXT w\<rparr>) = None"
  "holder (ld\<lparr>hw_lock := DRM_KERNEL_CONTEXT\<rparr>) = None"
proof -
  have "DRM_LOCKING_CONTEXT DRM_LOCK_HELD = 0" by (rule bit_word_eqI) (auto simp: context_bit bit_flags)
  then show "holder (ld\<lparr>hw_lock := DRM_LOCK_HELD\<rparr>) = Some 0" by (simp add: holder_def held_bit bit_flags)
qed (simp_all add: holder_def held_set DRM_KERNEL_CONTEXT_def)

lemma holder_cong: "hw_lock ld' = hw_lock ld \<Longrightarrow> holder ld' = holder ld"
  by (simp add: holder_def)

section \<open>Steps\<close>

text \<open>
  What users and the kernel do to the lock when they follow the protocol: they use plain context numbers, only the
  holder frees the lock, and the kernel releases the idle lock as often as it took it.
\<close>

inductive lock_step :: "drm_lock_data \<Rightarrow> drm_lock_data \<Rightarrow> bool" where
  user_take: "plain_context c \<Longrightarrow> c \<noteq> 0 \<Longrightarrow> lock_step ld (snd (drm_lock_take ld c))"
| user_free: "holder ld = Some c \<Longrightarrow> c \<noteq> 0 \<Longrightarrow> lock_step ld (snd (snd (drm_lock_free ld c)))"
| user_wait: "lock_step ld (ld\<lparr>user_waiters := n\<rparr>)"
| user_own: "lock_step ld (ld\<lparr>lock_file := f\<rparr>)"
| idle_take: "kernel_waiters ld \<noteq> - 1 \<Longrightarrow> lock_step ld (drm_idlelock_take ld)"
| idle_release: "kernel_waiters ld \<noteq> 0 \<Longrightarrow> lock_step ld (snd (drm_idlelock_release ld))"

inductive_cases lock_stepE: "lock_step ld ld'"

text \<open>The lock as a client sees it: free, or with a holder; the kernel is the context 0.\<close>

inductive holder_step :: "lockword option \<Rightarrow> lockword option \<Rightarrow> bool" where
  stays: "holder_step h h"
| acquired: "holder_step None (Some c)"
| released: "holder_step (Some c) None"
| handed_over: "holder_step (Some c) (Some 0)"

definition lock_ok :: "drm_lock_data \<Rightarrow> bool" where
  "lock_ok ld \<longleftrightarrow> (idle_has_lock ld \<longleftrightarrow> holder ld = Some 0) \<and> (idle_has_lock ld \<longrightarrow> kernel_waiters ld \<noteq> 0)"

lemma take_step:
  assumes "lock_ok ld" "plain_context c" "c \<noteq> 0"
  shows "lock_ok (snd (drm_lock_take ld c)) \<and> holder_step (holder ld) (holder (snd (drm_lock_take ld c)))"
proof (cases "holder ld")
  case None
  with take_free [OF None assms(2)] assms show ?thesis by (auto simp: lock_ok_def intro: holder_step.intros)
next
  case (Some d)
  with take_held(1) [OF Some, of c] take_held(2) [OF Some] assms show ?thesis by (auto simp: lock_ok_def intro: holder_step.intros)
qed

lemma free_step:
  assumes "lock_ok ld" "holder ld = Some c" "c \<noteq> 0"
  shows "lock_ok (snd (snd (drm_lock_free ld c))) \<and> holder_step (holder ld) (holder (snd (snd (drm_lock_free ld c))))"
proof (cases "kernel_waiters ld = 0")
  case True
  with assms free_result [OF assms(2)] show ?thesis by (auto simp: lock_ok_def holder_words intro: holder_step.intros)
next
  case False
  have "holder (ld\<lparr>lock_file := None, hw_lock := DRM_LOCK_HELD, idle_has_lock := True\<rparr>) = Some 0"
    using holder_words(1) [of ld]
      holder_cong [of "ld\<lparr>lock_file := None, hw_lock := DRM_LOCK_HELD, idle_has_lock := True\<rparr>" "ld\<lparr>hw_lock := DRM_LOCK_HELD\<rparr>"] by simp
  with False assms free_result [OF assms(2)] show ?thesis by (auto simp: lock_ok_def intro: holder_step.intros)
qed

lemma idle_take_step:
  assumes "lock_ok ld" "kernel_waiters ld \<noteq> - 1"
  shows "lock_ok (drm_idlelock_take ld) \<and> holder_step (holder ld) (holder (drm_idlelock_take ld))"
proof -
  let ?ld = "ld\<lparr>kernel_waiters := kernel_waiters ld + 1\<rparr>"
  have k: "kernel_waiters ld + 1 \<noteq> 0" using assms(2) by (metis add.commute add_eq_0_iff)
  have h: "holder ?ld = holder ld" by (simp add: holder_def)
  show ?thesis
  proof (cases "idle_has_lock ld")
    case True
    with assms(1) k h show ?thesis by (auto simp: drm_idlelock_take_def lock_ok_def intro: holder_step.intros)
  next
    case False
    show ?thesis
    proof (cases "holder ld")
      case None
      obtain l where l: "drm_lock_take ?ld 0 = (1, l)" "holder l = Some 0" "kernel_waiters l = kernel_waiters ld + 1"
        using take_free [of ?ld 0] None h held_set(5) by auto
      have "holder (l\<lparr>idle_has_lock := True\<rparr>) = Some 0" using l(2) holder_cong [of "l\<lparr>idle_has_lock := True\<rparr>" l] by simp
      with l k None False show ?thesis
        by (auto simp: drm_idlelock_take_def DRM_KERNEL_CONTEXT_def lock_ok_def intro: holder_step.intros)
    next
      case (Some d)
      have "d \<noteq> 0" using assms(1) False Some by (auto simp: lock_ok_def)
      with take_held(1) [of ?ld d 0] take_held(2) [of ?ld d] Some h False assms(1) k show ?thesis
        by (auto simp: drm_idlelock_take_def DRM_KERNEL_CONTEXT_def lock_ok_def intro: holder_step.intros)
    qed
  qed
qed

lemma idle_release_step:
  assumes "lock_ok ld" "kernel_waiters ld \<noteq> 0"
  shows "lock_ok (snd (drm_idlelock_release ld)) \<and> holder_step (holder ld) (holder (snd (drm_idlelock_release ld)))"
proof (cases "kernel_waiters ld - 1 = 0 \<and> idle_has_lock ld")
  case True
  then have "snd (drm_idlelock_release ld) = ld\<lparr>kernel_waiters := 0, hw_lock := DRM_KERNEL_CONTEXT, idle_has_lock := False\<rparr>"
    by (simp add: drm_idlelock_release_def)
  moreover have "holder (ld\<lparr>kernel_waiters := 0, hw_lock := DRM_KERNEL_CONTEXT, idle_has_lock := False\<rparr>) = None"
    by (simp add: holder_def held_set DRM_KERNEL_CONTEXT_def)
  ultimately show ?thesis using assms(1) True by (auto simp: lock_ok_def intro: holder_step.intros)
next
  case False
  then have r: "snd (drm_idlelock_release ld) = ld\<lparr>kernel_waiters := kernel_waiters ld - 1\<rparr>"
    by (auto simp: drm_idlelock_release_def)
  moreover have "holder (ld\<lparr>kernel_waiters := kernel_waiters ld - 1\<rparr>) = holder ld" by (simp add: holder_def)
  ultimately show ?thesis using assms(1) False by (auto simp: lock_ok_def intro: holder_step.intros)
qed

lemma lock_step_sim:
  assumes "lock_step ld ld'" "lock_ok ld"
  shows "lock_ok ld' \<and> holder_step (holder ld) (holder ld')"
  using assms(1)
proof (cases rule: lock_step.cases)
  case (user_wait n)
  then show ?thesis using assms(2) by (auto simp: lock_ok_def holder_def intro: holder_step.intros)
next
  case (user_own f)
  then show ?thesis using assms(2) by (auto simp: lock_ok_def holder_def intro: holder_step.intros)
qed (use assms(2) take_step free_step idle_take_step idle_release_step in auto)

lemma lock_steps_ok: "lock_step\<^sup>*\<^sup>* ld ld' \<Longrightarrow> lock_ok ld \<Longrightarrow> lock_ok ld'"
  by (induction rule: rtranclp_induct) (auto dest: lock_step_sim)

inductive_simps holder_step_simps: "holder_step (Some c) h"

lemma kernel_next:
  assumes "lock_step ld ld'" "lock_ok ld" "holder ld = Some c" "c \<noteq> 0" "kernel_waiters ld \<noteq> 0" "holder ld' \<noteq> Some c"
  shows "holder ld' = Some 0 \<and> idle_has_lock ld'"
  using assms(1)
proof (cases rule: lock_step.cases)
  case (user_take e)
  then show ?thesis using assms(3,6) take_held [OF assms(3)] by auto
next
  case (user_free e)
  have "holder (ld\<lparr>lock_file := None, hw_lock := DRM_LOCK_HELD, idle_has_lock := True\<rparr>) = Some 0"
    using holder_words(1) [of ld]
      holder_cong [of "ld\<lparr>lock_file := None, hw_lock := DRM_LOCK_HELD, idle_has_lock := True\<rparr>" "ld\<lparr>hw_lock := DRM_LOCK_HELD\<rparr>"] by simp
  then show ?thesis using user_free(1) free_result [OF user_free(2)] assms(5) by simp
next
  case idle_take
  then show ?thesis
    using idle_take_step [OF assms(2)] assms(2-6) take_held [of "ld\<lparr>kernel_waiters := kernel_waiters ld + 1\<rparr>" c]
    by (auto simp: drm_idlelock_take_def holder_step_simps lock_ok_def holder_def split: if_splits)
next
  case idle_release
  then have "\<not> idle_has_lock ld" using assms(2-4) by (auto simp: lock_ok_def)
  then show ?thesis using idle_release assms(3,6) by (auto simp: drm_idlelock_release_def holder_def Let_def split: if_splits)
qed (use assms(3,6) in \<open>auto simp: holder_def split: if_splits\<close>)

section \<open>Properties\<close>

text \<open>
  C6: Mutual exclusion of the hardware lock. From a consistent state, after any sequence of protocol steps, the next step
  never moves the lock from one client to another client: a client that holds it keeps it, or the lock becomes free, or it
  goes to the kernel; and when the kernel waits for the lock it is the kernel that gets it next, whoever else asks.
\<close>

theorem drm_lock_mutual_exclusion:
  assumes "lock_ok ld0" "lock_step\<^sup>*\<^sup>* ld0 ld" "lock_step ld ld'"
  shows "lock_ok ld' \<and>
    (\<forall>c. holder ld = Some c \<and> c \<noteq> 0 \<longrightarrow> holder ld' \<in> {Some c, None, Some 0} \<and>
      (kernel_waiters ld \<noteq> 0 \<longrightarrow> holder ld' \<in> {Some c, Some 0})) \<and>
    (idle_has_lock ld' \<longleftrightarrow> holder ld' = Some 0)"
proof -
  note ok = lock_steps_ok [OF assms(2,1)]
  note sim = lock_step_sim [OF assms(3) ok]
  moreover have "holder ld' \<in> {Some c, None, Some 0} \<and> (kernel_waiters ld \<noteq> 0 \<longrightarrow> holder ld' \<in> {Some c, Some 0})"
    if "holder ld = Some c" "c \<noteq> 0" for c
    using sim kernel_next [OF assms(3) ok that] that by (auto simp: holder_step_simps)
  ultimately show ?thesis by (auto simp: lock_ok_def)
qed

definition free_lock :: drm_lock_data where
  "free_lock = \<lparr>hw_lock = 0, lock_file = None, kernel_waiters = 0, user_waiters = 0, idle_has_lock = False\<rparr>"

lemma free_lock_free: "holder free_lock = None" "lock_ok free_lock"
  by (simp_all add: free_lock_def lock_ok_def holder_def held_set)

theorem drm_lock_mutual_exclusion_witness:
  "let a = snd (drm_lock_take free_lock 5); b = drm_idlelock_take a; c = snd (snd (drm_lock_free b 5))
   in holder b = Some 5 \<and> kernel_waiters b \<noteq> 0 \<and> holder c = Some 0 \<and> lock_ok c"
proof -
  define a where "a = snd (drm_lock_take free_lock 5)"
  define b where "b = drm_idlelock_take a"
  define c where "c = snd (snd (drm_lock_free b 5))"
  have p: "plain_context (5 :: lockword)" by (simp add: plain_context_def DRM_LOCK_HELD_def DRM_LOCK_CONT_def)
  have a: "a = free_lock\<lparr>hw_lock := 0x80000005\<rparr>"
    by (simp add: a_def drm_lock_take_def free_lock_def DRM_LOCK_IS_HELD_def DRM_LOCK_HELD_def DRM_LOCK_CONT_def DRM_LOCKING_CONTEXT_def)
  have b: "b = free_lock\<lparr>hw_lock := 0xC0000005, kernel_waiters := 1\<rparr>"
    by (simp add: b_def a drm_idlelock_take_def drm_lock_take_def free_lock_def DRM_LOCK_IS_HELD_def DRM_LOCK_HELD_def DRM_LOCK_CONT_def
        DRM_LOCKING_CONTEXT_def DRM_KERNEL_CONTEXT_def)
  have hb: "holder b = Some 5"
    by (simp add: b holder_def DRM_LOCK_IS_HELD_def DRM_LOCK_HELD_def DRM_LOCK_CONT_def DRM_LOCKING_CONTEXT_def)
  have s1: "lock_step free_lock a" unfolding a_def by (rule user_take) (use p in auto)
  have s2: "lock_step a b" unfolding b_def by (rule idle_take) (simp add: a free_lock_def)
  have s3: "lock_step b c" unfolding c_def by (rule user_free) (use hb in auto)
  have "lock_step\<^sup>*\<^sup>* free_lock b" using s1 s2 by (meson rtranclp.rtrancl_into_rtrancl rtranclp.rtrancl_refl)
  moreover have "kernel_waiters b \<noteq> 0" by (simp add: b)
  ultimately have "holder c \<in> {Some 5, Some 0} \<and> lock_ok c"
    using drm_lock_mutual_exclusion [OF free_lock_free(2) _ s3] hb by simp
  moreover have "holder c \<noteq> Some 5"
    by (simp add: c_def b drm_lock_free_def drm_lock_transfer_def free_lock_def holder_def DRM_LOCK_IS_HELD_def DRM_LOCK_HELD_def
        DRM_LOCK_CONT_def DRM_LOCKING_CONTEXT_def)
  ultimately show ?thesis using hb by (auto simp: Let_def a_def [symmetric] b_def [symmetric] c_def [symmetric]) (simp add: b)
qed

text \<open>The three outcomes of the lock ioctl when the lock word is there and the arguments are accepted.\<close>

lemma drm_lock_outcomes:
  assumes "plain_context (word_of_int context)" "context \<noteq> 0" "dma_queue \<longrightarrow> context > 0"
  shows "holder ld = None \<Longrightarrow> \<exists>ld'. holder ld' = Some (word_of_int context) \<and> lock_file ld' = Some file \<and> user_waiters ld' = user_waiters ld \<and>
      drm_lock dma_queue quiescent waits context file n (Some ld) =
        Some (if quiescent \<in> {None, Some 0} then 0 else - EBUSY, n + 1, Some ld')"
    "holder ld = Some d \<Longrightarrow> drm_lock dma_queue quiescent ((0, ld1) # waits) context file n (Some ld) =
        Some (- EINTR, n + 1, Some (ld1\<lparr>user_waiters := user_waiters ld1 - 1\<rparr>))"
    "holder ld = Some d \<Longrightarrow> holder ld1 = None \<Longrightarrow> r > 0 \<Longrightarrow>
      \<exists>ld'. holder ld' = Some (word_of_int context) \<and> lock_file ld' = Some file \<and>
        drm_lock dma_queue quiescent ((r, ld1) # waits) context file n (Some ld) = Some (r, n + 1, Some ld')"
proof -
  let ?c = "word_of_int context :: lockword"
  let ?w = "\<lambda>l. l\<lparr>user_waiters := user_waiters l + 1\<rparr>"
  have hw: "holder (l\<lparr>user_waiters := m\<rparr>) = holder l" "holder (l\<lparr>lock_file := g\<rparr>) = holder l" for l m g by (simp_all add: holder_def)
  {
    assume "holder ld = None"
    then obtain l where "drm_lock_take (?w ld) ?c = (1, l)" "holder l = Some ?c" "user_waiters l = user_waiters ld + 1"
      using take_free [of "?w ld" ?c] assms(1) hw by auto
    then show "\<exists>ld'. holder ld' = Some ?c \<and> lock_file ld' = Some file \<and> user_waiters ld' = user_waiters ld \<and>
        drm_lock dma_queue quiescent waits context file n (Some ld) = Some (if quiescent \<in> {None, Some 0} then 0 else - EBUSY, n + 1, Some ld')"
      using assms(2,3) by (intro exI [of _ "l\<lparr>lock_file := Some file, user_waiters := user_waiters ld\<rparr>"])
        (auto simp: drm_lock_def hw Let_def split: option.splits)
  next
    assume "holder ld = Some d"
    then have t: "fst (drm_lock_take (?w ld) ?c) = 0" using take_held(1) [of "?w ld" d ?c] hw by simp
    then show "drm_lock dma_queue quiescent ((0, ld1) # waits) context file n (Some ld) =
        Some (- EINTR, n + 1, Some (ld1\<lparr>user_waiters := user_waiters ld1 - 1\<rparr>))"
      using assms(2,3) by (auto simp: drm_lock_def case_prod_unfold EINTR_def)
    assume "holder ld1 = None" "r > 0"
    then obtain l where "drm_lock_take ld1 ?c = (1, l)" "holder l = Some ?c" using take_free [of ld1 ?c] assms(1) by auto
    with t \<open>r > 0\<close> show "\<exists>ld'. holder ld' = Some ?c \<and> lock_file ld' = Some file \<and>
        drm_lock dma_queue quiescent ((r, ld1) # waits) context file n (Some ld) = Some (r, n + 1, Some ld')"
      using assms(2,3) by (intro exI [of _ "l\<lparr>lock_file := Some file, user_waiters := user_waiters l - 1\<rparr>"])
        (auto simp: drm_lock_def hw case_prod_unfold)
  }
qed

text \<open>
  The lock ioctl. With the lock free and a plain context number, it returns at once, the caller's context holds
  the lock and the caller's file is recorded as the owner; the answer is 0, or -EBUSY when the engine does not become quiescent. With the lock held it
  waits: a signal gives -EINTR and leaves the lock as it is but for the count of waiters, and a wakeup that finds the lock free takes it but gives the positive number that the
  wait returned, so that the caller sees a failure although it holds the lock.
\<close>

theorem drm_lock_correct:
  assumes "plain_context (word_of_int context)" "context \<noteq> 0" "dma_queue \<longrightarrow> context > 0"
  shows "(holder ld = None \<longrightarrow> (\<exists>ld'. holder ld' = Some (word_of_int context) \<and> lock_file ld' = Some file \<and> user_waiters ld' = user_waiters ld \<and>
      drm_lock dma_queue quiescent waits context file n (Some ld) =
        Some (if quiescent \<in> {None, Some 0} then 0 else - EBUSY, n + 1, Some ld'))) \<and>
    (holder ld \<noteq> None \<longrightarrow> drm_lock dma_queue quiescent ((0, ld1) # waits) context file n (Some ld) =
        Some (- EINTR, n + 1, Some (ld1\<lparr>user_waiters := user_waiters ld1 - 1\<rparr>))) \<and>
    (holder ld \<noteq> None \<and> holder ld1 = None \<and> r > 0 \<longrightarrow>
      (\<exists>ld'. holder ld' = Some (word_of_int context) \<and> lock_file ld' = Some file \<and>
        drm_lock dma_queue quiescent ((r, ld1) # waits) context file n (Some ld) = Some (r, n + 1, Some ld')))"
proof (cases "holder ld")
  case None
  then show ?thesis using drm_lock_outcomes(1) [OF assms None] by simp
next
  case (Some d)
  then show ?thesis using drm_lock_outcomes(2,3) [OF assms Some] by auto
qed

theorem drm_lock_witness:
  "\<exists>ld'. holder ld' = Some 5 \<and> lock_file ld' = Some 9 \<and>
     drm_lock True None [(1, free_lock)] 5 9 0 (Some (free_lock\<lparr>hw_lock := 0x80000007\<rparr>)) = Some (1, 1, Some ld')"
proof -
  have "holder (free_lock\<lparr>hw_lock := 0x80000007\<rparr>) = Some 7"
    by (simp add: holder_def DRM_LOCK_IS_HELD_def DRM_LOCK_HELD_def DRM_LOCK_CONT_def DRM_LOCKING_CONTEXT_def)
  then show ?thesis
    using drm_lock_correct [of 5 True "free_lock\<lparr>hw_lock := 0x80000007\<rparr>" 9 None "[]" 0 free_lock 1] free_lock_free
    by (simp add: plain_context_def DRM_LOCK_HELD_def DRM_LOCK_CONT_def)
qed

text \<open>
  A context number with one of the two flag bits wedges the lock. Taking a free lock with such a number marks it as held
  and yet reports that it was not taken, so that nobody owns it; every later attempt, by any context, then fails.
\<close>

theorem drm_lock_flagged_context_wedges:
  assumes "holder ld = None" "\<not> plain_context c"
  shows "fst (drm_lock_take ld c) = 0 \<and> holder (snd (drm_lock_take ld c)) \<noteq> None \<and>
    (\<forall>d. fst (drm_lock_take (snd (drm_lock_take ld c)) d) = 0)"
proof -
  define w where "w = c OR DRM_LOCK_HELD OR (if user_waiters ld + kernel_waiters ld > 1 then DRM_LOCK_CONT else 0)"
  have h: "DRM_LOCK_IS_HELD w" by (auto simp: w_def held_bit bit_or_iff bit_flags)
  moreover have "DRM_LOCKING_CONTEXT w \<noteq> c" using assms(2) context_of_set(4) by metis
  ultimately have t: "drm_lock_take ld c = (0, ld\<lparr>hw_lock := w\<rparr>)"
    using assms by (auto simp: drm_lock_take_def Let_def holder_def w_def [symmetric] split: if_splits)
  moreover have hd: "holder (ld\<lparr>hw_lock := w\<rparr>) = Some (DRM_LOCKING_CONTEXT w)" using h by (simp add: holder_def)
  ultimately show ?thesis using take_held(1) [OF hd] by simp
qed

theorem drm_lock_flagged_context_witness:
  "fst (drm_lock_take free_lock 0x40000001) = 0 \<and> holder (snd (drm_lock_take free_lock 0x40000001)) \<noteq> None \<and>
   fst (drm_lock_take (snd (drm_lock_take free_lock 0x40000001)) 3) = 0"
  using drm_lock_flagged_context_wedges [of free_lock "0x40000001"] free_lock_free
  by (simp add: plain_context_def DRM_LOCK_HELD_def DRM_LOCK_CONT_def)

text \<open>
  Freeing the lock leaves the record of the owner in place. When the kernel then takes the idle lock, the file that owned
  the lock before still passes the check for owning it.
\<close>

theorem drm_i_have_hw_lock_stale_owner:
  "let a = drm_idlelock_take (snd (snd (drm_lock_free (free_lock\<lparr>hw_lock := 0x80000005, lock_file := Some 9\<rparr>) 5)))
   in holder a = Some 0 \<and> drm_i_have_hw_lock 9 1 (Some a)"
  by (simp add: drm_lock_free_def drm_idlelock_take_def drm_lock_take_def free_lock_def DRM_LOCK_IS_HELD_def DRM_LOCK_HELD_def DRM_LOCK_CONT_def
      DRM_LOCKING_CONTEXT_def DRM_KERNEL_CONTEXT_def drm_i_have_hw_lock_def holder_def)

text \<open>The unlock ioctl reads through a null pointer when there is no lock word yet, where the lock ioctl returns an error.\<close>

theorem drm_unlock_without_lock_faults:
  assumes "context \<noteq> 0"
  shows "drm_unlock context None = None \<and> drm_lock dq q waits context file n None = Some (- EINVAL, n + 1, None)"
  using assms by (simp add: drm_unlock_def drm_lock_def)

theorem drm_unlock_without_lock_witness: "drm_unlock 5 None = None \<and> drm_lock False None [] 5 0 0 None = Some (- EINVAL, 1, None)"
  using drm_unlock_without_lock_faults [of 5 False None "[]" 0 0] by simp

end
