(* ===== verification/Drm_Auth.thy ===== *)
theory Drm_Auth
  imports Gfx_Prelude
begin

text \<open>
  Who may do what: the dispatch of the ioctls in \<^verbatim>\<open>drm_ioctl\<close> of \<^verbatim>\<open>uts/common/io/drm/drm_drv.c\<close>, with its checks of
  permissions and the copying of the argument, and the authentication tokens of \<^verbatim>\<open>uts/common/io/drm/drm_auth.c\<close> through which a master
  vouches for the files of its clients.

  A bucket of the token table, a chain with a pointer to its first and its last entry, is the list of its entries.
\<close>

unbundle bit_operations_syntax

section \<open>Dispatch\<close>

definition DRM_AUTH :: u32w where "DRM_AUTH = 0x1"
definition DRM_MASTER :: u32w where "DRM_MASTER = 0x2"
definition DRM_ROOT_ONLY :: u32w where "DRM_ROOT_ONLY = 0x4"
definition DRM_CONTROL_ALLOW :: u32w where "DRM_CONTROL_ALLOW = 0x8"
definition DRM_COMMAND_BASE :: nat where "DRM_COMMAND_BASE = 0x40"
definition DRM_COMMAND_END :: nat where "DRM_COMMAND_END = 0xA0"
definition DRM_IOCTL_DMA_NR :: nat where "DRM_IOCTL_DMA_NR = 0x29"

text \<open>An entry of an ioctl table: the command's size and direction bits, the required rights, and the handler.\<close>

record 's drm_ioctl_desc =
  ioc_size :: nat
  ioc_in :: bool
  ioc_out :: bool
  ioctl_flags :: u32w
  ioctl_func :: "('s \<Rightarrow> int \<times> 's) option"

text \<open>
  What the call finds around it: the caller's credentials, the file and minor it uses, whether the kernel has memory for
  the argument, and whether the user's addresses are readable and writable.
\<close>

record ioctl_env =
  suser :: bool
  file_authenticated :: bool
  file_is_master :: bool
  minor_control :: bool
  alloc_ok :: bool
  copyin_ok :: bool
  copyout_ok :: bool

definition denied :: "u32w \<Rightarrow> ioctl_env \<Rightarrow> bool" where
  "denied flags env \<longleftrightarrow>
     flags AND DRM_ROOT_ONLY \<noteq> 0 \<and> \<not> suser env \<or>
     flags AND DRM_AUTH \<noteq> 0 \<and> \<not> file_authenticated env \<or>
     flags AND DRM_MASTER \<noteq> 0 \<and> \<not> file_is_master env \<or>
     flags AND DRM_CONTROL_ALLOW = 0 \<and> minor_control env"

text \<open>
  The argument is copied into the 128 bytes on the stack, or into an allocated buffer of \<open>asize\<close> bytes. Copying more than
  the buffer holds overwrites other memory: \<open>None\<close>.
\<close>

definition stack_kdata :: nat where "stack_kdata = 128"

definition copy_and_call :: "ioctl_env \<Rightarrow> nat \<Rightarrow> 's drm_ioctl_desc \<Rightarrow> ('s \<Rightarrow> int \<times> 's) \<Rightarrow> 's \<Rightarrow> (int \<times> 's) option" where
  "copy_and_call env asize ioctl func s =
     (let buf = max asize stack_kdata
      in if (ioc_in ioctl \<or> ioc_out ioctl) \<and> asize > stack_kdata \<and> \<not> alloc_ok env then Some (- ENOMEM, s)
         else if ioc_in ioctl \<and> ioc_size ioctl > buf \<and> copyin_ok env then None
         else if ioc_in ioctl \<and> \<not> copyin_ok env then Some (- EFAULT, s)
         else (case func s of (retcode, s) \<Rightarrow>
                 if ioc_out ioctl \<and> ioc_size ioctl > buf \<and> copyout_ok env then None
                 else if ioc_out ioctl \<and> \<not> copyout_ok env then Some (- EFAULT, s)
                 else Some (retcode, s)))"

definition drm_ioctl ::
  "'s drm_ioctl_desc list \<Rightarrow> 's drm_ioctl_desc list \<Rightarrow> ('s \<Rightarrow> int \<times> 's) option \<Rightarrow> ioctl_env \<Rightarrow> nat \<Rightarrow> nat \<Rightarrow> 's
     \<Rightarrow> (int \<times> 's) option" where
  "drm_ioctl core drv dma_ioctl env nr cmd_size s =
     (if nr \<ge> length core \<and> (nr < DRM_COMMAND_BASE \<or> nr \<ge> DRM_COMMAND_END) then Some (- EINVAL, s)
      else (case (if DRM_COMMAND_BASE \<le> nr \<and> nr < DRM_COMMAND_END \<and> nr < DRM_COMMAND_BASE + length drv
                  then Some (drv ! (nr - DRM_COMMAND_BASE), cmd_size)
                  else if nr \<ge> DRM_COMMAND_END \<or> nr < DRM_COMMAND_BASE
                  then Some (core ! nr, ioc_size (core ! nr))
                  else None) of
              None \<Rightarrow> Some (- EINVAL, s)
            | Some (ioctl, asize) \<Rightarrow>
                (case (if nr = DRM_IOCTL_DMA_NR \<and> dma_ioctl \<noteq> None then dma_ioctl else ioctl_func ioctl) of
                   None \<Rightarrow> Some (- EINVAL, s)
                 | Some func \<Rightarrow>
                     if denied (ioctl_flags ioctl) env then Some (- EACCES, s)
                     else copy_and_call env asize ioctl func s)))"

section \<open>Tokens\<close>

definition DRM_HASH_SIZE :: nat where "DRM_HASH_SIZE = 16"

record auth_file =
  fmagic :: u32w
  authenticated :: bool
  is_master :: bool

record auth_state =
  magiclist :: "nat \<Rightarrow> (u32w \<times> nat) list"
  files :: "nat \<rightharpoonup> auth_file"
  sequence :: u32w

definition drm_hash_magic :: "u32w \<Rightarrow> nat" where
  "drm_hash_magic magic = unat (magic AND (of_nat DRM_HASH_SIZE - 1))"

definition drm_find_file :: "auth_state \<Rightarrow> u32w \<Rightarrow> nat option" where
  "drm_find_file s magic = map_of (magiclist s (drm_hash_magic magic)) magic"

definition drm_add_magic :: "bool \<Rightarrow> auth_state \<Rightarrow> nat \<Rightarrow> u32w \<Rightarrow> int \<times> auth_state" where
  "drm_add_magic mem s priv magic =
     (let h = drm_hash_magic magic
      in if \<not> mem then (- ENOMEM, s)
         else (0, s\<lparr>magiclist := (magiclist s)(h := magiclist s h @ [(magic, priv)])\<rparr>))"

fun unlink_magic :: "u32w \<Rightarrow> (u32w \<times> nat) list \<Rightarrow> (u32w \<times> nat) list option" where
  "unlink_magic magic [] = None"
| "unlink_magic magic (pt # rest) =
     (if fst pt = magic then Some rest else map_option (Cons pt) (unlink_magic magic rest))"

definition drm_remove_magic :: "auth_state \<Rightarrow> u32w \<Rightarrow> int \<times> auth_state" where
  "drm_remove_magic s magic =
     (let h = drm_hash_magic magic
      in case unlink_magic magic (magiclist s h) of
           Some chain \<Rightarrow> (0, s\<lparr>magiclist := (magiclist s)(h := chain)\<rparr>)
         | None \<Rightarrow> (- EINVAL, s))"

text \<open>
  The search for an unused token. An element \<open>Some r\<close> of \<open>races\<close> says that another thread stores \<open>r\<close> in
  the counter between the load and the compare-and-set of one round; the \<^verbatim>\<open>continue\<close> after a failed compare-and-set goes to the condition of the
  \<^verbatim>\<open>do\<close> loop. \<open>None\<close>: the loop does not end.
\<close>

partial_function (option) magic_loop :: "u32w option list \<Rightarrow> auth_state \<Rightarrow> (u32w \<times> auth_state) option" where
  "magic_loop races s =
     (let old = sequence s;
          magic = old + 1;
          now = (case races of Some r # _ \<Rightarrow> r | _ \<Rightarrow> old);
          s = s\<lparr>sequence := (if now = old then magic else now)\<rparr>
      in if drm_find_file s magic \<noteq> None then magic_loop (tl races) s else Some (magic, s))"

definition drm_getmagic :: "bool \<Rightarrow> u32w option list \<Rightarrow> nat \<Rightarrow> auth_state \<Rightarrow> (int \<times> u32w \<times> auth_state) option" where
  "drm_getmagic mem races file s = do {
     f \<leftarrow> files s file;
     if fmagic f \<noteq> 0 then Some (0, fmagic f, s)
     else do {
       (magic, s) \<leftarrow> magic_loop races s;
       let s = s\<lparr>files := (files s)(file \<mapsto> f\<lparr>fmagic := magic\<rparr>)\<rparr>;
       let (_, s) = drm_add_magic mem s file magic;
       Some (0, magic, s) } }"

text \<open>\<open>None\<close>: the entry refers to a file that has been released.\<close>

definition drm_authmagic :: "u32w \<Rightarrow> auth_state \<Rightarrow> (int \<times> auth_state) option" where
  "drm_authmagic magic s =
     (case drm_find_file s magic of
        Some priv \<Rightarrow> do {
          f \<leftarrow> files s priv;
          let s = s\<lparr>files := (files s)(priv \<mapsto> f\<lparr>authenticated := True\<rparr>)\<rparr>;
          Some (0, snd (drm_remove_magic s magic)) }
      | None \<Rightarrow> Some (- EINVAL, s))"

text \<open>
  What opening and releasing a file do to the tokens: the superuser is always authenticated, and so is the file that
  becomes the master because there is none.
\<close>

definition open_file :: "bool \<Rightarrow> bool \<Rightarrow> nat \<Rightarrow> auth_state \<Rightarrow> auth_state" where
  "open_file root first file s =
     s\<lparr>files := (files s)(file \<mapsto> \<lparr>fmagic = 0, authenticated = root \<or> first, is_master = first\<rparr>)\<rparr>"

definition release_file :: "nat \<Rightarrow> auth_state \<Rightarrow> auth_state option" where
  "release_file file s = do {
     f \<leftarrow> files s file;
     let s = (if fmagic f \<noteq> 0 then snd (drm_remove_magic s (fmagic f)) else s);
     Some (s\<lparr>files := (files s)(file := None)\<rparr>) }"

section \<open>Properties of the dispatch\<close>


text \<open>
  A driver ioctl trusts the size in the user's command word. When the driver's argument is larger than the stack
  buffer, a caller who has the rights and passes a command word with a small size makes the dispatch copy past the
  end of the buffer.
\<close>

theorem drm_ioctl_driver_overflow:
  assumes "DRM_COMMAND_BASE \<le> nr" "nr < DRM_COMMAND_END" "nr < DRM_COMMAND_BASE + length drv"
    "ioctl = drv ! (nr - DRM_COMMAND_BASE)" "ioctl_func ioctl = Some func" "ioc_in ioctl" "stack_kdata < ioc_size ioctl"
    "\<not> denied (ioctl_flags ioctl) env" "alloc_ok env" "copyin_ok env" "copyout_ok env"
  shows "(cmd_size < ioc_size ioctl \<longrightarrow> drm_ioctl core drv dma env nr cmd_size s = None) \<and>
    (cmd_size \<ge> ioc_size ioctl \<longrightarrow> drm_ioctl core drv dma env nr cmd_size s = Some (func s))"
  using assms by (auto simp: drm_ioctl_def copy_and_call_def DRM_COMMAND_BASE_def DRM_IOCTL_DMA_NR_def stack_kdata_def Let_def)

definition big_ioctl :: "nat drm_ioctl_desc" where
  "big_ioctl = \<lparr>ioc_size = 200, ioc_in = True, ioc_out = False, ioctl_flags = DRM_AUTH, ioctl_func = Some (\<lambda>n. (0, n + 1))\<rparr>"

definition auth_env :: ioctl_env where
  "auth_env = \<lparr>suser = False, file_authenticated = True, file_is_master = False, minor_control = False, alloc_ok = True, copyin_ok = True, copyout_ok = True\<rparr>"


theorem drm_ioctl_driver_overflow_witness:
  "drm_ioctl [] [big_ioctl] None auth_env 0x40 8 3 = None \<and> drm_ioctl [] [big_ioctl] None auth_env 0x40 200 3 = Some (0, 4)"
  using drm_ioctl_driver_overflow [where nr = "0x40" and drv = "[big_ioctl]" and ioctl = big_ioctl and func = "\<lambda>n. (0, n + 1)" and env = auth_env
      and cmd_size = 8 and core = "[]" and dma = None and s = 3]
    drm_ioctl_driver_overflow [where nr = "0x40" and drv = "[big_ioctl]" and ioctl = big_ioctl and func = "\<lambda>n. (0, n + 1)" and env = auth_env
      and cmd_size = 200 and core = "[]" and dma = None and s = 3]
  by (simp add: big_ioctl_def auth_env_def denied_def DRM_AUTH_def DRM_ROOT_ONLY_def DRM_MASTER_def DRM_CONTROL_ALLOW_def DRM_COMMAND_BASE_def DRM_COMMAND_END_def stack_kdata_def)

section \<open>Invariant of the tokens\<close>










lemma remove_magic_fields [simp]:
  "files (snd (drm_remove_magic s m)) = files s" "sequence (snd (drm_remove_magic s m)) = sequence s"
  by (simp_all add: drm_remove_magic_def Let_def split: option.splits)






section \<open>Steps\<close>


definition auth_init :: auth_state where
  "auth_init = \<lparr>magiclist = (\<lambda>_. []), files = Map.empty, sequence = 0\<rparr>"





section \<open>Properties of the tokens\<close>



text \<open>
  Two callers can get the same token. When another thread takes the next number between the load and the
  compare-and-set, the loop is left with that very number unless the other thread has already entered it in the table; so
  both files have it, and authenticating it marks only the one that is entered first.
\<close>

theorem drm_getmagic_race:
  assumes "drm_find_file s (sequence s + 1) = None"
  shows "magic_loop [] s = Some (sequence s + 1, s\<lparr>sequence := sequence s + 1\<rparr>) \<and>
    magic_loop [Some (sequence s + 1)] s = Some (sequence s + 1, s\<lparr>sequence := sequence s + 1\<rparr>)"
proof -
  have "drm_find_file (s\<lparr>sequence := sequence s + 1\<rparr>) (sequence s + 1) = None" using assms by (simp add: drm_find_file_def)
  then show ?thesis
    by (intro conjI; subst magic_loop.simps) (simp_all add: Let_def)
qed

theorem drm_getmagic_race_witness:
  "magic_loop [] auth_init = Some (1, auth_init\<lparr>sequence := 1\<rparr>) \<and> magic_loop [Some 1] auth_init = Some (1, auth_init\<lparr>sequence := 1\<rparr>)"
  using drm_getmagic_race [of auth_init] by (simp add: auth_init_def drm_find_file_def)

text \<open>
  When the counter runs around, the token 0 is handed out. A file with this token counts as having none, so that its entry stays in
  the table after the release of the file, and authenticating 0 then writes to released memory.
\<close>

theorem drm_getmagic_wraps_to_zero:
  "let s = (open_file False False 8 auth_init)\<lparr>sequence := - 1\<rparr>
   in \<exists>s1 s2. drm_getmagic True [] 8 s = Some (0, 0, s1) \<and> release_file 8 s1 = Some s2 \<and> drm_authmagic 0 s2 = None"
proof -
  let ?s = "(open_file False False 8 auth_init)\<lparr>sequence := - 1\<rparr>"
  have "magic_loop [] ?s = Some (0, ?s\<lparr>sequence := 0\<rparr>)"
    by (subst magic_loop.simps) (simp add: Let_def open_file_def auth_init_def drm_find_file_def)
  then show ?thesis
    by (simp add: Let_def drm_getmagic_def drm_add_magic_def release_file_def drm_authmagic_def drm_find_file_def open_file_def auth_init_def)
qed

end
