(* ===== verification/Drm_Modes.thy ===== *)
theory Drm_Modes
  imports Gfx_Prelude "HOL-Library.Product_Lexorder"
begin

text \<open>
  Display modes: \<^verbatim>\<open>uts/common/io/drm/drm_modes.c\<close> with the conversions of \<^verbatim>\<open>drm_crtc.c\<close> between kernel modes and the structure
  that user processes see. This theory holds the model; \<^verbatim>\<open>Drm_Modes_Thms\<close> has the properties.

  A mode list is the list of its modes; the fields that no function of the model reads or writes are left out of the
  structure. A division by zero stops the machine: \<open>None\<close>.
\<close>

unbundle bit_operations_syntax

section \<open>Structures\<close>

datatype drm_mode_status =
    MODE_OK | MODE_HSYNC | MODE_VSYNC | MODE_H_ILLEGAL | MODE_V_ILLEGAL | MODE_BAD_WIDTH | MODE_NOMODE
  | MODE_NO_INTERLACE | MODE_NO_DBLESCAN | MODE_NO_VSCAN | MODE_MEM | MODE_VIRTUAL_X | MODE_VIRTUAL_Y
  | MODE_MEM_VIRT | MODE_NOCLOCK | MODE_CLOCK_HIGH | MODE_CLOCK_LOW | MODE_CLOCK_RANGE | MODE_BAD_HVALUE
  | MODE_BAD_VVALUE | MODE_BAD_VSCAN | MODE_HSYNC_NARROW | MODE_HSYNC_WIDE | MODE_HBLANK_NARROW
  | MODE_HBLANK_WIDE | MODE_VSYNC_NARROW | MODE_VSYNC_WIDE | MODE_VBLANK_NARROW | MODE_VBLANK_WIDE
  | MODE_PANEL | MODE_INTERLACE_WIDTH | MODE_ONE_WIDTH | MODE_ONE_HEIGHT | MODE_ONE_SIZE | MODE_NO_REDUCED
  | MODE_UNVERIFIED | MODE_BAD | MODE_ERROR

record drm_display_mode =
  base_id :: nat
  mode_name :: string
  status :: drm_mode_status
  mode_type :: u32w
  clock :: int
  hdisplay :: int
  hsync_start :: int
  hsync_end :: int
  htotal :: int
  hskew :: int
  vdisplay :: int
  vsync_start :: int
  vsync_end :: int
  vtotal :: int
  vscan :: int
  mode_flags :: u32w
  crtc_hdisplay :: int
  crtc_hblank_start :: int
  crtc_hblank_end :: int
  crtc_hsync_start :: int
  crtc_hsync_end :: int
  crtc_htotal :: int
  crtc_hskew :: int
  crtc_vdisplay :: int
  crtc_vblank_start :: int
  crtc_vblank_end :: int
  crtc_vsync_start :: int
  crtc_vsync_end :: int
  crtc_vtotal :: int
  vrefresh :: int
  hsync :: int

definition DRM_MODE_TYPE_BUILTIN :: u32w where "DRM_MODE_TYPE_BUILTIN = 1"
definition DRM_MODE_TYPE_CRTC_C :: u32w where "DRM_MODE_TYPE_CRTC_C = 5"
definition DRM_MODE_TYPE_PREFERRED :: u32w where "DRM_MODE_TYPE_PREFERRED = 8"
definition DRM_MODE_FLAG_PHSYNC :: u32w where "DRM_MODE_FLAG_PHSYNC = 1"
definition DRM_MODE_FLAG_NHSYNC :: u32w where "DRM_MODE_FLAG_NHSYNC = 2"
definition DRM_MODE_FLAG_PVSYNC :: u32w where "DRM_MODE_FLAG_PVSYNC = 4"
definition DRM_MODE_FLAG_NVSYNC :: u32w where "DRM_MODE_FLAG_NVSYNC = 8"
definition DRM_MODE_FLAG_INTERLACE :: u32w where "DRM_MODE_FLAG_INTERLACE = 16"
definition DRM_MODE_FLAG_DBLSCAN :: u32w where "DRM_MODE_FLAG_DBLSCAN = 32"
definition DRM_DISPLAY_MODE_LEN :: nat where "DRM_DISPLAY_MODE_LEN = 32"

text \<open>Zeroed memory with a fresh object number; \<open>None\<close> when there is no memory or no number.\<close>

definition zero_mode :: "nat \<Rightarrow> drm_display_mode" where
  "zero_mode i = \<lparr>base_id = i, mode_name = [], status = MODE_OK, mode_type = 0, clock = 0, hdisplay = 0, hsync_start = 0,
     hsync_end = 0, htotal = 0, hskew = 0, vdisplay = 0, vsync_start = 0, vsync_end = 0, vtotal = 0, vscan = 0, mode_flags = 0,
     crtc_hdisplay = 0, crtc_hblank_start = 0, crtc_hblank_end = 0, crtc_hsync_start = 0, crtc_hsync_end = 0, crtc_htotal = 0,
     crtc_hskew = 0, crtc_vdisplay = 0, crtc_vblank_start = 0, crtc_vblank_end = 0, crtc_vsync_start = 0, crtc_vsync_end = 0,
     crtc_vtotal = 0, vrefresh = 0, hsync = 0\<rparr>"

definition drm_mode_create :: "nat option \<Rightarrow> drm_display_mode option" where
  "drm_mode_create idr = map_option zero_mode idr"

section \<open>Names\<close>

fun show_nat :: "nat \<Rightarrow> string" where
  "show_nat n = (if n < 10 then [char_of (48 + n)] else show_nat (n div 10) @ [char_of (48 + n mod 10)])"

declare show_nat.simps [simp del]

definition show_int :: "int \<Rightarrow> string" where
  "show_int i = (if i < 0 then ''-'' @ show_nat (nat (- i)) else show_nat (nat i))"

text \<open>\<^verbatim>\<open>snprintf\<close> keeps what fits before the terminating zero.\<close>

definition drm_mode_set_name :: "drm_display_mode \<Rightarrow> drm_display_mode" where
  "drm_mode_set_name m =
     m\<lparr>mode_name := take (DRM_DISPLAY_MODE_LEN - 1)
        (show_int (hdisplay m) @ ''x'' @ show_int (vdisplay m) @
         (if mode_flags m AND DRM_MODE_FLAG_INTERLACE \<noteq> 0 then ''i'' else ''''))\<rparr>"

section \<open>Timing formulas\<close>

text \<open>
  The coordinated video timings. \<^verbatim>\<open>vfieldrate\<close> and \<^verbatim>\<open>hperiod\<close> are unsigned, so that an expression with one of them is
  reduced modulo $2^{32}$ and divided without sign.
\<close>

definition udiv :: "int \<Rightarrow> int \<Rightarrow> int option" where
  "udiv a b = (if u32 b = 0 then None else Some (u32 a div u32 b))"

definition cvt_vsync :: "int \<Rightarrow> int \<Rightarrow> int" where
  "cvt_vsync hdisp vdisp =
     (if vdisp smod 3 = 0 \<and> s32 (vdisp * 4) sdiv 3 = hdisp then 4
      else if vdisp smod 9 = 0 \<and> s32 (vdisp * 16) sdiv 9 = hdisp then 5
      else if vdisp smod 10 = 0 \<and> s32 (vdisp * 16) sdiv 10 = hdisp then 6
      else if vdisp smod 4 = 0 \<and> s32 (vdisp * 5) sdiv 4 = hdisp then 7
      else if vdisp smod 9 = 0 \<and> s32 (vdisp * 15) sdiv 9 = hdisp then 7
      else 10)"

text \<open>The branch without reduced blanking, from the estimate of the line period to the sync positions.\<close>

definition cvt_standard :: "int \<Rightarrow> int \<Rightarrow> int \<Rightarrow> int \<Rightarrow> int \<Rightarrow> drm_display_mode \<Rightarrow> (int \<times> drm_display_mode) option" where
  "cvt_standard vfieldrate vdisplay_rnd vmargin vsync interlace m = do {
     let tmp1 = s32 (1000 * 1000000 - 550 * 1000 * vfieldrate);
     let tmp2 = s32 ((vdisplay_rnd + 2 * vmargin + 3) * 2 + interlace);
     hperiod \<leftarrow> udiv (s32 (tmp1 * 2)) (tmp2 * vfieldrate);
     q \<leftarrow> udiv (550 * 1000) hperiod;
     let tmp1 = s32 (q + 1);
     let vsyncandback_porch = (if tmp1 < vsync + 3 then vsync + 3 else tmp1);
     let m = m\<lparr>vtotal := s32 (vdisplay_rnd + 2 * vmargin + vsyncandback_porch + 3)\<rparr>;
     let hblank_percentage = u32 (30 * 1000 - u32 (300 * hperiod) div 1000);
     let hblank_percentage = (if hblank_percentage < 20 * 1000 then 20 * 1000 else hblank_percentage);
     q \<leftarrow> udiv (hdisplay m * hblank_percentage) (100 * 1000 - hblank_percentage);
     let hblank = s32 q;
     let hblank = hblank - hblank smod 16;
     let m = m\<lparr>htotal := s32 (hdisplay m + hblank), hsync_end := s32 (hdisplay m + hblank sdiv 2)\<rparr>;
     let m = m\<lparr>hsync_start := s32 (hsync_end m - s32 (htotal m * 8) sdiv 100)\<rparr>;
     let m = m\<lparr>hsync_start := s32 (hsync_start m + (8 - hsync_start m smod 8))\<rparr>;
     let m = m\<lparr>vsync_start := s32 (vdisplay m + 3)\<rparr>;
     let m = m\<lparr>vsync_end := s32 (vsync_start m + vsync)\<rparr>;
     Some (hperiod, m) }"

definition cvt_reduced :: "int \<Rightarrow> int \<Rightarrow> int \<Rightarrow> int \<Rightarrow> drm_display_mode \<Rightarrow> (int \<times> drm_display_mode) option" where
  "cvt_reduced vfieldrate vdisplay_rnd vmargin vsync m = do {
     let tmp1 = s32 (1000 * 1000000 - 460 * 1000 * vfieldrate);
     let tmp2 = s32 (vdisplay_rnd + 2 * vmargin);
     hperiod \<leftarrow> udiv tmp1 (tmp2 * vfieldrate);
     q \<leftarrow> udiv (460 * 1000) hperiod;
     let vbilines = s32 (q + 1);
     let vbilines = (if vbilines < 3 + vsync + 6 then 3 + vsync + 6 else vbilines);
     let m = m\<lparr>vtotal := s32 (vdisplay_rnd + 2 * vmargin + vbilines), htotal := s32 (hdisplay m + 160)\<rparr>;
     let m = m\<lparr>hsync_end := s32 (hdisplay m + 160 sdiv 2)\<rparr>;
     let m = m\<lparr>hsync_start := s32 (hsync_end m - 32)\<rparr>;
     let m = m\<lparr>vsync_start := s32 (vdisplay m + 3)\<rparr>;
     let m = m\<lparr>vsync_end := s32 (vsync_start m + vsync)\<rparr>;
     Some (hperiod, m) }"

text \<open>
  The result is \<open>None\<close> for a division by zero and \<open>Some None\<close> for the null pointer that a failed creation gives.
\<close>

definition drm_cvt_mode :: "nat option \<Rightarrow> int \<Rightarrow> int \<Rightarrow> int \<Rightarrow> bool \<Rightarrow> bool \<Rightarrow> bool \<Rightarrow> drm_display_mode option option" where
  "drm_cvt_mode idr hdisp vdisp refresh reduced interlaced margins =
     (case drm_mode_create idr of
        None \<Rightarrow> Some None
      | Some m \<Rightarrow> do {
          let refresh = (if refresh = 0 then 60 else refresh);
          let vfieldrate = (if interlaced then u32 (refresh * 2) else u32 refresh);
          let hdisplay_rnd = hdisp - hdisp smod 8;
          let hmargin = (if margins then s32 (hdisplay_rnd * 18) sdiv 1000 else 0);
          let hmargin = hmargin - hmargin smod 8;
          let m = m\<lparr>hdisplay := s32 (hdisplay_rnd + 2 * hmargin)\<rparr>;
          let vdisplay_rnd = (if interlaced then vdisp sdiv 2 else vdisp);
          let vmargin = (if margins then s32 (vdisplay_rnd * 18) sdiv 1000 else 0);
          let m = m\<lparr>vdisplay := s32 (vdisp + 2 * vmargin)\<rparr>;
          let vsync = cvt_vsync hdisp vdisp;
          (hperiod, m) \<leftarrow> (if \<not> reduced then cvt_standard vfieldrate vdisplay_rnd vmargin vsync (if interlaced then 1 else 0) m
                            else cvt_reduced vfieldrate vdisplay_rnd vmargin vsync m);
          q \<leftarrow> udiv (s32 (s32 (htotal m * 1000) * 1000)) hperiod;
          let m = m\<lparr>clock := s32 q\<rparr>;
          let m = m\<lparr>clock := clock m - clock m smod 250\<rparr>;
          let m = (if interlaced then m\<lparr>vtotal := s32 (vtotal m * 2), mode_flags := mode_flags m OR DRM_MODE_FLAG_INTERLACE\<rparr> else m);
          let m = drm_mode_set_name m;
          Some (Some (if reduced then m\<lparr>mode_flags := mode_flags m OR (DRM_MODE_FLAG_PHSYNC OR DRM_MODE_FLAG_NVSYNC)\<rparr>
                      else m\<lparr>mode_flags := mode_flags m OR (DRM_MODE_FLAG_PVSYNC OR DRM_MODE_FLAG_NHSYNC)\<rparr>)) })"

text \<open>
  The generalised timing formula. Nearly all of its variables are unsigned; \<^verbatim>\<open>vsync_plus_bp\<close>, \<^verbatim>\<open>hsync\<close>, the margins and the porch are
  signed.
\<close>

definition drm_gtf_mode_complex ::
  "nat option \<Rightarrow> int \<Rightarrow> int \<Rightarrow> int \<Rightarrow> bool \<Rightarrow> bool \<Rightarrow> int \<Rightarrow> int \<Rightarrow> int \<Rightarrow> int \<Rightarrow> drm_display_mode option option" where
  "drm_gtf_mode_complex idr hdisp vdisp refresh interlaced margins GTF_M GTF_2C GTF_K GTF_2J =
     (case drm_mode_create idr of
        None \<Rightarrow> Some None
      | Some m \<Rightarrow> do {
          let hdisplay_rnd = u32 (s32 (hdisp + 4) sdiv 8);
          let hdisplay_rnd = u32 (hdisplay_rnd * 8);
          let vdisplay_rnd = (if interlaced then u32 (vdisp sdiv 2) else u32 vdisp);
          let vfieldrate_rqd = (if interlaced then u32 (refresh * 2) else u32 refresh);
          let top_margin = (if margins then s32 (u32 (vdisplay_rnd * 18 + 500) div 1000) else 0);
          let bottom_margin = top_margin;
          let interlace = (if interlaced then 1 else 0);
          let tmp1 = u32 (1000000 - 550 * vfieldrate_rqd) div 500;
          let tmp2 = u32 ((vdisplay_rnd + 2 * top_margin + 1) * 2 + interlace);
          hfreq_est \<leftarrow> udiv (tmp2 * 1000 * vfieldrate_rqd) tmp1;
          let vsync_plus_bp = s32 (u32 (550 * hfreq_est) div 1000);
          let vsync_plus_bp = s32 (vsync_plus_bp + 500) sdiv 1000;
          let vtotal_lines = u32 (vdisplay_rnd + top_margin + bottom_margin + vsync_plus_bp + 1);
          vfieldrate_est \<leftarrow> udiv hfreq_est vtotal_lines;
          hperiod \<leftarrow> udiv 1000000 (vfieldrate_rqd * vtotal_lines);
          let left_margin = (if margins then s32 (u32 (hdisplay_rnd * 18 + 500) div 1000) else 0);
          let right_margin = left_margin;
          let total_active_pixels = u32 (hdisplay_rnd + left_margin + right_margin);
          let c_prime = s32 ((s32 ((GTF_2C - GTF_2J) * GTF_K) sdiv 256) + GTF_2J) sdiv 2;
          let m_prime = s32 (GTF_K * GTF_M) sdiv 256;
          q \<leftarrow> udiv (s32 (m_prime * 1000000)) hfreq_est;
          let ideal_duty_cycle = u32 (s32 (c_prime * 1000) - q);
          hblank \<leftarrow> udiv (total_active_pixels * ideal_duty_cycle) (100000 - ideal_duty_cycle);
          let hblank = u32 (hblank + 8) div 16;
          let hblank = u32 (hblank * 2 * 8);
          let total_pixels = u32 (total_active_pixels + hblank);
          let pixel_freq = u32 (total_pixels * hfreq_est) div 1000;
          let hs = s32 (u32 (8 * total_pixels) div 100);
          let hs = s32 (hs + 4) sdiv 8;
          let hs = s32 (hs * 8);
          let hfront_porch = s32 (hblank div 2 - hs);
          let m = m\<lparr>hdisplay := s32 hdisplay_rnd, hsync_start := s32 (hdisplay_rnd + hfront_porch)\<rparr>;
          let m = m\<lparr>hsync_end := s32 (hsync_start m + hs), htotal := s32 total_pixels, vdisplay := s32 vdisplay_rnd,
                    vsync_start := s32 (vdisplay_rnd + 1)\<rparr>;
          let m = m\<lparr>vsync_end := s32 (vsync_start m + 3), vtotal := s32 vtotal_lines, clock := s32 pixel_freq\<rparr>;
          let m = (if interlaced then m\<lparr>vtotal := s32 (vtotal m * 2), mode_flags := mode_flags m OR DRM_MODE_FLAG_INTERLACE\<rparr> else m);
          let m = drm_mode_set_name m;
          Some (Some (if GTF_M = 600 \<and> GTF_2C = 80 \<and> GTF_K = 128 \<and> GTF_2J = 40
                      then m\<lparr>mode_flags := DRM_MODE_FLAG_NHSYNC OR DRM_MODE_FLAG_PVSYNC\<rparr>
                      else m\<lparr>mode_flags := DRM_MODE_FLAG_PHSYNC OR DRM_MODE_FLAG_NVSYNC\<rparr>)) })"

definition drm_gtf_mode :: "nat option \<Rightarrow> int \<Rightarrow> int \<Rightarrow> int \<Rightarrow> bool \<Rightarrow> bool \<Rightarrow> drm_display_mode option option" where
  "drm_gtf_mode idr hdisp vdisp refresh lace margins =
     drm_gtf_mode_complex idr hdisp vdisp refresh lace margins 600 (40 * 2) 128 (20 * 2)"

section \<open>Derived values\<close>

definition drm_mode_width :: "drm_display_mode \<Rightarrow> int" where "drm_mode_width m = hdisplay m"
definition drm_mode_height :: "drm_display_mode \<Rightarrow> int" where "drm_mode_height m = vdisplay m"

definition drm_mode_hsync :: "drm_display_mode \<Rightarrow> int option" where
  "drm_mode_hsync m =
     (if hsync m \<noteq> 0 then Some (hsync m)
      else if htotal m < 0 then Some 0
      else if htotal m = 0 then None
      else Some (s32 (u32 (u32 (s32 (clock m * 1000) sdiv htotal m) + 500) div 1000)))"

definition drm_mode_vrefresh :: "drm_display_mode \<Rightarrow> int" where
  "drm_mode_vrefresh m =
     (if vrefresh m > 0 then vrefresh m
      else if htotal m > 0 \<and> vtotal m > 0 then
        (let calc_val = u32 (s32 (clock m * 1000)) div htotal m;
             refresh = s32 (u32 (calc_val + vtotal m sdiv 2) div vtotal m);
             refresh = (if mode_flags m AND DRM_MODE_FLAG_INTERLACE \<noteq> 0 then s32 (refresh * 2) else refresh);
             refresh = (if mode_flags m AND DRM_MODE_FLAG_DBLSCAN \<noteq> 0 then refresh sdiv 2 else refresh)
         in if vscan m > 1 then refresh sdiv vscan m else refresh)
      else 0)"

definition scale_v :: "(int \<Rightarrow> int) \<Rightarrow> drm_display_mode \<Rightarrow> drm_display_mode" where
  "scale_v f p = p\<lparr>crtc_vdisplay := f (crtc_vdisplay p), crtc_vsync_start := f (crtc_vsync_start p),
                   crtc_vsync_end := f (crtc_vsync_end p), crtc_vtotal := f (crtc_vtotal p)\<rparr>"

definition drm_mode_set_crtcinfo :: "drm_display_mode \<Rightarrow> bool \<Rightarrow> drm_display_mode" where
  "drm_mode_set_crtcinfo p halve =
     (if mode_type p AND DRM_MODE_TYPE_CRTC_C = DRM_MODE_TYPE_BUILTIN then p
      else (let p = p\<lparr>crtc_hdisplay := hdisplay p, crtc_hsync_start := hsync_start p, crtc_hsync_end := hsync_end p,
                      crtc_htotal := htotal p, crtc_hskew := hskew p, crtc_vdisplay := vdisplay p,
                      crtc_vsync_start := vsync_start p, crtc_vsync_end := vsync_end p, crtc_vtotal := vtotal p\<rparr>;
                p = (if mode_flags p AND DRM_MODE_FLAG_INTERLACE \<noteq> 0 \<and> halve then scale_v (\<lambda>x. x sdiv 2) p else p);
                p = (if mode_flags p AND DRM_MODE_FLAG_DBLSCAN \<noteq> 0 then scale_v (\<lambda>x. s32 (x * 2)) p else p);
                p = (if vscan p > 1 then scale_v (\<lambda>x. s32 (x * vscan p)) p else p)
            in p\<lparr>crtc_vblank_start := min (crtc_vsync_start p) (crtc_vdisplay p),
                 crtc_vblank_end := max (crtc_vsync_end p) (crtc_vtotal p),
                 crtc_hblank_start := min (crtc_hsync_start p) (crtc_hdisplay p),
                 crtc_hblank_end := max (crtc_hsync_end p) (crtc_htotal p)\<rparr>))"

definition drm_mode_copy :: "drm_display_mode \<Rightarrow> drm_display_mode \<Rightarrow> drm_display_mode" where
  "drm_mode_copy dst src = src\<lparr>base_id := base_id dst\<rparr>"

definition drm_mode_duplicate :: "nat option \<Rightarrow> drm_display_mode \<Rightarrow> drm_display_mode option" where
  "drm_mode_duplicate idr m =
     (case drm_mode_create idr of None \<Rightarrow> None | Some nmode \<Rightarrow> Some (drm_mode_copy nmode m))"

section \<open>Comparison\<close>

definition KHZ2PICOS :: "int \<Rightarrow> int" where "KHZ2PICOS a = 1000000000 div u64 a"

definition drm_mode_equal_no_clocks :: "drm_display_mode \<Rightarrow> drm_display_mode \<Rightarrow> bool" where
  "drm_mode_equal_no_clocks m1 m2 \<longleftrightarrow>
     hdisplay m1 = hdisplay m2 \<and> hsync_start m1 = hsync_start m2 \<and> hsync_end m1 = hsync_end m2 \<and> htotal m1 = htotal m2 \<and>
     hskew m1 = hskew m2 \<and> vdisplay m1 = vdisplay m2 \<and> vsync_start m1 = vsync_start m2 \<and> vsync_end m1 = vsync_end m2 \<and>
     vtotal m1 = vtotal m2 \<and> vscan m1 = vscan m2 \<and> mode_flags m1 = mode_flags m2"

definition drm_mode_equal :: "drm_display_mode \<Rightarrow> drm_display_mode \<Rightarrow> bool" where
  "drm_mode_equal m1 m2 \<longleftrightarrow>
     (if clock m1 \<noteq> 0 \<and> clock m2 \<noteq> 0 then KHZ2PICOS (clock m1) = KHZ2PICOS (clock m2) else clock m1 = clock m2) \<and>
     drm_mode_equal_no_clocks m1 m2"

definition drm_mode_compare :: "drm_display_mode \<Rightarrow> drm_display_mode \<Rightarrow> int" where
  "drm_mode_compare a b =
     (let pref = (\<lambda>m. if mode_type m AND DRM_MODE_TYPE_PREFERRED \<noteq> 0 then 1 else 0 :: int);
          diff = pref b - pref a
      in if diff \<noteq> 0 then diff
         else (let diff = s32 (s32 (hdisplay b * vdisplay b) - s32 (hdisplay a * vdisplay a))
               in if diff \<noteq> 0 then diff
                  else (let diff = s32 (vrefresh b - vrefresh a)
                        in if diff \<noteq> 0 then diff else s32 (clock b - clock a))))"

section \<open>Lists of modes\<close>

definition drm_mode_list_concat :: "drm_display_mode list \<Rightarrow> drm_display_mode list \<Rightarrow> drm_display_mode list \<times> drm_display_mode list" where
  "drm_mode_list_concat head new = ([], new @ head)"

definition drm_mode_validate_size :: "drm_display_mode list \<Rightarrow> int \<Rightarrow> int \<Rightarrow> int \<Rightarrow> drm_display_mode list" where
  "drm_mode_validate_size modes maxX maxY maxPitch =
     map (\<lambda>m. let m = (if maxPitch > 0 \<and> hdisplay m > maxPitch then m\<lparr>status := MODE_BAD_WIDTH\<rparr> else m);
                  m = (if maxX > 0 \<and> hdisplay m > maxX then m\<lparr>status := MODE_VIRTUAL_X\<rparr> else m)
              in if maxY > 0 \<and> vdisplay m > maxY then m\<lparr>status := MODE_VIRTUAL_Y\<rparr> else m) modes"

text \<open>The arrays \<^verbatim>\<open>min\<close> and \<^verbatim>\<open>max\<close> are a list of pairs.\<close>

fun clock_good :: "(int \<times> int) list \<Rightarrow> int \<Rightarrow> bool" where
  "clock_good [] c = False"
| "clock_good ((lo, hi) # ranges) c = (if c \<ge> lo \<and> c \<le> hi then True else clock_good ranges c)"

definition drm_mode_validate_clocks :: "drm_display_mode list \<Rightarrow> (int \<times> int) list \<Rightarrow> drm_display_mode list" where
  "drm_mode_validate_clocks modes ranges =
     map (\<lambda>m. if \<not> clock_good ranges (clock m) then m\<lparr>status := MODE_CLOCK_RANGE\<rparr> else m) modes"

fun drm_mode_prune_invalid :: "drm_display_mode list \<Rightarrow> drm_display_mode list" where
  "drm_mode_prune_invalid [] = []"
| "drm_mode_prune_invalid (m # modes) =
     (if status m \<noteq> MODE_OK then drm_mode_prune_invalid modes else m # drm_mode_prune_invalid modes)"

text \<open>
  Sorting: the check for a list that is in order already, and the insertion sort. \<open>end\<close> is the last node of the sorted part, \<open>cur\<close>
  the node after it; the inner loop runs over the sorted part only, because it stops at \<open>end\<close>.
\<close>

fun modes_ordered :: "drm_display_mode list \<Rightarrow> bool" where
  "modes_ordered (a # b # rest) = (if drm_mode_compare a b > 0 then False else modes_ordered (b # rest))"
| "modes_ordered _ = True"

fun insert_mode :: "drm_display_mode \<Rightarrow> drm_display_mode list \<Rightarrow> drm_display_mode list" where
  "insert_mode cur [] = [cur]"
| "insert_mode cur (m # sorted_part) =
     (if drm_mode_compare m cur > 0 then cur # m # sorted_part else m # insert_mode cur sorted_part)"

fun sort_loop :: "drm_display_mode list \<Rightarrow> drm_display_mode list \<Rightarrow> drm_display_mode list" where
  "sort_loop sorted_part [] = sorted_part"
| "sort_loop sorted_part (cur # rest) = sort_loop (insert_mode cur sorted_part) rest"

definition drm_mode_sort :: "drm_display_mode list \<Rightarrow> drm_display_mode list" where
  "drm_mode_sort modes =
     (case modes of
        [] \<Rightarrow> []
      | m # rest \<Rightarrow> if modes_ordered modes then modes else sort_loop [m] rest)"

fun update_first :: "drm_display_mode \<Rightarrow> drm_display_mode list \<Rightarrow> drm_display_mode list option" where
  "update_first pmode [] = None"
| "update_first pmode (m # modes) =
     (if drm_mode_equal pmode m
      then Some (m\<lparr>status := status pmode, mode_type := mode_type m OR mode_type pmode\<rparr> # modes)
      else map_option (Cons m) (update_first pmode modes))"

text \<open>The probed modes are used up; the result is the new list of modes.\<close>

fun drm_mode_connector_list_update :: "drm_display_mode list \<Rightarrow> drm_display_mode list \<Rightarrow> drm_display_mode list" where
  "drm_mode_connector_list_update [] modes = modes"
| "drm_mode_connector_list_update (pmode # probed) modes =
     drm_mode_connector_list_update probed
       (case update_first pmode modes of Some modes' \<Rightarrow> modes' | None \<Rightarrow> modes @ [pmode])"

section \<open>Command line and user modes\<close>

record drm_cmdline_mode =
  refresh_specified :: bool
  xres :: int
  yres :: int
  refresh :: int
  rb :: bool
  interlace :: bool
  cvt :: bool
  margins :: bool

definition drm_mode_create_from_cmdline_mode :: "nat option \<Rightarrow> drm_cmdline_mode \<Rightarrow> drm_display_mode option option" where
  "drm_mode_create_from_cmdline_mode idr cmd = do {
     let rate = (if refresh_specified cmd then refresh cmd else 60);
     m \<leftarrow> (if cvt cmd then drm_cvt_mode idr (xres cmd) (yres cmd) rate (rb cmd) (interlace cmd) (margins cmd)
           else drm_gtf_mode idr (xres cmd) (yres cmd) rate (interlace cmd) (margins cmd));
     Some (map_option (\<lambda>m. drm_mode_set_crtcinfo m True) m) }"

text \<open>The structure that user processes see: 16-bit timings.\<close>

record drm_mode_modeinfo =
  u_clock :: u32w
  u_hdisplay :: u16w
  u_hsync_start :: u16w
  u_hsync_end :: u16w
  u_htotal :: u16w
  u_hskew :: u16w
  u_vdisplay :: u16w
  u_vsync_start :: u16w
  u_vsync_end :: u16w
  u_vtotal :: u16w
  u_vscan :: u16w
  u_vrefresh :: u32w
  u_flags :: u32w
  u_type :: u32w
  u_name :: string

definition drm_crtc_convert_to_umode :: "drm_display_mode \<Rightarrow> drm_mode_modeinfo" where
  "drm_crtc_convert_to_umode m =
     \<lparr>u_clock = word_of_int (clock m), u_hdisplay = word_of_int (hdisplay m), u_hsync_start = word_of_int (hsync_start m),
      u_hsync_end = word_of_int (hsync_end m), u_htotal = word_of_int (htotal m), u_hskew = word_of_int (hskew m),
      u_vdisplay = word_of_int (vdisplay m), u_vsync_start = word_of_int (vsync_start m), u_vsync_end = word_of_int (vsync_end m),
      u_vtotal = word_of_int (vtotal m), u_vscan = word_of_int (vscan m), u_vrefresh = word_of_int (vrefresh m),
      u_flags = mode_flags m, u_type = mode_type m, u_name = take (DRM_DISPLAY_MODE_LEN - 1) (mode_name m)\<rparr>"

definition drm_crtc_convert_umode :: "drm_display_mode \<Rightarrow> drm_mode_modeinfo \<Rightarrow> int \<times> drm_display_mode" where
  "drm_crtc_convert_umode out u =
     (if uint (u_clock u) > INT_MAX \<or> uint (u_vrefresh u) > INT_MAX then (- ERANGE, out)
      else (0, out\<lparr>clock := uint (u_clock u), hdisplay := uint (u_hdisplay u), hsync_start := uint (u_hsync_start u),
               hsync_end := uint (u_hsync_end u), htotal := uint (u_htotal u), hskew := uint (u_hskew u),
               vdisplay := uint (u_vdisplay u), vsync_start := uint (u_vsync_start u), vsync_end := uint (u_vsync_end u),
               vtotal := uint (u_vtotal u), vscan := uint (u_vscan u), vrefresh := uint (u_vrefresh u),
               mode_flags := u_flags u, mode_type := u_type u,
               mode_name := take (DRM_DISPLAY_MODE_LEN - 1) (u_name u)\<rparr>))"

end
