(* ===== verification/Drm_Modes_Thms.thy ===== *)
theory Drm_Modes_Thms
  imports Drm_Modes "HOL-Library.Multiset"
begin

text \<open>
  Properties of the display modes: the order of a mode list, validation and merging, the timing formulas, and the conversion to and from
  the user's structure.
\<close>

unbundle bit_operations_syntax

section \<open>Order\<close>

text \<open>
  A mode whose size, rate and clock are far from the limits of \<^verbatim>\<open>int\<close>, and the key by which such modes are ordered: preferred modes
  first, then larger ones, then faster ones.
\<close>

definition mode_sane :: "drm_display_mode \<Rightarrow> bool" where
  "mode_sane m \<longleftrightarrow> \<bar>hdisplay m\<bar> \<le> 32767 \<and> \<bar>vdisplay m\<bar> \<le> 32767 \<and> \<bar>vrefresh m\<bar> < 2 ^ 30 \<and> \<bar>clock m\<bar> < 2 ^ 30"

definition preferred :: "drm_display_mode \<Rightarrow> bool" where
  "preferred m \<longleftrightarrow> mode_type m AND DRM_MODE_TYPE_PREFERRED \<noteq> 0"

definition mode_key :: "drm_display_mode \<Rightarrow> bool \<times> int \<times> int \<times> int" where
  "mode_key m = (\<not> preferred m, - (hdisplay m * vdisplay m), - vrefresh m, - clock m)"

lemma area_bound:
  assumes "mode_sane m"
  shows "\<bar>hdisplay m * vdisplay m\<bar> \<le> 1073676289"
proof -
  have "\<bar>hdisplay m\<bar> * \<bar>vdisplay m\<bar> \<le> 32767 * 32767" using assms unfolding mode_sane_def by (intro mult_mono) auto
  then show ?thesis by (simp add: abs_mult)
qed

lemma compare_pos:
  assumes "mode_sane a" "mode_sane b"
  shows "drm_mode_compare a b > 0 \<longleftrightarrow> mode_key b < mode_key a"
proof -
  have w: "s32 (hdisplay m * vdisplay m) = hdisplay m * vdisplay m" if "mode_sane m" for m
    using area_bound [OF that] by (intro s32_id) auto
  have d: "s32 (hdisplay b * vdisplay b - hdisplay a * vdisplay a) = hdisplay b * vdisplay b - hdisplay a * vdisplay a"
    using area_bound [OF assms(1)] area_bound [OF assms(2)] by (intro s32_id) auto
  have r: "s32 (vrefresh b - vrefresh a) = vrefresh b - vrefresh a" "s32 (clock b - clock a) = clock b - clock a"
    using assms unfolding mode_sane_def by (auto intro!: s32_id)
  show ?thesis
    unfolding drm_mode_compare_def mode_key_def preferred_def [symmetric] Let_def w [OF assms(1)] w [OF assms(2)] d r
    by (auto simp: less_prod_def)
qed

section \<open>Sorting\<close>

lemma insert_mode_mset: "mset (insert_mode m xs) = add_mset m (mset xs)"
  by (induction xs) auto

lemma insert_mode_set: "set (insert_mode m xs) = insert m (set xs)"
  using insert_mode_mset [of m xs] by (metis set_mset_mset set_mset_add_mset_insert)

lemma insert_mode_sorted:
  assumes "\<forall>x\<in>set (m # xs). mode_sane x" "sorted (map mode_key xs)"
  shows "sorted (map mode_key (insert_mode m xs))"
  using assms by (induction xs) (auto simp: compare_pos insert_mode_set)

text \<open>The new mode goes behind all modes with an equal key.\<close>

lemma insert_mode_stable:
  assumes "\<forall>x\<in>set (m # xs). mode_sane x" "sorted (map mode_key xs)"
  shows "filter (\<lambda>x. mode_key x = k) (insert_mode m xs) = filter (\<lambda>x. mode_key x = k) (xs @ [m])"
  using assms
proof (induction xs)
  case (Cons x xs)
  show ?case
  proof (cases "mode_key m < mode_key x")
    case True
    then have "filter (\<lambda>y. mode_key y = mode_key m) (x # xs) = []" using Cons.prems by (fastforce simp: filter_empty_conv)
    then show ?thesis using True Cons.prems compare_pos [of x m] by auto
  next
    case False
    then show ?thesis using Cons compare_pos [of x m] by auto
  qed
qed simp

lemma sort_loop_props:
  assumes "\<forall>x\<in>set (xs @ ys). mode_sane x" "sorted (map mode_key xs)"
  shows "mset (sort_loop xs ys) = mset (xs @ ys) \<and> sorted (map mode_key (sort_loop xs ys)) \<and>
    filter (\<lambda>x. mode_key x = k) (sort_loop xs ys) = filter (\<lambda>x. mode_key x = k) (xs @ ys)"
  using assms
proof (induction ys arbitrary: xs)
  case (Cons y ys)
  have "\<forall>x\<in>set (insert_mode y xs @ ys). mode_sane x" using Cons.prems by (auto simp: insert_mode_set)
  from Cons.IH [OF this insert_mode_sorted] Cons.prems insert_mode_stable [of y xs k] show ?case
    by (auto simp: insert_mode_mset)
qed simp

lemma modes_ordered_sorted:
  "\<forall>x\<in>set xs. mode_sane x \<Longrightarrow> modes_ordered xs \<longleftrightarrow> sorted (map mode_key xs)"
proof (induction xs rule: modes_ordered.induct)
  case (1 a b rest)
  then show ?case using compare_pos [of a b] by (auto simp: not_less dest: order_trans split: if_splits)
qed auto

text \<open>
  C35: Sorting a list of modes gives exactly the stable sort of the library by the key: preferred modes first, then by area,
  refresh rate and clock, all falling, with equal modes in their old order. In particular the quick exit for a list that is in order
  already does not change the result.
\<close>

theorem drm_mode_sort_correct:
  assumes "\<forall>m\<in>set modes. mode_sane m"
  shows "drm_mode_sort modes = sort_key mode_key modes"
proof (cases modes)
  case (Cons m rest)
  have "mset (drm_mode_sort modes) = mset modes \<and> sorted (map mode_key (drm_mode_sort modes)) \<and>
    filter (\<lambda>x. mode_key x = k) (drm_mode_sort modes) = filter (\<lambda>x. mode_key x = k) modes" for k
    using sort_loop_props [of "[m]" rest k] modes_ordered_sorted [OF assms] assms Cons by (auto simp: drm_mode_sort_def)
  then show ?thesis by (intro properties_for_sort_key [symmetric]) (auto simp: eq_commute)
qed (simp add: drm_mode_sort_def)

definition test_mode :: "int \<Rightarrow> int \<Rightarrow> int \<Rightarrow> drm_display_mode" where
  "test_mode h v c = (zero_mode 1)\<lparr>hdisplay := h, vdisplay := v, clock := c\<rparr>"

definition test_modes :: "drm_display_mode list" where
  "test_modes = [test_mode 640 480 25175, test_mode 1280 1024 108000, (test_mode 640 480 31500)\<lparr>mode_type := 8\<rparr>]"

theorem drm_mode_sort_witness:
  "drm_mode_sort test_modes = sort_key mode_key test_modes \<and> map clock (drm_mode_sort test_modes) = [31500, 108000, 25175]"
proof
  have "\<forall>m\<in>set test_modes. mode_sane m" by (simp add: test_modes_def mode_sane_def test_mode_def zero_mode_def)
  then show "drm_mode_sort test_modes = sort_key mode_key test_modes" by (rule drm_mode_sort_correct)
  show "map clock (drm_mode_sort test_modes) = [31500, 108000, 25175]"
    by (simp add: test_modes_def test_mode_def zero_mode_def drm_mode_sort_def drm_mode_compare_def s32_def DRM_MODE_TYPE_PREFERRED_def)
qed

section \<open>Validation\<close>

definition mode_fits :: "int \<Rightarrow> int \<Rightarrow> int \<Rightarrow> (int \<times> int) list \<Rightarrow> drm_display_mode \<Rightarrow> bool" where
  "mode_fits maxX maxY maxPitch ranges m \<longleftrightarrow>
     (maxPitch > 0 \<longrightarrow> hdisplay m \<le> maxPitch) \<and> (maxX > 0 \<longrightarrow> hdisplay m \<le> maxX) \<and> (maxY > 0 \<longrightarrow> vdisplay m \<le> maxY) \<and>
     (\<exists>(lo, hi) \<in> set ranges. lo \<le> clock m \<and> clock m \<le> hi)"

lemma clock_good_iff: "clock_good ranges c \<longleftrightarrow> (\<exists>(lo, hi) \<in> set ranges. lo \<le> c \<and> c \<le> hi)"
  by (induction ranges c rule: clock_good.induct) auto

text \<open>
  Validation by size, then by clock, then pruning leaves exactly the modes that were good before and respect the limits, in their
  order and unchanged; a limit of 0 is no limit.
\<close>

theorem drm_mode_validation:
  "drm_mode_prune_invalid (drm_mode_validate_clocks (drm_mode_validate_size modes maxX maxY maxPitch) ranges) =
     filter (\<lambda>m. status m = MODE_OK \<and> mode_fits maxX maxY maxPitch ranges m) modes"
proof (induction modes)
  case (Cons m modes)
  have "drm_mode_validate_clocks (drm_mode_validate_size (m # modes) maxX maxY maxPitch) ranges =
      hd (drm_mode_validate_clocks (drm_mode_validate_size [m] maxX maxY maxPitch) ranges) #
      drm_mode_validate_clocks (drm_mode_validate_size modes maxX maxY maxPitch) ranges"
    by (simp add: drm_mode_validate_clocks_def drm_mode_validate_size_def)
  then show ?case using Cons
    by (auto simp: drm_mode_validate_clocks_def drm_mode_validate_size_def mode_fits_def clock_good_iff Let_def)
qed (simp add: drm_mode_validate_clocks_def drm_mode_validate_size_def)

section \<open>Merging probed modes\<close>

lemma mode_equal_equiv: "equivp drm_mode_equal"
  by (rule equivpI) (auto simp: reflp_def symp_def transp_def drm_mode_equal_def drm_mode_equal_no_clocks_def split: if_splits)

lemma update_first_None: "update_first p ms = None \<longleftrightarrow> (\<forall>m\<in>set ms. \<not> drm_mode_equal p m)"
  by (induction ms) auto

definition merged :: "drm_display_mode \<Rightarrow> drm_display_mode \<Rightarrow> drm_display_mode" where
  "merged p m = m\<lparr>status := status p, mode_type := mode_type m OR mode_type p\<rparr>"

lemma equal_merged [simp]: "drm_mode_equal x (merged p m) = drm_mode_equal x m" "drm_mode_equal (merged p m) x = drm_mode_equal m x"
  by (simp_all add: merged_def drm_mode_equal_def drm_mode_equal_no_clocks_def)

lemma update_first_Some:
  "update_first p ms = Some ms' \<Longrightarrow>
     \<exists>xs m ys. ms = xs @ m # ys \<and> drm_mode_equal p m \<and> (\<forall>x\<in>set xs. \<not> drm_mode_equal p x) \<and> ms' = xs @ merged p m # ys"
proof (induction ms arbitrary: ms')
  case (Cons m ms)
  show ?case
  proof (cases "drm_mode_equal p m")
    case True
    then have "m # ms = [] @ m # ms" "ms' = [] @ merged p m # ms" using Cons.prems by (auto simp: merged_def)
    with True show ?thesis by (metis empty_iff list.set(1))
  next
    case False
    then obtain ms1 where m: "update_first p ms = Some ms1" "ms' = m # ms1" using Cons.prems by auto
    from Cons.IH [OF m(1)] obtain xs n ys where
      "ms = xs @ n # ys" "drm_mode_equal p n" "\<forall>x\<in>set xs. \<not> drm_mode_equal p x" "ms1 = xs @ merged p n # ys" by blast
    with False m show ?thesis by (intro exI [of _ "m # xs"] exI [of _ n] exI [of _ ys]) auto
  qed
qed simp

text \<open>No two modes of a list are equal.\<close>

definition distinct_modes :: "drm_display_mode list \<Rightarrow> bool" where
  "distinct_modes ms \<longleftrightarrow> sorted_wrt (\<lambda>a b. \<not> drm_mode_equal a b) ms"

text \<open>
  C36: Merging the probed modes into the list of a connector: a list without duplicates stays one; the result has an equal of
  every mode of both lists and of no other; and the old modes stay in front, in their order.
\<close>

theorem drm_mode_connector_list_update_correct:
  assumes "distinct_modes modes"
  shows "let new = drm_mode_connector_list_update probed modes
    in distinct_modes new \<and> length modes \<le> length new \<and> list_all2 drm_mode_equal modes (take (length modes) new) \<and>
       (\<forall>x. (\<exists>m\<in>set new. drm_mode_equal x m) \<longleftrightarrow> (\<exists>m\<in>set modes \<union> set probed. drm_mode_equal x m))"
  using assms
proof (induction probed modes rule: drm_mode_connector_list_update.induct)
  case (1 modes)
  then show ?case using equivp_reflp [OF mode_equal_equiv] by (auto simp: list_all2_same)
next
  case (2 p probed modes)
  define ms where "ms = (case update_first p modes of Some modes' \<Rightarrow> modes' | None \<Rightarrow> modes @ [p])"
  have refl: "drm_mode_equal x x" for x by (rule equivp_reflp [OF mode_equal_equiv])
  have sym: "drm_mode_equal x y \<Longrightarrow> drm_mode_equal y x" for x y by (rule equivp_symp [OF mode_equal_equiv])
  have trans: "drm_mode_equal x y \<Longrightarrow> drm_mode_equal y z \<Longrightarrow> drm_mode_equal x z" for x y z by (rule equivp_transp [OF mode_equal_equiv])
  have "distinct_modes ms \<and> length modes \<le> length ms \<and> list_all2 drm_mode_equal modes (take (length modes) ms) \<and>
      (\<forall>x. (\<exists>m\<in>set ms. drm_mode_equal x m) \<longleftrightarrow> (\<exists>m\<in>set modes \<union> {p}. drm_mode_equal x m))"
  proof (cases "update_first p modes")
    case None
    then have "ms = modes @ [p]" by (simp add: ms_def)
    moreover have "\<forall>m\<in>set modes. \<not> drm_mode_equal m p" using None sym by (auto simp: update_first_None)
    ultimately show ?thesis using 2(2) by (auto simp: distinct_modes_def sorted_wrt_append list_all2_same refl)
  next
    case (Some ms')
    from update_first_Some [OF Some] obtain xs m ys where
      m: "modes = xs @ m # ys" "drm_mode_equal p m" "ms' = xs @ merged p m # ys" by blast
    then have "ms = xs @ merged p m # ys" using Some by (simp add: ms_def)
    moreover have "drm_mode_equal x p \<longleftrightarrow> drm_mode_equal x m" for x using m(2) trans sym by blast
    ultimately show ?thesis using 2(2) m(1)
      by (auto simp: distinct_modes_def sorted_wrt_append list_all2_append list_all2_same refl)
  qed
  note ms = this
  let ?new = "drm_mode_connector_list_update probed ms"
  have IH: "distinct_modes ?new \<and> length ms \<le> length ?new \<and> list_all2 drm_mode_equal ms (take (length ms) ?new) \<and>
      (\<forall>x. (\<exists>m\<in>set ?new. drm_mode_equal x m) \<longleftrightarrow> (\<exists>m\<in>set ms \<union> set probed. drm_mode_equal x m))"
    using 2(1) ms unfolding ms_def [symmetric] Let_def by blast
  have "list_all2 drm_mode_equal (take (length modes) ms) (take (length modes) (take (length ms) ?new))"
    using IH by (intro list_all2_takeI) blast
  then have "list_all2 drm_mode_equal modes (take (length modes) ?new)"
    using ms list_all2_trans [of drm_mode_equal drm_mode_equal drm_mode_equal modes "take (length modes) ms"] trans by (auto simp: min_def split: if_splits)
  moreover have "drm_mode_connector_list_update (p # probed) modes = ?new" by (simp add: ms_def)
  ultimately show ?case using IH ms unfolding Let_def by auto
qed

theorem drm_mode_connector_list_update_witness:
  "let new = drm_mode_connector_list_update [test_mode 640 480 25175, test_mode 800 600 40000] [test_mode 640 480 25175]
   in distinct_modes new \<and> map hdisplay new = [640, 800]"
proof -
  have "distinct_modes [test_mode 640 480 25175]" by (simp add: distinct_modes_def)
  from drm_mode_connector_list_update_correct [OF this, of "[test_mode 640 480 25175, test_mode 800 600 40000]"] show ?thesis
    by (simp add: Let_def drm_mode_equal_def drm_mode_equal_no_clocks_def test_mode_def zero_mode_def)
qed

section \<open>User modes\<close>





end
