(* ===== verification/Drm_Timings.thy ===== *)
theory Drm_Timings
  imports Drm_Modes
begin

text \<open>
  Properties of the timing formulas of \<^verbatim>\<open>drm_modes.c\<close>: the modes that the coordinated video timings give, where their integer arithmetic
  fails, and the derived values.
\<close>

unbundle bit_operations_syntax

section \<open>Timings\<close>

lemma set_name_fields [simp]:
  "clock (drm_mode_set_name m) = clock m" "hdisplay (drm_mode_set_name m) = hdisplay m" "vdisplay (drm_mode_set_name m) = vdisplay m"
  "htotal (drm_mode_set_name m) = htotal m" "vtotal (drm_mode_set_name m) = vtotal m" "mode_flags (drm_mode_set_name m) = mode_flags m"
  "vrefresh (drm_mode_set_name m) = vrefresh m" "vscan (drm_mode_set_name m) = vscan m"
  by (simp_all add: drm_mode_set_name_def)



lemma smod_nonneg: "0 \<le> a \<Longrightarrow> 0 < b \<Longrightarrow> a smod b = a mod (b::int)"
  by (simp add: smod_int_alt_def sgn_if)










text \<open>The two modes that follow, evaluated step by step.\<close>

lemma cvt_standard_3840:
  assumes "hdisplay m = 3840" "vdisplay m = 2160"
  shows "cvt_standard 60 2160 0 5 0 m = Some (7451, m\<lparr>vtotal := 2237, htotal := 5312, hsync_end := 4576, hsync_start := 4160, vsync_start := 2163, vsync_end := 2168\<rparr>)"
proof -
  have a: "s32 (1000 * 1000000 - 550 * 1000 * 60) = 967000000" "s32 ((2160 + 2 * 0 + 3) * 2 + 0) = 4326"
    "udiv (s32 (967000000 * 2)) (4326 * 60) = Some 7451" "udiv (550 * 1000) 7451 = Some 73" "s32 (73 + 1) = 74"
    "(if (74 :: int) < 5 + 3 then 5 + 3 else 74) = (74 :: int)" "s32 (2160 + 2 * 0 + 74 + 3) = 2237"
    "u32 (30 * 1000 - u32 (300 * 7451) div 1000) = 27765" "(if (27765 :: int) < 20 * 1000 then 20 * 1000 else 27765) = (27765 :: int)"
    by (simp_all add: s32_def u32_def udiv_def)
  have b: "udiv (3840 * 27765) (100 * 1000 - 27765) = Some 1475" "s32 1475 - s32 1475 smod 16 = 1472" "s32 (3840 + 1472) = 5312"
    "s32 (3840 + 1472 sdiv 2) = 4576" "s32 (4576 - s32 (5312 * 8) sdiv 100) = 4152" "s32 (4152 + (8 - 4152 smod 8)) = 4160"
    "s32 (2160 + 3) = 2163" "s32 (2163 + 5) = 2168"
    by (simp_all add: s32_def u32_def udiv_def sdiv_nonneg smod_nonneg)
  show ?thesis unfolding cvt_standard_def Let_def a bind.bind_lunit using assms b by simp
qed

lemma cvt_standard_160:
  assumes "hdisplay m = 160" "vdisplay m = 120"
  shows "\<exists>e s. cvt_standard 60 120 0 4 0 m = Some (131029, m\<lparr>vtotal := 130, htotal := 39424, hsync_end := e, hsync_start := s, vsync_start := 123, vsync_end := 127\<rparr>)"
proof -
  have a: "s32 (1000 * 1000000 - 550 * 1000 * 60) = 967000000" "s32 ((120 + 2 * 0 + 3) * 2 + 0) = 246"
    "udiv (s32 (967000000 * 2)) (246 * 60) = Some 131029" "udiv (550 * 1000) 131029 = Some 4" "s32 (4 + 1) = 5"
    "(if (5 :: int) < 4 + 3 then 4 + 3 else 5) = (7 :: int)" "s32 (120 + 2 * 0 + 7 + 3) = 130"
    "u32 (30 * 1000 - u32 (300 * 131029) div 1000) = 4294957988" "(if (4294957988 :: int) < 20 * 1000 then 20 * 1000 else 4294957988) = (4294957988 :: int)"
    by (simp_all add: s32_def u32_def udiv_def)
  have b: "udiv (160 * 4294957988) (100 * 1000 - 4294957988) = Some 39278" "s32 39278 - s32 39278 smod 16 = 39264" "s32 (160 + 39264) = 39424"
    "s32 (120 + 3) = 123" "s32 (123 + 4) = 127"
    by (simp_all add: s32_def u32_def udiv_def sdiv_nonneg smod_nonneg)
  show ?thesis unfolding cvt_standard_def Let_def a bind.bind_lunit using assms b by simp blast
qed

text \<open>
  The pixel clock of a wide mode is wrong. For 3840 by 2160 at 60 Hz the line has 5312 pixels and the formula
  multiplies it by a million in 32 bits: the clock comes out as 136.25 MHz, which refreshes the 5312 by 2237 pixels only 11 times a
  second.
\<close>

theorem drm_cvt_mode_clock_overflow:
  "map_option (map_option (\<lambda>m. (clock m, htotal m, vtotal m))) (drm_cvt_mode (Some 1) 3840 2160 60 False False False) =
     Some (Some (136250, 5312, 2237)) \<and>
   map_option (map_option drm_mode_vrefresh) (drm_cvt_mode (Some 1) 3840 2160 60 False False False) = Some (Some 11)"
proof -
  let ?m = "(zero_mode 1)\<lparr>hdisplay := 3840, vdisplay := 2160\<rparr>"
  have "3840 - 3840 smod 8 = (3840 :: int)" "s32 3840 = 3840" "s32 2160 = 2160" "u32 60 = 60" "cvt_vsync 3840 2160 = 5"
    "udiv (s32 (s32 (5312 * 1000) * 1000)) 7451 = Some 136496" "s32 136496 - s32 136496 smod 250 = 136250"
    by (simp_all add: smod_nonneg sdiv_nonneg s32_def u32_def cvt_vsync_def udiv_def)
  moreover have "drm_mode_vrefresh m = 11" if "clock m = 136250" "htotal m = 5312" "vtotal m = 2237" "vrefresh m = 0" "mode_flags m = 6" "vscan m = 0" for m
    using that by (simp add: drm_mode_vrefresh_def Let_def s32_def u32_def sdiv_nonneg DRM_MODE_FLAG_INTERLACE_def DRM_MODE_FLAG_DBLSCAN_def)
  ultimately show ?thesis using cvt_standard_3840 [of ?m]
    by (simp add: drm_cvt_mode_def drm_mode_create_def zero_mode_def DRM_MODE_FLAG_PVSYNC_def DRM_MODE_FLAG_NHSYNC_def)
qed

text \<open>
  The blanking of a low mode is wrong. For 160 by 120 at 60 Hz the ideal duty cycle is negative, and because it is unsigned it becomes
  huge instead of being raised to the minimum: the line of 160 pixels gets a total of 39424.
\<close>

theorem drm_cvt_mode_blanking_underflow:
  "map_option (map_option (\<lambda>m. (hdisplay m, htotal m))) (drm_cvt_mode (Some 1) 160 120 60 False False False) = Some (Some (160, 39424))"
proof -
  let ?m = "(zero_mode 1)\<lparr>hdisplay := 160, vdisplay := 120\<rparr>"
  have "160 - 160 smod 8 = (160 :: int)" "s32 160 = 160" "s32 120 = 120" "u32 60 = 60" "cvt_vsync 160 120 = 4"
    "\<exists>c. udiv (s32 (s32 (39424 * 1000) * 1000)) 131029 = Some c"
    by (simp_all add: smod_nonneg sdiv_nonneg s32_def u32_def cvt_vsync_def udiv_def)
  then show ?thesis using cvt_standard_160 [of ?m]
    by (auto simp: drm_cvt_mode_def drm_mode_create_def zero_mode_def)
qed

text \<open>
  The generalised timing formula loses the interlace flag: its last step overwrites the flags, so that an interlaced mode, with the lines of one
  field and the total of two, is reported as a progressive one whose name still ends in the letter of interlaced modes.
\<close>

theorem drm_gtf_mode_loses_interlace:
  assumes "drm_gtf_mode (Some i) h v r True mg = Some (Some m)"
  shows "mode_flags m AND DRM_MODE_FLAG_INTERLACE = 0 \<and> mode_name m = mode_name (drm_mode_set_name (m\<lparr>mode_flags := DRM_MODE_FLAG_INTERLACE\<rparr>))"
  using assms unfolding drm_gtf_mode_def drm_gtf_mode_complex_def drm_mode_create_def Let_def
  by (auto simp: bind_eq_Some_conv zero_mode_def drm_mode_set_name_def DRM_MODE_FLAG_INTERLACE_def DRM_MODE_FLAG_NHSYNC_def DRM_MODE_FLAG_PVSYNC_def)

theorem drm_gtf_mode_loses_interlace_witness:
  "\<exists>m. drm_gtf_mode (Some 1) 160 120 60 True False = Some (Some m) \<and> mode_flags m AND DRM_MODE_FLAG_INTERLACE = 0"
proof -
  have "case drm_gtf_mode (Some 1) 160 120 60 True False of Some (Some m) \<Rightarrow> True | _ \<Rightarrow> False" by code_simp
  then obtain m where "drm_gtf_mode (Some 1) 160 120 60 True False = Some (Some m)" by (auto split: option.splits)
  with drm_gtf_mode_loses_interlace [OF this] show ?thesis by blast
qed

section \<open>Derived values\<close>

text \<open>The horizontal rate of a mode with no total width divides by zero.\<close>

theorem drm_mode_hsync_divides_by_zero: "hsync m = 0 \<Longrightarrow> drm_mode_hsync m = None \<longleftrightarrow> htotal m = 0"
  by (simp add: drm_mode_hsync_def)

text \<open>
  The refresh rate that is computed for a mode without one is the true rate rounded to the nearest number: for a plain mode
  its distance from the quotient of the number of lines per second and the total height is at most one half.
\<close>

theorem drm_mode_vrefresh_rounds:
  assumes "vrefresh m \<le> 0" "0 < htotal m" "0 < vtotal m" "vtotal m \<le> 65535" "0 \<le> clock m" "clock m \<le> 2147483" "vscan m \<le> 1"
    "mode_flags m AND DRM_MODE_FLAG_INTERLACE = 0" "mode_flags m AND DRM_MODE_FLAG_DBLSCAN = 0"
  shows "2 * \<bar>drm_mode_vrefresh m * vtotal m - clock m * 1000 div htotal m\<bar> \<le> vtotal m"
proof -
  define c where "c = clock m * 1000 div htotal m"
  define v where "v = vtotal m"
  define r where "r = (c + v div 2) div v"
  have "clock m * 1000 \<le> 2147483000" using assms(6) by simp
  moreover have "c \<le> clock m * 1000" unfolding c_def using assms(2,5) zdiv_mono2 [of "clock m * 1000" 1 "htotal m"] by simp
  ultimately have c: "0 \<le> c" "c \<le> 2147483000" using assms(2,5) by (simp_all add: c_def pos_imp_zdiv_nonneg_iff)
  have v: "0 < v" "v \<le> 65535" using assms by (simp_all add: v_def)
  have rv: "v * r \<le> c + v div 2" "c + v div 2 < v * r + v"
    using mult_div_mod_eq [of v "c + v div 2"] pos_mod_bound [of v "c + v div 2"] pos_mod_sign [of v "c + v div 2"] v unfolding r_def by linarith+
  have r: "0 \<le> r" using c v by (simp add: r_def pos_imp_zdiv_nonneg_iff)
  have "r \<le> 2147483000"
  proof (cases "v = 1")
    case True
    then show ?thesis using rv(1) c by simp
  next
    case False
    then have "2 * r \<le> v * r" using v r by (intro mult_right_mono) auto
    then show ?thesis using rv(1) c v by linarith
  qed
  then have "drm_mode_vrefresh m = r"
    using assms c v r by (simp add: drm_mode_vrefresh_def Let_def s32_id u32_id sdiv_nonneg c_def [symmetric] v_def [symmetric] r_def [symmetric])
  moreover have "x \<le> c + v div 2 \<Longrightarrow> c + v div 2 < x + v \<Longrightarrow> 2 * \<bar>x - c\<bar> \<le> v" for x by presburger
  ultimately show ?thesis unfolding c_def [symmetric] v_def [symmetric] using rv by (simp add: mult.commute)
qed

theorem drm_mode_vrefresh_witness:
  "2 * \<bar>drm_mode_vrefresh ((zero_mode 1)\<lparr>clock := 25175, htotal := 800, vtotal := 525\<rparr>) * 525 - 31468\<bar> \<le> 525"
  using drm_mode_vrefresh_rounds [of "(zero_mode 1)\<lparr>clock := 25175, htotal := 800, vtotal := 525\<rparr>"] by (simp add: zero_mode_def)

end
