(* ===== verification/I915_Tiling.thy ===== *)
theory I915_Tiling
  imports Gfx_Prelude
begin

text \<open>
  Tiling of graphics memory: \<^verbatim>\<open>uts/intel/io/i915/i915_gem_tiling.c\<close>, with the size and alignment of fenced regions and the contents
  of the fence registers from \<^verbatim>\<open>i915_gem.c\<close>. Registers of the memory controller are a parameter, as is the unbinding of an object
  from the translation table.
\<close>

unbundle bit_operations_syntax

section \<open>The device\<close>

record intel_info =
  gen :: nat
  is_valleyview :: bool
  is_mobile :: bool
  is_g33 :: bool
  is_i915g :: bool
  is_i915gm :: bool

datatype mch_reg = MAD_DIMM_C0 | MAD_DIMM_C1 | DCC | C0DRB3 | C1DRB3

definition HAS_128_BYTE_Y_TILING :: "intel_info \<Rightarrow> bool" where
  "HAS_128_BYTE_Y_TILING dev \<longleftrightarrow> gen dev \<noteq> 2 \<and> \<not> (is_i915g dev \<or> is_i915gm dev)"

definition I915_TILING_NONE :: u32w where "I915_TILING_NONE = 0"
definition I915_TILING_X :: u32w where "I915_TILING_X = 1"
definition I915_TILING_Y :: u32w where "I915_TILING_Y = 2"

definition SWIZZLE_NONE :: u32w where "SWIZZLE_NONE = 0"
definition SWIZZLE_9 :: u32w where "SWIZZLE_9 = 1"
definition SWIZZLE_9_10 :: u32w where "SWIZZLE_9_10 = 2"
definition SWIZZLE_9_11 :: u32w where "SWIZZLE_9_11 = 3"
definition SWIZZLE_9_10_11 :: u32w where "SWIZZLE_9_10_11 = 4"
definition SWIZZLE_UNKNOWN :: u32w where "SWIZZLE_UNKNOWN = 5"
definition SWIZZLE_9_17 :: u32w where "SWIZZLE_9_17 = 6"
definition SWIZZLE_9_10_17 :: u32w where "SWIZZLE_9_10_17 = 7"

lemmas swizzle_defs = SWIZZLE_NONE_def SWIZZLE_9_def SWIZZLE_9_10_def SWIZZLE_9_11_def SWIZZLE_9_10_11_def SWIZZLE_UNKNOWN_def
  SWIZZLE_9_17_def SWIZZLE_9_10_17_def
lemmas tiling_defs = I915_TILING_NONE_def I915_TILING_X_def I915_TILING_Y_def

section \<open>Swizzling of address bit 6\<close>

text \<open>The result is the pair for X and for Y tiling.\<close>

definition i915_gem_detect_bit_6_swizzle :: "intel_info \<Rightarrow> (mch_reg \<Rightarrow> u32w) \<Rightarrow> u32w \<times> u32w" where
  "i915_gem_detect_bit_6_swizzle dev I915_READ =
     (if is_valleyview dev then (SWIZZLE_NONE, SWIZZLE_NONE)
      else if gen dev \<ge> 6 then
        (let dimm_c0 = I915_READ MAD_DIMM_C0 AND (0xff OR 0xff00);
             dimm_c1 = I915_READ MAD_DIMM_C1 AND (0xff OR 0xff00)
         in if dimm_c0 = dimm_c1 then (SWIZZLE_9_10, SWIZZLE_9) else (SWIZZLE_NONE, SWIZZLE_NONE))
      else if gen dev = 5 then (SWIZZLE_9_10, SWIZZLE_9)
      else if gen dev = 2 then (SWIZZLE_NONE, SWIZZLE_NONE)
      else if is_mobile dev \<or> gen dev = 3 \<and> \<not> is_g33 dev then
        (let dcc = I915_READ DCC;
             mode = dcc AND 3;
             res = (if mode = 0 \<or> mode = 1 then (SWIZZLE_NONE, SWIZZLE_NONE)
                    else if mode = 2 then
                      (if dcc AND 0x400 \<noteq> 0 then (SWIZZLE_9_10, SWIZZLE_9)
                       else if dcc AND 0x200 = 0 then (SWIZZLE_9_10_11, SWIZZLE_9_11)
                       else (SWIZZLE_9_10_17, SWIZZLE_9_17))
                    else (SWIZZLE_UNKNOWN, SWIZZLE_UNKNOWN))
         in if dcc = 0xffffffff then (SWIZZLE_UNKNOWN, SWIZZLE_UNKNOWN) else res)
      else if I915_READ C0DRB3 AND 0xffff \<noteq> I915_READ C1DRB3 AND 0xffff then (SWIZZLE_NONE, SWIZZLE_NONE)
      else (SWIZZLE_9_10, SWIZZLE_9))"

section \<open>Constraints\<close>

text \<open>The arguments are \<^verbatim>\<open>int\<close>: the user's unsigned stride and the object's size are converted at the call.\<close>

definition i915_tiling_ok :: "intel_info \<Rightarrow> int \<Rightarrow> int \<Rightarrow> int \<Rightarrow> bool" where
  "i915_tiling_ok dev str sz mode =
     (if mode = 0 then True
      else (let tile_width = (if gen dev = 2 \<or> mode = 2 \<and> HAS_128_BYTE_Y_TILING dev then 128 else 512)
            in if gen dev \<ge> 7 \<and> str sdiv 128 > 0x800 then False
               else if gen dev < 7 \<and> gen dev \<ge> 4 \<and> str sdiv 128 > 0x400 then False
               else if gen dev < 4 \<and> str > 8192 then False
               else if gen dev < 4 \<and> gen dev = 3 \<and> sz > 2 ^ 8 * 2 ^ 20 then False
               else if gen dev < 4 \<and> gen dev \<noteq> 3 \<and> sz > 2 ^ 8 * 2 ^ 19 then False
               else if str < tile_width then False
               else if gen dev \<ge> 4 then str AND (tile_width - 1) = 0
               else str AND (str - 1) = 0))"

text \<open>The doubling loop does not end for sizes above $2^{31}$: the register overflows to 0, which never reaches the size.\<close>

partial_function (option) double_until :: "u32w \<Rightarrow> u32w \<Rightarrow> u32w option" where
  "double_until gtt_size sz = (if gtt_size < sz then double_until (push_bit 1 gtt_size) sz else Some gtt_size)"

definition i915_gem_get_gtt_size :: "intel_info \<Rightarrow> u32w \<Rightarrow> u32w \<Rightarrow> u32w option" where
  "i915_gem_get_gtt_size dev sz mode =
     (if gen dev \<ge> 4 \<or> mode = I915_TILING_NONE then Some sz
      else double_until (if gen dev = 3 then 1024 * 1024 else 512 * 1024) sz)"

definition i915_gem_get_gtt_alignment :: "intel_info \<Rightarrow> u32w \<Rightarrow> u32w \<Rightarrow> bool \<Rightarrow> u32w option" where
  "i915_gem_get_gtt_alignment dev sz mode fenced =
     (if gen dev \<ge> 4 \<or> \<not> fenced \<and> is_g33 dev \<or> mode = I915_TILING_NONE then Some 4096
      else i915_gem_get_gtt_size dev sz mode)"

section \<open>Objects\<close>

text \<open>
  What tiling and fences need of an object: \<open>gtt_space\<close> is the size of its node in the translation table, \<open>tiling_mode\<close> a field of
  two bits, \<open>bit_17\<close> the saved bits, one for each page, and \<open>gtt_mmap\<close> tells that user mappings through the table exist.
\<close>

record i915_obj =
  base_size :: u64w
  gtt_space :: "u64w option"
  gtt_offset :: u32w
  tiling_mode :: "2 word"
  stride :: u32w
  pin_count :: nat
  map_and_fenceable :: bool
  fence_dirty :: bool
  fenced_gpu_access :: bool
  fence_reg :: "nat option"
  last_fenced_seqno :: u32w
  bit_17 :: "bool list option"
  gtt_mmap :: bool

definition i915_gem_release_mmap :: "i915_obj \<Rightarrow> i915_obj" where
  "i915_gem_release_mmap obj = obj\<lparr>gtt_mmap := False\<rparr>"

definition i915_gem_object_fence_ok :: "intel_info \<Rightarrow> i915_obj \<Rightarrow> u32w \<Rightarrow> bool option" where
  "i915_gem_object_fence_ok dev obj mode =
     (if mode = I915_TILING_NONE then Some True
      else if gen dev \<ge> 4 then Some True
      else if gen dev = 3 \<and> gtt_offset obj AND NOT 0x0ff00000 \<noteq> 0 then Some False
      else if gen dev \<noteq> 3 \<and> gtt_offset obj AND NOT 0x07f80000 \<noteq> 0 then Some False
      else do {
        size \<leftarrow> i915_gem_get_gtt_size dev (ucast (base_size obj)) mode;
        space \<leftarrow> gtt_space obj;
        if space \<noteq> ucast size then Some False
        else Some (gtt_offset obj AND (size - 1) = 0) })"

record tiling_args =
  a_tiling :: u32w
  a_stride :: u32w
  a_swizzle :: u32w

text \<open>The swizzling that the user sees: bit 17 is hidden.\<close>

definition hide_bit_17 :: "u32w \<Rightarrow> u32w" where
  "hide_bit_17 s = (let s = (if s = SWIZZLE_9_17 then SWIZZLE_9 else s) in if s = SWIZZLE_9_10_17 then SWIZZLE_9_10 else s)"

definition i915_gem_object_needs_bit17_swizzle :: "u32w \<Rightarrow> i915_obj \<Rightarrow> bool" where
  "i915_gem_object_needs_bit17_swizzle swizzle_x obj \<longleftrightarrow> swizzle_x = SWIZZLE_9_10_17 \<and> tiling_mode obj \<noteq> 0"

definition chosen_args :: "u32w \<times> u32w \<Rightarrow> tiling_args \<Rightarrow> tiling_args" where
  "chosen_args swizzle args =
     (if a_tiling args = I915_TILING_NONE then args\<lparr>a_swizzle := SWIZZLE_NONE, a_stride := 0\<rparr>
      else (let args = args\<lparr>a_swizzle := hide_bit_17 (if a_tiling args = I915_TILING_X then fst swizzle else snd swizzle)\<rparr>
            in if a_swizzle args = SWIZZLE_UNKNOWN
               then args\<lparr>a_tiling := I915_TILING_NONE, a_swizzle := SWIZZLE_NONE, a_stride := 0\<rparr>
               else args))"

text \<open>The part of the ioctl that runs under the lock when the tiling mode or the stride changes.\<close>

definition retile :: "intel_info \<Rightarrow> u64w \<Rightarrow> (i915_obj \<Rightarrow> int \<times> i915_obj) \<Rightarrow> tiling_args \<Rightarrow> i915_obj \<Rightarrow> (int \<times> i915_obj) option" where
  "retile dev mappable_end unbind args obj =
     (if a_tiling args \<noteq> ucast (tiling_mode obj) \<or> a_stride args \<noteq> stride obj
      then do {
        ok \<leftarrow> (if gtt_space obj = None then Some True
               else if ucast (gtt_offset obj) + base_size obj \<le> mappable_end
               then i915_gem_object_fence_ok dev obj (a_tiling args) else Some False);
        let obj = obj\<lparr>map_and_fenceable := ok\<rparr>;
        (ret, obj) \<leftarrow> (if \<not> ok
           then do {
             al \<leftarrow> i915_gem_get_gtt_alignment dev (ucast (base_size obj)) (a_tiling args) False;
             Some (if gtt_offset obj AND (al - 1) \<noteq> 0 then unbind obj else (0, obj)) }
           else Some (0, obj));
        Some (ret, if ret = 0
                   then i915_gem_release_mmap (obj\<lparr>fence_dirty := fenced_gpu_access obj \<or> fence_reg obj \<noteq> None,
                            tiling_mode := ucast (a_tiling args), stride := a_stride args\<rparr>)
                   else obj) }
      else Some (0, obj))"

text \<open>
  The ioctl on the object that the handle names, \<open>None\<close> being a handle without an object. \<open>unbind\<close> is \<^verbatim>\<open>i915_gem_object_unbind\<close>; \<open>bits\<close> is what the
  allocation of the saved bits gives. The outer \<open>None\<close> is the loop that does not end.
\<close>

definition i915_gem_set_tiling ::
  "intel_info \<Rightarrow> u32w \<times> u32w \<Rightarrow> u64w \<Rightarrow> (i915_obj \<Rightarrow> int \<times> i915_obj) \<Rightarrow> bool list option \<Rightarrow> tiling_args \<Rightarrow> i915_obj option
     \<Rightarrow> (int \<times> tiling_args \<times> i915_obj option) option" where
  "i915_gem_set_tiling dev swizzle mappable_end unbind bits args lookup =
     (case lookup of
        None \<Rightarrow> Some (- ENOENT, args, lookup)
      | Some obj \<Rightarrow>
          if \<not> i915_tiling_ok dev (sint (a_stride args)) (sint (ucast (base_size obj) :: u32w)) (sint (a_tiling args)) then Some (- EINVAL, args, lookup)
          else if pin_count obj \<noteq> 0 then Some (- EBUSY, args, lookup)
          else do {
            let args = chosen_args swizzle args;
            (ret, obj) \<leftarrow> retile dev mappable_end unbind args obj;
            let args = args\<lparr>a_stride := stride obj, a_tiling := ucast (tiling_mode obj)\<rparr>;
            let obj = (if i915_gem_object_needs_bit17_swizzle (fst swizzle) obj
                       then (if bit_17 obj = None then obj\<lparr>bit_17 := bits\<rparr> else obj)
                       else obj\<lparr>bit_17 := None\<rparr>);
            Some (ret, args, Some obj) })"

definition i915_gem_get_tiling :: "u32w \<times> u32w \<Rightarrow> tiling_args \<Rightarrow> i915_obj option \<Rightarrow> int \<times> tiling_args" where
  "i915_gem_get_tiling swizzle args lookup =
     (case lookup of
        None \<Rightarrow> (- ENOENT, args)
      | Some obj \<Rightarrow>
          (let args = args\<lparr>a_tiling := ucast (tiling_mode obj)\<rparr>;
               args = (if tiling_mode obj = 1 then args\<lparr>a_swizzle := fst swizzle\<rparr>
                       else if tiling_mode obj = 2 then args\<lparr>a_swizzle := snd swizzle\<rparr>
                       else if tiling_mode obj = 0 then args\<lparr>a_swizzle := SWIZZLE_NONE\<rparr>
                       else args)
           in (0, args\<lparr>a_swizzle := hide_bit_17 (a_swizzle args)\<rparr>)))"

section \<open>Bit 17\<close>

text \<open>A page has a physical address and 4096 bytes of contents.\<close>

record page =
  phys :: u64w
  bytes :: "u8w list"

text \<open>One round of the loop: the two halves of the 128 bytes at \<open>i\<close> change places through the temporary buffer.\<close>

definition swap_halves :: "nat \<Rightarrow> 'a list \<Rightarrow> 'a list" where
  "swap_halves i va =
     (let temp = take 64 (drop i va);
          va = take i va @ take 64 (drop (i + 64) va) @ drop (i + 64) va
      in take (i + 64) va @ temp @ drop (i + 128) va)"

fun swizzle_loop :: "nat \<Rightarrow> nat \<Rightarrow> 'a list \<Rightarrow> 'a list" where
  "swizzle_loop 0 i va = va"
| "swizzle_loop (Suc n) i va = swizzle_loop n (i + 128) (swap_halves i va)"

definition i915_gem_swizzle_page :: "'a list \<Rightarrow> 'a list" where
  "i915_gem_swizzle_page va = swizzle_loop 32 0 va"

definition i915_gem_object_do_bit_17_swizzle :: "bool list option \<Rightarrow> page list \<Rightarrow> page list" where
  "i915_gem_object_do_bit_17_swizzle saved pages =
     (case saved of
        None \<Rightarrow> pages
      | Some bits \<Rightarrow>
          map2 (\<lambda>p b. if (drop_bit 17 (phys p) AND 1 \<noteq> 0) \<noteq> b then p\<lparr>bytes := i915_gem_swizzle_page (bytes p)\<rparr> else p) pages bits)"

text \<open>\<open>mem\<close>: the allocation succeeds.\<close>

definition i915_gem_object_save_bit_17_swizzle :: "bool \<Rightarrow> bool list option \<Rightarrow> page list \<Rightarrow> bool list option" where
  "i915_gem_object_save_bit_17_swizzle mem saved pages =
     (if saved = None \<and> \<not> mem then None else Some (map (\<lambda>p. phys p AND 0x20000 \<noteq> 0) pages))"

section \<open>Fence registers\<close>

text \<open>The 64-bit register of the 965 and later; \<open>None\<close> for the object clears it.\<close>

definition i965_fence_val :: "intel_info \<Rightarrow> i915_obj \<Rightarrow> u64w option" where
  "i965_fence_val dev obj = do {
     space \<leftarrow> gtt_space obj;
     let size = (ucast space :: u32w);
     let shift = (if gen dev \<ge> 6 then 32 else 2);
     let val = push_bit 32 (ucast ((gtt_offset obj + size - 4096) AND 0xfffff000) :: u64w);
     let val = val OR ucast (gtt_offset obj AND 0xfffff000);
     let val = val OR push_bit shift (ucast (stride obj div 128 - 1));
     let val = (if tiling_mode obj = 2 then val OR push_bit 1 1 else val);
     Some (val OR 1) }"

text \<open>\<^verbatim>\<open>ffs\<close>: the number of the lowest bit that is set, counted from 1, and 0 for 0.\<close>

definition ffs :: "'a::len word \<Rightarrow> nat" where
  "ffs w = (case find (bit w) [0..<LENGTH('a)] of Some n \<Rightarrow> n + 1 | None \<Rightarrow> 0)"

definition i915_fence_val :: "intel_info \<Rightarrow> i915_obj \<Rightarrow> u32w option" where
  "i915_fence_val dev obj = do {
     space \<leftarrow> gtt_space obj;
     let size = (ucast space :: u32w);
     let tile_width = (if tiling_mode obj = 2 \<and> HAS_128_BYTE_Y_TILING dev then 128 else 512);
     let pitch_val = of_nat (ffs (stride obj div tile_width)) - 1;
     let val = gtt_offset obj;
     let val = (if tiling_mode obj = 2 then val OR push_bit 12 1 else val);
     let val = val OR push_bit 8 (of_nat (ffs (drop_bit 20 size)) - 1);
     let val = val OR push_bit 4 pitch_val;
     Some (val OR 1) }"

definition i830_fence_val :: "i915_obj \<Rightarrow> u32w option" where
  "i830_fence_val obj = do {
     space \<leftarrow> gtt_space obj;
     let size = (ucast space :: u32w);
     let pitch_val = of_nat (ffs (stride obj div 128)) - 1;
     let val = gtt_offset obj;
     let val = (if tiling_mode obj = 2 then val OR push_bit 12 1 else val);
     let val = val OR push_bit 8 (of_nat (ffs (drop_bit 19 size)) - 1);
     let val = val OR push_bit 4 pitch_val;
     Some (val OR 1) }"

end
