(* ===== verification/I915_Tiling_Thms.thy ===== *)
theory I915_Tiling_Thms
  imports I915_Tiling
begin

text \<open>
  Properties of tiling: the swizzling of pages, the size of fenced regions, what the fence registers encode, and the two
  ioctls.
\<close>

unbundle bit_operations_syntax

section \<open>Swizzling of pages\<close>












section \<open>Fenced regions\<close>

text \<open>The loop on a power of two.\<close>

lemma double_until_step:
  "double_until (2 ^ n) sz = (if (2 ^ n :: u32w) < sz then double_until (2 ^ Suc n) sz else Some (2 ^ n))"
  by (subst double_until.simps) (simp add: mult.commute)

lemma unat_push_1: "n < 32 \<Longrightarrow> unat (2 ^ n :: u32w) = 2 ^ n"
proof -
  assume n: "n < 32"
  have "2 ^ n = (of_nat (2 ^ n) :: u32w)" by simp
  moreover have "(2::nat) ^ n < 2 ^ 32" using n by (intro power_strict_increasing) auto
  ultimately show ?thesis using n by (simp add: unsigned_of_nat take_bit_nat_eq_self del: of_nat_power of_nat_numeral)
qed

lemma double_until_result:
  assumes "n < 32" "unat sz \<le> 2 ^ 31"
  shows "\<exists>m. n \<le> m \<and> m < 32 \<and> double_until (2 ^ n) sz = Some (2 ^ m) \<and> unat sz \<le> 2 ^ m \<and> (n < m \<longrightarrow> 2 ^ (m - 1) < unat sz)"
  using assms
proof (induction "32 - n" arbitrary: n)
  case (Suc k)
  show ?case
  proof (cases "(2 ^ n :: u32w) < sz")
    case True
    then have lt: "2 ^ n < unat sz" using unat_push_1 [OF Suc.prems(1)] by (simp add: word_less_nat_alt)
    then have "(2::nat) ^ n < 2 ^ 31" using Suc.prems(2) by linarith
    then have "Suc n < 32" using power_less_imp_less_exp [of "2::nat" n 31] by simp
    moreover have "k = 32 - Suc n" using Suc.hyps(2) by simp
    ultimately obtain m where
      m: "Suc n \<le> m" "m < 32" "double_until (2 ^ Suc n) sz = Some (2 ^ m)" "unat sz \<le> 2 ^ m" "Suc n < m \<longrightarrow> 2 ^ (m - 1) < unat sz"
      using Suc.hyps(1) Suc.prems(2) by blast
    moreover have "2 ^ (m - 1) < unat sz" using m lt by (cases "m = Suc n") auto
    ultimately show ?thesis using True double_until_step [of n sz] by (intro exI [of _ m]) auto
  next
    case False
    then have "unat sz \<le> 2 ^ n" using unat_push_1 [OF Suc.prems(1)] by (simp add: word_less_nat_alt)
    then show ?thesis using False double_until_step [of n sz] Suc.prems(1) by (intro exI [of _ n]) auto
  qed
qed simp

lemma double_until_zero:
  assumes "0 < sz"
  shows "double_until 0 sz = None"
proof (rule ccontr)
  assume "double_until 0 sz \<noteq> None"
  then obtain r where r: "double_until 0 sz = Some r" by auto
  have "(0 :: u32w) = 0 \<longrightarrow> 0 < sz \<longrightarrow> False"
  proof (rule double_until.raw_induct [where P = "\<lambda>g sz r. g = 0 \<longrightarrow> 0 < sz \<longrightarrow> False", OF _ r])
    fix du g s r
    assume IH: "\<And>g s r. du g s = Some r \<Longrightarrow> g = 0 \<longrightarrow> 0 < s \<longrightarrow> False"
      and step: "(if g < s then du (push_bit 1 g) s else Some g) = Some r"
    show "g = 0 \<longrightarrow> 0 < s \<longrightarrow> False" using IH [of 0 s r] step by (auto split: if_splits)
  qed
  then show False using assms by simp
qed

lemma double_until_diverges:
  assumes "n \<le> 32" "2 ^ 31 < unat sz"
  shows "double_until (2 ^ n) sz = None"
  using assms
proof (induction "32 - n" arbitrary: n)
  case 0
  then have "2 ^ n = (0 :: u32w)" by simp
  then show ?case using 0(3) double_until_zero [of sz] by (simp only: word_less_nat_alt) simp
next
  case (Suc k)
  then have n: "n < 32" by simp
  have "(2::nat) ^ n \<le> 2 ^ 31" using n by (intro power_increasing) auto
  then have "(2 ^ n :: u32w) < sz" using unat_push_1 [OF n] Suc.prems by (simp add: word_less_nat_alt)
  moreover have "double_until (2 ^ Suc n) sz = None" using Suc.hyps(1) [of "Suc n"] Suc.hyps(2) Suc.prems by simp
  ultimately show ?case using double_until_step [of n sz] by (simp only: if_True)
qed

text \<open>
  C40: The fenced region of a tiled object on the old chips is the smallest power of two, of at least 1 MB on the third generation and 512 KB on the second, that holds the
  object; for an object larger than 2 GB the computation never returns.
\<close>

theorem i915_gem_get_gtt_size_correct:
  assumes "gen dev < 4" "mode \<noteq> I915_TILING_NONE"
  shows "(unat sz \<le> 2 ^ 31 \<longrightarrow> (\<exists>m. i915_gem_get_gtt_size dev sz mode = Some (2 ^ m) \<and> (if gen dev = 3 then 20 else 19) \<le> m \<and> m < 32 \<and> unat sz \<le> 2 ^ m \<and>
      (\<forall>k. (if gen dev = 3 then 20 else 19) \<le> k \<and> unat sz \<le> 2 ^ k \<longrightarrow> m \<le> k))) \<and>
    (2 ^ 31 < unat sz \<longrightarrow> i915_gem_get_gtt_size dev sz mode = None)"
proof -
  define b where "b = (if gen dev = 3 then 20 else 19 :: nat)"
  have "b < 32" by (simp add: b_def)
  have e: "i915_gem_get_gtt_size dev sz mode = double_until (2 ^ b) sz"
    using assms by (simp add: i915_gem_get_gtt_size_def b_def)
  have "\<exists>m. i915_gem_get_gtt_size dev sz mode = Some (2 ^ m) \<and> b \<le> m \<and> m < 32 \<and> unat sz \<le> 2 ^ m \<and> (\<forall>k. b \<le> k \<and> unat sz \<le> 2 ^ k \<longrightarrow> m \<le> k)"
    if small: "unat sz \<le> 2 ^ 31"
  proof -
    obtain m where m: "b \<le> m" "m < 32" "double_until (2 ^ b) sz = Some (2 ^ m)" "unat sz \<le> 2 ^ m" "b < m \<longrightarrow> 2 ^ (m - 1) < unat sz"
      using double_until_result [OF _ small, of b] \<open>b < 32\<close> by blast
    moreover have "m \<le> k" if "b \<le> k" "unat sz \<le> 2 ^ k" for k
    proof (rule ccontr)
      assume "\<not> m \<le> k"
      then have "2 ^ (m - 1) < unat sz" "(2::nat) ^ k \<le> 2 ^ (m - 1)" using m(5) that(1) by (auto intro: power_increasing)
      with that(2) show False by linarith
    qed
    ultimately show ?thesis using e by auto
  qed
  moreover have "2 ^ 31 < unat sz \<Longrightarrow> i915_gem_get_gtt_size dev sz mode = None"
    using double_until_diverges [of b sz] e by (simp add: b_def)
  ultimately show ?thesis unfolding b_def by blast
qed

definition gen3_dev :: intel_info where
  "gen3_dev = \<lparr>gen = 3, is_valleyview = False, is_mobile = False, is_g33 = False, is_i915g = True, is_i915gm = False\<rparr>"

theorem i915_gem_get_gtt_size_witness:
  "(\<exists>m. i915_gem_get_gtt_size gen3_dev 0x180000 1 = Some (2 ^ m) \<and> 20 \<le> m \<and> 1572864 \<le> (2::nat) ^ m) \<and>
   i915_gem_get_gtt_size gen3_dev 0x80001000 1 = None"
  using i915_gem_get_gtt_size_correct [of gen3_dev 1 "0x180000"] i915_gem_get_gtt_size_correct [of gen3_dev 1 "0x80001000"]
  by (auto simp: gen3_dev_def I915_TILING_NONE_def)

section \<open>The ioctls\<close>

lemma ucast_2_32: "ucast (ucast (t :: 2 word) :: u32w) = t"
  by (rule bit_word_eqI) (simp add: bit_simps)

lemma retile_success:
  assumes "retile dev me unbind args obj = Some (0, obj')"
  shows "tiling_mode obj' = ucast (a_tiling args) \<and> stride obj' = a_stride args"
proof (cases "a_tiling args \<noteq> ucast (tiling_mode obj) \<or> a_stride args \<noteq> stride obj")
  case True
  then obtain o1 where "obj' = i915_gem_release_mmap (o1\<lparr>fence_dirty := fenced_gpu_access o1 \<or> fence_reg o1 \<noteq> None,
      tiling_mode := ucast (a_tiling args), stride := a_stride args\<rparr>)"
    using assms unfolding retile_def Let_def case_prod_unfold by (auto simp: bind_eq_Some_conv simp del: not_None_eq)
  then show ?thesis by (simp add: i915_gem_release_mmap_def)
next
  case False
  then have "obj' = obj" using assms by (simp add: retile_def)
  then show ?thesis using False by (simp add: ucast_2_32)
qed

text \<open>
  What the ioctl that sets the tiling answers, the one that reads it returns: after a successful call with one of the three
  tiling modes, reading gives the tiling mode and the swizzling that the first call reported, with bit 17 hidden.
\<close>

theorem i915_tiling_set_get:
  assumes "i915_gem_set_tiling dev swizzle me unbind bits args (Some obj) = Some (0, args', Some obj')" "unat (a_tiling args) \<le> 2"
  shows "i915_gem_get_tiling swizzle (args'\<lparr>a_swizzle := junk\<rparr>) (Some obj') = (0, args') \<and>
    stride obj' = a_stride args' \<and> (a_tiling args' = I915_TILING_NONE \<longrightarrow> a_stride args' = 0)"
proof -
  define ch where "ch = chosen_args swizzle args"
  have small: "unat (a_tiling ch) \<le> 2" using assms(2) by (simp add: ch_def chosen_args_def Let_def tiling_defs)
  have none: "a_tiling ch = 0 \<Longrightarrow> a_stride ch = 0 \<and> a_swizzle ch = SWIZZLE_NONE"
    by (auto simp: ch_def chosen_args_def Let_def tiling_defs split: if_splits)
  have sw: "a_tiling ch \<noteq> 0 \<Longrightarrow> a_swizzle ch = hide_bit_17 (if a_tiling ch = 1 then fst swizzle else snd swizzle)"
    by (auto simp: ch_def chosen_args_def Let_def tiling_defs split: if_splits)
  obtain o1 where o1: "retile dev me unbind ch obj = Some (0, o1)" "args' = ch\<lparr>a_stride := stride o1, a_tiling := ucast (tiling_mode o1)\<rparr>"
    "tiling_mode obj' = tiling_mode o1" "stride obj' = stride o1"
    using assms(1) by (auto simp: i915_gem_set_tiling_def ch_def [symmetric] bind_eq_Some_conv Let_def errno_defs split: if_splits)
  have "tiling_mode o1 = ucast (a_tiling ch)" "stride o1 = a_stride ch" using retile_success [OF o1(1)] by auto
  moreover have t: "a_tiling ch = 0 \<or> a_tiling ch = 1 \<or> a_tiling ch = 2"
  proof -
    have "unat (a_tiling ch) = unat (0 :: u32w) \<or> unat (a_tiling ch) = unat (1 :: u32w) \<or> unat (a_tiling ch) = unat (2 :: u32w)" using small by auto
    then show ?thesis by (simp only: word_unat_eq_iff)
  qed
  ultimately show ?thesis using o1 none sw by (auto simp: i915_gem_get_tiling_def Let_def tiling_defs hide_bit_17_def swizzle_defs)
qed

definition test_obj :: i915_obj where
  "test_obj = \<lparr>base_size = 0x10000, gtt_space = None, gtt_offset = 0, tiling_mode = 0, stride = 0, pin_count = 0, map_and_fenceable = True,
     fence_dirty = False, fenced_gpu_access = False, fence_reg = None, last_fenced_seqno = 0, bit_17 = None, gtt_mmap = False\<rparr>"

definition gen4_dev :: intel_info where
  "gen4_dev = \<lparr>gen = 4, is_valleyview = False, is_mobile = False, is_g33 = False, is_i915g = False, is_i915gm = False\<rparr>"

lemma set_tiling_test:
  "i915_gem_set_tiling gen4_dev (SWIZZLE_9_10_17, SWIZZLE_9_17) 0 (\<lambda>ob. (0, ob)) None \<lparr>a_tiling = 1, a_stride = 512, a_swizzle = 0\<rparr> (Some test_obj) =
     Some (0, \<lparr>a_tiling = 1, a_stride = 512, a_swizzle = SWIZZLE_9_10\<rparr>, Some (test_obj\<lparr>tiling_mode := 1, stride := 512\<rparr>))"
  "i915_gem_set_tiling gen4_dev (SWIZZLE_9_10, SWIZZLE_9) 0 (\<lambda>ob. (0, ob)) None \<lparr>a_tiling = 4, a_stride = 512, a_swizzle = 0\<rparr> (Some test_obj) =
     Some (0, \<lparr>a_tiling = 0, a_stride = 512, a_swizzle = SWIZZLE_9\<rparr>, Some (test_obj\<lparr>tiling_mode := 0, stride := 512\<rparr>))"
  by (simp_all add: i915_gem_set_tiling_def gen4_dev_def test_obj_def i915_tiling_ok_def chosen_args_def retile_def i915_gem_release_mmap_def
      i915_gem_object_needs_bit17_swizzle_def hide_bit_17_def swizzle_defs tiling_defs Let_def sdiv_nonneg HAS_128_BYTE_Y_TILING_def)

theorem i915_tiling_set_get_witness:
  "i915_gem_get_tiling (SWIZZLE_9_10_17, SWIZZLE_9_17) \<lparr>a_tiling = 1, a_stride = 512, a_swizzle = 9\<rparr> (Some (test_obj\<lparr>tiling_mode := 1, stride := 512\<rparr>)) =
     (0, \<lparr>a_tiling = 1, a_stride = 512, a_swizzle = SWIZZLE_9_10\<rparr>)"
  using i915_tiling_set_get [OF set_tiling_test(1), of 9] by simp

text \<open>
  The ioctl accepts tiling modes that do not exist. The mode 4 passes all checks as a tiled mode, but the object has
  only two bits for it: the call reports an untiled object with a stride, and a swizzling for Y tiling.
\<close>

theorem i915_tiling_unknown_mode:
  "\<exists>args obj. i915_gem_set_tiling gen4_dev (SWIZZLE_9_10, SWIZZLE_9) 0 (\<lambda>ob. (0, ob)) None \<lparr>a_tiling = 4, a_stride = 512, a_swizzle = 0\<rparr> (Some test_obj) = Some (0, args, Some obj) \<and>
     a_tiling args = I915_TILING_NONE \<and> a_stride args = 512 \<and> a_swizzle args = SWIZZLE_9 \<and> tiling_mode obj = 0 \<and> stride obj = 512"
  using set_tiling_test(2) by (simp add: tiling_defs)

section \<open>Contents of the fence registers\<close>

lemma bit_page_mask: "bit (0xfffff000 :: u32w) n \<longleftrightarrow> 12 \<le> n \<and> n < 32"
proof -
  have "(0xfffff000 :: u32w) = NOT (mask 12)" by (simp add: mask_eq_exp_minus_1)
  then show ?thesis by (simp only: bit_not_iff bit_mask_iff possible_bit_word) auto
qed

lemma bit_small:
  fixes p :: "'a::len word"
  assumes "unat p < 2 ^ k" "bit p n"
  shows "n < k"
proof (rule ccontr)
  assume "\<not> n < k"
  then have "(2::nat) ^ k \<le> 2 ^ n" by (intro power_increasing) auto
  then have "unat p div 2 ^ n = 0" using assms(1) by (intro div_less) linarith
  moreover have "bit (unat p) n" using assms(2) by (simp add: bit_unsigned_iff)
  ultimately show False by (simp add: bit_iff_odd)
qed

lemma sint_nonneg_unat:
  assumes "0 \<le> sint (w :: u32w)"
  shows "sint w = int (unat w)"
proof -
  have "sint w < 2 ^ 31" using sint_less [of w] by simp
  have "uint w = uint (word_of_int (sint w) :: u32w)" by simp
  also have "\<dots> = sint w" using assms \<open>sint w < 2 ^ 31\<close> by (simp only: uint_word_of_int) simp
  finally show ?thesis by simp
qed

lemma int_and_mask: "(s :: int) AND 127 = s mod 128" "s AND 511 = s mod 512"
proof -
  have "(127 :: int) = mask 7" "(511 :: int) = mask 9" by (simp_all add: mask_eq_exp_minus_1)
  then show "s AND 127 = s mod 128" "s AND 511 = s mod 512" by (simp_all only: take_bit_eq_mask [symmetric] take_bit_eq_mod) simp_all
qed

text \<open>What the check of the ioctl says about the stride on the chips with large registers.\<close>

lemma tiling_ok_stride:
  assumes "i915_tiling_ok dev (sint (st :: u32w)) sz mode" "mode \<noteq> 0" "4 \<le> gen dev"
  shows "\<exists>t. unat st = t * 128 \<and> 1 \<le> t \<and> t \<le> 0x800 \<and> (gen dev < 7 \<longrightarrow> t \<le> 0x400)"
proof -
  have s: "128 \<le> sint st" "sint st mod 128 = 0" "gen dev \<ge> 7 \<longrightarrow> sint st sdiv 128 \<le> 0x800" "gen dev < 7 \<longrightarrow> sint st sdiv 128 \<le> 0x400"
    using assms by (auto simp: i915_tiling_ok_def Let_def int_and_mask split: if_splits)
  then have u: "sint st = int (unat st)" by (intro sint_nonneg_unat) simp
  define t where "t = unat st div 128"
  have "sint st div 128 = int t" by (simp add: u t_def zdiv_int)
  moreover have "unat st = t * 128"
  proof -
    have "int (unat st mod 128) = 0" using s(2) u by (simp add: zmod_int)
    then show ?thesis using div_mult_mod_eq [of "unat st" 128] by (simp add: t_def)
  qed
  moreover have "sint st sdiv 128 = sint st div 128" using s(1) by (intro sdiv_nonneg) auto
  ultimately show ?thesis using s u by (intro exI [of _ t]) auto
qed

text \<open>
  A fence register of the 965 and later describes the object: its valid bit is set, the tiling bit says whether it is Y tiled, and the start, the last page and the stride can be read back
  from their fields, provided that the object starts on a page and has a stride that the check of the ioctl lets pass.
\<close>

theorem i965_fence_describes_object:
  assumes "gtt_space obj = Some sp" "4 \<le> gen dev" "gen dev \<le> 7" "i915_tiling_ok dev (sint (stride obj)) sz mode" "mode \<noteq> 0"
    "gtt_offset obj AND 0xfffff000 = gtt_offset obj"
  shows "\<exists>v. i965_fence_val dev obj = Some v \<and> bit v 0 \<and> (bit v 1 \<longleftrightarrow> tiling_mode obj = 2) \<and>
    (ucast v :: u32w) AND 0xfffff000 = gtt_offset obj \<and>
    (ucast (drop_bit 32 v) :: u32w) AND 0xfffff000 = (gtt_offset obj + ucast sp - 4096) AND 0xfffff000 \<and>
    (ucast (if gen dev \<ge> 6 then take_bit 12 (drop_bit 32 v) else take_bit 10 (drop_bit 2 v)) + 1) * 128 = stride obj"
proof -
  define p where "p = stride obj div 128 - 1"
  define E where "E = (gtt_offset obj + ucast sp - 4096) AND 0xfffff000"
  define S where "S = gtt_offset obj AND 0xfffff000"
  define sh where "sh = (if gen dev \<ge> 6 then 32 else 2 :: nat)"
  define v where "v = push_bit 32 (ucast E :: u64w) OR ucast S OR push_bit sh (ucast p) OR (if tiling_mode obj = 2 then 2 else 0) OR 1"
  have val: "i965_fence_val dev obj = Some v"
    using assms(1) by (simp add: i965_fence_val_def Let_def v_def E_def S_def p_def sh_def or.assoc)
  obtain t where t: "unat (stride obj) = t * 128" "1 \<le> t" "t \<le> 0x800" "gen dev < 7 \<longrightarrow> t \<le> 0x400"
    using tiling_ok_stride [OF assms(4,5,2)] by blast
  have "stride obj div 128 = of_nat t" by (rule word_unat_eq_iff [THEN iffD2]) (use t in \<open>simp add: unat_div unsigned_of_nat take_bit_nat_eq_self\<close>)
  then have pt: "p + 1 = of_nat t" "unat p = t - 1"
    using t by (simp_all add: p_def) (simp add: unat_sub_if' unsigned_of_nat take_bit_nat_eq_self)
  have p: "unat p < 2 ^ 11" "gen dev < 7 \<Longrightarrow> unat p < 2 ^ 10" using t pt(2) by simp_all
  have "(p + 1) * 128 = of_nat (unat (stride obj))" unfolding pt(1) t(1) by simp
  then have p3: "(p + 1) * 128 = stride obj" by (simp only: of_nat_unat ucast_id)
  have b: "bit v n \<longleftrightarrow> n < 64 \<and> (32 \<le> n \<and> bit E (n - 32) \<or> bit S n \<or> sh \<le> n \<and> bit p (n - sh) \<or> n = 1 \<and> tiling_mode obj = 2 \<or> n = 0)" for n
  proof (cases "n < 64")
    case True
    have two: "bit (2 :: u64w) n \<longleftrightarrow> n = 1" using bit_exp_iff [where 'a = u64w, of 1 n] True by simp
    have lt: "n - 32 < 64" "n - sh < 64" using True by simp_all
    show ?thesis unfolding v_def using True two lt by (simp add: bit_or_iff bit_push_bit_iff bit_ucast_iff bit_1_iff)
  next
    case False
    then show ?thesis using bit_imp_le_length [of v n] by auto
  qed
  have bE: "bit E n \<Longrightarrow> 12 \<le> n \<and> n < 32" and bS: "bit S n \<Longrightarrow> 12 \<le> n \<and> n < 32" for n
    unfolding E_def S_def bit_and_iff bit_page_mask by auto
  have bp: "bit p n \<Longrightarrow> n < 11 \<and> (gen dev < 7 \<longrightarrow> n < 10)" for n using bit_small [of p] p(1,2) by blast
  have "(ucast v :: u32w) AND 0xfffff000 = S"
    by (rule bit_word_eqI, unfold bit_and_iff bit_page_mask bit_ucast_iff b) (use bS bp in \<open>force simp: sh_def split: if_splits\<close>)
  moreover have "(ucast (drop_bit 32 v) :: u32w) AND 0xfffff000 = E"
    by (rule bit_word_eqI, unfold bit_and_iff bit_page_mask bit_ucast_iff bit_drop_bit_eq comp_def b)
      (use bE bS bp in \<open>force simp: sh_def split: if_splits\<close>)
  moreover have "(ucast (if gen dev \<ge> 6 then take_bit 12 (drop_bit 32 v) else take_bit 10 (drop_bit 2 v)) :: u32w) = p"
    by (rule bit_word_eqI, cases "gen dev \<ge> 6"; simp only: if_True if_False bit_take_bit_iff bit_ucast_iff bit_drop_bit_eq comp_def b)
      (use bE bS bp in \<open>force simp: sh_def split: if_splits\<close>)+
  moreover have "bit v 0" "bit v 1 \<longleftrightarrow> tiling_mode obj = 2" using bS [of 1] by (auto simp: b sh_def)
  ultimately show ?thesis using val p3 assms(6) by (intro exI [of _ v]) (simp add: S_def E_def)
qed

theorem i965_fence_witness:
  "\<exists>v. i965_fence_val gen4_dev (test_obj\<lparr>gtt_space := Some 0x10000, gtt_offset := 0x40000, tiling_mode := 2, stride := 0x400\<rparr>) = Some v \<and> bit v 0 \<and> bit v 1 \<and>
     (ucast v :: u32w) AND 0xfffff000 = 0x40000"
  using i965_fence_describes_object [of "test_obj\<lparr>gtt_space := Some 0x10000, gtt_offset := 0x40000, tiling_mode := 2, stride := 0x400\<rparr>" "0x10000" gen4_dev 0 2]
  by (auto simp: test_obj_def gen4_dev_def i915_tiling_ok_def HAS_128_BYTE_Y_TILING_def sdiv_nonneg Let_def)

end
