(* ===== verification/I915_Fence.thy ===== *)
theory I915_Fence
  imports I915_Tiling
begin

text \<open>
  The fence registers of the Intel chips: \<^verbatim>\<open>uts/intel/io/i915/i915_gem.c\<close> (\<^verbatim>\<open>i965_write_fence_reg\<close> to
  \<^verbatim>\<open>i915_gem_object_get_fence\<close>, \<^verbatim>\<open>i915_gem_restore_fences\<close>, the fence part of \<^verbatim>\<open>i915_gem_load\<close>,
  \<^verbatim>\<open>i915_gem_object_unbind\<close> and \<^verbatim>\<open>i915_gem_object_move_to_active\<close>), the pinning of fences from \<^verbatim>\<open>i915_drv.h\<close> and
  the reservation of fences from \<^verbatim>\<open>i915_gem_execbuffer.c\<close>.

  Objects are numbered; a register is its index in \<^verbatim>\<open>fence_regs\<close>. The list in order of use holds registers; moving
  and deleting its entries are the sequence operations of \<^verbatim>\<open>Linux_List\<close>. The mapped registers of the chip are a
  memory of 32-bit words. \<^verbatim>\<open>i915_wait_seqno\<close>, which waits for the chip and does not touch this state, is a
  parameter that gives its return value. Memory barriers are not modelled.
\<close>

section \<open>State\<close>

record drm_i915_fence_reg =
  reg_obj :: "nat option"
  reg_pin :: int

record fence_state =
  objects :: "nat \<Rightarrow> i915_obj"
  fence_regs :: "nat \<Rightarrow> drm_i915_fence_reg"
  fence_reg_start :: nat
  num_fence_regs :: nat
  fence_list :: "nat list"
  mmio :: "u32w \<Rightarrow> u32w"

definition upd_object :: "nat \<Rightarrow> (i915_obj \<Rightarrow> i915_obj) \<Rightarrow> fence_state \<Rightarrow> fence_state" where
  "upd_object ob f s = s\<lparr>objects := (objects s)(ob := f (objects s ob))\<rparr>"

definition upd_reg :: "nat \<Rightarrow> (drm_i915_fence_reg \<Rightarrow> drm_i915_fence_reg) \<Rightarrow> fence_state \<Rightarrow> fence_state" where
  "upd_reg r f s = s\<lparr>fence_regs := (fence_regs s)(r := f (fence_regs s r))\<rparr>"

section \<open>Writing a register\<close>

text \<open>The register writes of an operation, in order; \<open>None\<close> for the object clears the register.\<close>

type_synonym writes = "(u32w \<times> u32w) list"

definition i965_fence_addr :: "intel_info \<Rightarrow> nat \<Rightarrow> u32w" where
  "i965_fence_addr dev reg = (if gen dev \<ge> 6 then 0x100000 else 0x3000) + of_nat reg * 8"

definition i965_write_fence_reg :: "intel_info \<Rightarrow> nat \<Rightarrow> i915_obj option \<Rightarrow> writes option" where
  "i965_write_fence_reg dev reg obj =
     (let fence_reg = i965_fence_addr dev reg
      in case obj of
           None \<Rightarrow> Some [(fence_reg, 0), (fence_reg + 4, 0)]
         | Some ob \<Rightarrow> do {
             val \<leftarrow> i965_fence_val dev ob;
             Some [(fence_reg, 0), (fence_reg + 4, ucast (drop_bit 32 val)), (fence_reg, ucast val)] })"

definition i915_fence_addr :: "nat \<Rightarrow> u32w" where
  "i915_fence_addr reg = (if reg < 8 then 0x2000 + of_nat reg * 4 else 0x3000 + of_nat (reg - 8) * 4)"

definition i915_write_fence_reg :: "intel_info \<Rightarrow> nat \<Rightarrow> i915_obj option \<Rightarrow> writes option" where
  "i915_write_fence_reg dev reg obj = do {
     val \<leftarrow> (case obj of None \<Rightarrow> Some 0 | Some ob \<Rightarrow> i915_fence_val dev ob);
     Some [(i915_fence_addr reg, val)] }"

definition i830_write_fence_reg :: "nat \<Rightarrow> i915_obj option \<Rightarrow> writes option" where
  "i830_write_fence_reg reg obj = do {
     val \<leftarrow> (case obj of None \<Rightarrow> Some 0 | Some ob \<Rightarrow> i830_fence_val ob);
     Some [(0x2000 + of_nat reg * 4, val)] }"

definition fence_writes :: "intel_info \<Rightarrow> nat \<Rightarrow> i915_obj option \<Rightarrow> writes option" where
  "fence_writes dev reg obj =
     (if gen dev \<in> {4, 5, 6, 7} then i965_write_fence_reg dev reg obj
      else if gen dev = 3 then i915_write_fence_reg dev reg obj
      else if gen dev = 2 then i830_write_fence_reg reg obj
      else None)"

definition I915_WRITE :: "writes \<Rightarrow> (u32w \<Rightarrow> u32w) \<Rightarrow> u32w \<Rightarrow> u32w" where
  "I915_WRITE ws m = fold (\<lambda>(a, v) m. m(a := v)) ws m"

definition i915_gem_write_fence :: "intel_info \<Rightarrow> nat \<Rightarrow> i915_obj option \<Rightarrow> fence_state \<Rightarrow> fence_state option" where
  "i915_gem_write_fence dev reg obj s = do {
     ws \<leftarrow> fence_writes dev reg obj;
     Some (s\<lparr>mmio := I915_WRITE ws (mmio s)\<rparr>) }"

section \<open>Fences of objects\<close>

definition i915_gem_object_fence_lost :: "nat \<Rightarrow> fence_state \<Rightarrow> fence_state" where
  "i915_gem_object_fence_lost ob s =
     upd_object ob (\<lambda>x. (if tiling_mode x \<noteq> 0 then i915_gem_release_mmap x else x)\<lparr>fence_dirty := False, fence_reg := None\<rparr>) s"

definition lru_move_tail :: "nat \<Rightarrow> fence_state \<Rightarrow> fence_state" where
  "lru_move_tail r s = s\<lparr>fence_list := remove1 r (fence_list s) @ [r]\<rparr>"

definition i915_gem_object_update_fence :: "intel_info \<Rightarrow> nat \<Rightarrow> nat \<Rightarrow> bool \<Rightarrow> fence_state \<Rightarrow> fence_state option" where
  "i915_gem_object_update_fence dev ob r enable s = do {
     s \<leftarrow> i915_gem_write_fence dev r (if enable then Some (objects s ob) else None) s;
     let s = (if enable
              then lru_move_tail r (upd_reg r (\<lambda>f. f\<lparr>reg_obj := Some ob\<rparr>) (upd_object ob (\<lambda>x. x\<lparr>fence_reg := Some r\<rparr>) s))
              else (upd_reg r (\<lambda>f. f\<lparr>reg_obj := None\<rparr>) (upd_object ob (\<lambda>x. x\<lparr>fence_reg := None\<rparr>) s))
                     \<lparr>fence_list := remove1 r (fence_list s)\<rparr>);
     Some (upd_object ob (\<lambda>x. x\<lparr>fence_dirty := False\<rparr>) s) }"

text \<open>\<open>wait\<close> is what \<^verbatim>\<open>i915_wait_seqno\<close> returns for a sequence number.\<close>

definition i915_gem_object_wait_fence :: "(u32w \<Rightarrow> int) \<Rightarrow> nat \<Rightarrow> fence_state \<Rightarrow> int \<times> fence_state" where
  "i915_gem_object_wait_fence wait ob s =
     (if last_fenced_seqno (objects s ob) \<noteq> 0 \<and> wait (last_fenced_seqno (objects s ob)) \<noteq> 0
      then (wait (last_fenced_seqno (objects s ob)), s)
      else (0, upd_object ob (\<lambda>x. x\<lparr>last_fenced_seqno := 0, fenced_gpu_access := False\<rparr>) s))"

definition i915_gem_object_put_fence :: "intel_info \<Rightarrow> (u32w \<Rightarrow> int) \<Rightarrow> nat \<Rightarrow> fence_state \<Rightarrow> (int \<times> fence_state) option" where
  "i915_gem_object_put_fence dev wait ob s =
     (case i915_gem_object_wait_fence wait ob s of
        (ret, s) \<Rightarrow>
          if ret \<noteq> 0 then Some (ret, s)
          else (case fence_reg (objects s ob) of
                  None \<Rightarrow> Some (0, s)
                | Some r \<Rightarrow> do {
                    s \<leftarrow> i915_gem_object_update_fence dev ob r False (i915_gem_object_fence_lost ob s);
                    Some (0, s) }))"

text \<open>The loop over the registers: \<open>Inr\<close> a free one, \<open>Inl\<close> the last one that is not pinned.\<close>

fun find_free_reg :: "(nat \<Rightarrow> drm_i915_fence_reg) \<Rightarrow> nat list \<Rightarrow> nat option \<Rightarrow> nat option + nat" where
  "find_free_reg F [] avail = Inl avail"
| "find_free_reg F (i # is) avail =
     (if reg_obj (F i) = None then Inr i
      else find_free_reg F is (if reg_pin (F i) = 0 then Some i else avail))"

definition i915_find_fence_reg :: "fence_state \<Rightarrow> nat option" where
  "i915_find_fence_reg s =
     (case find_free_reg (fence_regs s) [fence_reg_start s ..< num_fence_regs s] None of
        Inr r \<Rightarrow> Some r
      | Inl None \<Rightarrow> None
      | Inl (Some _) \<Rightarrow> find (\<lambda>r. reg_pin (fence_regs s r) = 0) (fence_list s))"

text \<open>The object that has the register loses it.\<close>

definition release_old :: "(u32w \<Rightarrow> int) \<Rightarrow> nat \<Rightarrow> fence_state \<Rightarrow> int \<times> fence_state" where
  "release_old wait r s =
     (case reg_obj (fence_regs s r) of
        None \<Rightarrow> (0, s)
      | Some old \<Rightarrow>
          (case i915_gem_object_wait_fence wait old s of
             (ret, s) \<Rightarrow> if ret \<noteq> 0 then (ret, s) else (0, i915_gem_object_fence_lost old s)))"

definition i915_gem_object_get_fence :: "intel_info \<Rightarrow> (u32w \<Rightarrow> int) \<Rightarrow> nat \<Rightarrow> fence_state \<Rightarrow> (int \<times> fence_state) option" where
  "i915_gem_object_get_fence dev wait ob s =
     (let enable = tiling_mode (objects s ob) \<noteq> 0
      in case (if fence_dirty (objects s ob) then i915_gem_object_wait_fence wait ob s else (0, s)) of
           (ret, s) \<Rightarrow>
             if ret \<noteq> 0 then Some (ret, s)
             else (case fence_reg (objects s ob) of
                     Some r \<Rightarrow>
                       if \<not> fence_dirty (objects s ob) then Some (0, lru_move_tail r s)
                       else do { s \<leftarrow> i915_gem_object_update_fence dev ob r enable s; Some (0, s) }
                   | None \<Rightarrow>
                       if enable
                       then (case i915_find_fence_reg s of
                               None \<Rightarrow> Some (- EDEADLK, s)
                             | Some r \<Rightarrow>
                                 (case release_old wait r s of
                                    (ret, s) \<Rightarrow>
                                      if ret \<noteq> 0 then Some (ret, s)
                                      else do { s \<leftarrow> i915_gem_object_update_fence dev ob r enable s; Some (0, s) }))
                       else Some (0, s)))"

definition i915_gem_object_pin_fence :: "nat \<Rightarrow> fence_state \<Rightarrow> bool \<times> fence_state" where
  "i915_gem_object_pin_fence ob s =
     (case fence_reg (objects s ob) of
        Some r \<Rightarrow> (True, upd_reg r (\<lambda>f. f\<lparr>reg_pin := s32 (reg_pin f + 1)\<rparr>) s)
      | None \<Rightarrow> (False, s))"

definition i915_gem_object_unpin_fence :: "nat \<Rightarrow> fence_state \<Rightarrow> fence_state" where
  "i915_gem_object_unpin_fence ob s =
     (case fence_reg (objects s ob) of
        Some r \<Rightarrow> upd_reg r (\<lambda>f. f\<lparr>reg_pin := s32 (reg_pin f - 1)\<rparr>) s
      | None \<Rightarrow> s)"

section \<open>All registers\<close>

definition restore_one :: "intel_info \<Rightarrow> nat \<Rightarrow> fence_state \<Rightarrow> fence_state option" where
  "restore_one dev i s =
     (case reg_obj (fence_regs s i) of
        Some ob \<Rightarrow> i915_gem_object_update_fence dev ob i (tiling_mode (objects s ob) \<noteq> 0) s
      | None \<Rightarrow> i915_gem_write_fence dev i None s)"

fun restore_loop :: "intel_info \<Rightarrow> nat list \<Rightarrow> fence_state \<Rightarrow> fence_state option" where
  "restore_loop dev [] s = Some s"
| "restore_loop dev (i # is) s = do { s \<leftarrow> restore_one dev i s; restore_loop dev is s }"

definition i915_gem_restore_fences :: "intel_info \<Rightarrow> fence_state \<Rightarrow> fence_state option" where
  "i915_gem_restore_fences dev s = restore_loop dev [0..<num_fence_regs s] s"

text \<open>
  The fence part of \<^verbatim>\<open>i915_gem_load\<close>: \<open>modeset\<close> is the driver feature and \<open>i945\<close> tells an 945G or 945GM. The
  structure was cleared at its allocation.
\<close>

definition load_fences :: "intel_info \<Rightarrow> bool \<Rightarrow> bool \<Rightarrow> fence_state \<Rightarrow> fence_state option" where
  "load_fences dev i945 modeset s =
     (let s = s\<lparr>fence_reg_start := (if \<not> modeset then 3 else fence_reg_start s),
               num_fence_regs := (if gen dev \<ge> 7 \<and> \<not> is_valleyview dev then 32
                                  else if gen dev \<ge> 4 \<or> i945 \<or> is_g33 dev then 16 else 8),
               fence_list := []\<rparr>
      in i915_gem_restore_fences dev s)"

section \<open>Users of fences\<close>

text \<open>
  What binding, unbinding and use by the chip do to the fences and to what the fences describe. \<open>finish\<close> is the
  result of \<^verbatim>\<open>i915_gem_object_finish_gpu\<close>.
\<close>

definition unbind_fence :: "intel_info \<Rightarrow> (u32w \<Rightarrow> int) \<Rightarrow> int \<Rightarrow> nat \<Rightarrow> fence_state \<Rightarrow> (int \<times> fence_state) option" where
  "unbind_fence dev wait finish ob s =
     (if gtt_space (objects s ob) = None then Some (0, s)
      else if pin_count (objects s ob) \<noteq> 0 then Some (- EBUSY, s)
      else if finish \<noteq> 0 then Some (finish, s)
      else do {
        (ret, s) \<leftarrow> i915_gem_object_put_fence dev wait ob (upd_object ob i915_gem_release_mmap s);
        Some (ret, if ret \<noteq> 0 then s
                   else upd_object ob (\<lambda>x. x\<lparr>map_and_fenceable := True, gtt_space := None, gtt_offset := 0\<rparr>) s) })"

text \<open>The part of \<^verbatim>\<open>i915_gem_object_move_to_active\<close> after the lists, with the sequence number of the ring.\<close>

definition active_fence :: "u32w \<Rightarrow> nat \<Rightarrow> fence_state \<Rightarrow> fence_state" where
  "active_fence seqno ob s =
     (if fenced_gpu_access (objects s ob)
      then (let s = upd_object ob (\<lambda>x. x\<lparr>last_fenced_seqno := seqno\<rparr>) s
            in case fence_reg (objects s ob) of Some r \<Rightarrow> lru_move_tail r s | None \<Rightarrow> s)
      else s)"

text \<open>The part of \<^verbatim>\<open>i915_gem_object_move_to_inactive\<close>.\<close>

definition inactive_fence :: "nat \<Rightarrow> fence_state \<Rightarrow> fence_state" where
  "inactive_fence ob s = upd_object ob (\<lambda>x. x\<lparr>last_fenced_seqno := 0, fenced_gpu_access := False\<rparr>) s"

text \<open>
  The fences of the objects of an execution on a chip whose commands use fences
  (\<^verbatim>\<open>i915_gem_execbuffer_reserve_object\<close> for each object that asks for one). The result is the error of the first that fails.
\<close>

fun reserve_fences :: "intel_info \<Rightarrow> (u32w \<Rightarrow> int) \<Rightarrow> nat list \<Rightarrow> fence_state \<Rightarrow> (int \<times> fence_state) option" where
  "reserve_fences dev wait [] s = Some (0, s)"
| "reserve_fences dev wait (ob # obs) s = do {
     (ret, s) \<leftarrow> i915_gem_object_get_fence dev wait ob s;
     if ret \<noteq> 0 then Some (ret, s)
     else reserve_fences dev wait obs (snd (i915_gem_object_pin_fence ob s)) }"

end
