(* ===== verification/I915_Fence_Thms.thy ===== *)
theory I915_Fence_Thms
  imports I915_Fence
begin

text \<open>
  The fence registers hold what the bookkeeping says: an invariant on the objects, the registers, the list in order
  of use and the contents of the chip's registers, kept by every operation, and what getting, putting and reserving
  a fence does.
\<close>

section \<open>What the chip sees\<close>

definition fence_contents :: "intel_info \<Rightarrow> nat \<Rightarrow> (u32w \<Rightarrow> u32w) \<Rightarrow> u64w" where
  "fence_contents dev r m =
     (if gen dev \<ge> 4
      then push_bit 32 (ucast (m (i965_fence_addr dev r + 4))) OR ucast (m (i965_fence_addr dev r))
      else if gen dev = 3 then ucast (m (i915_fence_addr r))
      else ucast (m (0x2000 + of_nat r * 4)))"

definition fence_val :: "intel_info \<Rightarrow> i915_obj \<Rightarrow> u64w option" where
  "fence_val dev x =
     (if gen dev \<ge> 4 then i965_fence_val dev x
      else if gen dev = 3 then map_option ucast (i915_fence_val dev x)
      else map_option ucast (i830_fence_val x))"

definition gen_ok :: "intel_info \<Rightarrow> bool" where
  "gen_ok dev \<longleftrightarrow> gen dev \<in> {2, 3, 4, 5, 6, 7}"

lemma word_halves: "push_bit 32 (ucast (ucast (drop_bit 32 v) :: u32w)) OR ucast (ucast v :: u32w) = (v :: u64w)"
  by (rule bit_word_eqI) (auto simp: bit_simps)

lemma unat_small_add: "a + b < (2::nat) ^ 32 \<Longrightarrow> unat (of_nat a + of_nat b :: u32w) = a + b"
  by (simp flip: of_nat_add add: unat_of_nat)

lemma i965_addr_unat: "r < 32 \<Longrightarrow> unat (i965_fence_addr dev r) = (if gen dev \<ge> 6 then 0x100000 else 0x3000) + r * 8"
  using unat_small_add [of "0x100000" "r * 8"] unat_small_add [of "0x3000" "r * 8"]
  by (auto simp: i965_fence_addr_def)

lemma i965_addr4_unat: "r < 32 \<Longrightarrow> unat (i965_fence_addr dev r + 4) = (if gen dev \<ge> 6 then 0x100004 else 0x3004) + r * 8"
  using unat_small_add [of "0x100004" "r * 8"] unat_small_add [of "0x3004" "r * 8"]
  by (auto simp: i965_fence_addr_def)

lemma i915_addr_unat: "r < 32 \<Longrightarrow> unat (i915_fence_addr r) = (if r < 8 then 0x2000 + r * 4 else 0x3000 + (r - 8) * 4)"
  using unat_small_add [of "0x2000" "r * 4"] unat_small_add [of "0x3000" "(r - 8) * 4"]
  by (auto simp: i915_fence_addr_def)

lemma i830_addr_unat: "r < 32 \<Longrightarrow> unat (0x2000 + of_nat r * 4 :: u32w) = 0x2000 + r * 4"
  using unat_small_add [of "0x2000" "r * 4"] by auto

lemmas addr_unat = i965_addr_unat i965_addr4_unat i915_addr_unat i830_addr_unat

lemma i965_addr_neq:
  assumes "r < 32" "q < 32"
  shows "i965_fence_addr dev r \<noteq> i965_fence_addr dev q + 4" "i965_fence_addr dev q + 4 \<noteq> i965_fence_addr dev r"
    "q \<noteq> r \<Longrightarrow> i965_fence_addr dev q \<noteq> i965_fence_addr dev r"
    "q \<noteq> r \<Longrightarrow> i965_fence_addr dev q + 4 \<noteq> i965_fence_addr dev r + 4"
proof -
  have "unat (i965_fence_addr dev r) \<noteq> unat (i965_fence_addr dev q + 4)"
    unfolding i965_addr_unat [OF assms(1)] i965_addr4_unat [OF assms(2)] by (simp split: if_splits) presburger+
  then show "i965_fence_addr dev r \<noteq> i965_fence_addr dev q + 4" "i965_fence_addr dev q + 4 \<noteq> i965_fence_addr dev r" by metis+
next
  assume n: "q \<noteq> r"
  have "unat (i965_fence_addr dev q) \<noteq> unat (i965_fence_addr dev r)"
    "unat (i965_fence_addr dev q + 4) \<noteq> unat (i965_fence_addr dev r + 4)"
    using n by (simp_all add: i965_addr_unat i965_addr4_unat assms)
  then show "i965_fence_addr dev q \<noteq> i965_fence_addr dev r" "i965_fence_addr dev q + 4 \<noteq> i965_fence_addr dev r + 4" by metis+
qed

lemma i915_addr_neq:
  assumes "r < 32" "q < 32" "q \<noteq> r"
  shows "i915_fence_addr q \<noteq> i915_fence_addr r"
proof -
  have "unat (i915_fence_addr q) \<noteq> unat (i915_fence_addr r)"
    using assms by (auto simp: i915_addr_unat)
  then show ?thesis by metis
qed

lemma i830_addr_neq:
  assumes "r < 32" "q < 32" "q \<noteq> r"
  shows "(0x2000 + of_nat q * 4 :: u32w) \<noteq> 0x2000 + of_nat r * 4"
proof -
  have "unat (0x2000 + of_nat q * 4 :: u32w) \<noteq> unat (0x2000 + of_nat r * 4 :: u32w)"
    using assms by (simp add: i830_addr_unat)
  then show ?thesis by metis
qed

text \<open>A write gives its register the new contents and leaves the others alone.\<close>

lemma fence_writes_result:
  assumes "gen_ok dev" "r < 32" and ob: "case obj of None \<Rightarrow> True | Some x \<Rightarrow> gtt_space x \<noteq> None"
  shows "\<exists>ws. fence_writes dev r obj = Some ws \<and>
    (case obj of None \<Rightarrow> fence_contents dev r (I915_WRITE ws m) = 0
     | Some x \<Rightarrow> fence_val dev x = Some (fence_contents dev r (I915_WRITE ws m))) \<and>
    (\<forall>q < 32. q \<noteq> r \<longrightarrow> fence_contents dev q (I915_WRITE ws m) = fence_contents dev q m)"
proof (cases obj)
  case None
  then show ?thesis
    using assms i965_addr_neq [of _ _ dev] i915_addr_neq i830_addr_neq
    by (auto simp: gen_ok_def fence_writes_def i965_write_fence_reg_def i915_write_fence_reg_def i830_write_fence_reg_def
        fence_contents_def I915_WRITE_def Let_def)
next
  case (Some x)
  then obtain y where y: "gtt_space x = Some y" using ob by auto
  obtain v1 where v1: "i965_fence_val dev x = Some v1" using y by (auto simp: i965_fence_val_def Let_def)
  obtain v2 where v2: "i915_fence_val dev x = Some v2" using y by (auto simp: i915_fence_val_def Let_def)
  obtain v3 where v3: "i830_fence_val x = Some v3" using y by (auto simp: i830_fence_val_def Let_def)
  show ?thesis
    using assms Some v1 v2 v3 i965_addr_neq [of _ _ dev] i915_addr_neq i830_addr_neq
    by (auto simp: gen_ok_def fence_writes_def i965_write_fence_reg_def i915_write_fence_reg_def i830_write_fence_reg_def
        fence_contents_def I915_WRITE_def fence_val_def word_halves Let_def)
qed


lemma i965_fence_val_fields [simp]:
  "i965_fence_val dev (x\<lparr>fence_reg := a\<rparr>) = i965_fence_val dev x"
  "i965_fence_val dev (x\<lparr>fence_dirty := d\<rparr>) = i965_fence_val dev x"
  "i965_fence_val dev (x\<lparr>last_fenced_seqno := n\<rparr>) = i965_fence_val dev x"
  "i965_fence_val dev (x\<lparr>fenced_gpu_access := d\<rparr>) = i965_fence_val dev x"
  "i965_fence_val dev (x\<lparr>map_and_fenceable := d\<rparr>) = i965_fence_val dev x"
  "i965_fence_val dev (x\<lparr>gtt_mmap := d\<rparr>) = i965_fence_val dev x"
  by (simp_all add: i965_fence_val_def)

lemma i915_fence_val_fields [simp]:
  "i915_fence_val dev (x\<lparr>fence_reg := a\<rparr>) = i915_fence_val dev x"
  "i915_fence_val dev (x\<lparr>fence_dirty := d\<rparr>) = i915_fence_val dev x"
  "i915_fence_val dev (x\<lparr>last_fenced_seqno := n\<rparr>) = i915_fence_val dev x"
  "i915_fence_val dev (x\<lparr>fenced_gpu_access := d\<rparr>) = i915_fence_val dev x"
  "i915_fence_val dev (x\<lparr>map_and_fenceable := d\<rparr>) = i915_fence_val dev x"
  "i915_fence_val dev (x\<lparr>gtt_mmap := d\<rparr>) = i915_fence_val dev x"
  by (simp_all add: i915_fence_val_def)

lemma i830_fence_val_fields [simp]:
  "i830_fence_val (x\<lparr>fence_reg := a\<rparr>) = i830_fence_val x"
  "i830_fence_val (x\<lparr>fence_dirty := d\<rparr>) = i830_fence_val x"
  "i830_fence_val (x\<lparr>last_fenced_seqno := n\<rparr>) = i830_fence_val x"
  "i830_fence_val (x\<lparr>fenced_gpu_access := d\<rparr>) = i830_fence_val x"
  "i830_fence_val (x\<lparr>map_and_fenceable := d\<rparr>) = i830_fence_val x"
  "i830_fence_val (x\<lparr>gtt_mmap := d\<rparr>) = i830_fence_val x"
  by (simp_all add: i830_fence_val_def)

lemma fence_val_fields [simp]:
  "fence_val dev (x\<lparr>fence_reg := a\<rparr>) = fence_val dev x"
  "fence_val dev (x\<lparr>fence_dirty := d\<rparr>) = fence_val dev x"
  "fence_val dev (x\<lparr>last_fenced_seqno := n\<rparr>) = fence_val dev x"
  "fence_val dev (x\<lparr>fenced_gpu_access := d\<rparr>) = fence_val dev x"
  "fence_val dev (x\<lparr>map_and_fenceable := d\<rparr>) = fence_val dev x"
  "fence_val dev (x\<lparr>gtt_mmap := d\<rparr>) = fence_val dev x"
  by (simp_all add: fence_val_def)

section \<open>The invariant\<close>

text \<open>
  A register without an object is clear, belongs to nobody and is not in the list; one with an object is in the list, is
  the fence of exactly that object, and describes it unless the object is marked dirty.
\<close>

definition reg_ok :: "intel_info \<Rightarrow> fence_state \<Rightarrow> nat \<Rightarrow> bool" where
  "reg_ok dev s q \<longleftrightarrow>
     (case reg_obj (fence_regs s q) of
        None \<Rightarrow> (\<forall>x. fence_reg (objects s x) \<noteq> Some q) \<and> q \<notin> set (fence_list s)
                  \<and> (q < num_fence_regs s \<longrightarrow> fence_contents dev q (mmio s) = 0)
      | Some ob \<Rightarrow> fence_reg_start s \<le> q \<and> q < num_fence_regs s \<and> (\<forall>x. fence_reg (objects s x) = Some q \<longleftrightarrow> x = ob)
                  \<and> q \<in> set (fence_list s) \<and> gtt_space (objects s ob) \<noteq> None
                  \<and> (fence_dirty (objects s ob) \<or> tiling_mode (objects s ob) \<noteq> 0
                       \<and> fence_val dev (objects s ob) = Some (fence_contents dev q (mmio s))))"

definition fence_inv :: "intel_info \<Rightarrow> fence_state \<Rightarrow> bool" where
  "fence_inv dev s \<longleftrightarrow> num_fence_regs s \<le> 32 \<and> distinct (fence_list s) \<and> (\<forall>q. reg_ok dev s q)"

definition same_setup :: "fence_state \<Rightarrow> fence_state \<Rightarrow> bool" where
  "same_setup s s' \<longleftrightarrow> fence_reg_start s' = fence_reg_start s \<and> num_fence_regs s' = num_fence_regs s"

text \<open>What makes a register keep its agreement: its own fields stay, and so does what it describes.\<close>

lemma reg_ok_cong:
  assumes "reg_ok dev s q" "same_setup s s'"
    and "reg_obj (fence_regs s' q) = reg_obj (fence_regs s q)"
    and "q < num_fence_regs s \<Longrightarrow> fence_contents dev q (mmio s') = fence_contents dev q (mmio s)"
    and "q \<in> set (fence_list s') \<longleftrightarrow> q \<in> set (fence_list s)"
    and "\<And>x. fence_reg (objects s' x) = Some q \<longleftrightarrow> fence_reg (objects s x) = Some q"
    and "\<And>x. fence_reg (objects s x) = Some q \<Longrightarrow> gtt_space (objects s x) \<noteq> None \<Longrightarrow> gtt_space (objects s' x) \<noteq> None"
    and "\<And>x. fence_reg (objects s x) = Some q \<Longrightarrow> \<not> fence_dirty (objects s' x) \<Longrightarrow>
           \<not> fence_dirty (objects s x) \<and> tiling_mode (objects s' x) = tiling_mode (objects s x)
           \<and> fence_val dev (objects s' x) = fence_val dev (objects s x)"
  shows "reg_ok dev s' q"
proof (cases "reg_obj (fence_regs s q)")
  case None
  then show ?thesis using assms(1-6) by (auto simp: reg_ok_def same_setup_def)
next
  case (Some ob)
  then have r: "fence_reg (objects s ob) = Some q" using assms(1) by (auto simp: reg_ok_def)
  have "fence_dirty (objects s' ob) \<or> tiling_mode (objects s' ob) \<noteq> 0 \<and> fence_val dev (objects s' ob) = Some (fence_contents dev q (mmio s'))"
    using assms(1,4) assms(8) [OF r] Some by (auto simp: reg_ok_def)
  then show ?thesis
    using assms(1-6) assms(7) [OF r] Some by (auto simp: reg_ok_def same_setup_def)
qed

lemma upd_object_sels [simp]:
  "objects (upd_object ob f s) = (objects s)(ob := f (objects s ob))"
  "fence_regs (upd_object ob f s) = fence_regs s" "fence_list (upd_object ob f s) = fence_list s"
  "mmio (upd_object ob f s) = mmio s" "fence_reg_start (upd_object ob f s) = fence_reg_start s"
  "num_fence_regs (upd_object ob f s) = num_fence_regs s"
  by (simp_all add: upd_object_def)

lemma upd_reg_sels [simp]:
  "fence_regs (upd_reg r f s) = (fence_regs s)(r := f (fence_regs s r))"
  "objects (upd_reg r f s) = objects s" "fence_list (upd_reg r f s) = fence_list s"
  "mmio (upd_reg r f s) = mmio s" "fence_reg_start (upd_reg r f s) = fence_reg_start s"
  "num_fence_regs (upd_reg r f s) = num_fence_regs s"
  by (simp_all add: upd_reg_def)

lemma lru_move_tail_sels [simp]:
  "fence_list (lru_move_tail r s) = remove1 r (fence_list s) @ [r]"
  "fence_regs (lru_move_tail r s) = fence_regs s" "objects (lru_move_tail r s) = objects s"
  "mmio (lru_move_tail r s) = mmio s" "fence_reg_start (lru_move_tail r s) = fence_reg_start s"
  "num_fence_regs (lru_move_tail r s) = num_fence_regs s"
  by (simp_all add: lru_move_tail_def)

lemma release_mmap_fields [simp]:
  "fence_reg (i915_gem_release_mmap x) = fence_reg x" "fence_dirty (i915_gem_release_mmap x) = fence_dirty x"
  "tiling_mode (i915_gem_release_mmap x) = tiling_mode x" "gtt_space (i915_gem_release_mmap x) = gtt_space x"
  "fence_val dev (i915_gem_release_mmap x) = fence_val dev x" "last_fenced_seqno (i915_gem_release_mmap x) = last_fenced_seqno x"
  "fenced_gpu_access (i915_gem_release_mmap x) = fenced_gpu_access x" "pin_count (i915_gem_release_mmap x) = pin_count x"
  by (simp_all add: i915_gem_release_mmap_def)

text \<open>
  The one writer of registers, on a state that agrees everywhere but at the register \<open>r\<close>, which belongs at most to
  the object.
\<close>

lemma update_fence_result:
  assumes "gen_ok dev" "num_fence_regs s \<le> 32" "distinct (fence_list s)" "\<forall>q. q \<noteq> r \<longrightarrow> reg_ok dev s q"
    and r: "fence_reg_start s \<le> r" "r < num_fence_regs s"
    and ob: "fence_reg (objects s ob) \<in> {None, Some r}" "\<And>x. fence_reg (objects s x) = Some r \<Longrightarrow> x = ob"
    and en: "enable \<Longrightarrow> gtt_space (objects s ob) \<noteq> None \<and> tiling_mode (objects s ob) \<noteq> 0"
  shows "\<exists>s'. i915_gem_object_update_fence dev ob r enable s = Some s' \<and> fence_inv dev s' \<and> same_setup s s'
    \<and> objects s' = (objects s)(ob := (objects s ob)\<lparr>fence_reg := (if enable then Some r else None), fence_dirty := False\<rparr>)
    \<and> fence_regs s' = (fence_regs s)(r := (fence_regs s r)\<lparr>reg_obj := (if enable then Some ob else None)\<rparr>)
    \<and> fence_list s' = remove1 r (fence_list s) @ (if enable then [r] else [])"
proof -
  define x where "x = (if enable then Some (objects s ob) else None)"
  have "r < 32" using r assms(2) by simp
  moreover have "case x of None \<Rightarrow> True | Some x \<Rightarrow> gtt_space x \<noteq> None"
    using en by (auto simp: x_def)
  ultimately obtain ws where ws: "fence_writes dev r x = Some ws"
      "case x of None \<Rightarrow> fence_contents dev r (I915_WRITE ws (mmio s)) = 0
       | Some x \<Rightarrow> fence_val dev x = Some (fence_contents dev r (I915_WRITE ws (mmio s)))"
      "\<forall>q < 32. q \<noteq> r \<longrightarrow> fence_contents dev q (I915_WRITE ws (mmio s)) = fence_contents dev q (mmio s)"
    using fence_writes_result [OF assms(1), of r x "mmio s"] by blast
  define s' where "s' = s\<lparr>mmio := I915_WRITE ws (mmio s),
      objects := (objects s)(ob := (objects s ob)\<lparr>fence_reg := (if enable then Some r else None), fence_dirty := False\<rparr>),
      fence_regs := (fence_regs s)(r := (fence_regs s r)\<lparr>reg_obj := (if enable then Some ob else None)\<rparr>),
      fence_list := remove1 r (fence_list s) @ (if enable then [r] else [])\<rparr>"
  have e: "i915_gem_object_update_fence dev ob r enable s = Some s'"
    using ws(1) by (cases enable) (simp_all add: x_def s'_def i915_gem_object_update_fence_def i915_gem_write_fence_def
        upd_object_def upd_reg_def lru_move_tail_def Let_def)
  have other: "reg_ok dev s' q" if "q \<noteq> r" for q
  proof (rule reg_ok_cong)
    show "reg_ok dev s q" using assms(4) that by simp
    show "q \<in> set (fence_list s') \<longleftrightarrow> q \<in> set (fence_list s)" using that assms(3) by (auto simp: s'_def)
    show "fence_reg (objects s' x) = Some q \<longleftrightarrow> fence_reg (objects s x) = Some q" for x
      using that ob(1) by (auto simp: s'_def)
  qed (use that ob(1) ws(3) assms(2) in \<open>auto simp: s'_def same_setup_def split: if_splits\<close>)
  have here: "reg_ok dev s' r"
    using r ws(2) en ob(2) assms(3) by (cases enable) (auto simp: s'_def reg_ok_def x_def)
  have "num_fence_regs s' \<le> 32" "distinct (fence_list s')"
    using assms(2,3) by (auto simp: s'_def)
  moreover have "reg_ok dev s' q" for q
    using other here by (cases "q = r") auto
  ultimately have "fence_inv dev s'"
    by (simp add: fence_inv_def)
  then show ?thesis
    using e by (auto simp: s'_def same_setup_def)
qed


lemma fence_inv_own:
  assumes "fence_inv dev s" "fence_reg (objects s ob) = Some r"
  shows "reg_obj (fence_regs s r) = Some ob" "fence_reg_start s \<le> r" "r < num_fence_regs s" "r \<in> set (fence_list s)"
    "gtt_space (objects s ob) \<noteq> None"
    "fence_dirty (objects s ob) \<or> tiling_mode (objects s ob) \<noteq> 0 \<and> fence_val dev (objects s ob) = Some (fence_contents dev r (mmio s))"
proof -
  have "reg_ok dev s r" using assms(1) by (simp add: fence_inv_def)
  then show "reg_obj (fence_regs s r) = Some ob" "fence_reg_start s \<le> r" "r < num_fence_regs s" "r \<in> set (fence_list s)"
    "gtt_space (objects s ob) \<noteq> None"
    "fence_dirty (objects s ob) \<or> tiling_mode (objects s ob) \<noteq> 0 \<and> fence_val dev (objects s ob) = Some (fence_contents dev r (mmio s))"
    using assms(2) by (auto simp: reg_ok_def split: option.splits)
qed

lemma fence_inv_reg:
  assumes "fence_inv dev s" "reg_obj (fence_regs s r) = Some ob"
  shows "fence_reg (objects s ob) = Some r"
  using assms by (auto simp: fence_inv_def reg_ok_def split: option.splits dest: spec [of _ r])

lemma fence_list_iff:
  assumes "fence_inv dev s"
  shows "r \<in> set (fence_list s) \<longleftrightarrow> reg_obj (fence_regs s r) \<noteq> None"
  using assms by (auto simp: fence_inv_def reg_ok_def split: option.splits dest: spec [of _ r])

text \<open>Changes that leave the fences and what they describe alone.\<close>

lemma fence_inv_cong:
  assumes "fence_inv dev s" "same_setup s s'" "fence_regs s' = fence_regs s" "mmio s' = mmio s"
    and "distinct (fence_list s')" "set (fence_list s') = set (fence_list s)"
    and "\<And>x. fence_reg (objects s' x) = fence_reg (objects s x)"
    and "\<And>x. fence_reg (objects s x) \<noteq> None \<Longrightarrow> gtt_space (objects s' x) = gtt_space (objects s x)"
    and "\<And>x. fence_reg (objects s x) \<noteq> None \<Longrightarrow> \<not> fence_dirty (objects s' x) \<Longrightarrow>
           \<not> fence_dirty (objects s x) \<and> tiling_mode (objects s' x) = tiling_mode (objects s x)
           \<and> fence_val dev (objects s' x) = fence_val dev (objects s x)"
  shows "fence_inv dev s'"
proof -
  have "reg_ok dev s' q" for q
    by (rule reg_ok_cong [of dev s]) (use assms in \<open>auto simp: fence_inv_def\<close>)
  then show ?thesis using assms(1,2,5) by (simp add: fence_inv_def same_setup_def)
qed

lemma move_tail_inv:
  assumes "fence_inv dev s" "r \<in> set (fence_list s)"
  shows "fence_inv dev (lru_move_tail r s)"
  using assms by (intro fence_inv_cong [OF assms(1)]) (auto simp: same_setup_def fence_inv_def)

text \<open>An object after waiting for its last fenced use.\<close>

definition idle :: "i915_obj \<Rightarrow> i915_obj" where
  "idle x = x\<lparr>last_fenced_seqno := 0, fenced_gpu_access := False\<rparr>"

lemma idle_fields [simp]:
  "fence_reg (idle x) = fence_reg x" "fence_dirty (idle x) = fence_dirty x" "tiling_mode (idle x) = tiling_mode x"
  "gtt_space (idle x) = gtt_space x" "fence_val dev (idle x) = fence_val dev x" "pin_count (idle x) = pin_count x"
  "gtt_mmap (idle x) = gtt_mmap x"
  by (simp_all add: idle_def)

lemma wait_fence_cases:
  obtains (error) n where "n \<noteq> 0" "i915_gem_object_wait_fence wait ob s = (n, s)"
  | (ok) "i915_gem_object_wait_fence wait ob s = (0, upd_object ob idle s)"
  unfolding i915_gem_object_wait_fence_def idle_def [abs_def]
  by (cases "last_fenced_seqno (objects s ob) \<noteq> 0 \<and> wait (last_fenced_seqno (objects s ob)) \<noteq> 0") simp_all

lemma idle_inv:
  assumes "fence_inv dev s"
  shows "fence_inv dev (upd_object ob idle s)"
  using assms by (intro fence_inv_cong [OF assms(1)]) (auto simp: same_setup_def fence_inv_def)

text \<open>Losing the fence of an object.\<close>

definition lost :: "i915_obj \<Rightarrow> i915_obj" where
  "lost x = (if tiling_mode x \<noteq> 0 then i915_gem_release_mmap x else x)\<lparr>fence_dirty := False, fence_reg := None\<rparr>"

lemma lost_fields [simp]:
  "fence_reg (lost x) = None" "\<not> fence_dirty (lost x)" "tiling_mode (lost x) = tiling_mode x" "gtt_space (lost x) = gtt_space x"
  "gtt_mmap (lost x) \<longleftrightarrow> gtt_mmap x \<and> tiling_mode x = 0" "last_fenced_seqno (lost x) = last_fenced_seqno x"
  "fenced_gpu_access (lost x) = fenced_gpu_access x" "pin_count (lost x) = pin_count x"
  by (auto simp: lost_def i915_gem_release_mmap_def)

lemma fence_lost_eq: "i915_gem_object_fence_lost ob s = upd_object ob lost s"
  by (simp add: i915_gem_object_fence_lost_def lost_def [abs_def])

lemma lost_others:
  assumes "fence_inv dev s" "fence_reg (objects s ob) = Some r" "q \<noteq> r"
  shows "reg_ok dev (upd_object ob lost s) q"
  by (rule reg_ok_cong [of dev s]) (use assms in \<open>auto simp: fence_inv_def same_setup_def\<close>)

text \<open>Putting a fence.\<close>

lemma put_fence_result:
  assumes inv: "fence_inv dev s" and gen: "gen_ok dev"
  shows "\<exists>ret s'. i915_gem_object_put_fence dev wait ob s = Some (ret, s') \<and> fence_inv dev s' \<and> same_setup s s' \<and>
    (ret \<noteq> 0 \<longrightarrow> s' = s) \<and>
    (ret = 0 \<longrightarrow> (case fence_reg (objects s ob) of
        None \<Rightarrow> s' = upd_object ob idle s
      | Some r \<Rightarrow> objects s' = (objects s)(ob := lost (idle (objects s ob)))
                  \<and> fence_regs s' = (fence_regs s)(r := (fence_regs s r)\<lparr>reg_obj := None\<rparr>)
                  \<and> fence_list s' = remove1 r (fence_list s)))"
proof (rule wait_fence_cases [of wait ob s])
  fix n assume "n \<noteq> 0" "i915_gem_object_wait_fence wait ob s = (n, s)"
  then show ?thesis using inv by (simp add: i915_gem_object_put_fence_def same_setup_def)
next
  let ?s = "upd_object ob idle s"
  assume w: "i915_gem_object_wait_fence wait ob s = (0, ?s)"
  have inv': "fence_inv dev ?s"
    using idle_inv [OF inv] .
  show ?thesis
  proof (cases "fence_reg (objects s ob)")
    case None
    then show ?thesis using w inv' by (simp add: i915_gem_object_put_fence_def same_setup_def)
  next
    case (Some r)
    then have r: "fence_reg (objects ?s ob) = Some r" by simp
    note own = fence_inv_own [OF inv' r]
    have "\<exists>s'. i915_gem_object_update_fence dev ob r False (upd_object ob lost ?s) = Some s' \<and> fence_inv dev s' \<and> same_setup (upd_object ob lost ?s) s'
        \<and> objects s' = (objects (upd_object ob lost ?s))(ob := (objects (upd_object ob lost ?s) ob)\<lparr>fence_reg := (if False then Some r else None), fence_dirty := False\<rparr>)
        \<and> fence_regs s' = (fence_regs (upd_object ob lost ?s))(r := (fence_regs (upd_object ob lost ?s) r)\<lparr>reg_obj := (if False then Some ob else None)\<rparr>)
        \<and> fence_list s' = remove1 r (fence_list (upd_object ob lost ?s)) @ (if False then [r] else [])"
    proof (rule update_fence_result)
      show "\<forall>q. q \<noteq> r \<longrightarrow> reg_ok dev (upd_object ob lost ?s) q"
        using lost_others [OF inv' r] by blast
      show "x = ob" if "fence_reg (objects (upd_object ob lost ?s) x) = Some r" for x
        using that inv' r own(1) fence_inv_own(1) [OF inv', of x r] by (auto split: if_splits)
    qed (use gen inv' own in \<open>auto simp: fence_inv_def\<close>)
    moreover have "(lost (idle (objects s ob)))\<lparr>fence_reg := None, fence_dirty := False\<rparr> = lost (idle (objects s ob))"
      by (simp add: lost_def)
    ultimately show ?thesis
      using w Some by (auto simp: i915_gem_object_put_fence_def fence_lost_eq same_setup_def)
  qed
qed


lemma put_fence_lost:
  assumes "fence_inv dev s" "gen_ok dev"
  shows "\<exists>ret s'. i915_gem_object_put_fence dev wait ob s = Some (ret, s') \<and> fence_inv dev s' \<and>
    (ret = 0 \<longrightarrow> fence_reg (objects s' ob) = None)"
proof -
  obtain ret s' where g: "i915_gem_object_put_fence dev wait ob s = Some (ret, s')" "fence_inv dev s'"
    and r: "ret = 0 \<longrightarrow> (case fence_reg (objects s ob) of
        None \<Rightarrow> s' = upd_object ob idle s
      | Some r \<Rightarrow> objects s' = (objects s)(ob := lost (idle (objects s ob)))
                  \<and> fence_regs s' = (fence_regs s)(r := (fence_regs s r)\<lparr>reg_obj := None\<rparr>)
                  \<and> fence_list s' = remove1 r (fence_list s))"
    using put_fence_result [OF assms, of wait ob] by blast
  have "ret = 0 \<longrightarrow> fence_reg (objects s' ob) = None"
    using r by (cases "fence_reg (objects s ob)") auto
  then show ?thesis using g by blast
qed

section \<open>Choosing a register\<close>

lemma find_free_reg_result:
  "case find_free_reg F js av of
     Inr r \<Rightarrow> \<exists>pre post. js = pre @ r # post \<and> reg_obj (F r) = None \<and> (\<forall>q \<in> set pre. reg_obj (F q) \<noteq> None)
   | Inl a \<Rightarrow> (\<forall>q \<in> set js. reg_obj (F q) \<noteq> None) \<and> (a = None \<longleftrightarrow> av = None \<and> (\<forall>q \<in> set js. reg_pin (F q) \<noteq> 0))"
proof (induction "js" arbitrary: av)
  case (Cons i "js")
  show ?case
  proof (cases "reg_obj (F i) = None")
    case True
    then show ?thesis by (simp add: exI [of _ "[]"])
  next
    case False
    let ?av = "if reg_pin (F i) = 0 then Some i else av"
    have step: "find_free_reg F (i # js) av = find_free_reg F js ?av" using False by auto
    show ?thesis
    proof (cases "find_free_reg F js ?av")
      case (Inl a)
      then show ?thesis using Cons.IH [of ?av] False unfolding step by auto
    next
      case (Inr r)
      then obtain pre post where "js = pre @ r # post" "reg_obj (F r) = None" "\<forall>q \<in> set pre. reg_obj (F q) \<noteq> None"
        using Cons.IH [of ?av] by auto
      then have "i # js = (i # pre) @ r # post \<and> reg_obj (F r) = None \<and> (\<forall>q \<in> set (i # pre). reg_obj (F q) \<noteq> None)"
        using False by simp
      then show ?thesis unfolding step Inr sum.case by blast
    qed
  qed
qed simp

text \<open>The register that a new fence gets: the lowest free one, or the one used least recently that is not pinned.\<close>

definition fence_choice :: "fence_state \<Rightarrow> nat \<Rightarrow> bool" where
  "fence_choice s r \<longleftrightarrow>
     (if \<exists>q \<in> {fence_reg_start s ..< num_fence_regs s}. reg_obj (fence_regs s q) = None
      then reg_obj (fence_regs s r) = None \<and> (\<forall>q \<in> {fence_reg_start s ..< r}. reg_obj (fence_regs s q) \<noteq> None)
      else \<exists>pre post. fence_list s = pre @ r # post \<and> reg_pin (fence_regs s r) = 0 \<and> (\<forall>q \<in> set pre. reg_pin (fence_regs s q) \<noteq> 0))"

definition all_pinned :: "fence_state \<Rightarrow> bool" where
  "all_pinned s \<longleftrightarrow> (\<forall>q \<in> {fence_reg_start s ..< num_fence_regs s}. reg_obj (fence_regs s q) \<noteq> None \<and> reg_pin (fence_regs s q) \<noteq> 0)"

lemma fence_choice_pin: "fence_choice s r \<Longrightarrow> reg_obj (fence_regs s r) \<noteq> None \<Longrightarrow> reg_pin (fence_regs s r) = 0"
  by (auto simp: fence_choice_def split: if_splits)

lemma upt_split:
  assumes "[a..<b] = pre @ r # post"
  shows "a \<le> r" "r < b" "set pre = {a..<r}"
proof -
  have l: "b - a = length pre + Suc (length post)" using arg_cong [OF assms, of length] by simp
  have r: "r = a + length pre" using arg_cong [OF assms, of "\<lambda>l. l ! length pre"] l by simp
  then show "a \<le> r" "r < b" using l by auto
  have "pre = take (length pre) [a..<b]" by (simp add: assms)
  also have "\<dots> = [a..<r]" using l r by simp
  finally show "set pre = {a..<r}" by (metis set_upt)
qed

lemma find_fence_reg_result:
  assumes inv: "fence_inv dev s"
  shows "case i915_find_fence_reg s of
      None \<Rightarrow> all_pinned s
    | Some r \<Rightarrow> \<not> all_pinned s \<and> fence_reg_start s \<le> r \<and> r < num_fence_regs s \<and> fence_choice s r"
proof -
  let ?is = "[fence_reg_start s ..< num_fence_regs s]"
  note f = find_free_reg_result [where F = "fence_regs s" and js = ?is and av = None]
  show ?thesis
  proof (cases "find_free_reg (fence_regs s) ?is None")
    case (Inr r)
    then obtain pre post where p: "?is = pre @ r # post" "reg_obj (fence_regs s r) = None" "\<forall>q \<in> set pre. reg_obj (fence_regs s q) \<noteq> None"
      using f by auto
    have r: "fence_reg_start s \<le> r" "r < num_fence_regs s" "set pre = {fence_reg_start s..<r}"
      using upt_split [OF p(1)] by auto
    then have "fence_choice s r"
      using p(2,3) bexI [of "\<lambda>q. reg_obj (fence_regs s q) = None" r "{fence_reg_start s..<num_fence_regs s}"]
      unfolding fence_choice_def by (simp del: not_None_eq)
    moreover have "\<not> all_pinned s" using r p(2) by (auto simp: all_pinned_def)
    ultimately show ?thesis
      using r Inr by (simp add: i915_find_fence_reg_def)
  next
    case (Inl a)
    then have used: "\<forall>q \<in> {fence_reg_start s ..< num_fence_regs s}. reg_obj (fence_regs s q) \<noteq> None"
      and a: "a = None \<longleftrightarrow> (\<forall>q \<in> {fence_reg_start s ..< num_fence_regs s}. reg_pin (fence_regs s q) \<noteq> 0)"
      using f by auto
    show ?thesis
    proof (cases a)
      case None
      then show ?thesis using Inl used a by (auto simp: i915_find_fence_reg_def all_pinned_def)
    next
      case (Some q)
      then obtain q where q: "q \<in> {fence_reg_start s ..< num_fence_regs s}" "reg_pin (fence_regs s q) = 0"
        using a by auto
      then have "q \<in> set (fence_list s)" using used fence_list_iff [OF inv] by auto
      then obtain pre r post where l: "fence_list s = pre @ r # post" "reg_pin (fence_regs s r) = 0" "\<forall>q \<in> set pre. reg_pin (fence_regs s q) \<noteq> 0"
        using q(2) split_list_first_prop [of "fence_list s" "\<lambda>q. reg_pin (fence_regs s q) = 0"] by blast
      have fd: "find (\<lambda>r. reg_pin (fence_regs s r) = 0) (fence_list s) = Some r"
        unfolding l(1) using l(2,3) by (induction pre) auto
      have "reg_obj (fence_regs s r) \<noteq> None" using l(1) fence_list_iff [OF inv, of r] by auto
      then have "fence_reg_start s \<le> r" "r < num_fence_regs s"
        using fence_inv_own [OF inv] fence_inv_reg [OF inv] by blast+
      moreover have "\<not> all_pinned s" using q by (auto simp: all_pinned_def)
      moreover have "fence_choice s r" using used l by (auto simp: fence_choice_def)
      ultimately show ?thesis using Inl Some fd by (simp add: i915_find_fence_reg_def)
    qed
  qed
qed


section \<open>Getting a fence\<close>

text \<open>The state after an object got the register \<open>r\<close>: the previous user loses it, all others are as before.\<close>

definition assigned :: "fence_state \<Rightarrow> nat \<Rightarrow> nat \<Rightarrow> fence_state \<Rightarrow> bool" where
  "assigned s ob r s' \<longleftrightarrow>
     fence_reg (objects s' ob) = Some r \<and> \<not> fence_dirty (objects s' ob)
     \<and> tiling_mode (objects s' ob) = tiling_mode (objects s ob) \<and> gtt_space (objects s' ob) = gtt_space (objects s ob)
     \<and> (\<forall>p. p \<noteq> ob \<longrightarrow> objects s' p = (if reg_obj (fence_regs s r) = Some p then lost (idle (objects s p)) else objects s p))
     \<and> fence_regs s' = (fence_regs s)(r := (fence_regs s r)\<lparr>reg_obj := Some ob\<rparr>)
     \<and> fence_list s' = remove1 r (fence_list s) @ [r]"

lemma assign_free:
  assumes inv: "fence_inv dev s" and gen: "gen_ok dev"
    and ob: "fence_reg (objects s ob) = None" "tiling_mode (objects s ob) \<noteq> 0" "gtt_space (objects s ob) \<noteq> None"
    and r: "fence_reg_start s \<le> r" "r < num_fence_regs s"
  shows "(\<exists>n. n \<noteq> 0 \<and> release_old wait r s = (n, s) \<and> (\<exists>k. n = wait k)) \<or>
    (\<exists>s1 s'. release_old wait r s = (0, s1) \<and> i915_gem_object_update_fence dev ob r True s1 = Some s'
       \<and> fence_inv dev s' \<and> same_setup s s' \<and> assigned s ob r s')"
proof (cases "reg_obj (fence_regs s r)")
  case None
  then have "\<And>x. fence_reg (objects s x) \<noteq> Some r" using inv by (auto simp: fence_inv_def reg_ok_def dest: spec [of _ r])
  then show ?thesis
    using update_fence_result [OF gen, of s r ob True] inv ob r None
    by (auto simp: fence_inv_def release_old_def assigned_def)
next
  case (Some old)
  then have old: "fence_reg (objects s old) = Some r" using fence_inv_reg [OF inv] by simp
  then have ne: "old \<noteq> ob" using ob(1) by auto
  let ?s = "upd_object old lost (upd_object old idle s)"
  show ?thesis
  proof (rule wait_fence_cases [of wait old s])
    fix n assume n: "n \<noteq> 0" "i915_gem_object_wait_fence wait old s = (n, s)"
    then have "n = wait (last_fenced_seqno (objects s old))" by (auto simp: i915_gem_object_wait_fence_def split: if_splits)
    then show ?thesis using n Some by (auto simp: release_old_def)
  next
    assume w: "i915_gem_object_wait_fence wait old s = (0, upd_object old idle s)"
    have inv1: "fence_inv dev (upd_object old idle s)" by (rule idle_inv [OF inv])
    have others: "\<forall>q. q \<noteq> r \<longrightarrow> reg_ok dev ?s q"
      using lost_others [OF inv1, of old r] old by simp
    have "fence_reg (objects s x) \<noteq> Some r" if "x \<noteq> old" for x
      using that fence_inv_own(1) [OF inv, of x r] Some by auto
    then have "\<exists>s'. i915_gem_object_update_fence dev ob r True ?s = Some s' \<and> fence_inv dev s' \<and> same_setup ?s s'
      \<and> objects s' = (objects ?s)(ob := (objects ?s ob)\<lparr>fence_reg := (if True then Some r else None), fence_dirty := False\<rparr>)
      \<and> fence_regs s' = (fence_regs ?s)(r := (fence_regs ?s r)\<lparr>reg_obj := (if True then Some ob else None)\<rparr>)
      \<and> fence_list s' = remove1 r (fence_list ?s) @ (if True then [r] else [])"
      using ne ob r inv others by (intro update_fence_result [OF gen]) (auto simp: fence_inv_def split: if_splits)
    then show ?thesis
      using w Some ne by (auto simp: release_old_def fence_lost_eq assigned_def same_setup_def)
  qed
qed

lemma assigned_cong:
  assumes "assigned s1 ob r s'" "fence_regs s1 = fence_regs s" "fence_list s1 = fence_list s"
    and "\<And>p. p \<noteq> ob \<Longrightarrow> objects s1 p = objects s p"
    and "tiling_mode (objects s1 ob) = tiling_mode (objects s ob)" "gtt_space (objects s1 ob) = gtt_space (objects s ob)"
  shows "assigned s ob r s'"
  using assms by (simp add: assigned_def)

text \<open>When the chip has to be waited for and the waiting fails, or when no register can be had, nothing changes but the mark of the wait.\<close>

definition unchanged :: "fence_state \<Rightarrow> nat \<Rightarrow> fence_state \<Rightarrow> bool" where
  "unchanged s ob s' \<longleftrightarrow> s' = s \<or> s' = upd_object ob idle s"

lemma get_fence_result:
  assumes inv: "fence_inv dev s" and gen: "gen_ok dev" and bound: "gtt_space (objects s ob) \<noteq> None"
  shows "\<exists>ret s'. i915_gem_object_get_fence dev wait ob s = Some (ret, s') \<and> fence_inv dev s' \<and> same_setup s s' \<and>
    (ret \<noteq> 0 \<longrightarrow> unchanged s ob s' \<and> ((\<exists>n. ret = wait n)
       \<or> ret = - EDEADLK \<and> fence_reg (objects s ob) = None \<and> tiling_mode (objects s ob) \<noteq> 0 \<and> all_pinned s)) \<and>
    (ret = 0 \<longrightarrow> (if tiling_mode (objects s ob) = 0 then fence_reg (objects s' ob) = None
       else \<exists>r. assigned s ob r s' \<and> (fence_reg (objects s ob) = Some r \<or>
              fence_reg (objects s ob) = None \<and> \<not> all_pinned s \<and> fence_choice s r)))"
proof -
  define w where "w = (if fence_dirty (objects s ob) then i915_gem_object_wait_fence wait ob s else (0, s))"
  let ?enable = "tiling_mode (objects s ob) \<noteq> 0"
  have "(\<exists>n. n \<noteq> 0 \<and> w = (n, s) \<and> (\<exists>k. n = wait k)) \<or> (\<exists>s1. w = (0, s1) \<and> unchanged s ob s1)"
    unfolding w_def unchanged_def
    by (cases rule: wait_fence_cases [of wait ob s]) (auto simp: i915_gem_object_wait_fence_def split: if_splits)
  then show ?thesis
  proof (elim disjE exE conjE)
    fix n k assume "n \<noteq> 0" "w = (n, s)" "n = wait k"
    then show ?thesis
      using inv by (auto simp: i915_gem_object_get_fence_def w_def [symmetric] unchanged_def same_setup_def Let_def)
  next
    fix s1 assume w: "w = (0, s1)" and s1: "unchanged s ob s1"
    have same: "fence_regs s1 = fence_regs s" "fence_list s1 = fence_list s" "same_setup s s1"
      "\<And>p. p \<noteq> ob \<Longrightarrow> objects s1 p = objects s p" "tiling_mode (objects s1 ob) = tiling_mode (objects s ob)"
      "gtt_space (objects s1 ob) = gtt_space (objects s ob)" "fence_reg (objects s1 ob) = fence_reg (objects s ob)"
      "fence_dirty (objects s1 ob) = fence_dirty (objects s ob)"
      using s1 by (auto simp: unchanged_def same_setup_def)
    have inv1: "fence_inv dev s1" using s1 idle_inv [OF inv] inv by (auto simp: unchanged_def)
    note as = assigned_cong [of s1 ob _ _ s, OF _ same(1,2,4,5,6)]
    have get: "i915_gem_object_get_fence dev wait ob s =
       (case fence_reg (objects s ob) of
          Some r \<Rightarrow>
            if \<not> fence_dirty (objects s ob) then Some (0, lru_move_tail r s1)
            else do { s \<leftarrow> i915_gem_object_update_fence dev ob r ?enable s1; Some (0, s) }
        | None \<Rightarrow>
            if ?enable
            then (case i915_find_fence_reg s1 of
                    None \<Rightarrow> Some (- EDEADLK, s1)
                  | Some r \<Rightarrow>
                      (case release_old wait r s1 of
                         (ret, s) \<Rightarrow>
                           if ret \<noteq> 0 then Some (ret, s)
                           else do { s \<leftarrow> i915_gem_object_update_fence dev ob r ?enable s; Some (0, s) }))
            else Some (0, s1))"
      by (simp add: i915_gem_object_get_fence_def w_def [symmetric] w same Let_def split: option.splits)
    show ?thesis
    proof (cases "fence_reg (objects s ob)")
      case (Some r)
      then have r1: "fence_reg (objects s1 ob) = Some r" using same by simp
      note own = fence_inv_own [OF inv1 r1]
      show ?thesis
      proof (cases "fence_dirty (objects s ob)")
        case False
        have "fence_regs s1 = (fence_regs s)(r := (fence_regs s r)\<lparr>reg_obj := Some ob\<rparr>)"
          using own(1) same(1) by (auto simp: fun_eq_iff)
        then have "assigned s1 ob r (lru_move_tail r s1)"
          using own same False r1 fence_inv_own(1) [OF inv1] by (auto simp: assigned_def)
        moreover have "?enable" using own(6) same False by simp
        ultimately show ?thesis
          using get Some False move_tail_inv [OF inv1 own(4)] same as by (auto simp: same_setup_def)
      next
        case True
        have "\<exists>s'. i915_gem_object_update_fence dev ob r ?enable s1 = Some s' \<and> fence_inv dev s' \<and> same_setup s1 s'
          \<and> objects s' = (objects s1)(ob := (objects s1 ob)\<lparr>fence_reg := (if ?enable then Some r else None), fence_dirty := False\<rparr>)
          \<and> fence_regs s' = (fence_regs s1)(r := (fence_regs s1 r)\<lparr>reg_obj := (if ?enable then Some ob else None)\<rparr>)
          \<and> fence_list s' = remove1 r (fence_list s1) @ (if ?enable then [r] else [])"
        proof (rule update_fence_result [OF gen])
          show "x = ob" if "fence_reg (objects s1 x) = Some r" for x
            using fence_inv_own(1) [OF inv1 that] own(1) by simp
          show "fence_reg (objects s1 ob) \<in> {None, Some r}" using r1 by simp
          show "gtt_space (objects s1 ob) \<noteq> None \<and> tiling_mode (objects s1 ob) \<noteq> 0" if ?enable
            using that own(5) same(5) by simp
        qed (use inv1 own(2,3) in \<open>simp_all add: fence_inv_def\<close>)
        then obtain s' where u: "i915_gem_object_update_fence dev ob r ?enable s1 = Some s'" "fence_inv dev s'" "same_setup s1 s'"
          "objects s' = (objects s1)(ob := (objects s1 ob)\<lparr>fence_reg := (if ?enable then Some r else None), fence_dirty := False\<rparr>)"
          "fence_regs s' = (fence_regs s1)(r := (fence_regs s1 r)\<lparr>reg_obj := (if ?enable then Some ob else None)\<rparr>)"
          "fence_list s' = remove1 r (fence_list s1) @ (if ?enable then [r] else [])"
          by blast
        have "assigned s1 ob r s'" if ?enable
          using that u own(1) by (auto simp: assigned_def)
        then show ?thesis
          using get Some True u same(3) as by (auto simp: same_setup_def)
      qed
    next
      case None
      show ?thesis
      proof (cases ?enable)
        case False
        then show ?thesis using get None same inv1 s1 by auto
      next
        case True
        have ap: "all_pinned s1 = all_pinned s" "\<And>r. fence_choice s1 r = fence_choice s r"
          by (simp_all only: all_pinned_def fence_choice_def same(1,2)
              same(3) [unfolded same_setup_def, THEN conjunct1] same(3) [unfolded same_setup_def, THEN conjunct2])
        note f = find_fence_reg_result [OF inv1]
        show ?thesis
        proof (cases "i915_find_fence_reg s1")
          case None': None
          then show ?thesis using get None True f ap inv1 s1 same by (auto simp: EDEADLK_def)
        next
          case (Some r)
          then have r: "\<not> all_pinned s" "fence_choice s r" "fence_reg_start s1 \<le> r" "r < num_fence_regs s1"
            using f ap by auto
          have "(\<exists>n. n \<noteq> 0 \<and> release_old wait r s1 = (n, s1) \<and> (\<exists>k. n = wait k)) \<or>
            (\<exists>s2 s'. release_old wait r s1 = (0, s2) \<and> i915_gem_object_update_fence dev ob r True s2 = Some s'
              \<and> fence_inv dev s' \<and> same_setup s1 s' \<and> assigned s1 ob r s')"
            using None True bound same r by (intro assign_free [OF inv1 gen]) auto
          then show ?thesis
            using get None True Some r inv1 s1 same(3) as by (auto simp: same_setup_def intro!: exI [of _ r])
        qed
      qed
    qed
  qed
qed


section \<open>Restoring the registers\<close>

lemma fence_writes_same:
  assumes "gen_ok dev" "r < 32" "fence_writes dev r obj = Some ws"
  shows "fence_contents dev r (I915_WRITE ws m) = fence_contents dev r (I915_WRITE ws m')"
proof -
  have "case obj of None \<Rightarrow> True | Some x \<Rightarrow> gtt_space x \<noteq> None"
    using assms(3) by (cases obj) (auto simp: fence_writes_def i965_write_fence_reg_def i915_write_fence_reg_def i830_write_fence_reg_def
        i965_fence_val_def i915_fence_val_def i830_fence_val_def Let_def split: if_splits option.splits bind_splits)
  from fence_writes_result [OF assms(1,2) this, of m] fence_writes_result [OF assms(1,2) this, of m']
  show ?thesis using assms(3) by (auto split: option.splits)
qed

lemma fence_writes_others:
  assumes "gen_ok dev" "r < 32" "fence_writes dev r obj = Some ws" "q < 32" "q \<noteq> r"
  shows "fence_contents dev q (I915_WRITE ws m) = fence_contents dev q m"
proof -
  have "case obj of None \<Rightarrow> True | Some x \<Rightarrow> gtt_space x \<noteq> None"
    using assms(3) by (cases obj) (auto simp: fence_writes_def i965_write_fence_reg_def i915_write_fence_reg_def i830_write_fence_reg_def
        i965_fence_val_def i915_fence_val_def i830_fence_val_def Let_def split: if_splits option.splits bind_splits)
  from fence_writes_result [OF assms(1,2) this, of m] show ?thesis using assms by auto
qed

text \<open>One step does the same to the bookkeeping whatever the registers held, and makes its register right.\<close>

lemma restore_one_result:
  assumes inv: "fence_inv dev (s\<lparr>mmio := m\<rparr>)" and gen: "gen_ok dev" and i: "i < num_fence_regs s"
  shows "\<exists>s' m'. restore_one dev i s = Some s' \<and> fence_inv dev (s'\<lparr>mmio := m'\<rparr>) \<and> same_setup s s' \<and>
    fence_contents dev i (mmio s') = fence_contents dev i m' \<and>
    (\<forall>q < num_fence_regs s. q \<noteq> i \<longrightarrow> fence_contents dev q (mmio s') = fence_contents dev q (mmio s)
       \<and> fence_contents dev q m' = fence_contents dev q m)"
proof -
  let ?t = "s\<lparr>mmio := m\<rparr>"
  have i32: "i < 32" "num_fence_regs s \<le> 32" using inv i by (auto simp: fence_inv_def)
  show ?thesis
  proof (cases "reg_obj (fence_regs s i)")
    case None
    obtain ws where ws: "fence_writes dev i None = Some ws" and z: "\<And>m. fence_contents dev i (I915_WRITE ws m) = 0"
    proof -
      obtain ws where ws: "fence_writes dev i None = Some ws" "fence_contents dev i (I915_WRITE ws m) = 0"
        using fence_writes_result [OF gen i32(1), of None m] by auto
      then show ?thesis using that fence_writes_same [OF gen i32(1) ws(1), of _ m] by metis
    qed
    have o: "fence_contents dev q (I915_WRITE ws m) = fence_contents dev q m" if "q < num_fence_regs s" "q \<noteq> i" for q m
      using fence_writes_others [OF gen i32(1) ws] that i32(2) by auto
    have "reg_ok dev ?t i" using inv by (simp add: fence_inv_def)
    then have "fence_contents dev i m = 0" using None i by (simp add: reg_ok_def)
    then show ?thesis
      using None ws inv z o
      by (intro exI [of _ "s\<lparr>mmio := I915_WRITE ws (mmio s)\<rparr>"] exI [of _ m])
        (simp add: restore_one_def i915_gem_write_fence_def same_setup_def)
  next
    case (Some ob)
    let ?en = "tiling_mode (objects s ob) \<noteq> 0"
    have r: "fence_reg (objects ?t ob) = Some i" using fence_inv_reg [OF inv, of i ob] Some by simp
    note own = fence_inv_own [OF inv r]
    have "\<exists>s'. i915_gem_object_update_fence dev ob i ?en ?t = Some s' \<and> fence_inv dev s' \<and> same_setup ?t s'
      \<and> objects s' = (objects ?t)(ob := (objects ?t ob)\<lparr>fence_reg := (if ?en then Some i else None), fence_dirty := False\<rparr>)
      \<and> fence_regs s' = (fence_regs ?t)(i := (fence_regs ?t i)\<lparr>reg_obj := (if ?en then Some ob else None)\<rparr>)
      \<and> fence_list s' = remove1 i (fence_list ?t) @ (if ?en then [i] else [])"
    proof (rule update_fence_result [OF gen])
      show "x = ob" if "fence_reg (objects ?t x) = Some i" for x
        using fence_inv_own(1) [OF inv that] own(1) by simp
      show "fence_reg (objects ?t ob) \<in> {None, Some i}" using r by simp
      show "gtt_space (objects ?t ob) \<noteq> None \<and> tiling_mode (objects ?t ob) \<noteq> 0" if ?en
        using that own(5) by simp
    qed (use inv own(2,3) in \<open>simp_all add: fence_inv_def\<close>)
    then obtain t' where t': "i915_gem_object_update_fence dev ob i ?en ?t = Some t'" "fence_inv dev t'" "same_setup ?t t'"
      by blast
    define x where "x = (if ?en then Some (objects s ob) else None)"
    obtain ws where ws: "fence_writes dev i x = Some ws" "mmio t' = I915_WRITE ws m"
      using t'(1) by (auto simp: x_def i915_gem_object_update_fence_def i915_gem_write_fence_def Let_def split: bind_splits if_splits)
    have e: "i915_gem_object_update_fence dev ob i ?en s = Some (t'\<lparr>mmio := I915_WRITE ws (mmio s)\<rparr>)"
      using t'(1) ws by (cases ?en) (auto simp: x_def i915_gem_object_update_fence_def i915_gem_write_fence_def
          upd_object_def upd_reg_def lru_move_tail_def Let_def)
    have "t'\<lparr>mmio := I915_WRITE ws m\<rparr> = t'" using ws(2) by simp
    moreover have "fence_contents dev q (I915_WRITE ws m') = fence_contents dev q m'" if "q < num_fence_regs s" "q \<noteq> i" for q m'
      using fence_writes_others [OF gen i32(1) ws(1)] that i32(2) by auto
    ultimately show ?thesis
      using e t'(2,3) Some fence_writes_same [OF gen i32(1) ws(1)]
      by (intro exI [of _ "t'\<lparr>mmio := I915_WRITE ws (mmio s)\<rparr>"] exI [of _ "I915_WRITE ws m"]) (simp add: restore_one_def same_setup_def)
  qed
qed

text \<open>Whatever the registers held before, restoring makes them agree with the bookkeeping.\<close>

lemma restore_loop_result:
  assumes "fence_inv dev (s\<lparr>mmio := m\<rparr>)" "gen_ok dev" "n \<le> num_fence_regs s"
    and "\<forall>q < n. fence_contents dev q (mmio s) = fence_contents dev q m"
  shows "\<exists>s'. restore_loop dev [n ..< num_fence_regs s] s = Some s' \<and> fence_inv dev s' \<and> same_setup s s'"
  using assms
proof (induction "num_fence_regs s - n" arbitrary: s m n)
  case 0
  have "reg_ok dev s q" for q
  proof (rule reg_ok_cong)
    show "reg_ok dev (s\<lparr>mmio := m\<rparr>) q" using "0.prems"(1) by (simp add: fence_inv_def)
  qed (use 0 in \<open>simp_all add: same_setup_def\<close>)
  then have "fence_inv dev s" using "0.prems"(1) by (simp add: fence_inv_def)
  then show ?case using 0 by (simp add: same_setup_def)
next
  case (Suc k)
  then have n: "n < num_fence_regs s" by simp
  obtain s' m' where s': "restore_one dev n s = Some s'" "fence_inv dev (s'\<lparr>mmio := m'\<rparr>)" "same_setup s s'"
      "fence_contents dev n (mmio s') = fence_contents dev n m'"
      "\<forall>q < num_fence_regs s. q \<noteq> n \<longrightarrow> fence_contents dev q (mmio s') = fence_contents dev q (mmio s)
         \<and> fence_contents dev q m' = fence_contents dev q m"
    using restore_one_result [OF Suc.prems(1,2) n] by blast
  have num: "num_fence_regs s' = num_fence_regs s" using s'(3) by (simp add: same_setup_def)
  have "\<forall>q < Suc n. fence_contents dev q (mmio s') = fence_contents dev q m'"
    using s'(4,5) Suc.prems(4) n by (metis less_SucE less_trans)
  then have "\<exists>s''. restore_loop dev [Suc n ..< num_fence_regs s'] s' = Some s'' \<and> fence_inv dev s'' \<and> same_setup s' s''"
    using Suc.hyps(2) n num by (intro Suc.hyps(1) [OF _ s'(2) Suc.prems(2)]) auto
  moreover have "[n ..< num_fence_regs s] = n # [Suc n ..< num_fence_regs s]" using n by (simp add: upt_conv_Cons)
  ultimately show ?case using s'(1,3) num by (auto simp: same_setup_def)
qed

lemma restore_fences_inv:
  assumes "fence_inv dev s" "gen_ok dev"
  shows "\<exists>s'. i915_gem_restore_fences dev (s\<lparr>mmio := m\<rparr>) = Some s' \<and> fence_inv dev s' \<and> same_setup s s'"
  using restore_loop_result [where dev = dev and s = "s\<lparr>mmio := m\<rparr>" and m = "mmio s" and n = 0] assms
  by (simp add: i915_gem_restore_fences_def same_setup_def)

definition no_fences :: "fence_state \<Rightarrow> bool" where
  "no_fences s \<longleftrightarrow> (\<forall>q. reg_obj (fence_regs s q) = None) \<and> (\<forall>x. fence_reg (objects s x) = None)"

lemma load_fences_inv:
  assumes "no_fences s" "gen_ok dev"
  shows "\<exists>s'. load_fences dev i945 modeset s = Some s' \<and> fence_inv dev s'"
proof -
  define t where "t = s\<lparr>fence_reg_start := (if \<not> modeset then 3 else fence_reg_start s),
      num_fence_regs := (if gen dev \<ge> 7 \<and> \<not> is_valleyview dev then 32 else if gen dev \<ge> 4 \<or> i945 \<or> is_g33 dev then 16 else 8),
      fence_list := []\<rparr>"
  have "fence_inv dev (t\<lparr>mmio := \<lambda>_. 0\<rparr>)"
    using assms(1) by (auto simp: fence_inv_def t_def reg_ok_def no_fences_def fence_contents_def)
  from restore_fences_inv [OF this assms(2), of "mmio s"] show ?thesis
    by (auto simp: load_fences_def t_def Let_def)
qed


section \<open>Every sequence of operations\<close>

text \<open>
  What happens to fences and objects while the driver runs. Changing the tiling is the whole ioctl on an object that need not be
  unbound for it; one that must be is unbound first, which is a step of its own. A reset of the chip leaves any contents
  in the registers.
\<close>

inductive fence_step :: "intel_info \<Rightarrow> fence_state \<Rightarrow> fence_state \<Rightarrow> bool" for dev where
  get: "gtt_space (objects s ob) \<noteq> None \<Longrightarrow> i915_gem_object_get_fence dev wait ob s = Some (ret, s') \<Longrightarrow> fence_step dev s s'"
| put: "i915_gem_object_put_fence dev wait ob s = Some (ret, s') \<Longrightarrow> fence_step dev s s'"
| pin: "fence_step dev s (snd (i915_gem_object_pin_fence ob s))"
| unpin: "fence_step dev s (i915_gem_object_unpin_fence ob s)"
| bind: "gtt_space (objects s ob) = None \<Longrightarrow>
    fence_step dev s (upd_object ob (\<lambda>x. x\<lparr>gtt_space := Some space, gtt_offset := offset, map_and_fenceable := mf\<rparr>) s)"
| unbind: "unbind_fence dev wait finish ob s = Some (ret, s') \<Longrightarrow> fence_step dev s s'"
| tile: "i915_gem_set_tiling dev swizzle mappable_end (\<lambda>x. (- EBUSY, x)) bits args (Some (objects s ob)) = Some (ret, args', Some x) \<Longrightarrow>
    fence_step dev s (upd_object ob (\<lambda>_. x) s)"
| execute: "fence_step dev s (active_fence seqno ob (upd_object ob (\<lambda>x. x\<lparr>fenced_gpu_access := fenced\<rparr>) s))"
| retire: "fence_step dev s (inactive_fence ob s)"
| reset: "i915_gem_restore_fences dev (s\<lparr>mmio := m\<rparr>) = Some s' \<Longrightarrow> fence_step dev s s'"

lemma retile_fence:
  assumes "retile dev mend (\<lambda>x. (- EBUSY, x)) args y = Some (ret, x)"
  shows "fence_reg x = fence_reg y" "gtt_space x = gtt_space y"
    "fence_reg y \<noteq> None \<Longrightarrow> \<not> fence_dirty x \<Longrightarrow>
       \<not> fence_dirty y \<and> tiling_mode x = tiling_mode y \<and> fence_val dev x = fence_val dev y"
  using assms by (auto simp: retile_def EBUSY_def Let_def i915_gem_release_mmap_def split: if_splits bind_splits prod.splits)

lemma set_tiling_fence:
  assumes "i915_gem_set_tiling dev swizzle mend (\<lambda>x. (- EBUSY, x)) bits args (Some y) = Some (ret, args', Some x)"
  shows "fence_reg x = fence_reg y" "gtt_space x = gtt_space y"
    "fence_reg y \<noteq> None \<Longrightarrow> \<not> fence_dirty x \<Longrightarrow>
       \<not> fence_dirty y \<and> tiling_mode x = tiling_mode y \<and> fence_val dev x = fence_val dev y"
proof -
  have "x = y \<or> (\<exists>args ret z. retile dev mend (\<lambda>x. (- EBUSY, x)) args y = Some (ret, z) \<and> (x = z \<or> (\<exists>b. x = z\<lparr>bit_17 := b\<rparr>)))"
    using assms by (auto simp: i915_gem_set_tiling_def Let_def split: if_splits bind_splits) blast+
  moreover have "fence_val dev (z\<lparr>bit_17 := b\<rparr>) = fence_val dev z" for z b
    by (simp add: fence_val_def i965_fence_val_def i915_fence_val_def i830_fence_val_def)
  ultimately show "fence_reg x = fence_reg y" "gtt_space x = gtt_space y"
    "fence_reg y \<noteq> None \<Longrightarrow> \<not> fence_dirty x \<Longrightarrow>
       \<not> fence_dirty y \<and> tiling_mode x = tiling_mode y \<and> fence_val dev x = fence_val dev y"
    using retile_fence by (elim disjE exE conjE; simp; blast)+
qed

lemma pin_inv:
  assumes "fence_inv dev s"
  shows "fence_inv dev (upd_reg r (\<lambda>f. f\<lparr>reg_pin := g f\<rparr>) s)"
proof -
  have "reg_ok dev (upd_reg r (\<lambda>f. f\<lparr>reg_pin := g f\<rparr>) s) q" for q
    by (rule reg_ok_cong [of dev s]) (use assms in \<open>auto simp: fence_inv_def same_setup_def\<close>)
  then show ?thesis using assms by (simp add: fence_inv_def)
qed

lemma fence_step_inv:
  assumes "fence_step dev s s'" "fence_inv dev s" "gen_ok dev"
  shows "fence_inv dev s'"
  using assms(1)
proof cases
  case (get ob wait ret)
  then show ?thesis using get_fence_result [OF assms(2,3) get(1), of wait] by (elim exE conjE) simp
next
  case (put wait ob ret)
  then show ?thesis using put_fence_result [OF assms(2,3), of wait ob] by (elim exE conjE) simp
next
  case (pin ob)
  then show ?thesis using pin_inv [OF assms(2)] assms(2) by (auto simp: i915_gem_object_pin_fence_def split: option.splits)
next
  case (unpin ob)
  then show ?thesis using pin_inv [OF assms(2)] assms(2) by (auto simp: i915_gem_object_unpin_fence_def split: option.splits)
next
  case (bind ob space offset mf)
  have "fence_reg (objects s ob) = None" using fence_inv_own(5) [OF assms(2)] bind(2) by (cases "fence_reg (objects s ob)") blast+
  then show ?thesis unfolding bind(1)
    using assms(2) by (intro fence_inv_cong [OF assms(2)]) (auto simp: same_setup_def fence_inv_def)
next
  case (unbind wait finish ob ret)
  have inv: "fence_inv dev (upd_object ob i915_gem_release_mmap s)"
    using assms(2) by (intro fence_inv_cong [OF assms(2)]) (auto simp: same_setup_def fence_inv_def)
  obtain ret' t where t: "i915_gem_object_put_fence dev wait ob (upd_object ob i915_gem_release_mmap s) = Some (ret', t)" "fence_inv dev t"
     "ret' = 0 \<longrightarrow> fence_reg (objects t ob) = None"
    using put_fence_lost [OF inv assms(3)] by blast
  have "fence_inv dev (upd_object ob (\<lambda>x. x\<lparr>map_and_fenceable := True, gtt_space := None, gtt_offset := 0\<rparr>) t)" if "ret' = 0"
    using t that by (intro fence_inv_cong [OF t(2)]) (auto simp: same_setup_def fence_inv_def)
  then show ?thesis using unbind t assms(2) by (auto simp: unbind_fence_def split: if_splits)
next
  case (tile swizzle mend bits args ob ret args' x)
  show ?thesis unfolding tile(1)
    using assms(2) set_tiling_fence [OF tile(2)] by (intro fence_inv_cong [OF assms(2)]) (auto simp: same_setup_def fence_inv_def)
next
  case (execute seqno ob fenced)
  let ?t = "upd_object ob (\<lambda>x. x\<lparr>fenced_gpu_access := fenced\<rparr>) s"
  let ?u = "upd_object ob (\<lambda>x. x\<lparr>last_fenced_seqno := seqno\<rparr>) ?t"
  have t: "fence_inv dev ?t"
    using assms(2) by (intro fence_inv_cong [OF assms(2)]) (auto simp: same_setup_def fence_inv_def)
  then have u: "fence_inv dev ?u"
    by (intro fence_inv_cong [OF t]) (auto simp: same_setup_def fence_inv_def)
  have v: "fence_inv dev (lru_move_tail r ?u)" if "fence_reg (objects s ob) = Some r" for r
    using move_tail_inv [OF u fence_inv_own(4) [OF u, of ob r]] that by simp
  show ?thesis
  proof (cases fenced)
    case True
    then show ?thesis using u v execute by (cases "fence_reg (objects s ob)") (simp_all add: active_fence_def Let_def)
  next
    case False
    then show ?thesis using t execute by (simp add: active_fence_def)
  qed
next
  case (retire ob)
  have "inactive_fence ob s = upd_object ob idle s" by (simp add: inactive_fence_def idle_def [abs_def])
  then show ?thesis using idle_inv [OF assms(2)] retire by simp
next
  case (reset m)
  then show ?thesis using restore_fences_inv [OF assms(2,3), of m] by auto
qed

lemma fence_steps_inv:
  assumes "(fence_step dev)\<^sup>*\<^sup>* s s'" "fence_inv dev s" "gen_ok dev"
  shows "fence_inv dev s'"
  using assms by (induction rule: rtranclp_induct) (auto intro: fence_step_inv)

text \<open>
  C20: In every state that the driver reaches after loading, the registers of the chip agree with the bookkeeping: a register
  has an object exactly when the object has that register, the list in order of use holds exactly the registers with an object, once each,
  and only registers in the managed part; a register without an object is clear; and one with an object describes the object as
  it is bound and tiled now, unless the object is marked as dirty. This holds over every mix of getting, putting, pinning, retiling,
  binding, unbinding, execution and resets of the chip that lose the registers.
\<close>

theorem i915_fences_consistent:
  assumes "gen_ok dev" "no_fences s0" "load_fences dev i945 modeset s0 = Some s1" "(fence_step dev)\<^sup>*\<^sup>* s1 s"
  shows "(\<forall>ob r. fence_reg (objects s ob) = Some r \<longleftrightarrow> reg_obj (fence_regs s r) = Some ob)
    \<and> distinct (fence_list s) \<and> set (fence_list s) = {r. reg_obj (fence_regs s r) \<noteq> None}
    \<and> set (fence_list s) \<subseteq> {fence_reg_start s ..< num_fence_regs s}
    \<and> (\<forall>r < num_fence_regs s. case reg_obj (fence_regs s r) of
         None \<Rightarrow> fence_contents dev r (mmio s) = 0
       | Some ob \<Rightarrow> fence_dirty (objects s ob) \<or> tiling_mode (objects s ob) \<noteq> 0
           \<and> fence_val dev (objects s ob) = Some (fence_contents dev r (mmio s)))"
proof -
  have "fence_inv dev s1" using load_fences_inv [OF assms(2,1), of i945 modeset] assms(3) by auto
  then have inv: "fence_inv dev s" using fence_steps_inv [OF assms(4)] assms(1) by blast
  have hw: "case reg_obj (fence_regs s r) of
         None \<Rightarrow> fence_contents dev r (mmio s) = 0
       | Some ob \<Rightarrow> fence_dirty (objects s ob) \<or> tiling_mode (objects s ob) \<noteq> 0
           \<and> fence_val dev (objects s ob) = Some (fence_contents dev r (mmio s))" if "r < num_fence_regs s" for r
    using inv that fence_inv_own(6) [OF inv fence_inv_reg [OF inv]]
    by (auto simp: fence_inv_def reg_ok_def dest: spec [of _ r] split: option.splits)
  have link: "fence_reg (objects s ob) = Some r \<longleftrightarrow> reg_obj (fence_regs s r) = Some ob" for ob r
    using fence_inv_own(1) [OF inv] fence_inv_reg [OF inv] by blast
  have inside: "r \<in> {fence_reg_start s ..< num_fence_regs s}" if m: "r \<in> set (fence_list s)" for r
  proof -
    obtain ob where "reg_obj (fence_regs s r) = Some ob" using m fence_list_iff [OF inv] by auto
    then show ?thesis using fence_inv_own(2,3) [OF inv fence_inv_reg [OF inv]] by auto
  qed
  show ?thesis
    using hw link inside inv fence_list_iff [OF inv] by (intro conjI) (auto simp: fence_inv_def)
qed


text \<open>The fences in order of use, with their objects.\<close>

definition lru :: "fence_state \<Rightarrow> (nat \<times> nat) list" where
  "lru s = map (\<lambda>r. (the (reg_obj (fence_regs s r)), r)) (fence_list s)"

lemma assigned_lru:
  assumes "assigned s ob r s'" "fence_inv dev s" "fence_reg (objects s ob) \<in> {None, Some r}"
  shows "lru s' = filter (\<lambda>(p, q). p \<noteq> ob \<and> q \<noteq> r) (lru s) @ [(ob, r)]"
proof -
  have "distinct (fence_list s)" using assms(2) by (simp add: fence_inv_def)
  then have "remove1 r (fence_list s) = filter (\<lambda>q. q \<noteq> r) (fence_list s)"
    by (simp add: distinct_remove1_removeAll removeAll_filter_not_eq eq_commute)
  moreover have "the (reg_obj (fence_regs s q)) \<noteq> ob" if "q \<in> set (fence_list s)" "q \<noteq> r" for q
  proof
    assume "the (reg_obj (fence_regs s q)) = ob"
    then have "reg_obj (fence_regs s q) = Some ob" using that(1) fence_list_iff [OF assms(2), of q] by auto
    then show False using fence_inv_reg [OF assms(2)] assms(3) that(2) by auto
  qed
  ultimately have "filter (\<lambda>(p, q). p \<noteq> ob \<and> q \<noteq> r) (lru s)
      = map (\<lambda>q. (the (reg_obj (fence_regs s q)), q)) (remove1 r (fence_list s))"
    unfolding lru_def filter_map comp_def by (auto intro!: arg_cong2 [where f = map] filter_cong)
  moreover have "lru s' = map (\<lambda>q. (the (reg_obj (fence_regs s q)), q)) (remove1 r (fence_list s)) @ [(ob, r)]"
    using assms(1) \<open>distinct (fence_list s)\<close> unfolding lru_def assigned_def by auto
  ultimately show ?thesis by simp
qed

lemma unchanged_fences:
  "unchanged s ob s' \<Longrightarrow> fence_regs s' = fence_regs s \<and> fence_list s' = fence_list s \<and> mmio s' = mmio s
     \<and> (\<forall>p. fence_reg (objects s' p) = fence_reg (objects s p))"
  by (auto simp: unchanged_def)

text \<open>
  C21: Getting a fence for a bound object always returns. On success an object without tiling has no fence, and a tiled one has a register
  that describes it: the one it had, or the lowest free one, or the one used least recently among those not pinned, whose object loses
  it; in the order of use the pair is now the last and the others stay in place. On failure no fence has changed, and unless the wait
  for the chip failed the error is \<open>- EDEADLK\<close>, the object is tiled and without a fence, and every register is in use and pinned.
\<close>

theorem i915_get_fence_correct:
  assumes "fence_inv dev s" "gen_ok dev" "gtt_space (objects s ob) \<noteq> None"
  shows "case i915_gem_object_get_fence dev wait ob s of
      None \<Rightarrow> False
    | Some (ret, s') \<Rightarrow> fence_inv dev s' \<and>
        (if ret \<noteq> 0
         then fence_regs s' = fence_regs s \<and> fence_list s' = fence_list s \<and> mmio s' = mmio s
              \<and> (\<forall>p. fence_reg (objects s' p) = fence_reg (objects s p))
              \<and> ((\<exists>n. ret = wait n)
                 \<or> ret = - EDEADLK \<and> fence_reg (objects s ob) = None \<and> tiling_mode (objects s ob) \<noteq> 0 \<and> all_pinned s)
         else if tiling_mode (objects s ob) = 0 then fence_reg (objects s' ob) = None
         else \<exists>r. (fence_reg (objects s ob) = Some r \<or> fence_reg (objects s ob) = None \<and> fence_choice s r)
              \<and> fence_reg (objects s' ob) = Some r \<and> \<not> fence_dirty (objects s' ob)
              \<and> fence_val dev (objects s' ob) = Some (fence_contents dev r (mmio s'))
              \<and> lru s' = filter (\<lambda>(p, q). p \<noteq> ob \<and> q \<noteq> r) (lru s) @ [(ob, r)]
              \<and> (\<forall>p. p \<noteq> ob \<longrightarrow>
                   fence_reg (objects s' p) = (if reg_obj (fence_regs s r) = Some p then None else fence_reg (objects s p))))"
proof -
  obtain ret s' where g: "i915_gem_object_get_fence dev wait ob s = Some (ret, s')" "fence_inv dev s'"
    "ret \<noteq> 0 \<longrightarrow> unchanged s ob s' \<and> ((\<exists>n. ret = wait n)
       \<or> ret = - EDEADLK \<and> fence_reg (objects s ob) = None \<and> tiling_mode (objects s ob) \<noteq> 0 \<and> all_pinned s)"
    "ret = 0 \<longrightarrow> (if tiling_mode (objects s ob) = 0 then fence_reg (objects s' ob) = None
       else \<exists>r. assigned s ob r s' \<and> (fence_reg (objects s ob) = Some r \<or>
              fence_reg (objects s ob) = None \<and> \<not> all_pinned s \<and> fence_choice s r))"
    using get_fence_result [OF assms, of wait] by blast
  show ?thesis
  proof (cases "ret = 0 \<and> tiling_mode (objects s ob) \<noteq> 0")
    case True
    then obtain r where r: "assigned s ob r s'" "fence_reg (objects s ob) = Some r \<or> fence_reg (objects s ob) = None \<and> fence_choice s r"
      using g(4) by auto
    have "fence_val dev (objects s' ob) = Some (fence_contents dev r (mmio s'))"
      using fence_inv_own(6) [OF g(2), of ob r] r(1) by (auto simp: assigned_def)
    moreover have "lru s' = filter (\<lambda>(p, q). p \<noteq> ob \<and> q \<noteq> r) (lru s) @ [(ob, r)]"
      using assigned_lru [OF r(1) assms(1)] r(2) by auto
    ultimately have "(fence_reg (objects s ob) = Some r \<or> fence_reg (objects s ob) = None \<and> fence_choice s r)
         \<and> fence_reg (objects s' ob) = Some r \<and> \<not> fence_dirty (objects s' ob)
         \<and> fence_val dev (objects s' ob) = Some (fence_contents dev r (mmio s'))
         \<and> lru s' = filter (\<lambda>(p, q). p \<noteq> ob \<and> q \<noteq> r) (lru s) @ [(ob, r)]
         \<and> (\<forall>p. p \<noteq> ob \<longrightarrow> fence_reg (objects s' p) = (if reg_obj (fence_regs s r) = Some p then None else fence_reg (objects s p)))"
      using r by (auto simp: assigned_def)
    then show ?thesis using g(1,2) True by (simp only: option.case prod.case) auto
  next
    case False
    then show ?thesis using g unchanged_fences [of s ob s'] by auto
  qed
qed

text \<open>Fences that are pinned and up to date stay while other objects get theirs.\<close>

definition fenced :: "intel_info \<Rightarrow> fence_state \<Rightarrow> nat \<Rightarrow> bool" where
  "fenced dev s ob \<longleftrightarrow> (\<exists>r. fence_reg (objects s ob) = Some r \<and> \<not> fence_dirty (objects s ob) \<and> 0 < reg_pin (fence_regs s r))"

definition pins_below :: "fence_state \<Rightarrow> int \<Rightarrow> bool" where
  "pins_below s k \<longleftrightarrow> (\<forall>r. 0 \<le> reg_pin (fence_regs s r) \<and> reg_pin (fence_regs s r) \<le> k)"

definition unpinned :: "fence_state \<Rightarrow> nat set" where
  "unpinned s = {r \<in> {fence_reg_start s ..< num_fence_regs s}. reg_pin (fence_regs s r) = 0}"

lemma get_pin_result:
  assumes inv: "fence_inv dev s" and gen: "gen_ok dev"
    and ob: "gtt_space (objects s ob) \<noteq> None" "tiling_mode (objects s ob) \<noteq> 0"
    and wait: "\<forall>n. wait n = 0" and pins: "pins_below s k" "k < INT_MAX" and free: "unpinned s \<noteq> {}"
  shows "\<exists>s1 s'. i915_gem_object_get_fence dev wait ob s = Some (0, s1) \<and> snd (i915_gem_object_pin_fence ob s1) = s' \<and>
    fence_inv dev s' \<and> fenced dev s' ob \<and> pins_below s' (k + 1) \<and> card (unpinned s) \<le> card (unpinned s') + 1 \<and>
    (\<forall>p. fenced dev s p \<longrightarrow> fenced dev s' p) \<and>
    (\<forall>p. gtt_space (objects s' p) = gtt_space (objects s p) \<and> tiling_mode (objects s' p) = tiling_mode (objects s p))"
proof -
  have "\<not> all_pinned s" using free by (auto simp: unpinned_def all_pinned_def)
  then obtain s1 r where g: "i915_gem_object_get_fence dev wait ob s = Some (0, s1)" "fence_inv dev s1" "same_setup s s1"
      "assigned s ob r s1" "fence_reg (objects s ob) = Some r \<or> fence_reg (objects s ob) = None \<and> fence_choice s r"
    using get_fence_result [OF inv gen ob(1), of wait] ob(2) wait by (auto split: if_splits)
  have r: "fence_reg (objects s1 ob) = Some r" "\<not> fence_dirty (objects s1 ob)" "fence_regs s1 = (fence_regs s)(r := (fence_regs s r)\<lparr>reg_obj := Some ob\<rparr>)"
    using g(4) by (auto simp: assigned_def)
  let ?s = "upd_reg r (\<lambda>f. f\<lparr>reg_pin := s32 (reg_pin f + 1)\<rparr>) s1"
  have p: "reg_pin (fence_regs s1 q) = reg_pin (fence_regs s q)" for q using r(3) by simp
  have w: "s32 (reg_pin (fence_regs s r) + 1) = reg_pin (fence_regs s r) + 1"
    using pins unfolding pins_below_def by (intro s32_id) (auto simp: INT_MAX_def dest: spec [of _ r])
  have "unpinned s \<subseteq> insert r (unpinned ?s)"
    using g(3) p by (auto simp: unpinned_def same_setup_def)
  then have "card (unpinned s) \<le> card (insert r (unpinned ?s))"
    by (intro card_mono) (auto simp: unpinned_def)
  also have "\<dots> \<le> card (unpinned ?s) + 1"
    by (simp add: card_insert_if unpinned_def)
  finally have c: "card (unpinned s) \<le> card (unpinned ?s) + 1" .
  have old: "fenced dev ?s q" if f: "fenced dev s q" and nq: "q \<noteq> ob" for q
  proof -
    obtain t where t: "fence_reg (objects s q) = Some t" "\<not> fence_dirty (objects s q)" "0 < reg_pin (fence_regs s t)"
      using f by (auto simp: fenced_def)
    have o: "reg_obj (fence_regs s t) = Some q" using fence_inv_own(1) [OF inv t(1)] .
    have "reg_obj (fence_regs s r) \<noteq> Some q"
    proof
      assume a: "reg_obj (fence_regs s r) = Some q"
      then have "r = t" using fence_inv_reg [OF inv a] t(1) by simp
      then show False using a nq t(3) g(5) fence_choice_pin [of s r] fence_inv_own(1) [OF inv, of ob r] by auto
    qed
    then have "objects s1 q = objects s q" "r \<noteq> t" using g(4) nq o by (auto simp: assigned_def)
    then show ?thesis using t p by (auto simp: fenced_def)
  qed
  have here: "fenced dev ?s ob"
    using r(1,2) p w pins(1) by (auto simp: fenced_def pins_below_def)
  have "pins_below ?s (k + 1)"
    using pins(1) p w unfolding pins_below_def by (auto simp: le_Suc_eq intro: order_trans [of _ k])
  moreover have "gtt_space (objects s1 q) = gtt_space (objects s q) \<and> tiling_mode (objects s1 q) = tiling_mode (objects s q)" for q
    using g(4) by (cases "q = ob") (auto simp: assigned_def)
  moreover have "snd (i915_gem_object_pin_fence ob s1) = ?s" using r(1) by (simp add: i915_gem_object_pin_fence_def)
  ultimately show ?thesis
    using g(1) pin_inv [OF g(2)] c old here by (intro exI [of _ s1] exI [of _ ?s]) auto
qed

lemma reserve_fences_result:
  assumes "fence_inv dev s" "gen_ok dev" "\<forall>n. wait n = 0"
    and "\<forall>ob \<in> set obs. gtt_space (objects s ob) \<noteq> None \<and> tiling_mode (objects s ob) \<noteq> 0"
    and "pins_below s k" "k + int (length obs) \<le> INT_MAX" "length obs \<le> card (unpinned s)"
  shows "\<exists>s'. reserve_fences dev wait obs s = Some (0, s') \<and> fence_inv dev s' \<and>
    (\<forall>p. p \<in> set obs \<or> fenced dev s p \<longrightarrow> fenced dev s' p)"
  using assms(1,4-7)
proof (induction obs arbitrary: s k)
  case (Cons ob obs)
  have ne: "unpinned s \<noteq> {}" using Cons.prems(5) by auto
  obtain s1 s' where s': "i915_gem_object_get_fence dev wait ob s = Some (0, s1)" "snd (i915_gem_object_pin_fence ob s1) = s'"
    "fence_inv dev s'" "fenced dev s' ob" "pins_below s' (k + 1)" "card (unpinned s) \<le> card (unpinned s') + 1"
    "\<forall>p. fenced dev s p \<longrightarrow> fenced dev s' p"
    "\<forall>p. gtt_space (objects s' p) = gtt_space (objects s p) \<and> tiling_mode (objects s' p) = tiling_mode (objects s p)"
  proof -
    have "gtt_space (objects s ob) \<noteq> None" "tiling_mode (objects s ob) \<noteq> 0" "k < INT_MAX"
      using Cons.prems(2,4) by auto
    from get_pin_result [OF Cons.prems(1) assms(2) this(1,2) assms(3) Cons.prems(3) this(3) ne]
    show thesis using that by blast
  qed
  have "\<exists>t. reserve_fences dev wait obs s' = Some (0, t) \<and> fence_inv dev t \<and> (\<forall>p. p \<in> set obs \<or> fenced dev s' p \<longrightarrow> fenced dev t p)"
  proof (rule Cons.IH [OF s'(3) _ s'(5)])
    show "\<forall>ob \<in> set obs. gtt_space (objects s' ob) \<noteq> None \<and> tiling_mode (objects s' ob) \<noteq> 0"
      using Cons.prems(2) s'(8) by simp
  qed (use Cons.prems(4,5) s'(6) in simp_all)
  then show ?case using s'(1,2,4,7) by auto
qed simp

text \<open>
  C22: The objects of an execution, each tiled and bound, can all have their fences at once if at least as many managed registers are not
  pinned and waiting for the chip succeeds: reserving them returns 0, and then each has a pinned register of its own that describes
  it; a fence that was pinned and up to date before is still there.
\<close>

theorem i915_reserve_fences_all:
  assumes "fence_inv dev s" "gen_ok dev" "\<forall>n. wait n = 0"
    and "\<forall>ob \<in> set obs. gtt_space (objects s ob) \<noteq> None \<and> tiling_mode (objects s ob) \<noteq> 0"
    and "pins_below s k" "k + int (length obs) \<le> INT_MAX" "length obs \<le> card (unpinned s)"
  shows "\<exists>s'. reserve_fences dev wait obs s = Some (0, s') \<and>
    (\<forall>p. p \<in> set obs \<or> fenced dev s p \<longrightarrow>
       (\<exists>r. fence_reg (objects s' p) = Some r \<and> reg_obj (fence_regs s' r) = Some p \<and> 0 < reg_pin (fence_regs s' r)
          \<and> fence_val dev (objects s' p) = Some (fence_contents dev r (mmio s'))))"
proof -
  obtain s' where s': "reserve_fences dev wait obs s = Some (0, s')" "fence_inv dev s'"
    "\<forall>p. p \<in> set obs \<or> fenced dev s p \<longrightarrow> fenced dev s' p"
    using reserve_fences_result [OF assms] by blast
  then show ?thesis
    using fence_inv_own(1,6) [OF s'(2)] unfolding fenced_def by fast
qed

text \<open>
  C23: While a register of the 965 and later is rewritten, the chip sees at every moment the old contents, an invalid fence, or the
  complete new contents, never a mixture that is valid.
\<close>

theorem i965_fence_write_never_half:
  assumes "4 \<le> gen dev" "r < 32" "i965_write_fence_reg dev r obj = Some ws"
  shows "fence_contents dev r (I915_WRITE (take n ws) m) = fence_contents dev r m
    \<or> \<not> bit (fence_contents dev r (I915_WRITE (take n ws) m)) 0
    \<or> (\<exists>x. obj = Some x \<and> i965_fence_val dev x = Some (fence_contents dev r (I915_WRITE (take n ws) m)))"
proof -
  note ne = i965_addr_neq(1) [OF assms(2,2), of dev] i965_addr_neq(1) [OF assms(2,2), of dev, symmetric]
  have z: "\<not> bit (push_bit 32 (v :: u64w)) 0" for v by (simp add: bit_simps)
  consider "n = 0" | "n = 1" | "n = 2" | "n \<ge> 3" by linarith
  then show ?thesis
    using assms ne z
    by cases (auto simp: i965_write_fence_reg_def Let_def fence_contents_def I915_WRITE_def word_halves numeral_2_eq_2 bit_or_iff
        split: option.splits bind_splits)
qed


section \<open>A chip of the third generation\<close>

definition chip3 :: intel_info where
  "chip3 = \<lparr>gen = 3, is_valleyview = False, is_mobile = False, is_g33 = False, is_i915g = True, is_i915gm = False\<rparr>"

definition tiled_obj :: i915_obj where
  "tiled_obj = \<lparr>base_size = 0x100000, gtt_space = Some 0x100000, gtt_offset = 0x200000, tiling_mode = 1, stride = 512, pin_count = 0,
     map_and_fenceable = True, fence_dirty = False, fenced_gpu_access = False, fence_reg = None, last_fenced_seqno = 0, bit_17 = None,
     gtt_mmap = True\<rparr>"

definition start_state :: fence_state where
  "start_state = \<lparr>objects = (\<lambda>_. tiled_obj), fence_regs = (\<lambda>_. \<lparr>reg_obj = None, reg_pin = 0\<rparr>), fence_reg_start = 0,
     num_fence_regs = 0, fence_list = [], mmio = (\<lambda>_. 7)\<rparr>"

definition loaded :: fence_state where
  "loaded = start_state\<lparr>num_fence_regs := 8, mmio := (\<lambda>_. 0)\<rparr>"

lemma chip3_ok: "gen_ok chip3"
  by (simp add: gen_ok_def chip3_def)

lemma loaded_inv: "fence_inv chip3 loaded"
  by (simp add: fence_inv_def reg_ok_def loaded_def start_state_def tiled_obj_def fence_contents_def chip3_def)

lemma i915_fences_consistent_witness:
  "\<exists>s1 s. load_fences chip3 False True start_state = Some s1 \<and> (fence_step chip3)\<^sup>*\<^sup>* s1 s \<and>
     reg_obj (fence_regs s 0) = Some 0 \<and> fence_reg (objects s 0) = Some 0"
proof -
  have "map_option (\<lambda>s. gtt_space (objects s 0)) (load_fences chip3 False True start_state) = Some (Some 0x100000)"
    by code_simp
  then obtain s1 where s1: "load_fences chip3 False True start_state = Some s1" "gtt_space (objects s1 0) = Some 0x100000"
    by auto
  have "map_option (\<lambda>s. map_option (\<lambda>(r, s). fence_reg (objects s 0)) (i915_gem_object_get_fence chip3 (\<lambda>_. 0) 0 s))
      (load_fences chip3 False True start_state) = Some (Some (Some 0))"
    by code_simp
  then obtain ret s where s: "i915_gem_object_get_fence chip3 (\<lambda>_. 0) 0 s1 = Some (ret, s)" "fence_reg (objects s 0) = Some 0"
    using s1(1) by auto
  have step: "(fence_step chip3)\<^sup>*\<^sup>* s1 s"
    using fence_step.get [OF _ s(1)] s1(2) by auto
  have "no_fences start_state" by (simp add: no_fences_def start_state_def tiled_obj_def)
  from i915_fences_consistent [OF chip3_ok this s1(1) step]
  have "reg_obj (fence_regs s 0) = Some 0" using s(2) by blast
  then show ?thesis using s1(1) step s(2) by blast
qed

lemma i915_get_fence_witness:
  "case i915_gem_object_get_fence chip3 (\<lambda>_. 0) 0 loaded of
     None \<Rightarrow> False
   | Some (ret, s') \<Rightarrow> ret = 0 \<and> fence_list s' = [0] \<and> fence_val chip3 (objects s' 0) = Some (fence_contents chip3 0 (mmio s'))"
proof -
  have "map_option (\<lambda>(r, s). (r, fence_list s, fence_reg (objects s 0))) (i915_gem_object_get_fence chip3 (\<lambda>_. 0) 0 loaded) = Some (0, [0], Some 0)"
    by code_simp
  then obtain s' where s': "i915_gem_object_get_fence chip3 (\<lambda>_. 0) 0 loaded = Some (0, s')" "fence_list s' = [0]" "fence_reg (objects s' 0) = Some 0"
    by auto
  have "gtt_space (objects loaded 0) \<noteq> None" and t: "tiling_mode (objects loaded 0) \<noteq> 0"
    by (simp_all add: loaded_def start_state_def tiled_obj_def)
  from i915_get_fence_correct [OF loaded_inv chip3_ok this(1), of "\<lambda>_. 0"] show ?thesis
    using s' t by auto
qed

lemma i915_reserve_fences_witness:
  "\<exists>s'. reserve_fences chip3 (\<lambda>_. 0) [4, 2] loaded = Some (0, s') \<and>
     (\<forall>p \<in> {4, 2}. \<exists>r. fence_reg (objects s' p) = Some r \<and> 0 < reg_pin (fence_regs s' r))"
proof -
  have "\<exists>s'. reserve_fences chip3 (\<lambda>_. 0) [4, 2] loaded = Some (0, s') \<and>
    (\<forall>p. p \<in> set [4, 2] \<or> fenced chip3 loaded p \<longrightarrow>
       (\<exists>r. fence_reg (objects s' p) = Some r \<and> reg_obj (fence_regs s' r) = Some p \<and> 0 < reg_pin (fence_regs s' r)
          \<and> fence_val chip3 (objects s' p) = Some (fence_contents chip3 r (mmio s'))))"
  proof (rule i915_reserve_fences_all [OF loaded_inv chip3_ok])
    have "unpinned loaded = {0..<8}" by (auto simp: unpinned_def loaded_def start_state_def)
    then show "length [4, 2 :: nat] \<le> card (unpinned loaded)" by simp
    show "pins_below loaded 0" by (simp add: pins_below_def loaded_def start_state_def)
  qed (simp_all add: loaded_def start_state_def tiled_obj_def INT_MAX_def)
  then obtain s' where s': "reserve_fences chip3 (\<lambda>_. 0) [4, 2] loaded = Some (0, s')"
    and p: "\<And>p. p \<in> set [4, 2] \<Longrightarrow> \<exists>r. fence_reg (objects s' p) = Some r \<and> 0 < reg_pin (fence_regs s' r)"
    by blast
  show ?thesis using s' p [of 4] p [of 2] by (intro exI [of _ s']) simp
qed

lemma i965_fence_write_witness:
  "\<exists>ws. i965_write_fence_reg (chip3\<lparr>gen := 4\<rparr>) 0 (Some tiled_obj) = Some ws \<and>
     \<not> bit (fence_contents (chip3\<lparr>gen := 4\<rparr>) 0 (I915_WRITE (take 2 ws) (\<lambda>_. 0))) 0"
proof -
  let ?dev = "chip3\<lparr>gen := 4\<rparr>"
  have "map_option (\<lambda>ws. fence_contents ?dev 0 (I915_WRITE (take 2 ws) (\<lambda>_. 0))) (i965_write_fence_reg ?dev 0 (Some tiled_obj)) = Some 0x2ff00000000000"
    by code_simp
  then obtain ws where ws: "i965_write_fence_reg ?dev 0 (Some tiled_obj) = Some ws"
     "fence_contents ?dev 0 (I915_WRITE (take 2 ws) (\<lambda>_. 0)) = 0x2ff00000000000" by auto
  from i965_fence_write_never_half [OF _ _ ws(1), of 2 "\<lambda>_. 0"] ws show ?thesis
    by (simp add: chip3_def)
qed

end
