(* ===== verification/I915_Evict.thy ===== *)
theory I915_Evict
  imports Drm_Mm_Thms
begin

text \<open>
  Eviction from the graphics translation table: \<^verbatim>\<open>uts/intel/io/i915/i915_gem_evict.c\<close> on the range allocator of
  \<^verbatim>\<open>drm_mm.c\<close>, with the part of \<^verbatim>\<open>i915_gem_object_unbind\<close> that frees the range.

  Objects are numbered. \<open>space\<close> gives the node of an object (\<^verbatim>\<open>gtt_space\<close>), and the lists are in order of use. Unbinding has to wait for the
  chip (\<^verbatim>\<open>i915_gem_object_finish_gpu\<close>, \<^verbatim>\<open>i915_gem_object_put_fence\<close>): \<open>finish\<close> gives the result of that for an object; requests
  that retire meanwhile, which move objects between the two lists, are not modelled. The temporary references that keep an object
  while it is evicted are taken and dropped again and do not show.
\<close>

record evict_state =
  gtt :: drm_mm
  inactive_list :: "nat list"
  active_list :: "nat list"
  unbound_list :: "nat list"
  space :: "nat \<Rightarrow> addr option"
  pins :: "nat \<Rightarrow> nat"

text \<open>Adding an object to a scan. The list of objects to unwind has the last one first.\<close>

definition mark_free :: "evict_state \<Rightarrow> nat \<Rightarrow> nat list \<Rightarrow> drm_mm \<Rightarrow> (bool \<times> nat list \<times> drm_mm) option" where
  "mark_free s ob unwind mm =
     (if pins s ob \<noteq> 0 then Some (False, unwind, mm)
      else do {
        node \<leftarrow> space s ob;
        (hit, mm) \<leftarrow> drm_mm_scan_add_block node mm;
        Some (hit, ob # unwind, mm) })"

fun mark_loop :: "evict_state \<Rightarrow> nat list \<Rightarrow> nat list \<Rightarrow> drm_mm \<Rightarrow> (bool \<times> nat list \<times> drm_mm) option" where
  "mark_loop s [] unwind mm = Some (False, unwind, mm)"
| "mark_loop s (ob # obs) unwind mm = do {
     (hit, unwind, mm) \<leftarrow> mark_free s ob unwind mm;
     if hit then Some (True, unwind, mm) else mark_loop s obs unwind mm }"

text \<open>Without a hit every block is taken out of the scan, which must not ask for its eviction.\<close>

fun unwind_none :: "evict_state \<Rightarrow> nat list \<Rightarrow> drm_mm \<Rightarrow> drm_mm option" where
  "unwind_none s [] mm = Some mm"
| "unwind_none s (ob # unwind) mm = do {
     node \<leftarrow> space s ob;
     (ret, mm) \<leftarrow> drm_mm_scan_remove_block node mm;
     bug_on ret;
     unwind_none s unwind mm }"

text \<open>With a hit, the blocks that make up the hole go to the list of objects to evict.\<close>

fun unwind_found :: "evict_state \<Rightarrow> nat list \<Rightarrow> nat list \<Rightarrow> drm_mm \<Rightarrow> (nat list \<times> drm_mm) option" where
  "unwind_found s [] eviction mm = Some (eviction, mm)"
| "unwind_found s (ob # unwind) eviction mm = do {
     node \<leftarrow> space s ob;
     (ret, mm) \<leftarrow> drm_mm_scan_remove_block node mm;
     unwind_found s unwind (if ret then ob # eviction else eviction) mm }"

definition i915_gem_object_unbind :: "(nat \<Rightarrow> int) \<Rightarrow> nat \<Rightarrow> evict_state \<Rightarrow> (int \<times> evict_state) option" where
  "i915_gem_object_unbind finish ob s =
     (case space s ob of
        None \<Rightarrow> Some (0, s)
      | Some node \<Rightarrow>
          if pins s ob \<noteq> 0 then Some (- EBUSY, s)
          else if finish ob \<noteq> 0 then Some (finish ob, s)
          else do {
            mm \<leftarrow> drm_mm_put_block node (gtt s);
            Some (0, s\<lparr>gtt := mm, inactive_list := remove1 ob (inactive_list s), active_list := remove1 ob (active_list s),
                      unbound_list := unbound_list s @ [ob], space := (space s)(ob := None)\<rparr>) })"

fun evict_loop :: "(nat \<Rightarrow> int) \<Rightarrow> nat list \<Rightarrow> int \<Rightarrow> evict_state \<Rightarrow> (int \<times> evict_state) option" where
  "evict_loop finish [] ret s = Some (ret, s)"
| "evict_loop finish (ob # eviction) ret s = do {
     (ret, s) \<leftarrow> (if ret = 0 then i915_gem_object_unbind finish ob s else Some (ret, s));
     evict_loop finish eviction ret s }"

text \<open>\<open>mappable_end\<close> is the end of the part of the table that the processor can reach.\<close>

definition i915_gem_evict_something ::
  "(nat \<Rightarrow> int) \<Rightarrow> int \<Rightarrow> int \<Rightarrow> int \<Rightarrow> int \<Rightarrow> bool \<Rightarrow> bool \<Rightarrow> evict_state \<Rightarrow> (int \<times> evict_state) option" where
  "i915_gem_evict_something finish mappable_end min_size alignment cache_level mappable nonblocking s = do {
     let mm = (if mappable
               then drm_mm_init_scan_with_range (gtt s) (u64 min_size) alignment cache_level 0 mappable_end
               else drm_mm_init_scan (gtt s) (u64 min_size) alignment cache_level);
     (found, unwind, mm) \<leftarrow> mark_loop s (inactive_list s) [] mm;
     (found, unwind, mm) \<leftarrow> (if found \<or> nonblocking then Some (found, unwind, mm)
                            else mark_loop s (active_list s) unwind mm);
     if \<not> found
     then do {
       mm \<leftarrow> unwind_none s unwind mm;
       Some (- ENOSPC, s\<lparr>gtt := mm\<rparr>) }
     else do {
       (eviction, mm) \<leftarrow> unwind_found s unwind [] mm;
       evict_loop finish eviction 0 (s\<lparr>gtt := mm\<rparr>) } }"

text \<open>
  \<^verbatim>\<open>i915_gem_evict_everything\<close>: \<open>idle\<close> is the result of \<^verbatim>\<open>i915_gpu_idle\<close>, after which everything is inactive, in the order \<open>retired\<close>.
  A failure to unbind is only reported.
\<close>

fun unbind_all :: "(nat \<Rightarrow> int) \<Rightarrow> nat list \<Rightarrow> evict_state \<Rightarrow> evict_state option" where
  "unbind_all finish [] s = Some s"
| "unbind_all finish (ob # obs) s = do {
     s \<leftarrow> (if pins s ob = 0 then map_option snd (i915_gem_object_unbind finish ob s) else Some s);
     unbind_all finish obs s }"

definition i915_gem_evict_everything :: "(nat \<Rightarrow> int) \<Rightarrow> int \<Rightarrow> nat list \<Rightarrow> evict_state \<Rightarrow> (int \<times> evict_state) option" where
  "i915_gem_evict_everything finish idle retired s =
     (if inactive_list s = [] \<and> active_list s = [] then Some (- ENOSPC, s)
      else if idle \<noteq> 0 then Some (idle, s)
      else do {
        let s = s\<lparr>inactive_list := retired, active_list := []\<rparr>;
        s \<leftarrow> unbind_all finish (inactive_list s) s;
        Some (0, s) })"

end
