(* ===== verification/I915_Evict_Scan.thy ===== *)
theory I915_Evict_Scan
  imports I915_Evict
begin

text \<open>
  The scan of the range allocator over a list of objects: what a hit and its absence mean, what is put on the list to evict when the
  blocks are taken out again, and what unbinding does to the state.
\<close>

section \<open>Order and extents without the flags\<close>

text \<open>During a scan the flags of holes are not kept; the nodes on the list are still in order and apart.\<close>

fun apart :: "node_store \<Rightarrow> int \<Rightarrow> addr list \<Rightarrow> int \<Rightarrow> bool" where
  "apart N pos [] hi \<longleftrightarrow> pos \<le> hi"
| "apart N pos (n # ns) hi \<longleftrightarrow> pos \<le> n_start (N n) \<and> 0 < n_size (N n) \<and> apart N (n_start (N n) + n_size (N n)) ns hi"

lemma layout_apart: "layout N pos a ns hi \<Longrightarrow> apart N pos ns hi"
  by (induction ns arbitrary: pos a) auto

lemma apart_mono: "apart N pos ns hi \<Longrightarrow> pos' \<le> pos \<Longrightarrow> apart N pos' ns hi"
  by (cases ns) auto

lemma apart_remove1: "apart N pos ns hi \<Longrightarrow> apart N pos (remove1 n ns) hi"
proof (induction ns arbitrary: pos)
  case (Cons x xs)
  show ?case
  proof (cases "x = n")
    case True
    then show ?thesis using Cons.prems by (auto intro: apart_mono)
  next
    case False
    then show ?thesis using Cons by auto
  qed
qed simp

lemma apart_cong:
  assumes "\<And>n. n \<in> set ns \<Longrightarrow> n_start (N' n) = n_start (N n) \<and> n_size (N' n) = n_size (N n)"
  shows "apart N' pos ns hi = apart N pos ns hi"
  using assms by (induction ns arbitrary: pos) auto

lemma apart_bounds: "apart N pos ns hi \<Longrightarrow> n \<in> set ns \<Longrightarrow> pos \<le> n_start (N n) \<and> 0 < n_size (N n) \<and> n_start (N n) + n_size (N n) \<le> hi"
proof (induction ns arbitrary: pos)
  case (Cons x xs)
  have "apart N (n_start (N x) + n_size (N x)) xs hi" using Cons.prems by simp
  moreover have "pos' \<le> hi" if "apart N pos' xs hi" for pos'
    using that by (induction xs arbitrary: pos') force+
  ultimately show ?case using Cons by fastforce
qed simp

lemma apart_le: "apart N pos ns hi \<Longrightarrow> pos \<le> hi"
  by (induction ns arbitrary: pos) force+

lemma apart_disjoint:
  assumes "apart N pos ns hi" "m \<in> set ns" "n \<in> set ns" "m \<noteq> n"
  shows "n_start (N m) + n_size (N m) \<le> n_start (N n) \<or> n_start (N n) + n_size (N n) \<le> n_start (N m)"
  using assms
proof (induction ns arbitrary: pos)
  case (Cons x xs)
  then have l: "apart N (n_start (N x) + n_size (N x)) xs hi" by simp
  then show ?case using Cons apart_bounds [OF l, of m] apart_bounds [OF l, of n] by auto
qed simp

text \<open>Between a member of the ring and the next there is no other node.\<close>

lemma apart_hole_free:
  assumes "apart N pos ns hi" "h \<in> set (a # ns)" "distinct (a # ns)" "m \<in> set ns"
  shows "n_start (N m) + n_size (N m) \<le> end_of N pos a h \<or> start_after N h (a # ns) hi \<le> n_start (N m)"
  using assms
proof (induction ns arbitrary: pos a)
  case (Cons x xs)
  then have l: "apart N (n_start (N x) + n_size (N x)) xs hi" by simp
  show ?case
  proof (cases "h = a")
    case True
    with Cons.prems apart_bounds [OF l, of m] show ?thesis by fastforce
  next
    case False
    then have h: "h \<in> set (x # xs)" "distinct (x # xs)" using Cons.prems by auto
    have eo: "end_of N (n_start (N x) + n_size (N x)) x h = end_of N pos a h" using False by (simp add: end_of_def)
    show ?thesis
    proof (cases "m = x")
      case True
      have "n_start (N x) + n_size (N x) \<le> end_of N pos a h"
        using h apart_bounds [OF l, of h] False by (auto simp: end_of_def)
      then show ?thesis using True by simp
    next
      case m: False
      then show ?thesis using Cons.IH [OF l h] Cons.prems(4) eo False by simp
    qed
  qed
qed simp

lemma apart_hole:
  assumes "apart N pos ns hi" "h \<in> set (a # ns)" "distinct (a # ns)"
  shows "pos \<le> end_of N pos a h \<and> end_of N pos a h \<le> start_after N h (a # ns) hi \<and> start_after N h (a # ns) hi \<le> hi"
  using assms
proof (induction ns arbitrary: pos a)
  case (Cons x xs)
  then have l: "apart N (n_start (N x) + n_size (N x)) xs hi" by simp
  show ?case
  proof (cases "h = a")
    case True
    with Cons.prems apart_le [OF l] show ?thesis by (simp add: end_of_def)
  next
    case False
    then have "end_of N (n_start (N x) + n_size (N x)) x h = end_of N pos a h" by (simp add: end_of_def)
    then show ?thesis using Cons.IH [OF l, of x] Cons.prems False by auto
  qed
qed (simp add: end_of_def)

text \<open>The next node on the ring starts after the end of a node, and not after the start of any later node.\<close>

lemma start_after_bounds:
  assumes "apart N pos ns hi" "distinct (a # ns)" "n \<in> set ns"
  shows "n_start (N n) + n_size (N n) \<le> start_after N n (a # ns) hi"
    "\<And>y. y \<in> set ns \<Longrightarrow> n_start (N n) < n_start (N y) \<Longrightarrow> start_after N n (a # ns) hi \<le> n_start (N y)"
proof -
  have e: "end_of N pos a n = n_start (N n) + n_size (N n)" using assms(2,3) by (auto simp: end_of_def)
  show "n_start (N n) + n_size (N n) \<le> start_after N n (a # ns) hi"
    using apart_hole [OF assms(1) _ assms(2), of n] assms(3) e by simp
  fix y assume y: "y \<in> set ns" "n_start (N n) < n_start (N y)"
  have "n \<noteq> y" using y(2) by auto
  then show "start_after N n (a # ns) hi \<le> n_start (N y)"
    using apart_hole_free [OF assms(1) _ assms(2) y(1), of n] assms(3) e y apart_bounds [OF assms(1) y(1)] apart_bounds [OF assms(1,3)]
      apart_disjoint [OF assms(1,3) y(1)]
    by auto
qed

text \<open>A stretch that no node overlaps lies in one hole.\<close>

lemma apart_free_hole:
  assumes "apart N pos ns hi" "pos \<le> x" "x < y" "y \<le> hi" "distinct (a # ns)"
    and "\<And>n. n \<in> set ns \<Longrightarrow> n_start (N n) + n_size (N n) \<le> x \<or> y \<le> n_start (N n)"
  shows "\<exists>h \<in> set (a # ns). end_of N pos a h \<le> x \<and> y \<le> start_after N h (a # ns) hi"
  using assms
proof (induction ns arbitrary: pos a)
  case Nil
  then show ?case by (simp add: end_of_def)
next
  case (Cons n ns)
  consider "n_start (N n) + n_size (N n) \<le> x" | "y \<le> n_start (N n)" using Cons.prems(6) by auto
  then show ?case
  proof cases
    case 1
    then have "\<exists>h \<in> set (n # ns). end_of N (n_start (N n) + n_size (N n)) n h \<le> x \<and> y \<le> start_after N h (n # ns) hi"
      using Cons.prems by (intro Cons.IH) auto
    then obtain h where h: "h \<in> set (n # ns)" "end_of N (n_start (N n) + n_size (N n)) n h \<le> x" "y \<le> start_after N h (n # ns) hi" by blast
    then have "h \<noteq> a" using Cons.prems(5) by auto
    then have "end_of N pos a h = end_of N (n_start (N n) + n_size (N n)) n h" by (simp add: end_of_def)
    then show ?thesis using h \<open>h \<noteq> a\<close> by (intro bexI [of _ h]) auto
  next
    case 2
    then show ?thesis using Cons.prems(2) by (intro bexI [of _ a]) (auto simp: end_of_def)
  qed
qed


text \<open>The node before another, and the hole that appears when the other leaves.\<close>

lemma pred_geometry:
  assumes "apart N pos ns hi" "n \<in> set ns" "distinct (a # ns)"
  shows "end_of N pos a (pred_in n (a # ns) d) \<le> n_start (N n)"
    "n_start (N n) + n_size (N n) \<le> start_after N (pred_in n (a # ns) d) (a # remove1 n ns) hi"
  using assms
proof (induction ns arbitrary: pos a)
  case (Cons x xs)
  {
    case 1
    then have l: "apart N (n_start (N x) + n_size (N x)) xs hi" by simp
    show ?case
    proof (cases "x = n")
      case True
      then show ?thesis using 1 by (simp add: end_of_def)
    next
      case False
      then have n: "n \<in> set xs" "distinct (x # xs)" using 1 by auto
      have "pred_in n (x # xs) d \<noteq> a" using pred_in_props [OF n, of d] 1 by auto
      then have "end_of N pos a (pred_in n (x # xs) d) = end_of N (n_start (N x) + n_size (N x)) x (pred_in n (x # xs) d)"
        by (simp add: end_of_def)
      then show ?thesis using Cons.IH(1) [OF l n] False by simp
    qed
  next
    case 2
    then have l: "apart N (n_start (N x) + n_size (N x)) xs hi" by simp
    show ?case
    proof (cases "x = n")
      case True
      then show ?thesis using 2 l apart_le [OF l] by (cases xs) auto
    next
      case False
      then have n: "n \<in> set xs" "distinct (x # xs)" using 2 by auto
      have "pred_in n (x # xs) d \<noteq> a" using pred_in_props [OF n, of d] 2 by auto
      then show ?thesis using Cons.IH(2) [OF l n] False by simp
    qed
  }
qed simp_all

lemma start_after_edge: "start_after N h xs hi = hi \<or> (\<exists>d \<in> set (tl xs). start_after N h xs hi = n_start (N d))"
  by (induction N h xs hi rule: start_after.induct) auto

text \<open>A stretch of the table, free of nodes and overlapping one.\<close>

definition overlaps :: "drm_mm \<Rightarrow> addr \<Rightarrow> int \<Rightarrow> int \<Rightarrow> bool" where
  "overlaps mm n x y \<longleftrightarrow> x < n_start (mm_nodes mm n) + n_size (mm_nodes mm n) \<and> n_start (mm_nodes mm n) < y"

section \<open>One block of a scan\<close>

definition scan_narrow :: "drm_mm \<Rightarrow> int \<times> int \<Rightarrow> int \<times> int" where
  "scan_narrow mm = (if scan_check_range mm then narrow_range (scan_start mm) (scan_end mm) else id)"

text \<open>What holds of the manager throughout a scan.\<close>

definition scan_inv :: "int \<Rightarrow> int \<Rightarrow> drm_mm \<Rightarrow> bool" where
  "scan_inv lo hi mm \<longleftrightarrow> 0 \<le> lo \<and> lo < hi \<and> hi < MM_LIMIT \<and> distinct (ring mm) \<and>
     n_start (mm_nodes mm head_node) = hi \<and> n_size (mm_nodes mm head_node) = u64 (lo - hi) \<and>
     apart (mm_nodes mm) lo (node_list mm) hi \<and> color_adjust mm = None \<and>
     0 < scan_size mm \<and> scan_size mm < MM_LIMIT \<and> 0 \<le> scan_alignment mm \<and> scan_alignment mm < 4294967296 \<and>
     (scan_check_range mm \<longrightarrow> 0 \<le> scan_start mm \<and> scan_start mm < MM_LIMIT \<and> 0 \<le> scan_end mm \<and> scan_end mm < MM_LIMIT)"

text \<open>The fields that a scan leaves alone.\<close>

definition scan_frame :: "drm_mm \<Rightarrow> drm_mm \<Rightarrow> bool" where
  "scan_frame mm mm' \<longleftrightarrow> hole_stack mm' = hole_stack mm \<and> unused_nodes mm' = unused_nodes mm \<and> num_unused mm' = num_unused mm \<and>
     scan_check_range mm' = scan_check_range mm \<and> scan_alignment mm' = scan_alignment mm \<and> scan_color mm' = scan_color mm \<and>
     scan_size mm' = scan_size mm \<and> scan_start mm' = scan_start mm \<and> scan_end mm' = scan_end mm \<and> color_adjust mm' = color_adjust mm \<and>
     (\<forall>a. n_start (mm_nodes mm' a) = n_start (mm_nodes mm a) \<and> n_size (mm_nodes mm' a) = n_size (mm_nodes mm a))"

lemma scan_frame_refl [simp]: "scan_frame mm mm"
  by (simp add: scan_frame_def)

lemma scan_frame_trans: "scan_frame a b \<Longrightarrow> scan_frame b c \<Longrightarrow> scan_frame a c"
  by (simp add: scan_frame_def)

text \<open>The state of the manager when the block is off the list and the hole is tested.\<close>

definition taken :: "addr \<Rightarrow> drm_mm \<Rightarrow> drm_mm" where
  "taken n mm =
     (let p = prev_node mm n;
          mm' = upd_node n (\<lambda>x. x\<lparr>scanned_block := True, scanned_preceeds_hole := hole_follows (mm_nodes mm p),
                   scan_prev := p, scan_next := prev_scanned_node mm\<rparr>) mm
      in (upd_node p (\<lambda>x. x\<lparr>hole_follows := True\<rparr>) mm')
           \<lparr>scanned_blocks := u32 (scanned_blocks mm + 1), node_list := remove1 n (node_list mm), prev_scanned_node := Some n\<rparr>)"

definition hole_hit :: "drm_mm \<Rightarrow> int \<Rightarrow> int \<Rightarrow> bool" where
  "hole_hit mm hs he \<longleftrightarrow> (case scan_narrow mm (hs, he) of (s, e) \<Rightarrow> check_free_hole s e (scan_size mm) (scan_alignment mm))"

lemma scan_add_taken:
  assumes n: "n \<in> set (node_list mm)" "distinct (ring mm)" and ns: "\<not> scanned_block (mm_nodes mm n)" and c: "color_adjust mm = None"
  shows "drm_mm_scan_add_block n mm = Some
    (let p = prev_node mm n; M = taken n mm; hs = hole_node_start_raw M p; he = drm_mm_hole_node_end M p
     in if hole_hit M hs he then (True, M\<lparr>scan_hit_start := hs, scan_hit_end := he\<rparr>) else (False, M))"
proof -
  have p: "prev_node mm n \<noteq> n"
    using pred_in_props [OF n(1), of head_node head_node] n(2) by (simp add: prev_node_def ring_def)
  have pr: "prev_node (upd_node a f (mm\<lparr>scanned_blocks := k\<rparr>)) n = prev_node mm n" for a f k
    by (simp add: prev_node_def)
  let ?p = "prev_node mm n"
  have st: "(upd_node n (\<lambda>x. x\<lparr>scan_prev := ?p, scan_next := prev_scanned_node mm\<rparr>)
       ((upd_node ?p (\<lambda>x. x\<lparr>hole_follows := True\<rparr>)
         (upd_node n (\<lambda>x. x\<lparr>scanned_preceeds_hole := hole_follows (mm_nodes mm ?p)\<rparr>)
           (upd_node n (\<lambda>x. x\<lparr>scanned_block := True\<rparr>) (mm\<lparr>scanned_blocks := u32 (scanned_blocks mm + 1)\<rparr>))))
         \<lparr>node_list := remove1 n (node_list mm)\<rparr>))\<lparr>prev_scanned_node := Some n\<rparr> = taken n mm"
    using p by (simp add: taken_def Let_def upd_node_def fun_upd_twist)
  have hf: "hole_follows (mm_nodes (taken n mm) ?p)" by (simp add: taken_def Let_def)
  have ca: "color_adjust (taken n mm) = None" using c by (simp add: taken_def Let_def)
  show ?thesis
    unfolding drm_mm_scan_add_block_def Let_def
    using ns p
    by (simp add: pr st [simplified] hf ca drm_mm_hole_node_start_def adjust_hole_def hole_hit_def scan_narrow_def narrow_range_def
        split del: if_split cong: if_cong) (simp add: taken_def Let_def)
qed

lemma scan_add_frame: "drm_mm_scan_add_block n mm = Some (b, mm') \<Longrightarrow> scan_frame mm mm'"
  by (auto simp: drm_mm_scan_add_block_def Let_def bind_eq_Some_conv scan_frame_def case_prod_unfold split: if_splits)

lemma scan_remove_frame:
  "drm_mm_scan_remove_block n mm = Some (b, mm') \<Longrightarrow>
     scan_frame mm mm' \<and> scan_hit_start mm' = scan_hit_start mm \<and> scan_hit_end mm' = scan_hit_end mm"
  by (auto simp: drm_mm_scan_remove_block_def Let_def bind_eq_Some_conv scan_frame_def add_node_after_def)

lemma raw_start_head:
  assumes "scan_inv lo hi mm" "h \<in> set (ring mm)"
  shows "hole_node_start_raw mm h = end_of (mm_nodes mm) lo head_node h"
proof (cases "h = head_node")
  case True
  have b: "0 \<le> lo" "lo < hi" "hi < 18446744073709551616"
    using assms(1) by (simp_all add: scan_inv_def MM_LIMIT_def)
  then have "u64 (hi + u64 (lo - hi)) = u64 (hi + (lo - hi + 18446744073709551616))"
    by (simp only: u64_diff_borrow)
  also have "\<dots> = lo" using b by (simp add: u64_def)
  finally show ?thesis using True assms(1) by (simp add: hole_node_start_raw_def scan_inv_def end_of_def)
next
  case False
  then have h: "h \<in> set (node_list mm)" using assms(2) by (simp add: ring_def)
  have "apart (mm_nodes mm) lo (node_list mm) hi" using assms(1) by (simp add: scan_inv_def)
  from apart_bounds [OF this h] have "u64 (n_start (mm_nodes mm h) + n_size (mm_nodes mm h)) = n_start (mm_nodes mm h) + n_size (mm_nodes mm h)"
    using assms(1) by (intro u64_id) (auto simp: scan_inv_def MM_LIMIT_def)
  then show ?thesis using False by (simp add: hole_node_start_raw_def end_of_def)
qed

lemma raw_end_next:
  assumes "scan_inv lo hi mm"
  shows "drm_mm_hole_node_end mm h = start_after (mm_nodes mm) h (ring mm) hi"
  using assms by (simp add: drm_mm_hole_node_end_def hole_node_end_raw_def next_node_def scan_inv_def succ_in_start ring_def)

definition wanted_fits :: "drm_mm \<Rightarrow> int \<Rightarrow> int \<Rightarrow> bool" where
  "wanted_fits mm x y \<longleftrightarrow> (case scan_narrow mm (x, y) of (s, e) \<Rightarrow> block_fits s e (scan_size mm) (scan_alignment mm))"

text \<open>After a hit: no node on the list is in the hole that was found, and a block fits there.\<close>

definition hit_ok :: "int \<Rightarrow> int \<Rightarrow> drm_mm \<Rightarrow> bool" where
  "hit_ok lo hi mm \<longleftrightarrow> lo \<le> scan_hit_start mm \<and> scan_hit_end mm \<le> hi \<and>
     (\<forall>m \<in> set (node_list mm). \<not> overlaps mm m (scan_hit_start mm) (scan_hit_end mm)) \<and>
     wanted_fits mm (scan_hit_start mm) (scan_hit_end mm) \<and>
     (scan_hit_start mm = lo \<or> (\<exists>m \<in> set (node_list mm). scan_hit_start mm = n_start (mm_nodes mm m) + n_size (mm_nodes mm m))) \<and>
     (scan_hit_end mm = hi \<or> (\<exists>m \<in> set (node_list mm). scan_hit_end mm = n_start (mm_nodes mm m)))"

text \<open>Without one: no block fits in a stretch that would be free without the node.\<close>

definition no_hit :: "int \<Rightarrow> int \<Rightarrow> drm_mm \<Rightarrow> drm_mm \<Rightarrow> addr set \<Rightarrow> bool" where
  "no_hit lo hi mm mm' S \<longleftrightarrow>
     (\<forall>x y. lo \<le> x \<longrightarrow> y \<le> hi \<longrightarrow> (\<forall>m \<in> set (node_list mm'). \<not> overlaps mm m x y) \<longrightarrow> (\<exists>n \<in> S. overlaps mm n x y) \<longrightarrow>
        \<not> wanted_fits mm x y)"

lemma hole_hit_fits:
  assumes "scan_inv lo hi mm" "0 \<le> hs" "hs \<le> hi" "0 \<le> he" "he \<le> hi"
  shows "hole_hit mm hs he \<longleftrightarrow> wanted_fits mm hs he"
proof -
  obtain s e where se: "scan_narrow mm (hs, he) = (s, e)" by force
  have "0 \<le> s" "s < MM_LIMIT" "0 \<le> e" "e < MM_LIMIT"
    using se assms by (auto simp: scan_inv_def scan_narrow_def narrow_range_def split: if_splits)
  then show ?thesis
    using assms(1) check_free_hole_fits [of s e "scan_size mm" "scan_alignment mm"] by (simp add: hole_hit_def wanted_fits_def se scan_inv_def)
qed

lemma taken_fields:
  assumes "n \<in> set (node_list mm)" "distinct (ring mm)"
  shows "scan_frame mm (taken n mm)" "node_list (taken n mm) = remove1 n (node_list mm)"
    "scan_hit_start (taken n mm) = scan_hit_start mm" "scan_hit_end (taken n mm) = scan_hit_end mm"
  by (auto simp: taken_def Let_def scan_frame_def)

lemma scan_inv_frame:
  assumes "scan_inv lo hi mm" "scan_frame mm mm'" "node_list mm' = remove1 n (node_list mm)"
  shows "scan_inv lo hi mm'"
proof -
  have "apart (mm_nodes mm') lo (node_list mm') hi = apart (mm_nodes mm) lo (node_list mm') hi"
    using assms(2) by (intro apart_cong) (auto simp: scan_frame_def)
  moreover have "distinct (ring mm')" using assms(1,3) by (auto simp: ring_def scan_inv_def)
  ultimately show ?thesis
    using assms apart_remove1 [of "mm_nodes mm" lo "node_list mm" hi n] by (simp add: scan_inv_def scan_frame_def)
qed

lemma wanted_fits_mono:
  assumes "wanted_fits mm x y" "x' \<le> x" "y \<le> y'"
  shows "wanted_fits mm x' y'"
proof -
  have "block_fits s' e' sz al" if "block_fits s e sz al" "s' \<le> s" "e \<le> e'" for s e s' e' sz al
    using that unfolding block_fits_def by (meson order_trans)
  then show ?thesis using assms by (auto simp: wanted_fits_def scan_narrow_def narrow_range_def split: if_splits)
qed

lemma frame_same:
  assumes "scan_frame mm mm'"
  shows "overlaps mm' n x y = overlaps mm n x y" "wanted_fits mm' x y = wanted_fits mm x y"
  using assms by (simp_all add: overlaps_def wanted_fits_def scan_narrow_def scan_frame_def)

lemma scan_add_result:
  assumes inv: "scan_inv lo hi mm" and n: "n \<in> set (node_list mm)" and ns: "\<not> scanned_block (mm_nodes mm n)"
  shows "\<exists>b mm'. drm_mm_scan_add_block n mm = Some (b, mm') \<and> scan_inv lo hi mm' \<and> scan_frame mm mm' \<and>
    node_list mm' = remove1 n (node_list mm) \<and>
    (if b then hit_ok lo hi mm' \<and> overlaps mm n (scan_hit_start mm') (scan_hit_end mm')
     else no_hit lo hi mm mm' {n} \<and> scan_hit_start mm' = scan_hit_start mm \<and> scan_hit_end mm' = scan_hit_end mm)"
proof -
  have d: "distinct (ring mm)" and c: "color_adjust mm = None" using inv by (simp_all add: scan_inv_def)
  define M where "M = taken n mm"
  define p where "p = prev_node mm n"
  note tf = taken_fields [OF n d, folded M_def]
  have inv': "scan_inv lo hi M" by (rule scan_inv_frame [OF inv tf(1,2)])
  have "p \<in> set (ring mm)" "p \<noteq> n"
    using pred_in_props [OF n, of head_node head_node] d by (auto simp: p_def prev_node_def ring_def)
  then have p': "p \<in> set (ring M)" using tf(2) by (auto simp: ring_def)
  define hs where "hs = hole_node_start_raw M p"
  define he where "he = drm_mm_hole_node_end M p"
  have hs: "hs = end_of (mm_nodes M) lo head_node p" unfolding hs_def by (rule raw_start_head [OF inv' p'])
  have he: "he = start_after (mm_nodes M) p (ring M) hi" unfolding he_def by (rule raw_end_next [OF inv'])
  have ap: "apart (mm_nodes M) lo (node_list M) hi" and d': "distinct (head_node # node_list M)"
    using inv' by (auto simp: scan_inv_def ring_def)
  have ap0: "apart (mm_nodes M) lo (node_list mm) hi"
    using inv tf(1) apart_cong [of "node_list mm" "mm_nodes M" "mm_nodes mm" lo hi] by (simp add: scan_inv_def scan_frame_def)
  have hole: "lo \<le> hs \<and> hs \<le> he \<and> he \<le> hi"
    unfolding hs he using apart_hole [OF ap _ d', of p] p' by (simp add: ring_def)
  have free: "\<not> overlaps M m hs he" if "m \<in> set (node_list M)" for m
    unfolding hs he overlaps_def using apart_hole_free [OF ap _ d' that, of p] p' by (auto simp: ring_def)
  have in_hole: "hs \<le> n_start (mm_nodes M n)" "n_start (mm_nodes M n) + n_size (mm_nodes M n) \<le> he"
    unfolding hs he using pred_geometry [OF ap0 n d [unfolded ring_def], of head_node] tf(2)
    by (simp_all add: p_def prev_node_def ring_def)
  have ext: "0 < n_size (mm_nodes M n)" using apart_bounds [OF ap0 n] by simp
  have edge: "hs = lo \<or> (\<exists>m \<in> set (node_list M). hs = n_start (mm_nodes M m) + n_size (mm_nodes M m))"
    using p' unfolding hs by (auto simp: end_of_def ring_def)
  have edge': "he = hi \<or> (\<exists>m \<in> set (node_list M). he = n_start (mm_nodes M m))"
    using start_after_edge [of "mm_nodes M" p "ring M" hi] unfolding he by (auto simp: ring_def)
  have e: "drm_mm_scan_add_block n mm = Some
     (if hole_hit M hs he then (True, M\<lparr>scan_hit_start := hs, scan_hit_end := he\<rparr>) else (False, M))"
    unfolding scan_add_taken [OF n d ns c] by (simp add: Let_def M_def p_def hs_def he_def)
  have "0 \<le> lo" using inv by (simp add: scan_inv_def)
  then have fits: "hole_hit M hs he \<longleftrightarrow> wanted_fits M hs he"
    using hole by (intro hole_hit_fits [OF inv']) auto
  show ?thesis
  proof (cases "hole_hit M hs he")
    case True
    let ?M = "M\<lparr>scan_hit_start := hs, scan_hit_end := he\<rparr>"
    have fr: "scan_frame mm ?M" using tf(1) by (simp add: scan_frame_def)
    have "hit_ok lo hi ?M"
      using hole free edge edge' True fits by (auto simp: hit_ok_def overlaps_def wanted_fits_def scan_narrow_def)
    moreover have "scan_inv lo hi ?M" using scan_inv_frame [OF inv fr, of n] tf(2) by simp
    moreover have "overlaps mm n hs he"
      using in_hole ext tf(1) by (auto simp: overlaps_def scan_frame_def)
    ultimately show ?thesis using e True fr tf(2) by (intro exI [of _ True] exI [of _ ?M]) simp
  next
    case False
    have "no_hit lo hi mm M {n}"
      unfolding no_hit_def
    proof (intro allI impI)
      fix x y assume xy: "lo \<le> x" "y \<le> hi" "\<forall>m \<in> set (node_list M). \<not> overlaps mm m x y" "\<exists>m \<in> {n}. overlaps mm m x y"
      then have ov: "\<And>m. m \<in> set (node_list M) \<Longrightarrow> \<not> overlaps M m x y" "overlaps M n x y"
        using frame_same(1) [OF tf(1)] by auto
      have "hs \<le> x" using edge ov(1) xy(1) ov(2) in_hole(1) apart_bounds [OF ap] by (auto simp: overlaps_def) fastforce
      moreover have "y \<le> he" using edge' ov(1) xy(2) ov(2) in_hole(2) apart_bounds [OF ap] by (auto simp: overlaps_def) fastforce
      ultimately have "\<not> wanted_fits M x y" using False fits wanted_fits_mono by blast
      then show "\<not> wanted_fits mm x y" using frame_same(2) [OF tf(1)] by simp
    qed
    then show ?thesis using e False inv' tf by (intro exI [of _ False] exI [of _ M]) simp
  qed
qed

lemma scan_add_scanned:
  assumes "scan_inv lo hi mm" "n \<in> set (node_list mm)" "\<not> scanned_block (mm_nodes mm n)"
    and "drm_mm_scan_add_block n mm = Some (b, mm')" "a \<noteq> n"
  shows "scanned_block (mm_nodes mm' a) = scanned_block (mm_nodes mm a)"
proof -
  have "distinct (ring mm)" using assms(1) by (simp add: scan_inv_def)
  from scan_add_block_effect [OF assms(2) this assms(3)] assms(4,5) show ?thesis
    by (cases "a = prev_node mm n") auto
qed

section \<open>The scan over the objects\<close>

definition node_of :: "evict_state \<Rightarrow> nat \<Rightarrow> addr" where
  "node_of s ob = the (space s ob)"

lemma mark_loop_append:
  "mark_loop s (xs @ ys) u mm = do {
     (hit, u, mm) \<leftarrow> mark_loop s xs u mm;
     if hit then Some (True, u, mm) else mark_loop s ys u mm }"
proof (induction xs arbitrary: u mm)
  case (Cons x xs)
  show ?case by (cases "mark_free s x u mm") (auto simp: Cons.IH split: prod.splits)
qed simp

lemma mark_loop_result:
  assumes "scan_inv lo hi mm" "distinct obs"
    and "\<And>ob. ob \<in> set obs \<Longrightarrow> space s ob \<noteq> None \<and> node_of s ob \<in> set (node_list mm) \<and> \<not> scanned_block (mm_nodes mm (node_of s ob))"
    and "inj_on (node_of s) (set obs)"
  shows "\<exists>b us mm'. mark_loop s obs u mm = Some (b, rev us @ u, mm') \<and> distinct us \<and>
    set us \<subseteq> {ob \<in> set obs. pins s ob = 0} \<and> scan_add_all (map (node_of s) us) mm = Some mm' \<and>
    scan_inv lo hi mm' \<and> scan_frame mm mm' \<and> set (node_list mm') = set (node_list mm) - node_of s ` set us \<and>
    (if b then hit_ok lo hi mm' \<and> (\<exists>ob \<in> set us. overlaps mm (node_of s ob) (scan_hit_start mm') (scan_hit_end mm'))
     else set us = {ob \<in> set obs. pins s ob = 0} \<and> no_hit lo hi mm mm' (node_of s ` set us) \<and>
       scan_hit_start mm' = scan_hit_start mm \<and> scan_hit_end mm' = scan_hit_end mm)"
  using assms
proof (induction obs arbitrary: u mm)
  case Nil
  then show ?case by (intro exI [of _ False] exI [of _ "[]"] exI [of _ mm]) (simp add: no_hit_def)
next
  case (Cons ob obs)
  show ?case
  proof (cases "pins s ob = 0")
    case False
    have "\<exists>b us mm'. mark_loop s obs u mm = Some (b, rev us @ u, mm') \<and> distinct us \<and>
      set us \<subseteq> {ob \<in> set obs. pins s ob = 0} \<and> scan_add_all (map (node_of s) us) mm = Some mm' \<and>
      scan_inv lo hi mm' \<and> scan_frame mm mm' \<and> set (node_list mm') = set (node_list mm) - node_of s ` set us \<and>
      (if b then hit_ok lo hi mm' \<and> (\<exists>ob \<in> set us. overlaps mm (node_of s ob) (scan_hit_start mm') (scan_hit_end mm'))
       else set us = {ob \<in> set obs. pins s ob = 0} \<and> no_hit lo hi mm mm' (node_of s ` set us) \<and>
         scan_hit_start mm' = scan_hit_start mm \<and> scan_hit_end mm' = scan_hit_end mm)"
      using Cons.prems by (intro Cons.IH) auto
    moreover have "mark_loop s (ob # obs) u mm = mark_loop s obs u mm" using False by (simp add: mark_free_def)
    moreover have "{x \<in> set (ob # obs). pins s x = 0} = {x \<in> set obs. pins s x = 0}" using False by auto
    ultimately show ?thesis by (simp only:)
  next
    case True
    let ?n = "node_of s ob"
    have n: "space s ob = Some ?n" "?n \<in> set (node_list mm)" "\<not> scanned_block (mm_nodes mm ?n)"
      using Cons.prems(3) [of ob] by (auto simp: node_of_def)
    obtain b m1 where m1: "drm_mm_scan_add_block ?n mm = Some (b, m1)" "scan_inv lo hi m1" "scan_frame mm m1"
      "node_list m1 = remove1 ?n (node_list mm)"
      "if b then hit_ok lo hi m1 \<and> overlaps mm ?n (scan_hit_start m1) (scan_hit_end m1)
       else no_hit lo hi mm m1 {?n} \<and> scan_hit_start m1 = scan_hit_start mm \<and> scan_hit_end m1 = scan_hit_end mm"
      using scan_add_result [OF Cons.prems(1) n(2,3)] by blast
    have d: "distinct (node_list mm)" using Cons.prems(1) by (simp add: scan_inv_def ring_def)
    have mf: "mark_free s ob u mm = Some (b, ob # u, m1)" using True n(1) m1(1) by (simp add: mark_free_def)
    show ?thesis
    proof (cases b)
      case hit: True
      then show ?thesis
        using mf m1 d True by (intro exI [of _ True] exI [of _ "[ob]"] exI [of _ m1]) auto
    next
      case no: False
      have ne: "node_of s x \<noteq> ?n" if "x \<in> set obs" for x
        using that Cons.prems(2,4) by (auto simp: inj_on_def)
      have "\<exists>b us mm'. mark_loop s obs (ob # u) m1 = Some (b, rev us @ ob # u, mm') \<and> distinct us \<and>
        set us \<subseteq> {ob \<in> set obs. pins s ob = 0} \<and> scan_add_all (map (node_of s) us) m1 = Some mm' \<and>
        scan_inv lo hi mm' \<and> scan_frame m1 mm' \<and> set (node_list mm') = set (node_list m1) - node_of s ` set us \<and>
        (if b then hit_ok lo hi mm' \<and> (\<exists>ob \<in> set us. overlaps m1 (node_of s ob) (scan_hit_start mm') (scan_hit_end mm'))
         else set us = {ob \<in> set obs. pins s ob = 0} \<and> no_hit lo hi m1 mm' (node_of s ` set us) \<and>
           scan_hit_start mm' = scan_hit_start m1 \<and> scan_hit_end mm' = scan_hit_end m1)"
      proof (rule Cons.IH [OF m1(2)])
        fix x assume x: "x \<in> set obs"
        show "space s x \<noteq> None \<and> node_of s x \<in> set (node_list m1) \<and> \<not> scanned_block (mm_nodes m1 (node_of s x))"
          using Cons.prems(3) [of x] x ne [OF x] m1(4) scan_add_scanned [OF Cons.prems(1) n(2,3) m1(1) ne [OF x]] by simp
      qed (use Cons.prems in auto)
      then obtain b' us mm' where r: "mark_loop s obs (ob # u) m1 = Some (b', rev us @ ob # u, mm')" "distinct us"
        "set us \<subseteq> {ob \<in> set obs. pins s ob = 0}" "scan_add_all (map (node_of s) us) m1 = Some mm'"
        "scan_inv lo hi mm'" "scan_frame m1 mm'" "set (node_list mm') = set (node_list m1) - node_of s ` set us"
        "if b' then hit_ok lo hi mm' \<and> (\<exists>ob \<in> set us. overlaps m1 (node_of s ob) (scan_hit_start mm') (scan_hit_end mm'))
         else set us = {ob \<in> set obs. pins s ob = 0} \<and> no_hit lo hi m1 mm' (node_of s ` set us) \<and>
           scan_hit_start mm' = scan_hit_start m1 \<and> scan_hit_end mm' = scan_hit_end m1"
        by blast
      note same = frame_same [OF m1(3)]
      have nl: "set (node_list mm') = set (node_list mm) - node_of s ` set (ob # us)" using r(7) m1(4) d by auto
      have nh: "no_hit lo hi mm mm' (node_of s ` set (ob # us))" if nb: "\<not> b'"
        unfolding no_hit_def
      proof (intro allI impI)
        fix x y assume xy: "lo \<le> x" "y \<le> hi" "\<forall>m \<in> set (node_list mm'). \<not> overlaps mm m x y"
          "\<exists>n \<in> node_of s ` set (ob # us). overlaps mm n x y"
        show "\<not> wanted_fits mm x y"
        proof (cases "\<exists>n \<in> node_of s ` set us. overlaps mm n x y")
          case True
          have "no_hit lo hi m1 mm' (node_of s ` set us)" using r(8) unfolding if_not_P [OF nb] by blast
          then show ?thesis using xy True unfolding no_hit_def same by blast
        next
          case False
          then have "\<forall>m \<in> set (node_list m1). \<not> overlaps mm m x y" "overlaps mm ?n x y"
            using xy r(7) m1(4) by auto
          then show ?thesis using xy(1,2) m1(5) no unfolding no_hit_def by auto
        qed
      qed
      show ?thesis
      proof (intro exI conjI)
        show "mark_loop s (ob # obs) u mm = Some (b', rev (ob # us) @ u, mm')" using mf no r(1) by simp
        show "distinct (ob # us)" using r(2,3) Cons.prems(2) by auto
        show "set (ob # us) \<subseteq> {x \<in> set (ob # obs). pins s x = 0}" using r(3) True by auto
        show "scan_add_all (map (node_of s) (ob # us)) mm = Some mm'" using m1(1) r(4) by simp
        show "scan_inv lo hi mm'" by fact
        show "scan_frame mm mm'" using m1(3) r(6) by (rule scan_frame_trans)
        show "set (node_list mm') = set (node_list mm) - node_of s ` set (ob # us)" by (rule nl)
        show "if b' then hit_ok lo hi mm' \<and> (\<exists>x \<in> set (ob # us). overlaps mm (node_of s x) (scan_hit_start mm') (scan_hit_end mm'))
          else set (ob # us) = {x \<in> set (ob # obs). pins s x = 0} \<and> no_hit lo hi mm mm' (node_of s ` set (ob # us)) \<and>
            scan_hit_start mm' = scan_hit_start mm \<and> scan_hit_end mm' = scan_hit_end mm"
          using r(8) m1(5) no nh same True by auto
      qed
    qed
  qed
qed


section \<open>Taking the blocks out of the scan\<close>

lemma unwind_found_append:
  "unwind_found s (xs @ ys) ev mm = do { (ev, mm) \<leftarrow> unwind_found s xs ev mm; unwind_found s ys ev mm }"
proof (induction xs arbitrary: ev mm)
  case (Cons x xs)
  show ?case
  proof (cases "space s x")
    case (Some n)
    then show ?thesis by (cases "drm_mm_scan_remove_block n mm") (auto simp: Cons.IH)
  qed simp
qed simp

lemma unwind_found_state:
  assumes "unwind_found s us ev mm = Some (ev', mm')"
  shows "scan_remove_all (map (node_of s) us) mm = Some mm'"
  using assms
proof (induction us arbitrary: ev mm)
  case (Cons x us)
  then obtain n where n: "space s x = Some n" by (cases "space s x") auto
  then obtain r m where "drm_mm_scan_remove_block n mm = Some (r, m)" "unwind_found s us (if r then x # ev else ev) m = Some (ev', mm')"
    using Cons.prems by (auto simp: bind_eq_Some_conv)
  then show ?case using Cons.IH n by (simp add: node_of_def)
qed simp

lemma scan_remove_all_append: "scan_remove_all (xs @ ys) m = scan_remove_all xs m \<bind> scan_remove_all ys"
  by (induction xs arbitrary: m) (auto split: Option.bind_split)

lemma scan_remove_flag:
  "drm_mm_scan_remove_block n mm = Some (r, mm') \<Longrightarrow>
     r \<longleftrightarrow> scan_hit_start mm' < drm_mm_hole_node_end mm' n \<and> n_start (mm_nodes mm' n) < scan_hit_end mm'"
  unfolding drm_mm_scan_remove_block_def Let_def bind_eq_Some_conv by (auto simp only: option.inject prod.inject)

lemma hole_end_same:
  "node_list mm' = node_list mm \<Longrightarrow> (\<And>a. n_start (mm_nodes mm' a) = n_start (mm_nodes mm a)) \<Longrightarrow>
     drm_mm_hole_node_end mm' h = drm_mm_hole_node_end mm h"
  by (simp add: drm_mm_hole_node_end_def hole_node_end_raw_def next_node_def)

text \<open>
  Which objects the blocks to evict belong to: all that overlap the hole, and none that ends before another node which stays on the
  list and starts no later than the hole.
\<close>

definition picked :: "evict_state \<Rightarrow> drm_mm \<Rightarrow> drm_mm \<Rightarrow> nat list \<Rightarrow> nat list \<Rightarrow> bool" where
  "picked s mm m1 us fl \<longleftrightarrow> distinct fl \<and> set fl \<subseteq> set us \<and>
     (\<forall>ob \<in> set us. scan_hit_start m1 < n_start (mm_nodes mm (node_of s ob)) + n_size (mm_nodes mm (node_of s ob)) \<longrightarrow>
        n_start (mm_nodes mm (node_of s ob)) < scan_hit_end m1 \<longrightarrow> ob \<in> set fl) \<and>
     (\<forall>ob \<in> set fl. n_start (mm_nodes mm (node_of s ob)) < scan_hit_end m1 \<and>
        (\<forall>y \<in> set (node_list mm) - node_of s ` set us. n_start (mm_nodes mm (node_of s ob)) < n_start (mm_nodes mm y) \<longrightarrow>
           scan_hit_start m1 < n_start (mm_nodes mm y)))"

lemma unwind_found_result:
  assumes "scan_inv lo hi mm" "distinct us" "inj_on (node_of s) (set us)"
    and "\<And>ob. ob \<in> set us \<Longrightarrow> space s ob \<noteq> None \<and> node_of s ob \<in> set (node_list mm) \<and> \<not> scanned_block (mm_nodes mm (node_of s ob))"
    and "0 \<le> scanned_blocks mm" "scanned_blocks mm < 4294967296"
    and "scan_add_all (map (node_of s) us) mm = Some m1"
  shows "\<exists>fl m2. unwind_found s (rev us) ev m1 = Some (fl @ ev, m2) \<and> picked s mm m1 us fl \<and>
    scan_same (node_of s ` set us) mm m2 \<and> scan_frame m1 m2 \<and> scan_hit_start m2 = scan_hit_start m1 \<and> scan_hit_end m2 = scan_hit_end m1"
  using assms
proof (induction us arbitrary: mm)
  case Nil
  then show ?case by (simp add: picked_def scan_same_def)
next
  case (Cons ob us)
  let ?n = "node_of s ob"
  have n: "space s ob = Some ?n" "?n \<in> set (node_list mm)" "\<not> scanned_block (mm_nodes mm ?n)"
    using Cons.prems(4) [of ob] by (auto simp: node_of_def)
  have ne: "node_of s x \<noteq> ?n" if "x \<in> set us" for x
    using that Cons.prems(2,3) by (auto simp: inj_on_def)
  obtain b ma where ma: "drm_mm_scan_add_block ?n mm = Some (b, ma)" "scan_inv lo hi ma" "scan_frame mm ma" "node_list ma = remove1 ?n (node_list mm)"
    using scan_add_result [OF Cons.prems(1) n(2,3)] by blast
  have d: "distinct (ring mm)" using Cons.prems(1) by (simp add: scan_inv_def)
  have sb: "scanned_blocks ma = u32 (scanned_blocks mm + 1)"
    using scan_add_block_effect [OF n(2) d n(3)] ma(1) by auto
  have rest: "scan_add_all (map (node_of s) us) ma = Some m1" using Cons.prems(7) ma(1) by simp
  have "\<exists>fl m2. unwind_found s (rev us) ev m1 = Some (fl @ ev, m2) \<and> picked s ma m1 us fl \<and>
    scan_same (node_of s ` set us) ma m2 \<and> scan_frame m1 m2 \<and> scan_hit_start m2 = scan_hit_start m1 \<and> scan_hit_end m2 = scan_hit_end m1"
  proof (rule Cons.IH [OF ma(2) _ _ _ _ _ rest])
    fix x assume x: "x \<in> set us"
    show "space s x \<noteq> None \<and> node_of s x \<in> set (node_list ma) \<and> \<not> scanned_block (mm_nodes ma (node_of s x))"
      using Cons.prems(4) [of x] x ne [OF x] ma(4) scan_add_scanned [OF Cons.prems(1) n(2,3) ma(1) ne [OF x]] by simp
  qed (use Cons.prems(2,3) sb u32_range in auto)
  then obtain fl m3 where m3: "unwind_found s (rev us) ev m1 = Some (fl @ ev, m3)" "picked s ma m1 us fl"
    "scan_frame m1 m3" "scan_hit_start m3 = scan_hit_start m1" "scan_hit_end m3 = scan_hit_end m1" by blast
  have dn: "distinct (map (node_of s) (ob # us))" using Cons.prems(2,3) by (simp add: distinct_map)
  have "\<exists>x y. scan_add_all (map (node_of s) (ob # us)) mm = Some x \<and> scan_remove_all (rev (map (node_of s) (ob # us))) x = Some y \<and>
      scan_same (set (map (node_of s) (ob # us))) mm y"
    using Cons.prems(4-6) by (intro scan_roundtrip [OF dn _ d]) auto
  then obtain m4 where m4: "scan_remove_all (rev (map (node_of s) (ob # us))) m1 = Some m4" "scan_same (node_of s ` set (ob # us)) mm m4"
    using Cons.prems(7) by auto
  have "scan_remove_all (map (node_of s) (rev us)) m1 = Some m3" by (rule unwind_found_state [OF m3(1)])
  then have "scan_remove_all [?n] m3 = Some m4" using m4(1) by (simp add: scan_remove_all_append rev_map)
  then obtain r where r: "drm_mm_scan_remove_block ?n m3 = Some (r, m4)" by (auto simp: bind_eq_Some_conv)
  note fr4 = scan_remove_frame [OF r]
  have un: "unwind_found s (rev (ob # us)) ev m1 = Some ((if r then ob # fl else fl) @ ev, m4)"
    using m3(1) n(1) r by (simp add: unwind_found_append)
  have same4: "node_list m4 = node_list mm" "\<And>a. n_start (mm_nodes m4 a) = n_start (mm_nodes mm a)"
    using m4(2) by (auto simp: scan_same_def)
  have flag: "r \<longleftrightarrow> scan_hit_start m1 < start_after (mm_nodes mm) ?n (ring mm) hi \<and> n_start (mm_nodes mm ?n) < scan_hit_end m1"
    using scan_remove_flag [OF r] fr4 m3(4,5) hole_end_same [OF same4] same4(2) raw_end_next [OF Cons.prems(1)] by simp
  have ap: "apart (mm_nodes mm) lo (node_list mm) hi" using Cons.prems(1) by (simp add: scan_inv_def)
  note sa = start_after_bounds [OF ap d [unfolded ring_def] n(2), folded ring_def]
  have ext: "n_start (mm_nodes ma a) = n_start (mm_nodes mm a)" "n_size (mm_nodes ma a) = n_size (mm_nodes mm a)" for a
    using ma(3) by (auto simp: scan_frame_def)
  have nl: "set (node_list ma) - node_of s ` set us = set (node_list mm) - node_of s ` set (ob # us)"
    using ma(4) d by (auto simp: ring_def)
  have later: "scan_hit_start m1 < n_start (mm_nodes mm y)"
    if "r" "y \<in> set (node_list mm)" "n_start (mm_nodes mm ?n) < n_start (mm_nodes mm y)" for y
    using flag that sa(2) [of y] by linarith
  have "picked s mm m1 (ob # us) (if r then ob # fl else fl)"
    using m3(2) flag sa(1) later Cons.prems(2) unfolding picked_def nl ext by (auto simp: set_eq_subset)
  then show ?case
    using un m4(2) fr4 m3(3-5) scan_frame_trans by fastforce
qed


section \<open>Unbinding what was picked\<close>

text \<open>The range allocator is well formed, and every object on a list has a node of its own.\<close>

definition evict_inv :: "int \<Rightarrow> int \<Rightarrow> evict_state \<Rightarrow> bool" where
  "evict_inv lo hi s \<longleftrightarrow> mm_inv lo hi (gtt s) \<and> unused_inv (gtt s) \<and> color_adjust (gtt s) = None \<and>
     distinct (inactive_list s @ active_list s) \<and> inj_on (node_of s) (set (inactive_list s @ active_list s)) \<and>
     (\<forall>ob \<in> set (inactive_list s @ active_list s). space s ob \<noteq> None \<and> node_of s ob \<in> set (node_list (gtt s)))"

text \<open>The state without the objects \<open>E\<close>, whose ranges are free.\<close>

definition without :: "nat list \<Rightarrow> evict_state \<Rightarrow> evict_state \<Rightarrow> bool" where
  "without E s s' \<longleftrightarrow>
     unbound_list s' = unbound_list s @ E \<and> pins s' = pins s \<and>
     inactive_list s' = filter (\<lambda>x. x \<notin> set E) (inactive_list s) \<and> active_list s' = filter (\<lambda>x. x \<notin> set E) (active_list s) \<and>
     space s' = (\<lambda>x. if x \<in> set E then None else space s x) \<and>
     set (node_list (gtt s')) = set (node_list (gtt s)) - node_of s ` set E \<and>
     (\<forall>a. n_start (mm_nodes (gtt s') a) = n_start (mm_nodes (gtt s) a) \<and> n_size (mm_nodes (gtt s') a) = n_size (mm_nodes (gtt s) a))"

lemma put_block_more:
  assumes "mm_inv lo hi mm" "n \<in> set (node_list mm)" "drm_mm_put_block n mm = Some mm'"
  shows "n_start (mm_nodes mm' a) = n_start (mm_nodes mm a)" "n_size (mm_nodes mm' a) = n_size (mm_nodes mm a)"
    "color_adjust mm' = color_adjust mm"
proof -
  obtain m1 where m1: "drm_mm_remove_node n mm = Some m1"
    "\<forall>m. n_start (mm_nodes m1 m) = n_start (mm_nodes mm m) \<and> n_size (mm_nodes m1 m) = n_size (mm_nodes mm m)"
    using remove_node_result [OF assms(1,2)] by blast
  have "color_adjust m1 = color_adjust mm"
    using m1(1) by (auto simp: drm_mm_remove_node_def Let_def bind_eq_Some_conv split: if_splits)
  then show "n_start (mm_nodes mm' a) = n_start (mm_nodes mm a)" "n_size (mm_nodes mm' a) = n_size (mm_nodes mm a)"
    "color_adjust mm' = color_adjust mm"
    using assms(3) m1 by (auto simp: drm_mm_put_block_def split: if_splits)
qed

lemma unbind_result:
  assumes inv: "evict_inv lo hi s" and ob: "ob \<in> set (inactive_list s @ active_list s)" "pins s ob = 0"
  shows "if finish ob = 0 then \<exists>s'. i915_gem_object_unbind finish ob s = Some (0, s') \<and> evict_inv lo hi s' \<and> without [ob] s s'
    else i915_gem_object_unbind finish ob s = Some (finish ob, s)"
proof -
  let ?n = "node_of s ob"
  have n: "space s ob = Some ?n" "?n \<in> set (node_list (gtt s))" using inv ob by (auto simp: evict_inv_def node_of_def)
  have mi: "mm_inv lo hi (gtt s)" "unused_inv (gtt s)" using inv by (simp_all add: evict_inv_def)
  obtain mm' where mm': "drm_mm_put_block ?n (gtt s) = Some mm'" "mm_inv lo hi mm'" "unused_inv mm'"
    "node_list mm' = remove1 ?n (node_list (gtt s))"
    using put_block_result [OF mi n(2)] by blast
  note more = put_block_more [OF mi(1) n(2) mm'(1)]
  have d: "distinct (node_list (gtt s))" using mi(1) by (simp add: mm_inv_def ring_def)
  define s' where "s' = s\<lparr>gtt := mm', inactive_list := remove1 ob (inactive_list s), active_list := remove1 ob (active_list s),
      unbound_list := unbound_list s @ [ob], space := (space s)(ob := None)\<rparr>"
  have u: "i915_gem_object_unbind finish ob s = (if finish ob \<noteq> 0 then Some (finish ob, s) else Some (0, s'))"
    using n(1) ob(2) mm'(1) by (simp add: i915_gem_object_unbind_def s'_def)
  have dl: "distinct (inactive_list s)" "distinct (active_list s)" using inv by (auto simp: evict_inv_def)
  have f: "remove1 ob xs = filter (\<lambda>x. x \<notin> set [ob]) xs" if "distinct xs" for xs
    using that by (induction xs) (auto intro!: filter_True [symmetric])
  have lists: "inactive_list s' = filter (\<lambda>x. x \<notin> set [ob]) (inactive_list s)" "active_list s' = filter (\<lambda>x. x \<notin> set [ob]) (active_list s)"
    using f [OF dl(1)] f [OF dl(2)] by (simp_all add: s'_def)
  have nodes: "node_of s' x = node_of s x" if "x \<noteq> ob" for x using that by (simp add: node_of_def s'_def)
  have w: "without [ob] s s'"
    using lists more mm'(4) d unfolding without_def by (auto simp: s'_def fun_eq_iff)
  have "node_of s x \<noteq> ?n" if "x \<in> set (inactive_list s @ active_list s)" "x \<noteq> ob" for x
    using that ob(1) inv unfolding evict_inv_def inj_on_def by blast
  then have "\<forall>x \<in> set (inactive_list s' @ active_list s'). space s' x \<noteq> None \<and> node_of s' x \<in> set (node_list (gtt s'))"
    using inv nodes lists mm'(4) unfolding evict_inv_def by (auto simp: s'_def)
  moreover have "inj_on (node_of s') (set (inactive_list s' @ active_list s'))"
    using inv nodes lists unfolding evict_inv_def inj_on_def by auto
  moreover have "distinct (inactive_list s' @ active_list s')"
    using inv lists by (auto simp: evict_inv_def)
  ultimately have "evict_inv lo hi s'"
    using mm' more inv unfolding evict_inv_def by (simp add: s'_def)
  then show ?thesis using u w by auto
qed

lemma without_trans:
  assumes "without A s t" "without B t u" "set A \<inter> set B = {}"
  shows "without (A @ B) s u"
proof -
  have "node_of t ` set B = node_of s ` set B"
    using assms(1,3) by (intro image_cong) (auto simp: without_def node_of_def)
  then show ?thesis using assms(1,2) by (auto simp: without_def fun_eq_iff)
qed

lemma without_Nil: "without [] s s"
  by (simp add: without_def)

text \<open>Objects are unbound until the wait for one fails.\<close>

lemma evict_loop_result:
  assumes "evict_inv lo hi s" "distinct ev" "\<forall>ob \<in> set ev. ob \<in> set (inactive_list s @ active_list s) \<and> pins s ob = 0"
  shows "\<exists>ret s'. evict_loop finish ev 0 s = Some (ret, s') \<and> evict_inv lo hi s' \<and> without (takeWhile (\<lambda>ob. finish ob = 0) ev) s s' \<and>
    (if \<forall>ob \<in> set ev. finish ob = 0 then ret = 0 else ret \<noteq> 0 \<and> (\<exists>ob \<in> set ev. ret = finish ob))"
  using assms
proof (induction ev arbitrary: s)
  case Nil
  then show ?case by (simp add: without_Nil)
next
  case (Cons ob ev)
  have keep: "evict_loop finish es r s = Some (r, s)" if "r \<noteq> 0" for es r s
    using that by (induction es) auto
  note u = unbind_result [OF Cons.prems(1), of ob finish]
  show ?case
  proof (cases "finish ob = 0")
    case True
    then obtain t where t: "i915_gem_object_unbind finish ob s = Some (0, t)" "evict_inv lo hi t" "without [ob] s t"
      using u Cons.prems(3) by auto
    have "\<forall>x \<in> set ev. x \<in> set (inactive_list t @ active_list t) \<and> pins t x = 0"
      using Cons.prems(2,3) t(3) by (auto simp: without_def)
    then obtain ret s' where r: "evict_loop finish ev 0 t = Some (ret, s')" "evict_inv lo hi s'" "without (takeWhile (\<lambda>ob. finish ob = 0) ev) t s'"
      "if \<forall>ob \<in> set ev. finish ob = 0 then ret = 0 else ret \<noteq> 0 \<and> (\<exists>ob \<in> set ev. ret = finish ob)"
      using Cons.IH [OF t(2)] Cons.prems(2) by auto
    have "without ([ob] @ takeWhile (\<lambda>ob. finish ob = 0) ev) s s'"
      using Cons.prems(2) by (intro without_trans [OF t(3) r(3)]) (auto dest: set_takeWhileD)
    then show ?thesis using r t(1) True by (auto split: if_splits)
  next
    case False
    then have "i915_gem_object_unbind finish ob s = Some (finish ob, s)" using u Cons.prems(3) by auto
    then show ?thesis using False Cons.prems(1) keep by (simp add: without_Nil)
  qed
qed

end
