(* ===== verification/I915_Evict_Thms.thy ===== *)
theory I915_Evict_Thms
  imports I915_Evict_Scan
begin

text \<open>
  Eviction makes room: an allocation of the wanted block succeeds once the objects that the scan picked are unbound, and no stretch
  would have done when it reports that there is none.
\<close>

section \<open>What is asked for\<close>

















section \<open>The scan of an eviction\<close>














section \<open>Properties of eviction\<close>

lemma node_of_gtt [simp]: "node_of (s\<lparr>gtt := m\<rparr>) = node_of s"
  by (simp add: fun_eq_iff node_of_def)



text \<open>Two objects in the table; the older one is in the way of a block of 520 bytes.\<close>

definition two_objects :: evict_state where
  "two_objects = \<lparr>gtt = used_mm, inactive_list = [11], active_list = [10], unbound_list = [],
     space = (\<lambda>ob. if ob = 10 then Some 1 else if ob = 11 then Some 3 else None), pins = (\<lambda>_. 0)\<rparr>"

lemma two_objects_inv: "evict_inv 0 1000 two_objects"
proof -
  have "unused_inv used_mm" by code_simp
  moreover have "inj_on (node_of two_objects) {10, 11}" by (auto simp: two_objects_def node_of_def)
  ultimately show ?thesis using used_inv used_nodes by (simp add: evict_inv_def two_objects_def node_of_def insert_commute)
qed



subsection \<open>Evicting everything\<close>

lemma unbind_all_result:
  assumes "evict_inv lo hi s" "distinct obs" "set obs \<subseteq> set (inactive_list s @ active_list s)"
  shows "\<exists>s'. unbind_all finish obs s = Some s' \<and> evict_inv lo hi s' \<and> without (filter (\<lambda>ob. pins s ob = 0 \<and> finish ob = 0) obs) s s'"
  using assms
proof (induction obs arbitrary: s)
  case Nil
  then show ?case by (simp add: without_Nil)
next
  case (Cons ob obs)
  show ?case
  proof (cases "pins s ob = 0 \<and> finish ob = 0")
    case True
    then obtain t where t: "i915_gem_object_unbind finish ob s = Some (0, t)" "evict_inv lo hi t" "without [ob] s t"
      using unbind_result [OF Cons.prems(1), of ob finish] Cons.prems(3) by auto
    have "set obs \<subseteq> set (inactive_list t @ active_list t)" "pins t = pins s"
      using Cons.prems(2,3) t(3) by (auto simp: without_def)
    then obtain s' where s': "unbind_all finish obs t = Some s'" "evict_inv lo hi s'"
      "without (filter (\<lambda>ob. pins s ob = 0 \<and> finish ob = 0) obs) t s'"
      using Cons.IH [OF t(2)] Cons.prems(2) by auto
    have "without ([ob] @ filter (\<lambda>ob. pins s ob = 0 \<and> finish ob = 0) obs) s s'"
      using Cons.prems(2) by (intro without_trans [OF t(3) s'(3)]) auto
    then show ?thesis using s' t(1) True by simp
  next
    case False
    then have "(if pins s ob = 0 then map_option snd (i915_gem_object_unbind finish ob s) else Some s) = Some s"
      using unbind_result [OF Cons.prems(1), of ob finish] Cons.prems(3) by auto
    moreover have "filter (\<lambda>ob. pins s ob = 0 \<and> finish ob = 0) (ob # obs) = filter (\<lambda>ob. pins s ob = 0 \<and> finish ob = 0) obs"
      using False by simp
    ultimately show ?thesis using Cons.IH [OF Cons.prems(1)] Cons.prems(2,3) by simp
  qed
qed

text \<open>
  \<^verbatim>\<open>i915_gem_evict_everything\<close> refuses with \<^verbatim>\<open>-ENOSPC\<close> when no object is in the table, passes on a failure to idle the chip, and
  otherwise unbinds every object that is not pinned and whose wait succeeds; when that is all of them, and nothing else has a range,
  the table is empty afterwards.
\<close>

theorem i915_gem_evict_everything_correct:
  assumes inv: "evict_inv lo hi s" and ret: "distinct retired" "set retired = set (inactive_list s @ active_list s)"
  shows "\<exists>r s'. i915_gem_evict_everything finish idle retired s = Some (r, s') \<and> evict_inv lo hi s' \<and>
    (if inactive_list s = [] \<and> active_list s = [] then r = - ENOSPC \<and> s' = s
     else if idle \<noteq> 0 then r = idle \<and> s' = s
     else r = 0 \<and> without (filter (\<lambda>ob. pins s ob = 0 \<and> finish ob = 0) retired) (s\<lparr>inactive_list := retired, active_list := []\<rparr>) s' \<and>
       ((\<forall>ob \<in> set retired. pins s ob = 0 \<and> finish ob = 0) \<longrightarrow> set (node_list (gtt s)) = node_of s ` set retired \<longrightarrow>
          node_list (gtt s') = [] \<and> hole_stack (gtt s') = [head_node]))"
proof -
  let ?s = "s\<lparr>inactive_list := retired, active_list := []\<rparr>"
  have n: "node_of ?s = node_of s" by (simp add: fun_eq_iff node_of_def)
  have "evict_inv lo hi ?s" using inv ret n unfolding evict_inv_def by auto
  then obtain s' where s': "unbind_all finish retired ?s = Some s'" "evict_inv lo hi s'"
    "without (filter (\<lambda>ob. pins ?s ob = 0 \<and> finish ob = 0) retired) ?s s'"
    using unbind_all_result [of lo hi ?s retired finish] ret(1) by auto
  have e: "hole_stack (gtt s') = [head_node]" if nl: "node_list (gtt s') = []"
  proof -
    have m: "mm_inv lo hi (gtt s')" using s'(2) by (simp add: evict_inv_def)
    then have "set (hole_stack (gtt s')) = {head_node}" "distinct (hole_stack (gtt s'))"
      using nl by (auto simp: mm_inv_def ring_def)
    then show ?thesis by (metis distinct_card card.empty card.insert empty_iff finite.emptyI length_0_conv length_Suc_conv One_nat_def
        list.set(2) insert_iff list.set_intros(1) singletonD)
  qed
  have "node_list (gtt s') = []"
    if "\<forall>ob \<in> set retired. pins s ob = 0 \<and> finish ob = 0" "set (node_list (gtt s)) = node_of s ` set retired"
    using that s'(3) n by (auto simp: without_def)
  then show ?thesis using s' inv e by (auto simp: i915_gem_evict_everything_def Let_def)
qed

theorem i915_gem_evict_everything_witness:
  "map_option (\<lambda>(r, s). (r, inactive_list s, unbound_list s, node_list (gtt s), hole_stack (gtt s)))
     (i915_gem_evict_everything (\<lambda>_. 0) 0 [11, 10] two_objects) = Some (0, [], [11, 10], [], [0]) \<and>
   (\<exists>r s'. i915_gem_evict_everything (\<lambda>_. 0) 0 [11, 10] two_objects = Some (r, s') \<and> evict_inv 0 1000 s')"
proof
  show "map_option (\<lambda>(r, s). (r, inactive_list s, unbound_list s, node_list (gtt s), hole_stack (gtt s)))
     (i915_gem_evict_everything (\<lambda>_. 0) 0 [11, 10] two_objects) = Some (0, [], [11, 10], [], [0])" by code_simp
  have "set [11, 10] = set (inactive_list two_objects @ active_list two_objects)" by code_simp
  from i915_gem_evict_everything_correct [OF two_objects_inv _ this, of "\<lambda>_. 0" 0]
  show "\<exists>r s'. i915_gem_evict_everything (\<lambda>_. 0) 0 [11, 10] two_objects = Some (r, s') \<and> evict_inv 0 1000 s'" by auto
qed

end
