(* ===== verification/Drm_Vblank.thy ===== *)
theory Drm_Vblank
  imports Gfx_Prelude
begin

text \<open>
  Vertical blank counters and events: \<^verbatim>\<open>uts/common/io/drm/drm_irq.c\<close>, with the reading and release of events from
  \<^verbatim>\<open>drm_fops.c\<close>.

  Counters are 32-bit words. The driver hooks and the clock are parameters: a \<open>sample\<close> is what one turn of the loops that
  read the counter of the chip sees. \<^verbatim>\<open>timeval_to_ns\<close> is made of macros of the operating system and is a parameter too. Locks
  show as the order of steps; waking a waiter has no effect on this state.
\<close>

unbundle bit_operations_syntax

section \<open>State\<close>

record timeval =
  tv_sec :: int
  tv_usec :: int

record vblank_event =
  e_pipe :: nat
  e_file :: nat
  e_sequence :: u32w
  e_data :: u64w
  e_sec :: u32w
  e_usec :: u32w

record crtc_vblank =
  v_enabled :: bool
  v_refcount :: u32w
  v_count :: u32w
  v_last :: u32w
  v_last_wait :: u32w
  v_inmodeset :: u32w
  v_times :: "nat \<Rightarrow> timeval"

record vblank_state =
  num_crtcs :: nat
  crtcs :: "nat \<Rightarrow> crtc_vblank"
  vblank_disable_allowed :: bool
  irq_enabled :: bool
  max_vblank_count :: u32w
  disable_timer :: bool
  vblank_event_list :: "vblank_event list"
  event_list :: "nat \<Rightarrow> vblank_event list"
  event_space :: "nat \<Rightarrow> int"

text \<open>The module parameters, and nanoseconds of a time.\<close>

record vblank_env =
  drm_timestamp_precision :: int
  drm_vblank_offdelay :: int
  timeval_to_ns :: "timeval \<Rightarrow> int"

text \<open>
  The counter of the chip before and after the time is taken, what the hook of the driver says of the time of the last blank (\<open>None\<close>
  without a hook), and the time of day.
\<close>

record sample =
  s_before :: u32w
  s_hook :: "(int \<times> timeval) option"
  s_now :: timeval
  s_after :: u32w

definition upd_crtc :: "nat \<Rightarrow> (crtc_vblank \<Rightarrow> crtc_vblank) \<Rightarrow> vblank_state \<Rightarrow> vblank_state" where
  "upd_crtc c f s = s\<lparr>crtcs := (crtcs s)(c := f (crtcs s c))\<rparr>"

section \<open>Counting\<close>

definition DRM_VBLANKTIME_RBSIZE :: nat where "DRM_VBLANKTIME_RBSIZE = 2"

text \<open>The slot of the time of a count.\<close>

definition vblanktimestamp :: "u32w \<Rightarrow> nat" where
  "vblanktimestamp count = unat count mod DRM_VBLANKTIME_RBSIZE"

definition drm_get_last_vbltimestamp :: "vblank_env \<Rightarrow> (int \<times> timeval) option \<Rightarrow> timeval \<Rightarrow> u32w \<times> timeval" where
  "drm_get_last_vbltimestamp env hook now =
     (let max_error = s32 (s32 (drm_timestamp_precision env) * 1000)
      in case hook of
           Some (ret, tv) \<Rightarrow> if max_error > 0 \<and> ret > 0 then (word_of_int ret, tv) else (0, now)
         | None \<Rightarrow> (0, now))"

definition DRM_TIMESTAMP_MAXRETRIES :: nat where "DRM_TIMESTAMP_MAXRETRIES = 3"

text \<open>The loop of \<^verbatim>\<open>vblank_disable_and_save\<close>: the last count, the precision, the time, and the retries that are left.\<close>

fun save_loop :: "vblank_env \<Rightarrow> nat \<Rightarrow> sample list \<Rightarrow> (u32w \<times> u32w \<times> timeval \<times> nat) option" where
  "save_loop env count [] = None"
| "save_loop env count (x # xs) =
     (case drm_get_last_vbltimestamp env (s_hook x) (s_now x) of
        (vblrc, tvblank) \<Rightarrow>
          if s_before x = s_after x then Some (s_before x, vblrc, tvblank, count)
          else if count - 1 = 0 then Some (s_before x, vblrc, tvblank, 0)
          else if vblrc = 0 then Some (s_before x, vblrc, tvblank, count - 1)
          else save_loop env (count - 1) xs)"

definition clear_vblank_timestamps :: "crtc_vblank \<Rightarrow> crtc_vblank" where
  "clear_vblank_timestamps v = v\<lparr>v_times := (\<lambda>i. if i < DRM_VBLANKTIME_RBSIZE then \<lparr>tv_sec = - 1, tv_usec = - 1\<rparr> else v_times v i)\<rparr>"

definition vblank_disable_and_save :: "vblank_env \<Rightarrow> sample list \<Rightarrow> nat \<Rightarrow> vblank_state \<Rightarrow> vblank_state option" where
  "vblank_disable_and_save env samples c s = do {
     (lst, vblrc, tvblank, count) \<leftarrow> save_loop env DRM_TIMESTAMP_MAXRETRIES samples;
     let vblrc = (if count = 0 then 0 else vblrc);
     let v = (crtcs s c)\<lparr>v_enabled := False, v_last := lst\<rparr>;
     let diff_ns = timeval_to_ns env tvblank - timeval_to_ns env (v_times v (vblanktimestamp (v_count v)));
     let v = (if sint vblrc > 0 \<and> \<bar>diff_ns\<bar> > 1000000 then v\<lparr>v_count := v_count v + 1\<rparr> else v);
     Some (upd_crtc c (\<lambda>_. clear_vblank_timestamps v) s) }"

fun disable_loop :: "vblank_env \<Rightarrow> (nat \<Rightarrow> sample list) \<Rightarrow> nat list \<Rightarrow> vblank_state \<Rightarrow> vblank_state option" where
  "disable_loop env samples [] s = Some s"
| "disable_loop env samples (c # cs) s = do {
     s \<leftarrow> (if v_refcount (crtcs s c) = 0 \<and> v_enabled (crtcs s c) then vblank_disable_and_save env (samples c) c s else Some s);
     disable_loop env samples cs s }"

text \<open>The handler of the timer.\<close>

definition vblank_disable_fn :: "vblank_env \<Rightarrow> (nat \<Rightarrow> sample list) \<Rightarrow> vblank_state \<Rightarrow> vblank_state option" where
  "vblank_disable_fn env samples s =
     (if \<not> vblank_disable_allowed s then Some s else disable_loop env samples [0 ..< num_crtcs s] s)"

definition drm_vblank_cleanup :: "vblank_env \<Rightarrow> (nat \<Rightarrow> sample list) \<Rightarrow> vblank_state \<Rightarrow> vblank_state option" where
  "drm_vblank_cleanup env samples s =
     (if num_crtcs s = 0 then Some s
      else do {
        s \<leftarrow> vblank_disable_fn env samples (s\<lparr>disable_timer := False\<rparr>);
        Some (s\<lparr>num_crtcs := 0\<rparr>) })"

definition zero_vblank :: crtc_vblank where
  "zero_vblank = \<lparr>v_enabled = False, v_refcount = 0, v_count = 0, v_last = 0, v_last_wait = 0, v_inmodeset = 0,
     v_times = (\<lambda>_. \<lparr>tv_sec = 0, tv_usec = 0\<rparr>)\<rparr>"

text \<open>The allocations of \<^verbatim>\<open>drm_vblank_init\<close> sleep until there is memory; the branch for their failure is dead.\<close>

definition drm_vblank_init :: "nat \<Rightarrow> vblank_state \<Rightarrow> int \<times> vblank_state" where
  "drm_vblank_init n s =
     (0, s\<lparr>num_crtcs := n, crtcs := (\<lambda>_. zero_vblank), disable_timer := False, vblank_disable_allowed := False\<rparr>)"

definition drm_vblank_count :: "nat \<Rightarrow> vblank_state \<Rightarrow> u32w" where
  "drm_vblank_count c s = v_count (crtcs s c)"

definition drm_vblank_count_and_time :: "nat \<Rightarrow> vblank_state \<Rightarrow> u32w \<times> timeval" where
  "drm_vblank_count_and_time c s =
     (v_count (crtcs s c), v_times (crtcs s c) (vblanktimestamp (v_count (crtcs s c))))"

text \<open>The loop of \<^verbatim>\<open>drm_update_vblank_count\<close> ends when the counter does not move while the time is taken.\<close>

fun update_loop :: "vblank_env \<Rightarrow> sample list \<Rightarrow> (u32w \<times> u32w \<times> timeval) option" where
  "update_loop env [] = None"
| "update_loop env (x # xs) =
     (if s_before x = s_after x
      then (case drm_get_last_vbltimestamp env (s_hook x) (s_now x) of (rc, tv) \<Rightarrow> Some (s_before x, rc, tv))
      else update_loop env xs)"

definition drm_update_vblank_count :: "vblank_env \<Rightarrow> sample list \<Rightarrow> nat \<Rightarrow> vblank_state \<Rightarrow> vblank_state option" where
  "drm_update_vblank_count env samples c s = do {
     (cur_vblank, rc, t_vblank) \<leftarrow> update_loop env samples;
     let v = crtcs s c;
     let diff = cur_vblank - v_last v;
     let diff = (if cur_vblank < v_last v then diff + max_vblank_count s else diff);
     let v = (if rc \<noteq> 0 then v\<lparr>v_times := (v_times v)(vblanktimestamp (v_count v + diff) := t_vblank)\<rparr> else v);
     Some (upd_crtc c (\<lambda>_. v\<lparr>v_count := v_count v + diff\<rparr>) s) }"

section \<open>References\<close>

text \<open>\<open>enable\<close> is the result of the driver's hook.\<close>

definition drm_vblank_get :: "vblank_env \<Rightarrow> int \<Rightarrow> sample list \<Rightarrow> nat \<Rightarrow> vblank_state \<Rightarrow> (int \<times> vblank_state) option" where
  "drm_vblank_get env enable samples c s =
     (let s = upd_crtc c (\<lambda>v. v\<lparr>v_refcount := v_refcount v + 1\<rparr>) s
      in if v_refcount (crtcs s c) = 1
         then (if \<not> v_enabled (crtcs s c)
               then (if enable \<noteq> 0
                     then Some (enable, upd_crtc c (\<lambda>v. v\<lparr>v_refcount := v_refcount v - 1\<rparr>) s)
                     else do {
                       s \<leftarrow> drm_update_vblank_count env samples c (upd_crtc c (\<lambda>v. v\<lparr>v_enabled := True\<rparr>) s);
                       Some (0, s) })
               else Some (0, s))
         else (if \<not> v_enabled (crtcs s c)
               then Some (- EINVAL, upd_crtc c (\<lambda>v. v\<lparr>v_refcount := v_refcount v - 1\<rparr>) s)
               else Some (0, s)))"

definition drm_vblank_put :: "vblank_env \<Rightarrow> nat \<Rightarrow> vblank_state \<Rightarrow> vblank_state option" where
  "drm_vblank_put env c s = do {
     bug_on (v_refcount (crtcs s c) = 0);
     let s = upd_crtc c (\<lambda>v. v\<lparr>v_refcount := v_refcount v - 1\<rparr>) s;
     Some (if v_refcount (crtcs s c) = 0 \<and> drm_vblank_offdelay env > 0 then s\<lparr>disable_timer := True\<rparr> else s) }"

definition drm_vblank_pre_modeset :: "vblank_env \<Rightarrow> int \<Rightarrow> sample list \<Rightarrow> nat \<Rightarrow> vblank_state \<Rightarrow> vblank_state option" where
  "drm_vblank_pre_modeset env enable samples c s =
     (if num_crtcs s = 0 then Some s
      else if v_inmodeset (crtcs s c) = 0
      then do {
        (ret, s) \<leftarrow> drm_vblank_get env enable samples c (upd_crtc c (\<lambda>v. v\<lparr>v_inmodeset := 1\<rparr>) s);
        Some (if ret = 0 then upd_crtc c (\<lambda>v. v\<lparr>v_inmodeset := v_inmodeset v OR 2\<rparr>) s else s) }
      else Some s)"

definition drm_vblank_post_modeset :: "vblank_env \<Rightarrow> nat \<Rightarrow> vblank_state \<Rightarrow> vblank_state option" where
  "drm_vblank_post_modeset env c s =
     (if num_crtcs s = 0 then Some s
      else if v_inmodeset (crtcs s c) \<noteq> 0
      then do {
        let s = s\<lparr>vblank_disable_allowed := True\<rparr>;
        s \<leftarrow> (if v_inmodeset (crtcs s c) AND 2 \<noteq> 0 then drm_vblank_put env c s else Some s);
        Some (upd_crtc c (\<lambda>v. v\<lparr>v_inmodeset := 0\<rparr>) s) }
      else Some s)"

text \<open>The ioctl around mode changes; \<open>modeset\<close> is the feature of a driver that does this itself.\<close>

definition drm_modeset_ctl ::
  "vblank_env \<Rightarrow> int \<Rightarrow> sample list \<Rightarrow> bool \<Rightarrow> u32w \<Rightarrow> u32w \<Rightarrow> vblank_state \<Rightarrow> (int \<times> vblank_state) option" where
  "drm_modeset_ctl env enable samples modeset crtc cmd s =
     (if num_crtcs s = 0 then Some (0, s)
      else if modeset then Some (0, s)
      else if unat crtc \<ge> num_crtcs s then Some (- EINVAL, s)
      else if cmd = 1 then map_option (Pair 0) (drm_vblank_pre_modeset env enable samples (unat crtc) s)
      else if cmd = 2 then map_option (Pair 0) (drm_vblank_post_modeset env (unat crtc) s)
      else Some (- EINVAL, s))"

section \<open>Events\<close>

text \<open>\<open>EVENT_SIZE\<close> is the size of \<^verbatim>\<open>struct drm_event_vblank\<close>.\<close>

definition EVENT_SIZE :: int where "EVENT_SIZE = 32"

definition send_vblank_event :: "vblank_event \<Rightarrow> u32w \<Rightarrow> timeval \<Rightarrow> vblank_state \<Rightarrow> vblank_state" where
  "send_vblank_event e seq now s =
     (let e = e\<lparr>e_sequence := seq, e_sec := word_of_int (tv_sec now), e_usec := word_of_int (tv_usec now)\<rparr>
      in s\<lparr>event_list := (event_list s)(e_file e := event_list s (e_file e) @ [e])\<rparr>)"

text \<open>An event for no particular controller gets the sequence number 0 and the time of day.\<close>

definition drm_send_vblank_event :: "nat option \<Rightarrow> timeval \<Rightarrow> vblank_event \<Rightarrow> vblank_state \<Rightarrow> vblank_state" where
  "drm_send_vblank_event crtc gettime e s =
     (case crtc of
        Some c \<Rightarrow> (case drm_vblank_count_and_time c s of (seq, now) \<Rightarrow> send_vblank_event (e\<lparr>e_pipe := c\<rparr>) seq now s)
      | None \<Rightarrow> send_vblank_event e 0 gettime s)"

text \<open>
  The loops over the waiting events: those that \<open>due\<close> picks leave the list, give their reference back and are sent. The result has the
  events that stay.
\<close>

fun send_due :: "vblank_env \<Rightarrow> (vblank_event \<Rightarrow> bool) \<Rightarrow> u32w \<Rightarrow> timeval \<Rightarrow> vblank_event list \<Rightarrow> vblank_state \<Rightarrow>
    (vblank_event list \<times> vblank_state) option" where
  "send_due env due seq now [] s = Some ([], s)"
| "send_due env due seq now (e # es) s =
     (if due e
      then do {
        s \<leftarrow> drm_vblank_put env (e_pipe e) s;
        send_due env due seq now es (send_vblank_event e seq now s) }
      else do {
        (stay, s) \<leftarrow> send_due env due seq now es s;
        Some (e # stay, s) })"

definition drm_handle_vblank_events :: "vblank_env \<Rightarrow> nat \<Rightarrow> vblank_state \<Rightarrow> vblank_state option" where
  "drm_handle_vblank_events env c s =
     (case drm_vblank_count_and_time c s of
        (seq, now) \<Rightarrow> do {
          (stay, s) \<leftarrow> send_due env (\<lambda>e. e_pipe e = c \<and> seq - e_sequence e \<le> 0x800000) seq now (vblank_event_list s) s;
          Some (s\<lparr>vblank_event_list := stay\<rparr>) })"

definition DRM_REDUNDANT_VBLIRQ_THRESH_NS :: int where "DRM_REDUNDANT_VBLIRQ_THRESH_NS = 1000000"

text \<open>The interrupt.\<close>

definition drm_handle_vblank ::
  "vblank_env \<Rightarrow> (int \<times> timeval) option \<Rightarrow> timeval \<Rightarrow> nat \<Rightarrow> vblank_state \<Rightarrow> (bool \<times> vblank_state) option" where
  "drm_handle_vblank env hook now c s =
     (if num_crtcs s = 0 then Some (False, s)
      else if \<not> v_enabled (crtcs s c) then Some (False, s)
      else do {
        let v = crtcs s c;
        let vblcount = v_count v;
        let tvblank = snd (drm_get_last_vbltimestamp env hook now);
        let diff_ns = timeval_to_ns env tvblank - timeval_to_ns env (v_times v (vblanktimestamp vblcount));
        let v = (if \<bar>diff_ns\<bar> > DRM_REDUNDANT_VBLIRQ_THRESH_NS
                 then v\<lparr>v_times := (v_times v)(vblanktimestamp (vblcount + 1) := tvblank), v_count := vblcount + 1\<rparr>
                 else v);
        s \<leftarrow> drm_handle_vblank_events env c (upd_crtc c (\<lambda>_. v) s);
        Some (True, s) })"

definition drm_vblank_off :: "vblank_env \<Rightarrow> sample list \<Rightarrow> nat \<Rightarrow> vblank_state \<Rightarrow> vblank_state option" where
  "drm_vblank_off env samples c s = do {
     s \<leftarrow> vblank_disable_and_save env samples c s;
     let (seq, now) = drm_vblank_count_and_time c s;
     (stay, s) \<leftarrow> send_due env (\<lambda>e. e_pipe e = c) seq now (vblank_event_list s) s;
     Some (s\<lparr>vblank_event_list := stay\<rparr>) }"

section \<open>The ioctl\<close>

text \<open>The argument: the request and the reply share their storage, the signal being also the seconds of the reply.\<close>

record drm_wait_vblank_arg =
  w_type :: u32w
  w_sequence :: u32w
  w_signal :: u64w
  w_usec :: u64w

definition DRM_VBLANK_NEXTONMISS :: u32w where "DRM_VBLANK_NEXTONMISS = 0x10000000"
definition DRM_VBLANK_SECONDARY :: u32w where "DRM_VBLANK_SECONDARY = 0x20000000"
definition DRM_VBLANK_SIGNAL :: u32w where "DRM_VBLANK_SIGNAL = 0x40000000"
definition DRM_VBLANK_EVENT :: u32w where "DRM_VBLANK_EVENT = 0x4000000"
definition DRM_VBLANK_HIGH_CRTC_MASK :: u32w where "DRM_VBLANK_HIGH_CRTC_MASK = 0x3e"
definition DRM_VBLANK_TYPES_MASK :: u32w where "DRM_VBLANK_TYPES_MASK = 1"
definition DRM_VBLANK_FLAGS_MASK :: u32w where
  "DRM_VBLANK_FLAGS_MASK = DRM_VBLANK_EVENT OR DRM_VBLANK_SIGNAL OR DRM_VBLANK_SECONDARY OR DRM_VBLANK_NEXTONMISS"

text \<open>\<open>mem\<close> says whether there is memory for the event.\<close>

definition drm_queue_vblank_event ::
  "vblank_env \<Rightarrow> bool \<Rightarrow> nat \<Rightarrow> nat \<Rightarrow> drm_wait_vblank_arg \<Rightarrow> vblank_state \<Rightarrow> (int \<times> drm_wait_vblank_arg \<times> vblank_state) option" where
  "drm_queue_vblank_event env mem c fl w s =
     (if \<not> mem then do { s \<leftarrow> drm_vblank_put env c s; Some (- ENOMEM, w, s) }
      else if event_space s fl < EVENT_SIZE then do { s \<leftarrow> drm_vblank_put env c s; Some (- EBUSY, w, s) }
      else do {
        let s = s\<lparr>event_space := (event_space s)(fl := event_space s fl - EVENT_SIZE)\<rparr>;
        let (seq, now) = drm_vblank_count_and_time c s;
        let w = (if w_type w AND DRM_VBLANK_NEXTONMISS \<noteq> 0 \<and> seq - w_sequence w \<le> 0x800000
                 then w\<lparr>w_sequence := seq + 1\<rparr> else w);
        let e = \<lparr>e_pipe = c, e_file = fl, e_sequence = w_sequence w, e_data = w_signal w, e_sec = 0, e_usec = 0\<rparr>;
        if seq - w_sequence w \<le> 0x800000
        then do {
          s \<leftarrow> drm_vblank_put env c s;
          Some (0, w\<lparr>w_sequence := seq\<rparr>, send_vblank_event e seq now s) }
        else Some (0, w, s\<lparr>vblank_event_list := vblank_event_list s @ [e]\<rparr>) })"

text \<open>\<^verbatim>\<open>DRM_WAIT_ON\<close>: each sleep ends with the result of \<^verbatim>\<open>cv_reltimedwait_sig\<close> and the state that the others leave.\<close>

fun DRM_WAIT_ON :: "(vblank_state \<Rightarrow> bool) \<Rightarrow> (int \<times> vblank_state) list \<Rightarrow> int \<Rightarrow> vblank_state \<Rightarrow> (int \<times> vblank_state) option" where
  "DRM_WAIT_ON condition [] ret s = (if condition s then Some (ret, s) else None)"
| "DRM_WAIT_ON condition ((r, s') # sleeps) ret s =
     (if condition s then Some (ret, s)
      else if r = - 1 then Some (EBUSY, s')
      else if r = 0 then Some (EINTR, s')
      else DRM_WAIT_ON condition sleeps 0 s')"

definition wait_crtc :: "u32w \<Rightarrow> nat" where
  "wait_crtc typ =
     (let high_crtc = typ AND DRM_VBLANK_HIGH_CRTC_MASK
      in if high_crtc \<noteq> 0 then unat (drop_bit 1 high_crtc)
         else if typ AND DRM_VBLANK_FLAGS_MASK AND DRM_VBLANK_SECONDARY \<noteq> 0 then 1 else 0)"

definition wait_and_reply ::
  "vblank_env \<Rightarrow> (int \<times> vblank_state) list \<Rightarrow> nat \<Rightarrow> u32w \<Rightarrow> drm_wait_vblank_arg \<Rightarrow> vblank_state
     \<Rightarrow> (int \<times> drm_wait_vblank_arg \<times> vblank_state) option" where
  "wait_and_reply env sleeps c seq w s = do {
     let w = (if w_type w AND DRM_VBLANK_FLAGS_MASK AND DRM_VBLANK_NEXTONMISS \<noteq> 0 \<and> seq - w_sequence w \<le> 0x800000
              then w\<lparr>w_sequence := seq + 1\<rparr> else w);
     let s = upd_crtc c (\<lambda>v. v\<lparr>v_last_wait := w_sequence w\<rparr>) s;
     (ret, s) \<leftarrow> DRM_WAIT_ON (\<lambda>s. drm_vblank_count c s - w_sequence w \<le> 0x800000 \<or> \<not> irq_enabled s) sleeps 0 s;
     let w = (if ret \<noteq> - EINTR
              then (case drm_vblank_count_and_time c s of
                      (seq, now) \<Rightarrow> w\<lparr>w_sequence := seq, w_signal := word_of_int (tv_sec now), w_usec := word_of_int (tv_usec now)\<rparr>)
              else w);
     s \<leftarrow> drm_vblank_put env c s;
     Some (ret, w, s) }"

definition drm_wait_vblank ::
  "vblank_env \<Rightarrow> bool \<Rightarrow> bool \<Rightarrow> int \<Rightarrow> sample list \<Rightarrow> (int \<times> vblank_state) list \<Rightarrow> nat \<Rightarrow> drm_wait_vblank_arg \<Rightarrow> vblank_state
     \<Rightarrow> (int \<times> drm_wait_vblank_arg \<times> vblank_state) option" where
  "drm_wait_vblank env has_irq mem enable samples sleeps fl w s =
     (if \<not> has_irq \<or> \<not> irq_enabled s then Some (- EINVAL, w, s)
      else if w_type w AND DRM_VBLANK_SIGNAL \<noteq> 0 then Some (- EINVAL, w, s)
      else if w_type w AND NOT (DRM_VBLANK_TYPES_MASK OR DRM_VBLANK_FLAGS_MASK OR DRM_VBLANK_HIGH_CRTC_MASK) \<noteq> 0
      then Some (- EINVAL, w, s)
      else let c = wait_crtc (w_type w) in
        if c \<ge> num_crtcs s then Some (- EINVAL, w, s)
        else do {
          (ret, s) \<leftarrow> drm_vblank_get env enable samples c s;
          if ret \<noteq> 0 then Some (ret, w, s)
          else do {
            let seq = drm_vblank_count c s;
            let w = (if w_type w AND DRM_VBLANK_TYPES_MASK = 1
                     then w\<lparr>w_sequence := w_sequence w + seq, w_type := w_type w AND NOT 1\<rparr> else w);
            if w_type w AND DRM_VBLANK_EVENT \<noteq> 0 then drm_queue_vblank_event env mem c fl w s
            else wait_and_reply env sleeps c seq w s } })"

section \<open>Installing the handler\<close>

text \<open>
  \<open>feature\<close> is \<^verbatim>\<open>DRIVER_HAVE_IRQ\<close>, \<open>irq\<close> the number of the interrupt, \<open>private\<close> says that the driver is loaded, \<open>install\<close> is
  the result of the DDI and \<open>post\<close> that of the driver's hook.
\<close>

definition drm_irq_install :: "bool \<Rightarrow> int \<Rightarrow> bool \<Rightarrow> int \<Rightarrow> int option \<Rightarrow> vblank_state \<Rightarrow> int \<times> vblank_state" where
  "drm_irq_install feature irq priv install post s =
     (if \<not> feature then (- EINVAL, s)
      else if irq = 0 then (- EINVAL, s)
      else if \<not> priv then (- EINVAL, s)
      else if irq_enabled s then (- EBUSY, s)
      else if install \<noteq> 0 then (- EFAULT, s\<lparr>irq_enabled := False\<rparr>)
      else (case post of
              Some ret \<Rightarrow> if ret < 0 then (ret, s\<lparr>irq_enabled := False\<rparr>) else (0, s\<lparr>irq_enabled := True\<rparr>)
            | None \<Rightarrow> (0, s\<lparr>irq_enabled := True\<rparr>)))"

definition drm_irq_uninstall :: "bool \<Rightarrow> (nat \<Rightarrow> u32w) \<Rightarrow> vblank_state \<Rightarrow> int \<times> vblank_state" where
  "drm_irq_uninstall feature get_vblank_counter s =
     (if \<not> feature then (- EINVAL, s)
      else (let was = irq_enabled s;
                s = s\<lparr>irq_enabled := False,
                      crtcs := (\<lambda>c. if c < num_crtcs s then (crtcs s c)\<lparr>v_enabled := False, v_last := get_vblank_counter c\<rparr> else crtcs s c)\<rparr>
            in if \<not> was then (- EINVAL, s) else (0, s)))"

definition drm_control ::
  "int \<Rightarrow> bool \<Rightarrow> bool \<Rightarrow> bool \<Rightarrow> int \<Rightarrow> int \<Rightarrow> bool \<Rightarrow> int \<Rightarrow> int option \<Rightarrow> (nat \<Rightarrow> u32w) \<Rightarrow> vblank_state \<Rightarrow> int \<times> vblank_state" where
  "drm_control func feature modeset old_interface ctl_irq irq priv install post counter s =
     (if func = 2
      then (if \<not> feature then (0, s) else if modeset then (0, s)
            else if old_interface \<and> ctl_irq \<noteq> irq then (- EINVAL, s)
            else drm_irq_install feature irq priv install post s)
      else if func = 3
      then (if \<not> feature then (0, s) else if modeset then (0, s) else drm_irq_uninstall feature counter s)
      else (- EINVAL, s))"

section \<open>Reading and releasing events\<close>

definition drm_dequeue_event :: "nat \<Rightarrow> int \<Rightarrow> int \<Rightarrow> vblank_state \<Rightarrow> (vblank_event \<times> vblank_state) option" where
  "drm_dequeue_event fl tot len s =
     (case event_list s fl of
        [] \<Rightarrow> None
      | e # es \<Rightarrow>
          if EVENT_SIZE + tot > len then None
          else Some (e, s\<lparr>event_space := (event_space s)(fl := event_space s fl + EVENT_SIZE), event_list := (event_list s)(fl := es)\<rparr>))"

text \<open>
  \<^verbatim>\<open>drm_read\<close> once there is something to read. \<open>copies\<close> has the results of copying to the user, 0 after its end. The result is the
  number of bytes and the events that reached the user.
\<close>

function read_loop :: "nat \<Rightarrow> int list \<Rightarrow> int \<Rightarrow> int \<Rightarrow> vblank_event list \<Rightarrow> vblank_state \<Rightarrow> int \<times> vblank_event list \<times> vblank_state" where
  "read_loop fl copies tot len got s =
     (case drm_dequeue_event fl tot len s of
        None \<Rightarrow> (tot, got, s)
      | Some (e, s) \<Rightarrow>
          if copies \<noteq> [] \<and> hd copies \<noteq> 0 then (0, got, s)
          else read_loop fl (tl copies) (tot + EVENT_SIZE) len (got @ [e]) s)"
  by pat_completeness auto

termination read_loop
  by (relation "measure (\<lambda>(fl, _, _, _, _, s). length (event_list s fl))")
    (auto simp: drm_dequeue_event_def split: list.splits if_splits)

declare read_loop.simps [simp del]

definition drm_read :: "nat \<Rightarrow> int list \<Rightarrow> int \<Rightarrow> vblank_state \<Rightarrow> int \<times> vblank_event list \<times> vblank_state" where
  "drm_read fl copies len s = read_loop fl copies 0 len [] s"

text \<open>The file goes away: its waiting events are dropped with their references, and so are those not read.\<close>

fun drop_pending :: "vblank_env \<Rightarrow> nat \<Rightarrow> vblank_event list \<Rightarrow> vblank_state \<Rightarrow> (vblank_event list \<times> vblank_state) option" where
  "drop_pending env fl [] s = Some ([], s)"
| "drop_pending env fl (e # es) s =
     (if e_file e = fl
      then do { s \<leftarrow> drm_vblank_put env (e_pipe e) s; drop_pending env fl es s }
      else do { (stay, s) \<leftarrow> drop_pending env fl es s; Some (e # stay, s) })"

definition drm_events_release :: "vblank_env \<Rightarrow> nat \<Rightarrow> vblank_state \<Rightarrow> vblank_state option" where
  "drm_events_release env fl s = do {
     (stay, s) \<leftarrow> drop_pending env fl (vblank_event_list s) s;
     Some (s\<lparr>vblank_event_list := stay, event_list := (event_list s)(fl := [])\<rparr>) }"

definition open_events :: "nat \<Rightarrow> vblank_state \<Rightarrow> vblank_state" where
  "open_events fl s = s\<lparr>event_list := (event_list s)(fl := []), event_space := (event_space s)(fl := 4096)\<rparr>"

end
