(* ===== verification/Drm_Vblank_Thms.thy ===== *)
theory Drm_Vblank_Thms
  imports Drm_Vblank
begin

text \<open>
  References on the vertical blank interrupt are counted exactly, events go out on time and only once, and the counter follows the
  counter of the chip over the time without interrupts.
\<close>

section \<open>Readings of the chip\<close>

text \<open>Some reading of the counter does not move while the time is taken.\<close>

definition steady :: "sample list \<Rightarrow> bool" where
  "steady xs \<longleftrightarrow> (\<exists>x \<in> set xs. s_before x = s_after x)"

lemma update_loop_steady: "steady xs \<Longrightarrow> \<exists>r. update_loop env xs = Some r"
  by (induction xs) (auto simp: steady_def split: prod.splits)

lemma save_loop_steady: "steady xs \<Longrightarrow> 0 < n \<Longrightarrow> \<exists>r. save_loop env n xs = Some r"
proof (induction xs arbitrary: n)
  case (Cons x xs)
  show ?case
  proof (cases "s_before x = s_after x \<or> n - 1 = 0")
    case True
    then show ?thesis by (auto split: prod.splits)
  next
    case False
    then have "steady xs" "0 < n - 1" using Cons.prems(1) by (auto simp: steady_def)
    then show ?thesis using Cons.IH [of "n - 1"] by (auto split: prod.splits)
  qed
qed (simp add: steady_def)

section \<open>What an operation leaves alone\<close>

lemma upd_crtc_sels [simp]:
  "num_crtcs (upd_crtc c f s) = num_crtcs s" "vblank_disable_allowed (upd_crtc c f s) = vblank_disable_allowed s"
  "irq_enabled (upd_crtc c f s) = irq_enabled s" "max_vblank_count (upd_crtc c f s) = max_vblank_count s"
  "disable_timer (upd_crtc c f s) = disable_timer s" "vblank_event_list (upd_crtc c f s) = vblank_event_list s"
  "event_list (upd_crtc c f s) = event_list s" "event_space (upd_crtc c f s) = event_space s"
  "crtcs (upd_crtc c f s) = (crtcs s)(c := f (crtcs s c))"
  by (simp_all add: upd_crtc_def)

text \<open>Only references, the timer and the queues of the files change.\<close>

definition same_counts :: "vblank_state \<Rightarrow> vblank_state \<Rightarrow> bool" where
  "same_counts s s' \<longleftrightarrow> num_crtcs s' = num_crtcs s \<and> vblank_disable_allowed s' = vblank_disable_allowed s \<and> irq_enabled s' = irq_enabled s \<and>
     max_vblank_count s' = max_vblank_count s \<and> vblank_event_list s' = vblank_event_list s \<and> event_space s' = event_space s \<and>
     (\<forall>c. crtcs s' c = (crtcs s c)\<lparr>v_refcount := v_refcount (crtcs s' c)\<rparr>)"

lemma same_counts_refl [simp]: "same_counts s s"
  by (simp add: same_counts_def)

lemma same_counts_trans: "same_counts s t \<Longrightarrow> same_counts t u \<Longrightarrow> same_counts s u"
  unfolding same_counts_def by (metis (no_types, lifting) crtc_vblank.update_convs(2) crtc_vblank.surjective)

lemma same_counts_crtc:
  assumes "same_counts s s'"
  shows "v_enabled (crtcs s' c) = v_enabled (crtcs s c)" "v_count (crtcs s' c) = v_count (crtcs s c)"
    "v_last (crtcs s' c) = v_last (crtcs s c)" "v_inmodeset (crtcs s' c) = v_inmodeset (crtcs s c)"
    "v_times (crtcs s' c) = v_times (crtcs s c)" "v_last_wait (crtcs s' c) = v_last_wait (crtcs s c)"
proof -
  have "crtcs s' c = (crtcs s c)\<lparr>v_refcount := v_refcount (crtcs s' c)\<rparr>" using assms by (simp add: same_counts_def)
  then obtain r where r: "crtcs s' c = (crtcs s c)\<lparr>v_refcount := r\<rparr>" by blast
  show "v_enabled (crtcs s' c) = v_enabled (crtcs s c)" "v_count (crtcs s' c) = v_count (crtcs s c)"
    "v_last (crtcs s' c) = v_last (crtcs s c)" "v_inmodeset (crtcs s' c) = v_inmodeset (crtcs s c)"
    "v_times (crtcs s' c) = v_times (crtcs s c)" "v_last_wait (crtcs s' c) = v_last_wait (crtcs s c)"
    unfolding r by simp_all
qed

section \<open>References\<close>

lemma put_result:
  assumes "v_refcount (crtcs s c) = of_nat (Suc n)" "Suc n < 4294967296"
  shows "\<exists>s'. drm_vblank_put env c s = Some s' \<and> same_counts s s' \<and> event_list s' = event_list s \<and>
    v_refcount (crtcs s' c) = of_nat n \<and> (\<forall>d. d \<noteq> c \<longrightarrow> crtcs s' d = crtcs s d)"
proof -
  have "\<not> 4294967296 dvd Suc n" using assms(2) by (auto dest: dvd_imp_le)
  then have "v_refcount (crtcs s c) \<noteq> 0" unfolding assms(1) by (simp add: word_of_nat_eq_0_iff del: of_nat_Suc)
  then show ?thesis using assms(1) by (auto simp: drm_vblank_put_def Let_def same_counts_def)
qed

definition stamped :: "u32w \<Rightarrow> timeval \<Rightarrow> vblank_event \<Rightarrow> vblank_event" where
  "stamped seq now e = e\<lparr>e_sequence := seq, e_sec := word_of_int (tv_sec now), e_usec := word_of_int (tv_usec now)\<rparr>"

lemma stamped_file [simp]: "e_file (stamped seq now e) = e_file e"
  by (simp add: stamped_def)

definition on_pipe :: "nat \<Rightarrow> vblank_event list \<Rightarrow> vblank_event list" where
  "on_pipe c es = filter (\<lambda>e. e_pipe e = c) es"

definition of_file :: "nat \<Rightarrow> vblank_event list \<Rightarrow> vblank_event list" where
  "of_file f es = filter (\<lambda>e. e_file e = f) es"

text \<open>Events that are sent give their references back; the others keep theirs and their order.\<close>

lemma send_due_result:
  assumes "\<And>e. e \<in> set es \<Longrightarrow> e_pipe e < n"
    and "\<And>c. c < n \<Longrightarrow> v_refcount (crtcs s c) = of_nat (length (on_pipe c es) + k c) \<and> length (on_pipe c es) + k c < 4294967296"
  shows "\<exists>s'. send_due env due seq now es s = Some (filter (\<lambda>e. \<not> due e) es, s') \<and> same_counts s s' \<and>
    (\<forall>c < n. v_refcount (crtcs s' c) = of_nat (length (on_pipe c (filter (\<lambda>e. \<not> due e) es)) + k c)) \<and>
    (\<forall>c \<ge> n. crtcs s' c = crtcs s c) \<and>
    (\<forall>f. event_list s' f = event_list s f @ map (stamped seq now) (of_file f (filter due es)))"
  using assms
proof (induction es arbitrary: s k)
  case Nil
  then show ?case by (simp add: on_pipe_def of_file_def)
next
  case (Cons e es)
  let ?k = "\<lambda>c. k c + (if c = e_pipe e then 1 else 0)"
  have p: "e_pipe e < n" using Cons.prems(1) by simp
  have len: "length (on_pipe c (e # es)) + k c = length (on_pipe c es) + ?k c" for c by (simp add: on_pipe_def)
  show ?case
  proof (cases "due e")
    case True
    have "v_refcount (crtcs s (e_pipe e)) = of_nat (Suc (length (on_pipe (e_pipe e) es) + k (e_pipe e)))"
      "Suc (length (on_pipe (e_pipe e) es) + k (e_pipe e)) < 4294967296"
      using Cons.prems(2) [OF p] by (simp_all add: on_pipe_def)
    then obtain t where t: "drm_vblank_put env (e_pipe e) s = Some t" "same_counts s t" "event_list t = event_list s"
      "v_refcount (crtcs t (e_pipe e)) = of_nat (length (on_pipe (e_pipe e) es) + k (e_pipe e))"
      "\<forall>d. d \<noteq> e_pipe e \<longrightarrow> crtcs t d = crtcs s d"
      using put_result by blast
    let ?t = "send_vblank_event e seq now t"
    have ct: "crtcs ?t = crtcs t" by (simp add: send_vblank_event_def Let_def)
    have ref: "v_refcount (crtcs ?t c) = of_nat (length (on_pipe c es) + k c) \<and> length (on_pipe c es) + k c < 4294967296" if "c < n" for c
      using Cons.prems(2) [OF that] t(4,5) ct by (cases "c = e_pipe e") (auto simp: on_pipe_def split: if_splits)
    obtain s' where s': "send_due env due seq now es ?t = Some (filter (\<lambda>e. \<not> due e) es, s')" "same_counts ?t s'"
      "\<forall>c < n. v_refcount (crtcs s' c) = of_nat (length (on_pipe c (filter (\<lambda>e. \<not> due e) es)) + k c)"
      "\<forall>c \<ge> n. crtcs s' c = crtcs ?t c"
      "\<forall>f. event_list s' f = event_list ?t f @ map (stamped seq now) (of_file f (filter due es))"
      using Cons.IH [of ?t k] Cons.prems(1) ref by auto
    have sc: "same_counts s ?t" using t(2) by (simp add: same_counts_def send_vblank_event_def Let_def)
    have ev: "event_list ?t f = event_list s f @ (if e_file e = f then [stamped seq now e] else [])" for f
      using t(3) by (auto simp: send_vblank_event_def Let_def stamped_def)
    show ?thesis
      using s' t(1,5) True same_counts_trans [OF sc s'(2)] ev ct p by (auto simp: of_file_def)
  next
    case False
    have ref: "v_refcount (crtcs s c) = of_nat (length (on_pipe c es) + ?k c) \<and> length (on_pipe c es) + ?k c < 4294967296" if "c < n" for c
      using Cons.prems(2) [OF that] unfolding len .
    obtain s' where s': "send_due env due seq now es s = Some (filter (\<lambda>e. \<not> due e) es, s')" "same_counts s s'"
      "\<forall>c < n. v_refcount (crtcs s' c) = of_nat (length (on_pipe c (filter (\<lambda>e. \<not> due e) es)) + ?k c)"
      "\<forall>c \<ge> n. crtcs s' c = crtcs s c"
      "\<forall>f. event_list s' f = event_list s f @ map (stamped seq now) (of_file f (filter due es))"
      using Cons.IH [of s ?k] Cons.prems(1) ref by auto
    then show ?thesis using False by (auto simp: on_pipe_def)
  qed
qed

lemma drop_pending_result:
  assumes "\<And>e. e \<in> set es \<Longrightarrow> e_pipe e < n"
    and "\<And>c. c < n \<Longrightarrow> v_refcount (crtcs s c) = of_nat (length (on_pipe c es) + k c) \<and> length (on_pipe c es) + k c < 4294967296"
  shows "\<exists>s'. drop_pending env fl es s = Some (filter (\<lambda>e. e_file e \<noteq> fl) es, s') \<and> same_counts s s' \<and> event_list s' = event_list s \<and>
    (\<forall>c < n. v_refcount (crtcs s' c) = of_nat (length (on_pipe c (filter (\<lambda>e. e_file e \<noteq> fl) es)) + k c)) \<and>
    (\<forall>c \<ge> n. crtcs s' c = crtcs s c)"
  using assms
proof (induction es arbitrary: s k)
  case Nil
  then show ?case by (simp add: on_pipe_def)
next
  case (Cons e es)
  let ?k = "\<lambda>c. k c + (if c = e_pipe e then 1 else 0)"
  have p: "e_pipe e < n" using Cons.prems(1) by simp
  have len: "length (on_pipe c (e # es)) + k c = length (on_pipe c es) + ?k c" for c by (simp add: on_pipe_def)
  show ?case
  proof (cases "e_file e = fl")
    case True
    have "v_refcount (crtcs s (e_pipe e)) = of_nat (Suc (length (on_pipe (e_pipe e) es) + k (e_pipe e)))"
      "Suc (length (on_pipe (e_pipe e) es) + k (e_pipe e)) < 4294967296"
      using Cons.prems(2) [OF p] by (simp_all add: on_pipe_def)
    then obtain t where t: "drm_vblank_put env (e_pipe e) s = Some t" "same_counts s t" "event_list t = event_list s"
      "v_refcount (crtcs t (e_pipe e)) = of_nat (length (on_pipe (e_pipe e) es) + k (e_pipe e))"
      "\<forall>d. d \<noteq> e_pipe e \<longrightarrow> crtcs t d = crtcs s d"
      using put_result by blast
    have ref: "v_refcount (crtcs t c) = of_nat (length (on_pipe c es) + k c) \<and> length (on_pipe c es) + k c < 4294967296" if "c < n" for c
      using Cons.prems(2) [OF that] t(4,5) by (cases "c = e_pipe e") (auto simp: on_pipe_def split: if_splits)
    obtain s' where s': "drop_pending env fl es t = Some (filter (\<lambda>e. e_file e \<noteq> fl) es, s')" "same_counts t s'" "event_list s' = event_list t"
      "\<forall>c < n. v_refcount (crtcs s' c) = of_nat (length (on_pipe c (filter (\<lambda>e. e_file e \<noteq> fl) es)) + k c)"
      "\<forall>c \<ge> n. crtcs s' c = crtcs t c"
      using Cons.IH [of t k] Cons.prems(1) ref by auto
    show ?thesis using s' t(1,3,5) True same_counts_trans [OF t(2) s'(2)] p by auto
  next
    case False
    have ref: "v_refcount (crtcs s c) = of_nat (length (on_pipe c es) + ?k c) \<and> length (on_pipe c es) + ?k c < 4294967296" if "c < n" for c
      using Cons.prems(2) [OF that] unfolding len .
    obtain s' where "drop_pending env fl es s = Some (filter (\<lambda>e. e_file e \<noteq> fl) es, s')" "same_counts s s'" "event_list s' = event_list s"
      "\<forall>c < n. v_refcount (crtcs s' c) = of_nat (length (on_pipe c (filter (\<lambda>e. e_file e \<noteq> fl) es)) + ?k c)"
      "\<forall>c \<ge> n. crtcs s' c = crtcs s c"
      using Cons.IH [of s ?k] Cons.prems(1) ref by auto
    then show ?thesis using False by (auto simp: on_pipe_def)
  qed
qed


section \<open>The accounts\<close>

text \<open>
  Who holds a reference: waiting events, the users counted in \<open>ext\<close>, and a mode change that got one. An open file pays for its
  waiting and its unread events from its space of 4096 bytes.
\<close>

definition modeset_ref :: "crtc_vblank \<Rightarrow> nat" where
  "modeset_ref v = (if v_inmodeset v AND 2 \<noteq> 0 then 1 else 0)"

definition holders :: "(nat \<Rightarrow> nat) \<Rightarrow> vblank_state \<Rightarrow> nat \<Rightarrow> nat" where
  "holders ext s c = length (on_pipe c (vblank_event_list s)) + ext c + modeset_ref (crtcs s c)"

definition space_ok :: "nat set \<Rightarrow> vblank_state \<Rightarrow> bool" where
  "space_ok files s \<longleftrightarrow> (\<forall>f \<in> files. 0 \<le> event_space s f \<and>
     event_space s f + EVENT_SIZE * int (length (of_file f (vblank_event_list s)) + length (event_list s f)) = 4096)"

definition vbl_inv :: "(nat \<Rightarrow> nat) \<Rightarrow> nat set \<Rightarrow> vblank_state \<Rightarrow> bool" where
  "vbl_inv ext files s \<longleftrightarrow>
     (\<forall>c < num_crtcs s. v_refcount (crtcs s c) = of_nat (holders ext s c) \<and> v_inmodeset (crtcs s c) \<in> {0, 1, 3}) \<and>
     (\<forall>e \<in> set (vblank_event_list s). e_pipe e < num_crtcs s \<and> e_file e \<in> files) \<and> space_ok files s"

text \<open>The 32-bit counts of references do not wrap around.\<close>

definition few :: "nat \<Rightarrow> (nat \<Rightarrow> nat) \<Rightarrow> vblank_state \<Rightarrow> bool" where
  "few k ext s \<longleftrightarrow> (\<forall>c < num_crtcs s. holders ext s c + k < 4294967296)"

lemma few_0: "few k ext s \<Longrightarrow> few 0 ext s"
  by (auto simp: few_def)

lemma vbl_inv_cong:
  assumes "num_crtcs s' = num_crtcs s" "vblank_event_list s' = vblank_event_list s" "event_list s' = event_list s"
    "event_space s' = event_space s"
    and "\<And>c. c < num_crtcs s \<Longrightarrow> v_refcount (crtcs s' c) = v_refcount (crtcs s c) \<and> v_inmodeset (crtcs s' c) = v_inmodeset (crtcs s c)"
  shows "vbl_inv ext files s' = vbl_inv ext files s"
  using assms by (simp add: vbl_inv_def holders_def modeset_ref_def space_ok_def)

lemma few_cong:
  assumes "num_crtcs s' = num_crtcs s" "vblank_event_list s' = vblank_event_list s"
    and "\<And>c. v_inmodeset (crtcs s' c) = v_inmodeset (crtcs s c)"
  shows "few k ext s' = few k ext s"
  using assms by (simp add: few_def holders_def modeset_ref_def)

lemma put_inv:
  assumes inv: "vbl_inv (ext(c := Suc (ext c))) files s" and c: "c < num_crtcs s" and few: "few 0 (ext(c := Suc (ext c))) s"
  shows "\<exists>s'. drm_vblank_put env c s = Some s' \<and> vbl_inv ext files s' \<and> same_counts s s' \<and> event_list s' = event_list s"
proof -
  have h: "holders (ext(c := Suc (ext c))) s d = holders ext s d + (if d = c then 1 else 0)" for d
    by (simp add: holders_def)
  have "v_refcount (crtcs s c) = of_nat (Suc (holders ext s c))" "Suc (holders ext s c) < 4294967296"
    using inv few c h by (auto simp: vbl_inv_def few_def)
  then obtain s' where s': "drm_vblank_put env c s = Some s'" "same_counts s s'" "event_list s' = event_list s"
    "v_refcount (crtcs s' c) = of_nat (holders ext s c)" "\<forall>d. d \<noteq> c \<longrightarrow> crtcs s' d = crtcs s d"
    using put_result by blast
  have hh: "holders ext s' d = holders ext s d" for d
    using s'(2) same_counts_crtc(4) [OF s'(2)] by (simp add: holders_def same_counts_def modeset_ref_def)
  have "v_refcount (crtcs s' d) = of_nat (holders ext s d)" if "d < num_crtcs s" for d
    using s'(4,5) inv h that by (cases "d = c") (auto simp: vbl_inv_def)
  then have "vbl_inv ext files s'"
    using inv s'(2,3) hh same_counts_crtc(4) [OF s'(2)] by (simp add: vbl_inv_def space_ok_def same_counts_def)
  then show ?thesis using s' by blast
qed

lemma update_count_result:
  assumes "steady xs"
  shows "\<exists>s'. drm_update_vblank_count env xs c s = Some s' \<and> num_crtcs s' = num_crtcs s \<and> vblank_event_list s' = vblank_event_list s \<and>
    event_list s' = event_list s \<and> event_space s' = event_space s \<and> irq_enabled s' = irq_enabled s \<and>
    vblank_disable_allowed s' = vblank_disable_allowed s \<and> max_vblank_count s' = max_vblank_count s \<and> disable_timer s' = disable_timer s \<and>
    (\<forall>d. d \<noteq> c \<longrightarrow> crtcs s' d = crtcs s d) \<and> v_refcount (crtcs s' c) = v_refcount (crtcs s c) \<and>
    v_inmodeset (crtcs s' c) = v_inmodeset (crtcs s c) \<and> v_enabled (crtcs s' c) = v_enabled (crtcs s c)"
proof -
  obtain r where "update_loop env xs = Some r" using update_loop_steady [OF assms] by blast
  then show ?thesis by (cases r) (auto simp: drm_update_vblank_count_def Let_def)
qed

lemma upd_crtc_undo [simp]:
  "upd_crtc c (\<lambda>v. v\<lparr>v_refcount := v_refcount v - 1\<rparr>) (upd_crtc c (\<lambda>v. v\<lparr>v_refcount := v_refcount v + 1\<rparr>) s) = s"
  by (simp add: upd_crtc_def)

lemma get_result:
  assumes r: "v_refcount (crtcs s c) = of_nat m" "m < 4294967295" and xs: "steady xs"
  shows "\<exists>ret s'. drm_vblank_get env en xs c s = Some (ret, s') \<and>
    (if v_enabled (crtcs s c) \<or> m = 0 \<and> en = 0
     then ret = 0 \<and> v_refcount (crtcs s' c) = of_nat (Suc m) \<and> v_enabled (crtcs s' c) \<and> v_inmodeset (crtcs s' c) = v_inmodeset (crtcs s c) \<and>
       num_crtcs s' = num_crtcs s \<and> vblank_event_list s' = vblank_event_list s \<and> event_list s' = event_list s \<and>
       event_space s' = event_space s \<and> irq_enabled s' = irq_enabled s \<and> (\<forall>d. d \<noteq> c \<longrightarrow> crtcs s' d = crtcs s d)
     else ret = (if m = 0 then en else - EINVAL) \<and> s' = s)"
proof -
  have one: "v_refcount (crtcs s c) + 1 = 1 \<longleftrightarrow> m = 0"
  proof -
    have "\<not> 4294967296 dvd m" if "m \<noteq> 0" using r(2) that by (auto dest: dvd_imp_le)
    then show ?thesis unfolding r(1) by (auto simp: word_of_nat_eq_0_iff)
  qed
  let ?s = "upd_crtc c (\<lambda>v. v\<lparr>v_refcount := v_refcount v + 1\<rparr>) s"
  have ref: "v_refcount (crtcs ?s c) = of_nat (Suc m)" by (simp add: r(1))
  obtain s' where s': "drm_update_vblank_count env xs c (upd_crtc c (\<lambda>v. v\<lparr>v_enabled := True\<rparr>) ?s) = Some s'"
    "num_crtcs s' = num_crtcs s" "vblank_event_list s' = vblank_event_list s" "event_list s' = event_list s"
    "event_space s' = event_space s" "irq_enabled s' = irq_enabled s"
    "\<forall>d. d \<noteq> c \<longrightarrow> crtcs s' d = crtcs s d" "v_refcount (crtcs s' c) = v_refcount (crtcs ?s c)"
    "v_inmodeset (crtcs s' c) = v_inmodeset (crtcs s c)" "v_enabled (crtcs s' c)"
    using update_count_result [OF xs, of env c "upd_crtc c (\<lambda>v. v\<lparr>v_enabled := True\<rparr>) ?s"] by auto
  show ?thesis
    using one ref s' by (cases "v_enabled (crtcs s c)"; cases "m = 0"; cases "en = 0") (simp_all add: drm_vblank_get_def Let_def del: of_nat_Suc)
qed

lemma get_inv:
  assumes inv: "vbl_inv ext files s" and c: "c < num_crtcs s" and few: "few 1 ext s" and xs: "steady xs"
  shows "\<exists>ret s'. drm_vblank_get env en xs c s = Some (ret, s') \<and>
    (if ret = 0 then vbl_inv (ext(c := Suc (ext c))) files s' \<and> few 0 (ext(c := Suc (ext c))) s' \<and> num_crtcs s' = num_crtcs s \<and>
       vblank_event_list s' = vblank_event_list s \<and> event_list s' = event_list s \<and> event_space s' = event_space s \<and>
       v_inmodeset (crtcs s' c) = v_inmodeset (crtcs s c) \<and> (\<forall>d. d \<noteq> c \<longrightarrow> crtcs s' d = crtcs s d)
     else s' = s)"
proof -
  have r: "v_refcount (crtcs s c) = of_nat (holders ext s c)" "holders ext s c < 4294967295"
    using inv few c by (auto simp: vbl_inv_def few_def)
  obtain ret s' where s': "drm_vblank_get env en xs c s = Some (ret, s')"
    "if v_enabled (crtcs s c) \<or> holders ext s c = 0 \<and> en = 0
     then ret = 0 \<and> v_refcount (crtcs s' c) = of_nat (Suc (holders ext s c)) \<and> v_enabled (crtcs s' c) \<and>
       v_inmodeset (crtcs s' c) = v_inmodeset (crtcs s c) \<and>
       num_crtcs s' = num_crtcs s \<and> vblank_event_list s' = vblank_event_list s \<and> event_list s' = event_list s \<and>
       event_space s' = event_space s \<and> irq_enabled s' = irq_enabled s \<and> (\<forall>d. d \<noteq> c \<longrightarrow> crtcs s' d = crtcs s d)
     else ret = (if holders ext s c = 0 then en else - EINVAL) \<and> s' = s"
    using get_result [OF r xs, of env en] by blast
  show ?thesis
  proof (cases "v_enabled (crtcs s c) \<or> holders ext s c = 0 \<and> en = 0")
    case True
    then have ok: "ret = 0" "v_refcount (crtcs s' c) = of_nat (Suc (holders ext s c))"
      "v_inmodeset (crtcs s' c) = v_inmodeset (crtcs s c)" "num_crtcs s' = num_crtcs s"
      "vblank_event_list s' = vblank_event_list s" "event_list s' = event_list s" "event_space s' = event_space s"
      "\<forall>d. d \<noteq> c \<longrightarrow> crtcs s' d = crtcs s d"
      using s'(2) by auto
    have h: "holders (ext(c := Suc (ext c))) s' d = holders ext s d + (if d = c then 1 else 0)" for d
      using ok by (cases "d = c") (auto simp: holders_def modeset_ref_def)
    have "v_refcount (crtcs s' d) = of_nat (holders (ext(c := Suc (ext c))) s' d) \<and> v_inmodeset (crtcs s' d) \<in> {0, 1, 3}"
      if "d < num_crtcs s" for d
      using inv ok that unfolding h by (cases "d = c") (auto simp: vbl_inv_def)
    then have "vbl_inv (ext(c := Suc (ext c))) files s'" using inv ok by (simp add: vbl_inv_def space_ok_def)
    moreover have "few 0 (ext(c := Suc (ext c))) s'" using few ok(4) h by (auto simp: few_def)
    ultimately show ?thesis using s'(1) ok by auto
  next
    case False
    have "ret \<noteq> 0 \<and> s' = s" using s'(2) False inv c by (auto simp: errno_defs split: if_splits)
    then show ?thesis using s'(1) by auto
  qed
qed


section \<open>Every operation keeps the accounts\<close>

lemma sent_files: "length (of_file f es) = length (of_file f (filter due es)) + length (of_file f (filter (\<lambda>e. \<not> due e) es))"
  by (induction es) (auto simp: of_file_def)

text \<open>Sending waiting events.\<close>

lemma send_inv:
  assumes inv: "vbl_inv ext files s" and few: "few 0 ext s"
  shows "\<exists>s'. send_due env due seq now (vblank_event_list s) s = Some (filter (\<lambda>e. \<not> due e) (vblank_event_list s), s') \<and>
    vbl_inv ext files (s'\<lparr>vblank_event_list := filter (\<lambda>e. \<not> due e) (vblank_event_list s)\<rparr>) \<and> same_counts s s' \<and>
    (\<forall>f. event_list s' f = event_list s f @ map (stamped seq now) (of_file f (filter due (vblank_event_list s))))"
proof -
  let ?k = "\<lambda>c. ext c + modeset_ref (crtcs s c)"
  have "v_refcount (crtcs s c) = of_nat (length (on_pipe c (vblank_event_list s)) + ?k c) \<and>
      length (on_pipe c (vblank_event_list s)) + ?k c < 4294967296" if "c < num_crtcs s" for c
    using inv few that by (auto simp: vbl_inv_def few_def holders_def ac_simps)
  then obtain s' where s': "send_due env due seq now (vblank_event_list s) s = Some (filter (\<lambda>e. \<not> due e) (vblank_event_list s), s')"
    "same_counts s s'"
    "\<forall>c < num_crtcs s. v_refcount (crtcs s' c) = of_nat (length (on_pipe c (filter (\<lambda>e. \<not> due e) (vblank_event_list s))) + ?k c)"
    "\<forall>f. event_list s' f = event_list s f @ map (stamped seq now) (of_file f (filter due (vblank_event_list s)))"
    using send_due_result [of "vblank_event_list s" "num_crtcs s" s ?k env due seq now] inv by (auto simp: vbl_inv_def)
  let ?t = "s'\<lparr>vblank_event_list := filter (\<lambda>e. \<not> due e) (vblank_event_list s)\<rparr>"
  have "space_ok files ?t"
    unfolding space_ok_def
  proof
    fix f assume f: "f \<in> files"
    have "length (of_file f (vblank_event_list ?t)) + length (event_list ?t f) =
        length (of_file f (vblank_event_list s)) + length (event_list s f)"
      using s'(4) sent_files [of f "vblank_event_list s" due] by simp
    moreover have "event_space ?t f = event_space s f" using s'(2) by (simp add: same_counts_def)
    ultimately show "0 \<le> event_space ?t f \<and>
        event_space ?t f + EVENT_SIZE * int (length (of_file f (vblank_event_list ?t)) + length (event_list ?t f)) = 4096"
      using inv f by (simp only: vbl_inv_def space_ok_def)
  qed
  moreover have "holders ext ?t c = length (on_pipe c (filter (\<lambda>e. \<not> due e) (vblank_event_list s))) + ?k c" for c
    using same_counts_crtc(4) [OF s'(2)] by (simp add: holders_def modeset_ref_def)
  moreover have "num_crtcs s' = num_crtcs s" using s'(2) by (simp add: same_counts_def)
  ultimately have "vbl_inv ext files ?t"
    using inv s'(3) same_counts_crtc(4) [OF s'(2)] by (simp add: vbl_inv_def)
  then show ?thesis using s'(1,2,4) by blast
qed

lemma release_inv:
  assumes inv: "vbl_inv ext files s" and few: "few 0 ext s"
  shows "\<exists>s'. drm_events_release env fl s = Some s' \<and> vbl_inv ext (files - {fl}) s' \<and>
    vblank_event_list s' = filter (\<lambda>e. e_file e \<noteq> fl) (vblank_event_list s) \<and> event_list s' fl = [] \<and>
    (\<forall>f. f \<noteq> fl \<longrightarrow> event_list s' f = event_list s f)"
proof -
  let ?k = "\<lambda>c. ext c + modeset_ref (crtcs s c)"
  have "v_refcount (crtcs s c) = of_nat (length (on_pipe c (vblank_event_list s)) + ?k c) \<and>
      length (on_pipe c (vblank_event_list s)) + ?k c < 4294967296" if "c < num_crtcs s" for c
    using inv few that by (auto simp: vbl_inv_def few_def holders_def ac_simps)
  then obtain t where t: "drop_pending env fl (vblank_event_list s) s = Some (filter (\<lambda>e. e_file e \<noteq> fl) (vblank_event_list s), t)"
    "same_counts s t" "event_list t = event_list s"
    "\<forall>c < num_crtcs s. v_refcount (crtcs t c) = of_nat (length (on_pipe c (filter (\<lambda>e. e_file e \<noteq> fl) (vblank_event_list s))) + ?k c)"
    using drop_pending_result [of "vblank_event_list s" "num_crtcs s" s ?k env fl] inv by (auto simp: vbl_inv_def)
  let ?t = "t\<lparr>vblank_event_list := filter (\<lambda>e. e_file e \<noteq> fl) (vblank_event_list s), event_list := (event_list t)(fl := [])\<rparr>"
  have e: "event_space t = event_space s" "num_crtcs t = num_crtcs s" using t(2) by (simp_all add: same_counts_def)
  have "of_file f (vblank_event_list ?t) = of_file f (vblank_event_list s)" if "f \<noteq> fl" for f
    using that by (auto simp: of_file_def intro!: filter_cong)
  then have "space_ok (files - {fl}) ?t" using inv t(3) e by (simp add: vbl_inv_def space_ok_def)
  moreover have "holders ext ?t c = length (on_pipe c (filter (\<lambda>e. e_file e \<noteq> fl) (vblank_event_list s))) + ?k c" for c
    using same_counts_crtc(4) [OF t(2)] by (simp add: holders_def modeset_ref_def)
  ultimately have "vbl_inv ext (files - {fl}) ?t"
    using inv t(4) e same_counts_crtc(4) [OF t(2)] by (simp add: vbl_inv_def)
  then show ?thesis using t(1,3) by (simp add: drm_events_release_def)
qed

lemma save_result:
  assumes "steady xs"
  shows "\<exists>s'. vblank_disable_and_save env xs c s = Some s' \<and> num_crtcs s' = num_crtcs s \<and> vblank_event_list s' = vblank_event_list s \<and>
    event_list s' = event_list s \<and> event_space s' = event_space s \<and> vblank_disable_allowed s' = vblank_disable_allowed s \<and>
    (\<forall>d. v_refcount (crtcs s' d) = v_refcount (crtcs s d) \<and> v_inmodeset (crtcs s' d) = v_inmodeset (crtcs s d)) \<and>
    (\<forall>d. v_enabled (crtcs s' d) \<longleftrightarrow> d \<noteq> c \<and> v_enabled (crtcs s d)) \<and> (\<forall>d. d \<noteq> c \<longrightarrow> crtcs s' d = crtcs s d)"
proof -
  obtain r where "save_loop env DRM_TIMESTAMP_MAXRETRIES xs = Some r"
    using save_loop_steady [OF assms, of 3 env] by (auto simp: DRM_TIMESTAMP_MAXRETRIES_def)
  then show ?thesis by (cases r) (auto simp: vblank_disable_and_save_def Let_def clear_vblank_timestamps_def)
qed

lemma disable_loop_result:
  assumes "\<And>c. steady (xs c)"
  shows "\<exists>s'. disable_loop env xs cs s = Some s' \<and> num_crtcs s' = num_crtcs s \<and> vblank_event_list s' = vblank_event_list s \<and>
    event_list s' = event_list s \<and> event_space s' = event_space s \<and>
    (\<forall>d. v_refcount (crtcs s' d) = v_refcount (crtcs s d) \<and> v_inmodeset (crtcs s' d) = v_inmodeset (crtcs s d)) \<and>
    (\<forall>d. v_enabled (crtcs s' d) \<longleftrightarrow> v_enabled (crtcs s d) \<and> \<not> (d \<in> set cs \<and> v_refcount (crtcs s d) = 0))"
proof (induction cs arbitrary: s)
  case (Cons c cs)
  obtain t where t: "(if v_refcount (crtcs s c) = 0 \<and> v_enabled (crtcs s c) then vblank_disable_and_save env (xs c) c s else Some s) = Some t"
    "num_crtcs t = num_crtcs s" "vblank_event_list t = vblank_event_list s" "event_list t = event_list s" "event_space t = event_space s"
    "\<forall>d. v_refcount (crtcs t d) = v_refcount (crtcs s d) \<and> v_inmodeset (crtcs t d) = v_inmodeset (crtcs s d)"
    "\<forall>d. v_enabled (crtcs t d) \<longleftrightarrow> v_enabled (crtcs s d) \<and> \<not> (d = c \<and> v_refcount (crtcs s d) = 0)"
    using save_result [OF assms, of env c c s] by (cases "v_refcount (crtcs s c) = 0 \<and> v_enabled (crtcs s c)") auto
  show ?case using t Cons.IH [of t] by auto
qed simp

lemma handle_inv:
  assumes inv: "vbl_inv ext files s" and few: "few 0 ext s"
  shows "\<exists>r s'. drm_handle_vblank env hook now c s = Some (r, s') \<and> vbl_inv ext files s'"
proof (cases "num_crtcs s = 0 \<or> \<not> v_enabled (crtcs s c)")
  case True
  then show ?thesis using inv by (auto simp: drm_handle_vblank_def)
next
  case False
  define v where "v = (let v = crtcs s c; tv = snd (drm_get_last_vbltimestamp env hook now);
        d = timeval_to_ns env tv - timeval_to_ns env (v_times v (vblanktimestamp (v_count v)))
      in if \<bar>d\<bar> > DRM_REDUNDANT_VBLIRQ_THRESH_NS
         then v\<lparr>v_times := (v_times v)(vblanktimestamp (v_count v + 1) := tv), v_count := v_count v + 1\<rparr> else v)"
  have vf: "v_refcount v = v_refcount (crtcs s c)" "v_inmodeset v = v_inmodeset (crtcs s c)" by (simp_all add: v_def Let_def)
  let ?s = "upd_crtc c (\<lambda>_. v) s"
  have i: "vbl_inv ext files ?s" using inv vf by (subst vbl_inv_cong [of _ s]) auto
  have "few 0 ext ?s" using few vf by (subst few_cong [of _ s]) auto
  from send_inv [OF i this, of env "\<lambda>e. e_pipe e = c \<and> fst (drm_vblank_count_and_time c ?s) - e_sequence e \<le> 0x800000"
      "fst (drm_vblank_count_and_time c ?s)" "snd (drm_vblank_count_and_time c ?s)"]
  have "\<exists>s'. drm_handle_vblank_events env c ?s = Some s' \<and> vbl_inv ext files s'"
    by (auto simp: drm_handle_vblank_events_def case_prod_unfold)
  then show ?thesis using False by (auto simp: drm_handle_vblank_def v_def Let_def)
qed

lemma off_inv:
  assumes inv: "vbl_inv ext files s" and few: "few 0 ext s" and xs: "steady xs"
  shows "\<exists>s'. drm_vblank_off env xs c s = Some s' \<and> vbl_inv ext files s'"
proof -
  obtain t where t: "vblank_disable_and_save env xs c s = Some t" "num_crtcs t = num_crtcs s" "vblank_event_list t = vblank_event_list s"
    "event_list t = event_list s" "event_space t = event_space s"
    "\<forall>d. v_refcount (crtcs t d) = v_refcount (crtcs s d) \<and> v_inmodeset (crtcs t d) = v_inmodeset (crtcs s d)"
    using save_result [OF xs] by blast
  have i: "vbl_inv ext files t" using inv t by (subst vbl_inv_cong [of _ s]) auto
  have "few 0 ext t" using few t by (subst few_cong [of _ s]) auto
  from send_inv [OF i this, of env "\<lambda>e. e_pipe e = c" "fst (drm_vblank_count_and_time c t)" "snd (drm_vblank_count_and_time c t)"]
  show ?thesis using t(1) by (auto simp: drm_vblank_off_def Let_def case_prod_unfold)
qed


lemma event_flag: "(w AND - 2) AND DRM_VBLANK_EVENT = w AND (DRM_VBLANK_EVENT :: u32w)"
  by (simp add: DRM_VBLANK_EVENT_def and.assoc)

text \<open>Queueing an event takes over the reference of the caller, or gives it back.\<close>

lemma queue_inv:
  assumes inv: "vbl_inv (ext(c := Suc (ext c))) files s" and c: "c < num_crtcs s" and few: "few 0 (ext(c := Suc (ext c))) s"
    and fl: "fl \<in> files"
  shows "\<exists>r w' s'. drm_queue_vblank_event env mem c fl w s = Some (r, w', s') \<and> vbl_inv ext files s' \<and>
    (if \<not> mem then r = - ENOMEM \<and> w' = w else if event_space s fl < EVENT_SIZE then r = - EBUSY \<and> w' = w else r = 0)"
proof -
  obtain t where t: "drm_vblank_put env c s = Some t" "vbl_inv ext files t" "same_counts s t" "event_list t = event_list s"
    using put_inv [OF inv c few] by blast
  let ?s = "s\<lparr>event_space := (event_space s)(fl := event_space s fl - EVENT_SIZE)\<rparr>"
  have put: "drm_vblank_put env c ?s = Some (t\<lparr>event_space := (event_space s)(fl := event_space s fl - EVENT_SIZE)\<rparr>)"
    using t(1) by (auto simp: drm_vblank_put_def Let_def upd_crtc_def bind_eq_Some_conv)
  have t': "num_crtcs t = num_crtcs s" "event_space t = event_space s" "vblank_event_list t = vblank_event_list s"
    using t(3) by (simp_all add: same_counts_def)
  show ?thesis
  proof (cases "\<not> mem \<or> event_space s fl < EVENT_SIZE")
    case True
    then show ?thesis using t(1,2) by (auto simp: drm_queue_vblank_event_def)
  next
    case False
    define w1 where "w1 = (if w_type w AND DRM_VBLANK_NEXTONMISS \<noteq> 0 \<and> v_count (crtcs s c) - w_sequence w \<le> 0x800000
                 then w\<lparr>w_sequence := v_count (crtcs s c) + 1\<rparr> else w)"
    define e where "e = \<lparr>e_pipe = c, e_file = fl, e_sequence = w_sequence w1, e_data = w_signal w1, e_sec = 0, e_usec = 0\<rparr>"
    define now where "now = v_times (crtcs s c) (vblanktimestamp (v_count (crtcs s c)))"
    define t1 where "t1 = send_vblank_event e (v_count (crtcs s c)) now (t\<lparr>event_space := (event_space s)(fl := event_space s fl - EVENT_SIZE)\<rparr>)"
    define t2 where "t2 = ?s\<lparr>vblank_event_list := vblank_event_list s @ [e]\<rparr>"
    have q: "drm_queue_vblank_event env mem c fl w s =
        (if v_count (crtcs s c) - w_sequence w1 \<le> 0x800000 then Some (0, w1\<lparr>w_sequence := v_count (crtcs s c)\<rparr>, t1) else Some (0, w1, t2))"
      using False put unfolding drm_queue_vblank_event_def
      by (simp add: Let_def drm_vblank_count_and_time_def w1_def e_def now_def t1_def t2_def split del: if_split cong: if_cong)
    have hold: "holders (ext(c := Suc (ext c))) s d = holders ext s d + (if d = c then 1 else 0)" for d by (simp add: holders_def)
    have "vbl_inv ext files t1"
    proof -
      have t1: "num_crtcs t1 = num_crtcs t" "vblank_event_list t1 = vblank_event_list t" "crtcs t1 = crtcs t"
        "event_space t1 = (event_space s)(fl := event_space s fl - EVENT_SIZE)"
        "\<And>f. length (event_list t1 f) = length (event_list t f) + (if f = fl then 1 else 0)"
        by (auto simp: t1_def send_vblank_event_def Let_def e_def)
      have "space_ok files t1"
        using t(2) t' t1 False by (auto simp: vbl_inv_def space_ok_def EVENT_SIZE_def)
      then show ?thesis using t(2) t1 by (simp add: vbl_inv_def holders_def)
    qed
    moreover have "vbl_inv ext files t2"
    proof -
      have "holders ext t2 d = holders (ext(c := Suc (ext c))) s d" for d
        by (simp add: hold t2_def holders_def on_pipe_def e_def)
      moreover have "space_ok files t2"
        using inv False by (auto simp: vbl_inv_def space_ok_def t2_def of_file_def e_def EVENT_SIZE_def)
      ultimately show ?thesis using inv c fl unfolding vbl_inv_def by (auto simp: t2_def e_def)
    qed
    ultimately show ?thesis using False unfolding q by auto
  qed
qed

lemma wait_event_inv:
  assumes inv: "vbl_inv ext files s" and few: "few 1 ext s" and xs: "steady xs" and fl: "fl \<in> files"
    and ev: "w_type w AND DRM_VBLANK_EVENT \<noteq> 0"
  shows "\<exists>r w' s'. drm_wait_vblank env irq mem en xs [] fl w s = Some (r, w', s') \<and> vbl_inv ext files s'"
proof -
  let ?c = "wait_crtc (w_type w)"
  show ?thesis
  proof (cases "(irq \<longrightarrow> \<not> irq_enabled s) \<or> w_type w AND DRM_VBLANK_SIGNAL \<noteq> 0 \<or> num_crtcs s \<le> ?c \<or>
      w_type w AND NOT (DRM_VBLANK_TYPES_MASK OR DRM_VBLANK_FLAGS_MASK OR DRM_VBLANK_HIGH_CRTC_MASK) \<noteq> 0")
    case True
    then show ?thesis using inv by (auto simp: drm_wait_vblank_def Let_def)
  next
    case False
    then have c: "?c < num_crtcs s" by simp
    obtain ret t where t: "drm_vblank_get env en xs ?c s = Some (ret, t)"
      "if ret = 0 then vbl_inv (ext(?c := Suc (ext ?c))) files t \<and> few 0 (ext(?c := Suc (ext ?c))) t \<and> num_crtcs t = num_crtcs s \<and>
         vblank_event_list t = vblank_event_list s \<and> event_list t = event_list s \<and> event_space t = event_space s \<and>
         v_inmodeset (crtcs t ?c) = v_inmodeset (crtcs s ?c) \<and> (\<forall>d. d \<noteq> ?c \<longrightarrow> crtcs t d = crtcs s d)
       else t = s"
      using get_inv [OF inv c few xs, of env en] by blast
    show ?thesis
    proof (cases "ret = 0")
      case True
      let ?w = "if w_type w AND DRM_VBLANK_TYPES_MASK = 1
                then w\<lparr>w_sequence := w_sequence w + drm_vblank_count ?c t, w_type := w_type w AND NOT 1\<rparr> else w"
      have "w_type ?w AND DRM_VBLANK_EVENT \<noteq> 0" using ev by (simp add: event_flag)
      then have "drm_wait_vblank env irq mem en xs [] fl w s = drm_queue_vblank_event env mem ?c fl ?w t"
        using False t(1) True by (simp add: drm_wait_vblank_def Let_def)
      moreover have "vbl_inv (ext(?c := Suc (ext ?c))) files t" "few 0 (ext(?c := Suc (ext ?c))) t" "?c < num_crtcs t"
        using t(2) True c by auto
      ultimately show ?thesis using queue_inv [of ext ?c files t fl env mem ?w] fl by auto
    next
      case nz: False
      then have "drm_wait_vblank env irq mem en xs [] fl w s = Some (ret, w, t)"
        using False t(1) by (simp add: drm_wait_vblank_def Let_def)
      then show ?thesis using t(2) nz inv by auto
    qed
  qed
qed

lemma modeset_inv:
  assumes inv: "vbl_inv ext files s" and few: "few 1 ext s" and xs: "steady xs"
  shows "\<exists>r s'. drm_modeset_ctl env en xs modeset crtc cmd s = Some (r, s') \<and> vbl_inv ext files s'"
proof (cases "num_crtcs s = 0 \<or> modeset \<or> num_crtcs s \<le> unat crtc \<or> (cmd \<noteq> 1 \<and> cmd \<noteq> 2)")
  case True
  then show ?thesis using inv by (auto simp: drm_modeset_ctl_def)
next
  case False
  let ?c = "unat crtc"
  have c: "?c < num_crtcs s" using False by simp
  have m: "v_inmodeset (crtcs s ?c) \<in> {0, 1, 3}" using inv c by (simp add: vbl_inv_def)
  have pre: "\<exists>s'. drm_vblank_pre_modeset env en xs ?c s = Some s' \<and> vbl_inv ext files s'"
  proof (cases "v_inmodeset (crtcs s ?c) = 0")
    case True
    let ?s = "upd_crtc ?c (\<lambda>v. v\<lparr>v_inmodeset := 1\<rparr>) s"
    have h: "holders ext ?s d = holders ext s d" for d using True by (simp add: holders_def modeset_ref_def)
    have i: "vbl_inv ext files ?s" using inv h by (auto simp: vbl_inv_def space_ok_def)
    have f: "few 1 ext ?s" using few h by (auto simp: few_def)
    obtain ret t where t: "drm_vblank_get env en xs ?c ?s = Some (ret, t)"
      "if ret = 0 then vbl_inv (ext(?c := Suc (ext ?c))) files t \<and> few 0 (ext(?c := Suc (ext ?c))) t \<and> num_crtcs t = num_crtcs ?s \<and>
         vblank_event_list t = vblank_event_list ?s \<and> event_list t = event_list ?s \<and> event_space t = event_space ?s \<and>
         v_inmodeset (crtcs t ?c) = v_inmodeset (crtcs ?s ?c) \<and> (\<forall>d. d \<noteq> ?c \<longrightarrow> crtcs t d = crtcs ?s d)
       else t = ?s"
      using get_inv [OF i _ f xs, of ?c env en] c by auto
    show ?thesis
    proof (cases "ret = 0")
      case ok: True
      let ?t = "upd_crtc ?c (\<lambda>v. v\<lparr>v_inmodeset := v_inmodeset v OR 2\<rparr>) t"
      have it: "v_inmodeset (crtcs t ?c) = 1" "vbl_inv (ext(?c := Suc (ext ?c))) files t" using t(2) ok by auto
      have "holders ext ?t d = holders (ext(?c := Suc (ext ?c))) t d" for d
        using it(1) by (auto simp: holders_def modeset_ref_def)
      then have "vbl_inv ext files ?t" using it by (auto simp: vbl_inv_def space_ok_def)
      then show ?thesis using t(1) ok True c by (simp add: drm_vblank_pre_modeset_def)
    next
      case False
      then show ?thesis using t i True c by (simp add: drm_vblank_pre_modeset_def)
    qed
  next
    case False
    then show ?thesis using inv by (simp add: drm_vblank_pre_modeset_def)
  qed
  have post: "\<exists>s'. drm_vblank_post_modeset env ?c s = Some s' \<and> vbl_inv ext files s'"
  proof (cases "v_inmodeset (crtcs s ?c) = 3")
    case True
    let ?s = "s\<lparr>vblank_disable_allowed := True\<rparr>"
    have "holders ext s ?c < 4294967296" "v_refcount (crtcs s ?c) = of_nat (holders ext s ?c)"
      using inv few c by (auto simp: vbl_inv_def few_def)
    moreover have h: "holders ext s ?c = Suc (length (on_pipe ?c (vblank_event_list s)) + ext ?c)"
      using True by (simp add: holders_def modeset_ref_def)
    ultimately obtain t where t: "drm_vblank_put env ?c ?s = Some t" "same_counts ?s t" "event_list t = event_list ?s"
      "v_refcount (crtcs t ?c) = of_nat (length (on_pipe ?c (vblank_event_list s)) + ext ?c)"
      "\<forall>d. d \<noteq> ?c \<longrightarrow> crtcs t d = crtcs ?s d"
      using put_result [of ?s ?c "length (on_pipe ?c (vblank_event_list s)) + ext ?c" env] by auto
    let ?t = "upd_crtc ?c (\<lambda>v. v\<lparr>v_inmodeset := 0\<rparr>) t"
    have eq: "num_crtcs t = num_crtcs s" "vblank_event_list t = vblank_event_list s" "event_space t = event_space s"
      using t(2) by (simp_all add: same_counts_def)
    have "holders ext ?t d = (if d = ?c then length (on_pipe ?c (vblank_event_list s)) + ext ?c else holders ext s d)" for d
      using t(5) eq by (simp add: holders_def modeset_ref_def)
    then have "vbl_inv ext files ?t" using inv t(3-5) eq by (auto simp: vbl_inv_def space_ok_def)
    then show ?thesis using t(1) True c by (auto simp: drm_vblank_post_modeset_def Let_def)
  next
    case False
    show ?thesis
    proof (cases "v_inmodeset (crtcs s ?c) = 0")
      case True
      then show ?thesis using inv c by (simp add: drm_vblank_post_modeset_def)
    next
      case nz: False
      then have one: "v_inmodeset (crtcs s ?c) = 1" using False m by auto
      let ?t = "upd_crtc ?c (\<lambda>v. v\<lparr>v_inmodeset := 0\<rparr>) (s\<lparr>vblank_disable_allowed := True\<rparr>)"
      have "holders ext ?t d = holders ext s d" for d using one by (simp add: holders_def modeset_ref_def)
      then have "vbl_inv ext files ?t" using inv by (auto simp: vbl_inv_def space_ok_def)
      then show ?thesis using one c by (auto simp: drm_vblank_post_modeset_def Let_def)
    qed
  qed
  show ?thesis using pre post False by (auto simp: drm_modeset_ctl_def)
qed

lemma read_inv: "fl \<in> files \<Longrightarrow> vbl_inv ext files s \<Longrightarrow> vbl_inv ext files (snd (snd (read_loop fl copies tot len got s)))"
proof (induction fl copies tot len got s rule: read_loop.induct)
  case (1 fl copies tot len got s)
  show ?case
  proof (cases "drm_dequeue_event fl tot len s")
    case None
    then show ?thesis using 1 by (simp add: read_loop.simps)
  next
    case (Some p)
    obtain e t where p: "p = (e, t)" by force
    have t: "event_list s fl = e # event_list t fl" "event_space t = (event_space s)(fl := event_space s fl + EVENT_SIZE)"
      "event_list t = (event_list s)(fl := event_list t fl)" "crtcs t = crtcs s" "num_crtcs t = num_crtcs s"
      "vblank_event_list t = vblank_event_list s"
      using Some p by (auto simp: drm_dequeue_event_def split: list.splits if_splits)
    have len: "length (event_list t f) + (if f = fl then 1 else 0) = length (event_list s f)" for f
      using t(1) fun_cong [OF t(3), of f] by (cases "f = fl") auto
    have "space_ok files t"
      unfolding space_ok_def
    proof
      fix f assume f: "f \<in> files"
      have "0 \<le> event_space s f \<and> event_space s f + EVENT_SIZE * int (length (of_file f (vblank_event_list s)) + length (event_list s f)) = 4096"
        using 1(3) f by (simp add: vbl_inv_def space_ok_def)
      then show "0 \<le> event_space t f \<and> event_space t f + EVENT_SIZE * int (length (of_file f (vblank_event_list t)) + length (event_list t f)) = 4096"
        using len [of f] t(2,6) by (cases "f = fl") (auto simp: EVENT_SIZE_def)
    qed
    then have i: "vbl_inv ext files t" using 1(3) t(4-6) by (simp add: vbl_inv_def holders_def)
    then show ?thesis using 1 Some p by (cases "copies \<noteq> [] \<and> hd copies \<noteq> 0") (auto simp: read_loop.simps [of fl copies])
  qed
qed


section \<open>Steps\<close>

text \<open>
  What users, the timer and the chip do. \<open>Event\<close> is the ioctl that asks for an event; a wait without one is a \<open>Get\<close> and, when the
  wait is over, a \<open>Put\<close>.
\<close>

datatype vbl_cmd =
    Get nat int "sample list"
  | Put nat
  | Event nat bool bool int "sample list" drm_wait_vblank_arg
  | Interrupt nat "(int \<times> timeval) option" timeval
  | Off nat "sample list"
  | Modeset bool int "sample list" u32w u32w
  | Timer "nat \<Rightarrow> sample list"
  | Uninstall bool "nat \<Rightarrow> u32w"
  | Open nat
  | Read nat "int list" int
  | Close nat

type_synonym vbl_world = "(nat \<Rightarrow> nat) \<times> nat set \<times> vblank_state"

fun vbl_step :: "vblank_env \<Rightarrow> vbl_cmd \<Rightarrow> vbl_world \<Rightarrow> vbl_world option" where
  "vbl_step env (Get c en xs) (ext, files, s) = do {
     (ret, s) \<leftarrow> drm_vblank_get env en xs c s;
     Some (if ret = 0 then ext(c := Suc (ext c)) else ext, files, s) }"
| "vbl_step env (Put c) (ext, files, s) = do { s \<leftarrow> drm_vblank_put env c s; Some (ext(c := ext c - 1), files, s) }"
| "vbl_step env (Event fl irq mem en xs w) (ext, files, s) = do {
     (_, _, s) \<leftarrow> drm_wait_vblank env irq mem en xs [] fl w s;
     Some (ext, files, s) }"
| "vbl_step env (Interrupt c hook now) (ext, files, s) = do { (_, s) \<leftarrow> drm_handle_vblank env hook now c s; Some (ext, files, s) }"
| "vbl_step env (Off c xs) (ext, files, s) = do { s \<leftarrow> drm_vblank_off env xs c s; Some (ext, files, s) }"
| "vbl_step env (Modeset kms en xs crtc cmd) (ext, files, s) = do {
     (_, s) \<leftarrow> drm_modeset_ctl env en xs kms crtc cmd s;
     Some (ext, files, s) }"
| "vbl_step env (Timer xs) (ext, files, s) = do { s \<leftarrow> vblank_disable_fn env xs s; Some (ext, files, s) }"
| "vbl_step env (Uninstall feature counter) (ext, files, s) = Some (ext, files, snd (drm_irq_uninstall feature counter s))"
| "vbl_step env (Open fl) (ext, files, s) = Some (ext, insert fl files, open_events fl s)"
| "vbl_step env (Read fl copies len) (ext, files, s) = Some (ext, files, snd (snd (drm_read fl copies len s)))"
| "vbl_step env (Close fl) (ext, files, s) = do { s \<leftarrow> drm_events_release env fl s; Some (ext, files - {fl}, s) }"

text \<open>When a step can happen: the chip is read steadily at some time, only users with a reference give one back, only open files are used.\<close>

fun vbl_can :: "vbl_cmd \<Rightarrow> vbl_world \<Rightarrow> bool" where
  "vbl_can (Get c en xs) (ext, files, s) \<longleftrightarrow> c < num_crtcs s \<and> steady xs"
| "vbl_can (Put c) (ext, files, s) \<longleftrightarrow> c < num_crtcs s \<and> 0 < ext c"
| "vbl_can (Event fl irq mem en xs w) (ext, files, s) \<longleftrightarrow> fl \<in> files \<and> steady xs \<and> w_type w AND DRM_VBLANK_EVENT \<noteq> 0"
| "vbl_can (Interrupt c hook now) (ext, files, s) \<longleftrightarrow> c < num_crtcs s"
| "vbl_can (Off c xs) (ext, files, s) \<longleftrightarrow> c < num_crtcs s \<and> steady xs"
| "vbl_can (Modeset kms en xs crtc cmd) (ext, files, s) \<longleftrightarrow> steady xs"
| "vbl_can (Timer xs) (ext, files, s) \<longleftrightarrow> (\<forall>c. steady (xs c))"
| "vbl_can (Uninstall feature counter) (ext, files, s) \<longleftrightarrow> True"
| "vbl_can (Open fl) (ext, files, s) \<longleftrightarrow> fl \<notin> files"
| "vbl_can (Read fl copies len) (ext, files, s) \<longleftrightarrow> fl \<in> files"
| "vbl_can (Close fl) (ext, files, s) \<longleftrightarrow> fl \<in> files"

definition vbl_few :: "vbl_world \<Rightarrow> bool" where
  "vbl_few W = (case W of (ext, files, s) \<Rightarrow> few 1 ext s)"

definition vbl_ok :: "vbl_world \<Rightarrow> bool" where
  "vbl_ok W = (case W of (ext, files, s) \<Rightarrow> vbl_inv ext files s)"


lemma vbl_step_ok:
  assumes "vbl_ok W" "vbl_can cmd W" "vbl_few W"
  shows "\<exists>W'. vbl_step env cmd W = Some W' \<and> vbl_ok W'"
proof -
  obtain ext files s where W: "W = (ext, files, s)" by (cases W)
  have inv: "vbl_inv ext files s" and few: "few 1 ext s" using assms(1,3) W by (simp_all add: vbl_ok_def vbl_few_def)
  note f0 = few_0 [OF few]
  have can: "vbl_can cmd (ext, files, s)" using assms(2) W by simp
  have "\<exists>W'. vbl_step env cmd (ext, files, s) = Some W' \<and> vbl_ok W'"
  proof (cases cmd)
    case (Get c en xs)
    then show ?thesis using get_inv [OF inv _ few, of c xs env en] can inv by (fastforce simp: vbl_ok_def)
  next
    case (Put c)
    have e: "(ext(c := ext c - 1))(c := Suc ((ext(c := ext c - 1)) c)) = ext" using Put can by (auto simp: fun_eq_iff)
    show ?thesis using put_inv [of "ext(c := ext c - 1)" c files s env] inv f0 can Put unfolding e by (auto simp: vbl_ok_def)
  next
    case (Event fl irq mem en xs w)
    then show ?thesis using wait_event_inv [OF inv few, of xs fl w env irq mem en] can by (auto simp: vbl_ok_def)
  next
    case (Interrupt c hook now)
    then show ?thesis using handle_inv [OF inv f0, of env hook now c] by (auto simp: vbl_ok_def)
  next
    case (Off c xs)
    then show ?thesis using off_inv [OF inv f0, of xs env c] can by (auto simp: vbl_ok_def)
  next
    case (Modeset kms en xs crtc cmd)
    then show ?thesis using modeset_inv [OF inv few, of xs env en kms crtc cmd] can by (auto simp: vbl_ok_def)
  next
    case (Timer xs)
    then have "\<exists>s'. vblank_disable_fn env xs s = Some s' \<and> vbl_inv ext files s'"
      using disable_loop_result [of xs env "[0 ..< num_crtcs s]" s] can inv
      by (auto simp: vblank_disable_fn_def) (metis (no_types, lifting) vbl_inv_cong)
    then show ?thesis using Timer by (auto simp: vbl_ok_def)
  next
    case (Uninstall feature counter)
    have "vbl_inv ext files (snd (drm_irq_uninstall feature counter s))"
      using inv by (subst vbl_inv_cong [of _ s]) (auto simp: drm_irq_uninstall_def Let_def)
    then show ?thesis using Uninstall by (simp add: vbl_ok_def)
  next
    case (Open fl)
    have "of_file fl (vblank_event_list s) = []"
      using inv Open can by (auto simp: vbl_inv_def of_file_def filter_empty_conv)
    then have "vbl_inv ext (insert fl files) (open_events fl s)"
      using inv by (auto simp: vbl_inv_def holders_def space_ok_def open_events_def)
    then show ?thesis using Open by (simp add: vbl_ok_def)
  next
    case (Read fl copies len)
    then show ?thesis using read_inv [OF _ inv, of fl copies 0 len "[]"] can by (simp add: vbl_ok_def drm_read_def)
  next
    case (Close fl)
    then show ?thesis using release_inv [OF inv f0, of env fl] by (auto simp: vbl_ok_def)
  qed
  then show ?thesis using W by simp
qed


section \<open>Properties\<close>

subsection \<open>References and space\<close>

text \<open>A device just set up, with one open file.\<close>

definition first_vblank :: vblank_state where
  "first_vblank = open_events 1 (snd (drm_vblank_init 2
     \<lparr>num_crtcs = 0, crtcs = (\<lambda>_. zero_vblank), vblank_disable_allowed = False, irq_enabled = True, max_vblank_count = 0xffffff,
      disable_timer = False, vblank_event_list = [], event_list = (\<lambda>_. []), event_space = (\<lambda>_. 0)\<rparr>))"

lemma first_vblank_inv: "vbl_inv (\<lambda>_. 0) {1} first_vblank"
  by (simp add: first_vblank_def open_events_def drm_vblank_init_def vbl_inv_def holders_def on_pipe_def modeset_ref_def zero_vblank_def
      space_ok_def of_file_def)


text \<open>A chip with precise times, and a request for an event at the count 1 of the first controller.\<close>

definition precise_env :: vblank_env where
  "precise_env = \<lparr>drm_timestamp_precision = 20, drm_vblank_offdelay = 5000, timeval_to_ns = (\<lambda>t. tv_sec t * 1000000000 + tv_usec t * 1000)\<rparr>"

definition reading :: "u32w \<Rightarrow> sample" where
  "reading x = \<lparr>s_before = x, s_hook = None, s_now = \<lparr>tv_sec = 5, tv_usec = 0\<rparr>, s_after = x\<rparr>"

definition event_request :: drm_wait_vblank_arg where
  "event_request = \<lparr>w_type = DRM_VBLANK_EVENT, w_sequence = 1, w_signal = 7, w_usec = 0\<rparr>"

lemma request_step:
  "\<exists>U. vbl_step precise_env (Event 1 True True 0 [reading 0] event_request) ((\<lambda>_. 0), {1}, first_vblank) = Some ((\<lambda>_. 0), {1}, U) \<and>
     v_refcount (crtcs U 0) = 1 \<and> v_enabled (crtcs U 0) \<and> v_count (crtcs U 0) = 0 \<and> event_space U 1 = 4064 \<and>
     vblank_event_list U = [\<lparr>e_pipe = 0, e_file = 1, e_sequence = 1, e_data = 7, e_sec = 0, e_usec = 0\<rparr>]"
proof -
  have "map_option (\<lambda>(ext, files, U). (v_refcount (crtcs U 0), v_enabled (crtcs U 0), v_count (crtcs U 0), event_space U 1, vblank_event_list U))
      (vbl_step precise_env (Event 1 True True 0 [reading 0] event_request) ((\<lambda>_. 0), {1}, first_vblank)) =
    Some (1, True, 0, 4064, [\<lparr>e_pipe = 0, e_file = 1, e_sequence = 1, e_data = 7, e_sec = 0, e_usec = 0\<rparr>])"
    by code_simp
  then show ?thesis by (auto simp: bind_eq_Some_conv)
qed

lemma request_can:
  "vbl_can (Event 1 True True 0 [reading 0] event_request) ((\<lambda>_. 0), {1}, first_vblank)"
  "vbl_few ((\<lambda>_. 0), {1}, first_vblank)"
  by (simp_all add: steady_def reading_def event_request_def DRM_VBLANK_EVENT_def vbl_few_def few_def holders_def first_vblank_def
      open_events_def drm_vblank_init_def on_pipe_def modeset_ref_def zero_vblank_def)



subsection \<open>The interrupt\<close>

text \<open>An interrupt counts if its time is more than a millisecond from that of the last count.\<close>

definition vbl_time :: "vblank_env \<Rightarrow> (int \<times> timeval) option \<Rightarrow> timeval \<Rightarrow> timeval" where
  "vbl_time env hook now = snd (drm_get_last_vbltimestamp env hook now)"

definition new_blank :: "vblank_env \<Rightarrow> (int \<times> timeval) option \<Rightarrow> timeval \<Rightarrow> nat \<Rightarrow> vblank_state \<Rightarrow> bool" where
  "new_blank env hook now c s \<longleftrightarrow>
     \<bar>timeval_to_ns env (vbl_time env hook now) - timeval_to_ns env (snd (drm_vblank_count_and_time c s))\<bar> > 1000000"

text \<open>An event is due when the count has reached its number and is at most \<open>2 ^ 23\<close> ahead of it, modulo \<open>2 ^ 32\<close>.\<close>

definition event_due :: "nat \<Rightarrow> u32w \<Rightarrow> vblank_event \<Rightarrow> bool" where
  "event_due c count e \<longleftrightarrow> e_pipe e = c \<and> count - e_sequence e \<le> 0x800000"

lemma on_pipe_fewer: "length (on_pipe d (filter P es)) \<le> length (on_pipe d es)"
  by (induction es) (auto simp: on_pipe_def)

lemma handle_result:
  assumes inv: "vbl_inv ext files s" and few: "few 0 ext s" and c: "c < num_crtcs s" "v_enabled (crtcs s c)"
    and n_def: "n = (if new_blank env hook now c s then v_count (crtcs s c) + 1 else v_count (crtcs s c))"
    and tv_def: "tv = (if new_blank env hook now c s then vbl_time env hook now else snd (drm_vblank_count_and_time c s))"
  shows "\<exists>s'. drm_handle_vblank env hook now c s = Some (True, s') \<and> vbl_inv ext files s' \<and> few 0 ext s' \<and>
    num_crtcs s' = num_crtcs s \<and> v_enabled (crtcs s' c) \<and> drm_vblank_count_and_time c s' = (n, tv) \<and>
    vblank_event_list s' = filter (\<lambda>e. \<not> event_due c n e) (vblank_event_list s) \<and>
    (\<forall>f. event_list s' f = event_list s f @ map (stamped n tv) (of_file f (filter (event_due c n) (vblank_event_list s)))) \<and>
    (\<forall>d. d \<noteq> c \<longrightarrow> v_count (crtcs s' d) = v_count (crtcs s d))"
proof -
  define v where "v = (if new_blank env hook now c s
    then (crtcs s c)\<lparr>v_times := (v_times (crtcs s c))(vblanktimestamp (v_count (crtcs s c) + 1) := vbl_time env hook now),
           v_count := v_count (crtcs s c) + 1\<rparr> else crtcs s c)"
  let ?s = "upd_crtc c (\<lambda>_. v) s"
  have h: "drm_handle_vblank env hook now c s = do { s \<leftarrow> drm_handle_vblank_events env c ?s; Some (True, s) }"
    using c by (simp add: drm_handle_vblank_def Let_def v_def new_blank_def vbl_time_def drm_vblank_count_and_time_def
        DRM_REDUNDANT_VBLIRQ_THRESH_NS_def split del: if_split cong: if_cong)
  have vf: "v_refcount v = v_refcount (crtcs s c)" "v_inmodeset v = v_inmodeset (crtcs s c)" "v_enabled v"
    using c by (simp_all add: v_def)
  have ct: "drm_vblank_count_and_time c ?s = (n, tv)"
    by (simp add: drm_vblank_count_and_time_def v_def n_def tv_def)
  have i: "vbl_inv ext files ?s" using inv vf by (subst vbl_inv_cong [of _ s]) auto
  have f: "few 0 ext ?s" using few vf by (subst few_cong [of _ s]) auto
  obtain t where t: "send_due env (event_due c n) n tv (vblank_event_list ?s) ?s = Some (filter (\<lambda>e. \<not> event_due c n e) (vblank_event_list ?s), t)"
    "vbl_inv ext files (t\<lparr>vblank_event_list := filter (\<lambda>e. \<not> event_due c n e) (vblank_event_list ?s)\<rparr>)" "same_counts ?s t"
    "\<forall>f. event_list t f = event_list ?s f @ map (stamped n tv) (of_file f (filter (event_due c n) (vblank_event_list ?s)))"
    using send_inv [OF i f] by blast
  let ?t = "t\<lparr>vblank_event_list := filter (\<lambda>e. \<not> event_due c n e) (vblank_event_list s)\<rparr>"
  note sc = same_counts_crtc [OF t(3)]
  have "drm_handle_vblank_events env c ?s = Some ?t"
    using t(1) by (simp add: drm_handle_vblank_events_def ct event_due_def [abs_def])
  moreover have "few 0 ext ?t"
    unfolding few_def
  proof (intro allI impI)
    fix d assume d: "d < num_crtcs ?t"
    have "length (on_pipe d (filter (\<lambda>e. \<not> event_due c n e) (vblank_event_list s))) \<le> length (on_pipe d (vblank_event_list s))"
      by (rule on_pipe_fewer)
    moreover have "holders ext s d + 0 < 4294967296" using few d t(3) by (simp add: few_def same_counts_def)
    moreover have "modeset_ref (crtcs ?t d) = modeset_ref (crtcs s d)" using sc(4) [of d] vf by (simp add: modeset_ref_def)
    ultimately show "holders ext ?t d + 0 < 4294967296" by (simp add: holders_def)
  qed
  moreover have "drm_vblank_count_and_time c ?t = (n, tv)"
    using ct sc(2) [of c] sc(5) [of c] by (auto simp: drm_vblank_count_and_time_def)
  ultimately show ?thesis
    using h t(2-4) sc(1,2) vf by (intro exI [of _ ?t]) (auto simp: same_counts_def)
qed

text \<open>
  An interrupt of an enabled controller counts one blank if its time is new, with that time for the new count, and none otherwise. It
  sends exactly the waiting events that are due, each with the count and its time, to their files in the order in which they waited; the
  other events keep waiting in order, and no other controller's count moves.
\<close>

theorem drm_handle_vblank_correct:
  assumes "vbl_inv ext files s" "few 0 ext s" "c < num_crtcs s" "v_enabled (crtcs s c)"
  shows "\<exists>s'. drm_handle_vblank env hook now c s = Some (True, s') \<and> vbl_inv ext files s' \<and>
    (let n = v_count (crtcs s c) + (if new_blank env hook now c s then 1 else 0); tv = snd (drm_vblank_count_and_time c s')
     in drm_vblank_count c s' = n \<and> (new_blank env hook now c s \<longrightarrow> tv = vbl_time env hook now) \<and>
        vblank_event_list s' = filter (\<lambda>e. \<not> event_due c n e) (vblank_event_list s) \<and>
        (\<forall>f. event_list s' f = event_list s f @ map (stamped n tv) (of_file f (filter (event_due c n) (vblank_event_list s)))) \<and>
        (\<forall>d. d \<noteq> c \<longrightarrow> drm_vblank_count d s' = drm_vblank_count d s))"
proof -
  obtain s' where s': "drm_handle_vblank env hook now c s = Some (True, s')" "vbl_inv ext files s'"
    "drm_vblank_count_and_time c s' = (if new_blank env hook now c s then v_count (crtcs s c) + 1 else v_count (crtcs s c),
       if new_blank env hook now c s then vbl_time env hook now else snd (drm_vblank_count_and_time c s))"
    "vblank_event_list s' = filter (\<lambda>e. \<not> event_due c (if new_blank env hook now c s then v_count (crtcs s c) + 1 else v_count (crtcs s c)) e)
       (vblank_event_list s)"
    "\<forall>f. event_list s' f = event_list s f @ map (stamped (if new_blank env hook now c s then v_count (crtcs s c) + 1 else v_count (crtcs s c))
       (if new_blank env hook now c s then vbl_time env hook now else snd (drm_vblank_count_and_time c s)))
       (of_file f (filter (event_due c (if new_blank env hook now c s then v_count (crtcs s c) + 1 else v_count (crtcs s c))) (vblank_event_list s)))"
    "\<forall>d. d \<noteq> c \<longrightarrow> v_count (crtcs s' d) = v_count (crtcs s d)"
    using handle_result [OF assms refl refl, of env hook now] by blast
  have "drm_vblank_count c s' = fst (drm_vblank_count_and_time c s')" by (simp add: drm_vblank_count_def drm_vblank_count_and_time_def)
  then show ?thesis using s' by (cases "new_blank env hook now c s") (simp_all add: Let_def drm_vblank_count_def)
qed


text \<open>The state after the request for an event at the count 1.\<close>

definition first_event :: vblank_event where
  "first_event = \<lparr>e_pipe = 0, e_file = 1, e_sequence = 1, e_data = 7, e_sec = 0, e_usec = 0\<rparr>"

lemma request_state:
  "\<exists>U. vbl_inv (\<lambda>_. 0) {1} U \<and> few 0 (\<lambda>_. 0) U \<and> num_crtcs U = 2 \<and> v_enabled (crtcs U 0) \<and> v_count (crtcs U 0) = 0 \<and>
     vblank_event_list U = [first_event] \<and> new_blank precise_env None \<lparr>tv_sec = 6, tv_usec = 0\<rparr> 0 U"
proof -
  obtain U where U: "vbl_step precise_env (Event 1 True True 0 [reading 0] event_request) ((\<lambda>_. 0), {1}, first_vblank) = Some ((\<lambda>_. 0), {1}, U)"
    "v_enabled (crtcs U 0)" "v_count (crtcs U 0) = 0" "vblank_event_list U = [first_event]"
    using request_step by (auto simp: first_event_def)
  have "vbl_ok ((\<lambda>_. 0), {1}, U)"
    using vbl_step_ok [OF _ request_can, of precise_env] U(1) first_vblank_inv by (simp add: vbl_ok_def)
  then have inv: "vbl_inv (\<lambda>_. 0) {1} U" by (simp add: vbl_ok_def)
  have "map_option (\<lambda>(ext, files, U). (num_crtcs U, v_inmodeset (crtcs U 0), v_inmodeset (crtcs U 1), v_times (crtcs U 0) 0))
      (vbl_step precise_env (Event 1 True True 0 [reading 0] event_request) ((\<lambda>_. 0), {1}, first_vblank)) =
      Some (2, 0, 0, \<lparr>tv_sec = 0, tv_usec = 0\<rparr>)"
    by code_simp
  then have n: "num_crtcs U = 2" "v_times (crtcs U 0) 0 = \<lparr>tv_sec = 0, tv_usec = 0\<rparr>" "v_inmodeset (crtcs U 0) = 0" "v_inmodeset (crtcs U 1) = 0"
    unfolding U(1) by simp_all
  have "few 0 (\<lambda>_. 0) U"
    unfolding few_def
  proof (intro allI impI)
    fix d assume "d < num_crtcs U"
    then have "d = 0 \<or> d = 1" using n(1) by auto
    then show "holders (\<lambda>_. 0) U d + 0 < 4294967296" using U(4) n(3,4) by (auto simp: holders_def on_pipe_def modeset_ref_def)
  qed
  moreover have "new_blank precise_env None \<lparr>tv_sec = 6, tv_usec = 0\<rparr> 0 U"
    using n(2) U(3) by (auto simp: new_blank_def vbl_time_def drm_get_last_vbltimestamp_def drm_vblank_count_and_time_def
        precise_env_def vblanktimestamp_def)
  ultimately show ?thesis using inv U(2-4) n(1) by blast
qed

theorem drm_handle_vblank_witness:
  "\<exists>s s'. drm_handle_vblank precise_env None \<lparr>tv_sec = 6, tv_usec = 0\<rparr> 0 s = Some (True, s') \<and>
     vblank_event_list s = [first_event] \<and> vblank_event_list s' = [] \<and> drm_vblank_count 0 s' = 1"
proof -
  obtain U where U: "vbl_inv (\<lambda>_. 0) {1} U" "few 0 (\<lambda>_. 0) U" "num_crtcs U = 2" "v_enabled (crtcs U 0)" "v_count (crtcs U 0) = 0"
    "vblank_event_list U = [first_event]" "new_blank precise_env None \<lparr>tv_sec = 6, tv_usec = 0\<rparr> 0 U"
    using request_state by blast
  have "event_due 0 1 first_event" by (simp add: event_due_def first_event_def)
  then show ?thesis
    using drm_handle_vblank_correct [OF U(1,2) _ U(4), of precise_env None "\<lparr>tv_sec = 6, tv_usec = 0\<rparr>"] U(3,5-7)
    by - (rule exI [of _ U], auto simp: Let_def)
qed

text \<open>A run of interrupts, each of which counts.\<close>

fun interrupts :: "vblank_env \<Rightarrow> nat \<Rightarrow> ((int \<times> timeval) option \<times> timeval) list \<Rightarrow> vblank_state \<Rightarrow> vblank_state option" where
  "interrupts env c [] s = Some s"
| "interrupts env c ((hook, now) # irqs) s = do { (_, s) \<leftarrow> drm_handle_vblank env hook now c s; interrupts env c irqs s }"

fun all_new :: "vblank_env \<Rightarrow> nat \<Rightarrow> ((int \<times> timeval) option \<times> timeval) list \<Rightarrow> vblank_state \<Rightarrow> bool" where
  "all_new env c [] s \<longleftrightarrow> True"
| "all_new env c ((hook, now) # irqs) s \<longleftrightarrow> new_blank env hook now c s \<and>
     (case drm_handle_vblank env hook now c s of Some (_, s) \<Rightarrow> all_new env c irqs s | None \<Rightarrow> True)"

lemma due_at:
  assumes "0 < k" "k < 4286578688" "unat (e_sequence e - n) = k" "e_pipe e = c"
  shows "event_due c (n + 1) e \<longleftrightarrow> k = 1" "unat (e_sequence e - (n + 1)) = k - 1"
proof -
  let ?d = "e_sequence e - n"
  have d: "e_sequence e - (n + 1) = ?d - 1" "n + 1 - e_sequence e = 1 - ?d" by simp_all
  have nz: "?d \<noteq> 0" using assms(1,3) by auto
  show u: "unat (e_sequence e - (n + 1)) = k - 1"
    unfolding d using assms(3) nz by (metis unat_minus_one)
  show "event_due c (n + 1) e \<longleftrightarrow> k = 1"
  proof (cases "k = 1")
    case True
    then have "?d = 1" using assms(3) by (metis unsigned_1 unsigned_word_eqI)
    then show ?thesis using True assms(4) unfolding event_due_def d by simp
  next
    case False
    have "unat (1 - ?d) = 1 + 4294967296 - k"
      using False assms(1,3) unat_sub_if' [of 1 ?d] by simp
    then have "\<not> 1 - ?d \<le> 0x800000" using assms(2) False assms(1) by (simp add: word_le_nat_alt)
    then show ?thesis using False unfolding event_due_def d by simp
  qed
qed

text \<open>
  C25: An event waits for its number exactly. With \<open>k\<close> blanks to go (\<open>k\<close> less than \<open>2 ^ 32 - 2 ^ 23\<close>, the window for late events), it
  is still waiting after any smaller number of counting interrupts; the \<open>k\<close>-th takes it off the list and sends it to its file with just
  the number that was asked for. The counts may wrap around on the way.
\<close>

theorem drm_vblank_event_on_time:
  assumes "vbl_inv ext files s" "few 0 ext s" "c < num_crtcs s" "v_enabled (crtcs s c)"
    and "e \<in> set (vblank_event_list s)" "e_pipe e = c" "unat (e_sequence e - drm_vblank_count c s) = k" "0 < k" "k < 4286578688"
    and "all_new env c irqs s" "length irqs \<le> k"
  shows "\<exists>s'. interrupts env c irqs s = Some s' \<and> drm_vblank_count c s' = drm_vblank_count c s + of_nat (length irqs) \<and>
    (if length irqs < k then e \<in> set (vblank_event_list s')
     else e \<notin> set (vblank_event_list s') \<and> (\<exists>tv. stamped (e_sequence e) tv e \<in> set (event_list s' (e_file e))))"
  using assms
proof (induction irqs arbitrary: s k)
  case Nil
  then show ?case by simp
next
  case (Cons irq irqs)
  obtain hook now where irq: "irq = (hook, now)" by force
  let ?n = "v_count (crtcs s c) + 1" and ?tv = "vbl_time env hook now"
  have new: "new_blank env hook now c s" using Cons.prems(10) irq by simp
  obtain t where t: "drm_handle_vblank env hook now c s = Some (True, t)" "vbl_inv ext files t" "few 0 ext t"
    "num_crtcs t = num_crtcs s" "v_enabled (crtcs t c)" "drm_vblank_count_and_time c t = (?n, ?tv)"
    "vblank_event_list t = filter (\<lambda>e. \<not> event_due c ?n e) (vblank_event_list s)"
    "\<forall>f. event_list t f = event_list s f @ map (stamped ?n ?tv) (of_file f (filter (event_due c ?n) (vblank_event_list s)))"
    using handle_result [OF Cons.prems(1-4) refl refl, of env hook now] new by auto
  have cnt: "drm_vblank_count c t = drm_vblank_count c s + 1"
    using t(6) by (simp add: drm_vblank_count_and_time_def drm_vblank_count_def)
  have kk: "unat (e_sequence e - v_count (crtcs s c)) = k" using Cons.prems(7) by (simp add: drm_vblank_count_def)
  note due = due_at [OF Cons.prems(8,9) kk Cons.prems(6)]
  have run: "interrupts env c (irq # irqs) s = interrupts env c irqs t" using t(1) irq by simp
  show ?case
  proof (cases "k = 1")
    case True
    then have irqs: "irqs = []" using Cons.prems(11) by simp
    have d: "event_due c ?n e" using due(1) True by simp
    have "e_sequence e - v_count (crtcs s c) = 1" using kk True by (metis unsigned_1 unsigned_word_eqI)
    then have seq: "e_sequence e = ?n" by (simp add: diff_eq_eq add.commute)
    have "stamped ?n ?tv e \<in> set (event_list t (e_file e))"
      using t(8) d Cons.prems(5) by (auto simp: of_file_def)
    then show ?thesis using run irqs True cnt d t(7) seq by auto
  next
    case False
    then have e: "e \<in> set (vblank_event_list t)" using due(1) t(7) Cons.prems(5) by simp
    have k: "unat (e_sequence e - drm_vblank_count c t) = k - 1" using due(2) cnt by (simp add: drm_vblank_count_def)
    have less: "0 < k - 1" "k - 1 < 4286578688" "length irqs \<le> k - 1" using Cons.prems(8,9,11) False by auto
    have an: "all_new env c irqs t" using Cons.prems(10) irq t(1) by simp
    have c: "c < num_crtcs t" using Cons.prems(3) t(4) by simp
    obtain s' where s': "interrupts env c irqs t = Some s'" "drm_vblank_count c s' = drm_vblank_count c t + of_nat (length irqs)"
      "if length irqs < k - 1 then e \<in> set (vblank_event_list s')
       else e \<notin> set (vblank_event_list s') \<and> (\<exists>tv. stamped (e_sequence e) tv e \<in> set (event_list s' (e_file e)))"
      using Cons.IH [OF t(2,3) c t(5) e Cons.prems(6) k less(1,2) an less(3)] by blast
    then show ?thesis using run cnt False Cons.prems(8) by (auto split: if_splits)
  qed
qed

theorem drm_vblank_event_on_time_witness:
  "\<exists>s s'. e_sequence (hd (vblank_event_list s)) = 1 \<and> interrupts precise_env 0 [(None, \<lparr>tv_sec = 6, tv_usec = 0\<rparr>)] s = Some s' \<and>
     vblank_event_list s \<noteq> [] \<and> hd (vblank_event_list s) \<notin> set (vblank_event_list s')"
proof -
  obtain U where U: "vbl_inv (\<lambda>_. 0) {1} U" "few 0 (\<lambda>_. 0) U" "num_crtcs U = 2" "v_enabled (crtcs U 0)" "v_count (crtcs U 0) = 0"
    "vblank_event_list U = [first_event]" "new_blank precise_env None \<lparr>tv_sec = 6, tv_usec = 0\<rparr> 0 U"
    using request_state by blast
  have new: "all_new precise_env 0 [(None, \<lparr>tv_sec = 6, tv_usec = 0\<rparr>)] U" using U(7) by (auto split: option.splits)
  have e: "e_pipe first_event = 0" "e_sequence first_event = 1" by (simp_all add: first_event_def)
  have "\<exists>s'. interrupts precise_env 0 [(None, \<lparr>tv_sec = 6, tv_usec = 0\<rparr>)] U = Some s' \<and> first_event \<notin> set (vblank_event_list s')"
    using drm_vblank_event_on_time [OF U(1,2) _ U(4) _ e(1) _ _ _ new, of 1] U(3,5,6) e(2) by (auto simp: drm_vblank_count_def)
  then obtain s' where "interrupts precise_env 0 [(None, \<lparr>tv_sec = 6, tv_usec = 0\<rparr>)] U = Some s'" "first_event \<notin> set (vblank_event_list s')" by blast
  then show ?thesis using U(6) e(2) by (intro exI [of _ U] exI [of _ s'] conjI) simp_all
qed

subsection \<open>The time without interrupts\<close>

text \<open>
  C26: When the first user comes after a time without interrupts, in which the chip counted on from the saved frame \<open>a\<close> to frame \<open>b\<close>, not
  more than the size of its counter, the count advances by the number of frames in between, but by one less if the counter of the chip
  wrapped around.
\<close>

theorem drm_vblank_counter_follows_chip:
  assumes off: "v_refcount (crtcs s c) = 0" "\<not> v_enabled (crtcs s c)" and maxc: "unat (max_vblank_count s) = m"
    and chip: "v_last (crtcs s c) = of_nat (a mod (m + 1))" "s_before x = of_nat (b mod (m + 1))" "s_after x = s_before x"
    and time: "a \<le> b" "b - a \<le> m"
  shows "\<exists>s'. drm_vblank_get env 0 (x # xs) c s = Some (0, s') \<and> v_refcount (crtcs s' c) = 1 \<and> v_enabled (crtcs s' c) \<and>
    drm_vblank_count c s' = drm_vblank_count c s + of_nat (b - a) - (if a div (m + 1) = b div (m + 1) then 0 else 1)"
proof -
  have "unat (max_vblank_count s) < 2 ^ LENGTH(32)" by (rule unsigned_less)
  then have m: "m < 4294967296" using maxc by simp
  define p where "p = a mod (m + 1)"
  define q where "q = b mod (m + 1)"
  have pq: "p \<le> m" "q \<le> m" unfolding p_def q_def using mod_less_divisor [of "m + 1"] by auto
  have w: "max_vblank_count s = of_nat m" unfolding maxc [symmetric] by simp
  have less: "(of_nat q :: u32w) < of_nat p \<longleftrightarrow> q < p"
    using pq m by (simp add: word_less_nat_alt unat_of_nat)
  have ab: "a = (a div (m + 1)) * (m + 1) + p" "b = (b div (m + 1)) * (m + 1) + q" unfolding p_def q_def by (rule div_mult_mod_eq [symmetric])+
  have dle: "a div (m + 1) \<le> b div (m + 1)" using time(1) by (rule div_le_mono)
  have "b div (m + 1) \<le> (a + m) div (m + 1)" using time(2) by (intro div_le_mono) linarith
  also have "\<dots> \<le> a div (m + 1) + 1"
  proof -
    have "(a + m) div (m + 1) \<le> (a + (m + 1)) div (m + 1)" by (rule div_le_mono) simp
    also have "(a + (m + 1)) div (m + 1) = a div (m + 1) + 1" by (rule div_add_self2) simp
    finally show ?thesis .
  qed
  finally have dl: "b div (m + 1) \<le> a div (m + 1) + 1" .
  have wrap: "a div (m + 1) = b div (m + 1) \<longleftrightarrow> \<not> q < p"
  proof
    assume e: "a div (m + 1) = b div (m + 1)"
    have "b = a div (m + 1) * (m + 1) + q" using ab(2) unfolding e .
    then show "\<not> q < p" using ab(1) time(1) by linarith
  next
    assume np: "\<not> q < p"
    show "a div (m + 1) = b div (m + 1)"
    proof (rule ccontr)
      assume "a div (m + 1) \<noteq> b div (m + 1)"
      then have "b div (m + 1) = a div (m + 1) + 1" using dle dl by linarith
      then have "b = a div (m + 1) * (m + 1) + (m + 1) + q" using ab(2) by simp
      then show False using ab(1) np time(2) by linarith
    qed
  qed
  define diff :: u32w where "diff = (if (of_nat q :: u32w) < of_nat p then of_nat q - of_nat p + of_nat m else of_nat q - of_nat p)"
  have diff: "diff = of_nat (b - a) - (if a div (m + 1) = b div (m + 1) then 0 else 1)"
  proof (cases "q < p")
    case False
    then have "b - a = q - p" using wrap ab by (metis add_diff_cancel_left)
    then show ?thesis using False wrap less by (simp add: diff_def of_nat_diff)
  next
    case True
    then have "b div (m + 1) = a div (m + 1) + 1" using wrap dle dl by linarith
    then have "b = a div (m + 1) * (m + 1) + (m + 1) + q" using ab(2) by simp
    then have "b - a = m + 1 + q - p" using ab(1) by linarith
    then have "(of_nat (b - a) :: u32w) = of_nat (m + 1 + q) - of_nat p"
      using pq by (simp add: of_nat_diff)
    then show ?thesis using True wrap less by (simp add: diff_def)
  qed
  have cp: "v_last (crtcs s c) = of_nat p" "s_before x = of_nat q" using chip(1,2) by (simp_all add: p_def q_def)
  have "\<exists>s'. drm_vblank_get env 0 (x # xs) c s = Some (0, s') \<and> v_refcount (crtcs s' c) = 1 \<and> v_enabled (crtcs s' c) \<and>
    drm_vblank_count c s' = drm_vblank_count c s + diff"
    unfolding diff_def using off chip(3)
    by (simp add: drm_vblank_get_def drm_update_vblank_count_def Let_def cp w drm_vblank_count_def split: prod.splits)
  then show ?thesis unfolding diff add_diff_eq .
qed

text \<open>A controller whose chip has counted 5 frames past the end of its 24 bits: one is lost.\<close>

definition wrapped :: vblank_state where
  "wrapped = upd_crtc 0 (\<lambda>v. v\<lparr>v_last := 0xfffffe\<rparr>) first_vblank"

theorem drm_vblank_counter_follows_chip_witness:
  "\<exists>s'. drm_vblank_get precise_env 0 [reading 3] 0 wrapped = Some (0, s') \<and> drm_vblank_count 0 s' = 4"
proof -
  have "v_refcount (crtcs wrapped 0) = 0" "\<not> v_enabled (crtcs wrapped 0)" "unat (max_vblank_count wrapped) = 16777215"
    "v_last (crtcs wrapped 0) = of_nat (16777214 mod (16777215 + 1))" "s_before (reading 3) = of_nat (16777219 mod (16777215 + 1))"
    "s_after (reading 3) = s_before (reading 3)"
    by (simp_all add: wrapped_def first_vblank_def open_events_def drm_vblank_init_def zero_vblank_def reading_def)
  from drm_vblank_counter_follows_chip [OF this, of precise_env "[]"]
  show ?thesis by (auto simp: wrapped_def first_vblank_def open_events_def drm_vblank_init_def zero_vblank_def drm_vblank_count_def)
qed

text \<open>The comment of \<^verbatim>\<open>drm_update_vblank_count\<close> says that the last value is updated; it is not.\<close>

lemma update_keeps_last:
  "drm_update_vblank_count env xs c s = Some s' \<Longrightarrow> v_last (crtcs s' c) = v_last (crtcs s c)"
  by (auto simp: drm_update_vblank_count_def Let_def bind_eq_Some_conv)

text \<open>The timer turns off the interrupt of every controller that nobody uses, and of no other.\<close>

lemma vblank_disable_fn_correct:
  assumes "\<And>c. steady (xs c)" "vblank_disable_allowed s"
  shows "\<exists>s'. vblank_disable_fn env xs s = Some s' \<and>
    (\<forall>c < num_crtcs s. v_enabled (crtcs s' c) \<longleftrightarrow> v_enabled (crtcs s c) \<and> v_refcount (crtcs s c) \<noteq> 0)"
  using disable_loop_result [of xs env "[0 ..< num_crtcs s]" s] assms by (auto simp: vblank_disable_fn_def)

subsection \<open>Waiting and reading\<close>

text \<open>
  \<^verbatim>\<open>DRM_WAIT_ON\<close> gives positive error numbers, so that the test of \<^verbatim>\<open>drm_wait_vblank\<close> for \<^verbatim>\<open>-EINTR\<close> never holds: an interrupted wait
  overwrites the request with a reply, and returns \<^verbatim>\<open>EINTR\<close> with the wrong sign.
\<close>

lemma DRM_WAIT_ON_sign: "DRM_WAIT_ON cond sleeps r s = Some (ret, s') \<Longrightarrow> ret = r \<or> ret \<in> {0, EBUSY, EINTR}"
  by (induction cond sleeps r s rule: DRM_WAIT_ON.induct) (auto split: if_splits)

lemma wait_interrupted_replies:
  assumes "wait_and_reply env sleeps c seq w s = Some (ret, w', s')"
  shows "ret \<noteq> - EINTR \<and> (\<exists>t. w_sequence w' = drm_vblank_count c t \<and> drm_vblank_put env c t = Some s')"
proof -
  obtain w1 t where t: "DRM_WAIT_ON (\<lambda>s. drm_vblank_count c s - w_sequence w1 \<le> 0x800000 \<or> \<not> irq_enabled s) sleeps 0
      (upd_crtc c (\<lambda>v. v\<lparr>v_last_wait := w_sequence w1\<rparr>) s) = Some (ret, t)"
    "w' = (if ret \<noteq> - EINTR
              then (case drm_vblank_count_and_time c t of
                      (seq, now) \<Rightarrow> w1\<lparr>w_sequence := seq, w_signal := word_of_int (tv_sec now), w_usec := word_of_int (tv_usec now)\<rparr>)
              else w1)" "drm_vblank_put env c t = Some s'"
    using assms by (auto simp: wait_and_reply_def Let_def bind_eq_Some_conv simp del: DRM_WAIT_ON.simps)
  have "ret \<noteq> - EINTR" using DRM_WAIT_ON_sign [OF t(1)] by (auto simp: errno_defs)
  then show ?thesis using t(2,3) by (auto simp: drm_vblank_count_and_time_def drm_vblank_count_def)
qed

lemma read_loop_all:
  assumes "\<forall>x \<in> set copies. x = 0" "tot \<le> len"
  shows "read_loop fl copies tot len got s =
    (let k = min (length (event_list s fl)) (nat ((len - tot) div 32))
     in (tot + 32 * int k, got @ take k (event_list s fl),
         s\<lparr>event_space := (event_space s)(fl := event_space s fl + 32 * int k), event_list := (event_list s)(fl := drop k (event_list s fl))\<rparr>))"
  using assms unfolding Let_def
proof (induction "event_list s fl" arbitrary: s copies tot got)
  case Nil
  then have "drm_dequeue_event fl tot len s = None" by (simp add: drm_dequeue_event_def)
  then show ?case using Nil.hyps [symmetric] by (simp add: read_loop.simps [of fl copies] fun_upd_idem)
next
  case (Cons e es)
  have q: "event_list s fl = e # es" using Cons.hyps(2) by simp
  show ?case
  proof (cases "32 + tot > len")
    case True
    then have z: "nat ((len - tot) div 32) = 0" by (simp add: div_neg_pos_less0 pos_imp_zdiv_nonneg_iff)
    have "drm_dequeue_event fl tot len s = None" using True q by (simp add: drm_dequeue_event_def EVENT_SIZE_def)
    then show ?thesis unfolding z by (simp add: read_loop.simps [of fl copies] fun_upd_idem)
  next
    case False
    let ?t = "s\<lparr>event_space := (event_space s)(fl := event_space s fl + EVENT_SIZE), event_list := (event_list s)(fl := es)\<rparr>"
    have d: "drm_dequeue_event fl tot len s = Some (e, ?t)" using False q by (simp add: drm_dequeue_event_def EVENT_SIZE_def)
    have "\<forall>x \<in> set (tl copies). x = 0" using Cons.prems(1) by (cases copies) auto
    then have r: "read_loop fl (tl copies) (tot + 32) len (got @ [e]) ?t =
      (tot + 32 + 32 * int (min (length (event_list ?t fl)) (nat ((len - (tot + 32)) div 32))),
       (got @ [e]) @ take (min (length (event_list ?t fl)) (nat ((len - (tot + 32)) div 32))) (event_list ?t fl),
       ?t\<lparr>event_space := (event_space ?t)(fl := event_space ?t fl + 32 * int (min (length (event_list ?t fl)) (nat ((len - (tot + 32)) div 32)))),
          event_list := (event_list ?t)(fl := drop (min (length (event_list ?t fl)) (nat ((len - (tot + 32)) div 32))) (event_list ?t fl))\<rparr>)"
      using False by (intro Cons.hyps(1)) auto
    have "len - tot = len - (tot + 32) + 1 * 32" by simp
    then have "(len - tot) div 32 = (len - (tot + 32)) div 32 + 1" by (metis div_mult_self1 zero_neq_numeral add.commute)
    moreover have "0 \<le> (len - (tot + 32)) div 32" using False by (simp add: pos_imp_zdiv_nonneg_iff)
    ultimately have n: "nat ((len - tot) div 32) = Suc (nat ((len - (tot + 32)) div 32))" by simp
    have "copies \<noteq> [] \<longrightarrow> hd copies = 0" using Cons.prems(1) by (cases copies) auto
    then have "read_loop fl copies tot len got s = read_loop fl (tl copies) (tot + 32) len (got @ [e]) ?t"
      using d by (auto simp add: read_loop.simps [of fl copies] EVENT_SIZE_def)
    note step = this
    define k where "k = min (length es) (nat ((len - (tot + 32)) div 32))"
    have el: "event_list ?t fl = es" "event_space ?t fl = event_space s fl + 32" by (simp_all add: EVENT_SIZE_def)
    have twice: "?t\<lparr>event_space := (event_space ?t)(fl := x), event_list := (event_list ?t)(fl := y)\<rparr> =
        s\<lparr>event_space := (event_space s)(fl := x), event_list := (event_list s)(fl := y)\<rparr>" for x y by simp
    have km: "min (length (event_list s fl)) (nat ((len - tot) div 32)) = Suc k" unfolding n q k_def by simp
    have "tot + 32 * int (Suc k) = tot + 32 + 32 * int k" "event_space s fl + 32 * int (Suc k) = event_space s fl + 32 + 32 * int k"
      "got @ take (Suc k) (e # es) = (got @ [e]) @ take k es" "drop (Suc k) (e # es) = drop k es" by simp_all
    note eqs = this
    show ?thesis unfolding step r twice unfolding el k_def [symmetric] km unfolding q eqs ..
  qed
qed

text \<open>
  Reading a file gives the oldest unread events in order, as many as there are and fit the buffer, and their space back; when copying
  one to the user fails, the event is lost.
\<close>

lemma drm_read_correct:
  "0 \<le> len \<Longrightarrow> drm_read fl [] len s =
    (let k = min (length (event_list s fl)) (nat (len div 32))
     in (32 * int k, take k (event_list s fl),
         s\<lparr>event_space := (event_space s)(fl := event_space s fl + 32 * int k), event_list := (event_list s)(fl := drop k (event_list s fl))\<rparr>))"
  by (simp add: drm_read_def Let_def read_loop_all)

lemma drm_read_loses_event:
  assumes "event_list s fl = e # es" "32 \<le> len" "err \<noteq> 0"
  shows "drm_read fl [err] len s = (0, [], s\<lparr>event_space := (event_space s)(fl := event_space s fl + 32), event_list := (event_list s)(fl := es)\<rparr>)"
  using assms by (simp add: drm_read_def drm_dequeue_event_def EVENT_SIZE_def read_loop.simps [of fl "[err]"])

end
