(* ===== verification/Drm_Scanout.thy ===== *)
theory Drm_Scanout
  imports Drm_Vblank
begin

text \<open>
  Time stamps from the position of the scanout: \<^verbatim>\<open>drm_calc_timestamping_constants\<close> and \<^verbatim>\<open>drm_calc_vbltimestamp_from_scanoutpos\<close> of
  \<^verbatim>\<open>uts/common/io/drm/drm_irq.c\<close>. The times are in nanoseconds; the conversions of the operating system between them and \<^verbatim>\<open>timeval\<close>
  are parameters.
\<close>

record crtc_timing =
  hw_clock :: int
  hw_interlace :: bool
  hw_htotal :: int
  hw_vtotal :: int
  hw_vdisplay :: int
  pixeldur_ns :: int
  linedur_ns :: int
  framedur_ns :: int

definition s64 :: "int \<Rightarrow> int" where
  "s64 x = (x + 9223372036854775808) mod 18446744073709551616 - 9223372036854775808"

lemma s64_id: "- 9223372036854775808 \<le> x \<Longrightarrow> x < 9223372036854775808 \<Longrightarrow> s64 x = x"
  by (simp add: s64_def)

text \<open>The frequency in Hz; the fields of an interlaced mode take half a frame.\<close>

definition dotclock :: "crtc_timing \<Rightarrow> int" where
  "dotclock t = (let d = u64 (u64 (hw_clock t) * 1000) in if hw_interlace t then u64 (d * 2) else d)"

definition drm_calc_timestamping_constants :: "crtc_timing \<Rightarrow> crtc_timing" where
  "drm_calc_timestamping_constants t =
     (let d = dotclock t
      in if d > 0
         then t\<lparr>pixeldur_ns := s64 (1000000000 div d),
                linedur_ns := s64 (u64 (u64 (hw_htotal t) * 1000000000) div d),
                framedur_ns := s64 (u64 (u64 (s32 (hw_htotal t * hw_vtotal t)) * 1000000000) div d)\<rparr>
         else t\<lparr>pixeldur_ns := 0, linedur_ns := 0, framedur_ns := 0\<rparr>)"

text \<open>One query of the position: the time before, the status, the position, and the time after.\<close>

record scanout =
  q_before :: timeval
  q_valid :: bool
  q_invbl :: bool
  q_vpos :: int
  q_hpos :: int
  q_after :: timeval

text \<open>The query is repeated up to three times until it is fast enough: \<open>Inl\<close> an error, or the last query and its duration.\<close>

fun query_loop :: "(timeval \<Rightarrow> int) \<Rightarrow> int \<Rightarrow> nat \<Rightarrow> scanout list \<Rightarrow> (int + scanout \<times> int) option" where
  "query_loop to_ns max_error n [] = None"
| "query_loop to_ns max_error n (q # qs) =
     (if \<not> q_valid q then Some (Inl (- EIO))
      else let duration = s64 (to_ns (q_after q) - to_ns (q_before q))
           in if duration \<le> max_error \<or> n \<le> 1 then Some (Inr (q, duration)) else query_loop to_ns max_error (n - 1) qs)"

definition late_correction :: "bool \<Rightarrow> crtc_timing \<Rightarrow> scanout \<Rightarrow> bool" where
  "late_correction from_irq t q \<longleftrightarrow> from_irq \<and> \<not> q_invbl q \<and> s32 (hw_vdisplay t - q_vpos q) < hw_vtotal t sdiv 100"

text \<open>
  The result: the status, the error of the time, and the time; \<open>supported\<close> says that the driver has the hook, \<open>index\<close> is the number of
  the controller among \<open>count\<close>.
\<close>

definition drm_calc_vbltimestamp_from_scanoutpos ::
  "(timeval \<Rightarrow> int) \<Rightarrow> (int \<Rightarrow> timeval) \<Rightarrow> bool \<Rightarrow> int \<Rightarrow> int \<Rightarrow> int \<Rightarrow> bool \<Rightarrow> crtc_timing \<Rightarrow> scanout list \<Rightarrow>
     (int \<times> int \<times> timeval option) option" where
  "drm_calc_vbltimestamp_from_scanoutpos to_ns to_timeval supported index count max_error from_irq t queries =
     (if index < 0 \<or> index \<ge> count then Some (- EINVAL, max_error, None)
      else if \<not> supported then Some (- EIO, max_error, None)
      else if hw_vtotal t \<le> 0 \<or> hw_vdisplay t \<le> 0 \<or> framedur_ns t = 0 then Some (- EAGAIN, max_error, None)
      else do {
        r \<leftarrow> query_loop to_ns max_error DRM_TIMESTAMP_MAXRETRIES queries;
        case r of
          Inl err \<Rightarrow> Some (err, max_error, None)
        | Inr (q, duration) \<Rightarrow>
            (let delta = s64 (s64 (q_vpos q * linedur_ns t) + s64 (q_hpos q * pixeldur_ns t));
                 delta = (if late_correction from_irq t q then s64 (delta - framedur_ns t) else delta)
             in Some (if q_invbl q then 3 else 1, s32 duration, Some (to_timeval (s64 (to_ns (q_after q) - delta))))) })"

section \<open>How exact it is\<close>

text \<open>The durations of usual modes are the true ones rounded down, and the lines of a frame add up to the frame but for a nanosecond each.\<close>

lemma timestamping_constants_exact:
  assumes "0 < hw_clock t" "hw_clock t < 2147483648" "0 < hw_htotal t" "0 < hw_vtotal t" "hw_htotal t * hw_vtotal t < 2147483648"
  defines "d \<equiv> (if hw_interlace t then 2000 else 1000) * hw_clock t" and "t' \<equiv> drm_calc_timestamping_constants t"
  shows "pixeldur_ns t' = 1000000000 div d" "linedur_ns t' = hw_htotal t * 1000000000 div d"
    "framedur_ns t' = hw_htotal t * hw_vtotal t * 1000000000 div d"
    "0 \<le> framedur_ns t' - hw_vtotal t * linedur_ns t'" "framedur_ns t' - hw_vtotal t * linedur_ns t' < hw_vtotal t"
proof -
  have d: "dotclock t = d" "0 < d" using assms(1,2) by (simp_all add: dotclock_def Let_def u64_id d_def)
  have le: "hw_htotal t \<le> hw_htotal t * hw_vtotal t" using assms(3,4) by (simp add: mult_le_cancel_left1)
  have h: "hw_htotal t < 2147483648" using le assms(5) by linarith
  have f: "0 < hw_htotal t * hw_vtotal t" using assms(3,4) by simp
  have small: "0 \<le> x div d \<and> x div d < 9223372036854775808" if "0 \<le> x" "x < 9223372036854775808" for x
  proof -
    have "x div d \<le> x" using that d(2) zdiv_mono2 [of x 1 d] by simp
    then show ?thesis using that d(2) by (simp add: pos_imp_zdiv_nonneg_iff)
  qed
  have p: "s64 (x div d) = x div d" if "0 \<le> x" "x < 9223372036854775808" for x
    using small [OF that] by (intro s64_id) auto
  show 1: "pixeldur_ns t' = 1000000000 div d" using d p [of 1000000000] by (simp add: t'_def drm_calc_timestamping_constants_def Let_def)
  show 2: "linedur_ns t' = hw_htotal t * 1000000000 div d"
    using d h assms(3) p [of "hw_htotal t * 1000000000"] by (simp add: t'_def drm_calc_timestamping_constants_def Let_def u64_id)
  show 3: "framedur_ns t' = hw_htotal t * hw_vtotal t * 1000000000 div d"
    using d f assms(5) p [of "hw_htotal t * hw_vtotal t * 1000000000"]
    by (simp add: t'_def drm_calc_timestamping_constants_def Let_def u64_id s32_id)
  define l where "l = hw_htotal t * 1000000000 div d"
  define r where "r = hw_htotal t * 1000000000 mod d"
  have r: "hw_htotal t * 1000000000 = d * l + r" "0 \<le> r" "r < d" using d(2) by (simp_all add: l_def r_def)
  have "hw_htotal t * hw_vtotal t * 1000000000 = hw_vtotal t * (d * l + r)" unfolding r(1) [symmetric] by (simp add: ac_simps)
  also have "\<dots> = d * (hw_vtotal t * l) + hw_vtotal t * r" by (simp add: algebra_simps)
  finally have "hw_htotal t * hw_vtotal t * 1000000000 div d = hw_vtotal t * l + hw_vtotal t * r div d" using d(2) by simp
  moreover have "0 \<le> hw_vtotal t * r div d" using r(2) assms(4) d(2) by (simp add: pos_imp_zdiv_nonneg_iff)
  moreover have "hw_vtotal t * r div d < hw_vtotal t"
    using r(3) assms(4) d(2) by (simp add: int_div_less_iff)
  ultimately show "0 \<le> framedur_ns t' - hw_vtotal t * linedur_ns t'" "framedur_ns t' - hw_vtotal t * linedur_ns t' < hw_vtotal t"
    unfolding 2 3 l_def by simp_all
qed

text \<open>A time that is returned belongs to a valid query, the last one if none was fast enough, and is the time after the query less the time since the start of the frame.\<close>

lemma query_loop_result:
  "query_loop to_ns max_error n qs = Some (Inr (q, duration)) \<Longrightarrow>
     q \<in> set qs \<and> q_valid q \<and> duration = s64 (to_ns (q_after q) - to_ns (q_before q)) \<and> (duration \<le> max_error \<or> n \<le> length qs)"
  by (induction to_ns max_error n qs rule: query_loop.induct) (auto simp: Let_def split: if_splits)

lemma scanout_time:
  assumes "drm_calc_vbltimestamp_from_scanoutpos to_ns to_timeval supported index count max_error from_irq t queries = Some (ret, err, tv)"
    and "0 < ret"
  shows "\<exists>q \<in> set queries. q_valid q \<and> err = s32 (s64 (to_ns (q_after q) - to_ns (q_before q))) \<and> (ret = 3 \<longleftrightarrow> q_invbl q) \<and>
    tv = Some (to_timeval (s64 (to_ns (q_after q) -
      (let delta = s64 (s64 (q_vpos q * linedur_ns t) + s64 (q_hpos q * pixeldur_ns t))
       in if late_correction from_irq t q then s64 (delta - framedur_ns t) else delta))))"
proof -
  obtain r where r: "query_loop to_ns max_error DRM_TIMESTAMP_MAXRETRIES queries = Some r"
    using assms by (auto simp: drm_calc_vbltimestamp_from_scanoutpos_def bind_eq_Some_conv errno_defs split: if_splits)
  have noerr: "err' < 0" if "query_loop to_ns max_error n qs = Some (Inl err')" for err' n qs
    using that by (induction to_ns max_error n qs rule: query_loop.induct) (auto simp: Let_def errno_defs split: if_splits)
  obtain q duration where q: "r = Inr (q, duration)"
    using assms r noerr by (cases r) (fastforce simp: drm_calc_vbltimestamp_from_scanoutpos_def errno_defs split: if_splits)+
  note ql = query_loop_result [OF r [unfolded q]]
  have "ret = (if q_invbl q then 3 else 1) \<and> err = s32 duration \<and> tv = Some (to_timeval (s64 (to_ns (q_after q) -
      (let delta = s64 (s64 (q_vpos q * linedur_ns t) + s64 (q_hpos q * pixeldur_ns t))
       in if late_correction from_irq t q then s64 (delta - framedur_ns t) else delta))))"
    using assms r q by (simp add: drm_calc_vbltimestamp_from_scanoutpos_def errno_defs Let_def split: if_split_asm)
  then show ?thesis using ql by (intro bexI [of _ q]) auto
qed

end
