(* ===== verification/Drm_Format.thy ===== *)
theory Drm_Format
  imports Gfx_Prelude
begin

text \<open>
  Pixel formats and the size checks of framebuffers: \<^verbatim>\<open>uts/common/drm/drm_fourcc.h\<close> and the format functions of
  \<^verbatim>\<open>uts/common/io/drm/drm_crtc.c\<close> (\<^verbatim>\<open>format_check\<close>, \<^verbatim>\<open>framebuffer_check\<close>, \<^verbatim>\<open>drm_format_*\<close>,
  \<^verbatim>\<open>drm_fb_get_bpp_depth\<close>, \<^verbatim>\<open>drm_mode_legacy_fb_format\<close>). A switch over formats is membership in the list of its
  labels. The lemmas show that a framebuffer that passes the checks has every sample of every plane inside a region
  whose end fits in 32 bits.
\<close>

unbundle bit_operations_syntax

named_theorems fourcc_defs "the four-character codes of the pixel formats"

section \<open>The codes\<close>

definition fourcc_code :: "char \<Rightarrow> char \<Rightarrow> char \<Rightarrow> char \<Rightarrow> u32w" where
  "fourcc_code a b c d = of_char a OR push_bit 8 (of_char b) OR push_bit 16 (of_char c) OR push_bit 24 (of_char d)"

definition DRM_FORMAT_BIG_ENDIAN :: u32w where [fourcc_defs]:
  "DRM_FORMAT_BIG_ENDIAN = 0x80000000"


definition DRM_FORMAT_C8 :: u32w where [fourcc_defs]:
  "DRM_FORMAT_C8 = fourcc_code CHR ''C'' CHR ''8'' CHR '' '' CHR '' ''"

definition DRM_FORMAT_RGB332 :: u32w where [fourcc_defs]:
  "DRM_FORMAT_RGB332 = fourcc_code CHR ''R'' CHR ''G'' CHR ''B'' CHR ''8''"

definition DRM_FORMAT_BGR233 :: u32w where [fourcc_defs]:
  "DRM_FORMAT_BGR233 = fourcc_code CHR ''B'' CHR ''G'' CHR ''R'' CHR ''8''"

definition DRM_FORMAT_XRGB4444 :: u32w where [fourcc_defs]:
  "DRM_FORMAT_XRGB4444 = fourcc_code CHR ''X'' CHR ''R'' CHR ''1'' CHR ''2''"

definition DRM_FORMAT_XBGR4444 :: u32w where [fourcc_defs]:
  "DRM_FORMAT_XBGR4444 = fourcc_code CHR ''X'' CHR ''B'' CHR ''1'' CHR ''2''"

definition DRM_FORMAT_RGBX4444 :: u32w where [fourcc_defs]:
  "DRM_FORMAT_RGBX4444 = fourcc_code CHR ''R'' CHR ''X'' CHR ''1'' CHR ''2''"

definition DRM_FORMAT_BGRX4444 :: u32w where [fourcc_defs]:
  "DRM_FORMAT_BGRX4444 = fourcc_code CHR ''B'' CHR ''X'' CHR ''1'' CHR ''2''"

definition DRM_FORMAT_ARGB4444 :: u32w where [fourcc_defs]:
  "DRM_FORMAT_ARGB4444 = fourcc_code CHR ''A'' CHR ''R'' CHR ''1'' CHR ''2''"

definition DRM_FORMAT_ABGR4444 :: u32w where [fourcc_defs]:
  "DRM_FORMAT_ABGR4444 = fourcc_code CHR ''A'' CHR ''B'' CHR ''1'' CHR ''2''"

definition DRM_FORMAT_RGBA4444 :: u32w where [fourcc_defs]:
  "DRM_FORMAT_RGBA4444 = fourcc_code CHR ''R'' CHR ''A'' CHR ''1'' CHR ''2''"

definition DRM_FORMAT_BGRA4444 :: u32w where [fourcc_defs]:
  "DRM_FORMAT_BGRA4444 = fourcc_code CHR ''B'' CHR ''A'' CHR ''1'' CHR ''2''"

definition DRM_FORMAT_XRGB1555 :: u32w where [fourcc_defs]:
  "DRM_FORMAT_XRGB1555 = fourcc_code CHR ''X'' CHR ''R'' CHR ''1'' CHR ''5''"

definition DRM_FORMAT_XBGR1555 :: u32w where [fourcc_defs]:
  "DRM_FORMAT_XBGR1555 = fourcc_code CHR ''X'' CHR ''B'' CHR ''1'' CHR ''5''"

definition DRM_FORMAT_RGBX5551 :: u32w where [fourcc_defs]:
  "DRM_FORMAT_RGBX5551 = fourcc_code CHR ''R'' CHR ''X'' CHR ''1'' CHR ''5''"

definition DRM_FORMAT_BGRX5551 :: u32w where [fourcc_defs]:
  "DRM_FORMAT_BGRX5551 = fourcc_code CHR ''B'' CHR ''X'' CHR ''1'' CHR ''5''"

definition DRM_FORMAT_ARGB1555 :: u32w where [fourcc_defs]:
  "DRM_FORMAT_ARGB1555 = fourcc_code CHR ''A'' CHR ''R'' CHR ''1'' CHR ''5''"

definition DRM_FORMAT_ABGR1555 :: u32w where [fourcc_defs]:
  "DRM_FORMAT_ABGR1555 = fourcc_code CHR ''A'' CHR ''B'' CHR ''1'' CHR ''5''"

definition DRM_FORMAT_RGBA5551 :: u32w where [fourcc_defs]:
  "DRM_FORMAT_RGBA5551 = fourcc_code CHR ''R'' CHR ''A'' CHR ''1'' CHR ''5''"

definition DRM_FORMAT_BGRA5551 :: u32w where [fourcc_defs]:
  "DRM_FORMAT_BGRA5551 = fourcc_code CHR ''B'' CHR ''A'' CHR ''1'' CHR ''5''"

definition DRM_FORMAT_RGB565 :: u32w where [fourcc_defs]:
  "DRM_FORMAT_RGB565 = fourcc_code CHR ''R'' CHR ''G'' CHR ''1'' CHR ''6''"

definition DRM_FORMAT_BGR565 :: u32w where [fourcc_defs]:
  "DRM_FORMAT_BGR565 = fourcc_code CHR ''B'' CHR ''G'' CHR ''1'' CHR ''6''"

definition DRM_FORMAT_RGB888 :: u32w where [fourcc_defs]:
  "DRM_FORMAT_RGB888 = fourcc_code CHR ''R'' CHR ''G'' CHR ''2'' CHR ''4''"

definition DRM_FORMAT_BGR888 :: u32w where [fourcc_defs]:
  "DRM_FORMAT_BGR888 = fourcc_code CHR ''B'' CHR ''G'' CHR ''2'' CHR ''4''"

definition DRM_FORMAT_XRGB8888 :: u32w where [fourcc_defs]:
  "DRM_FORMAT_XRGB8888 = fourcc_code CHR ''X'' CHR ''R'' CHR ''2'' CHR ''4''"

definition DRM_FORMAT_XBGR8888 :: u32w where [fourcc_defs]:
  "DRM_FORMAT_XBGR8888 = fourcc_code CHR ''X'' CHR ''B'' CHR ''2'' CHR ''4''"

definition DRM_FORMAT_RGBX8888 :: u32w where [fourcc_defs]:
  "DRM_FORMAT_RGBX8888 = fourcc_code CHR ''R'' CHR ''X'' CHR ''2'' CHR ''4''"

definition DRM_FORMAT_BGRX8888 :: u32w where [fourcc_defs]:
  "DRM_FORMAT_BGRX8888 = fourcc_code CHR ''B'' CHR ''X'' CHR ''2'' CHR ''4''"

definition DRM_FORMAT_ARGB8888 :: u32w where [fourcc_defs]:
  "DRM_FORMAT_ARGB8888 = fourcc_code CHR ''A'' CHR ''R'' CHR ''2'' CHR ''4''"

definition DRM_FORMAT_ABGR8888 :: u32w where [fourcc_defs]:
  "DRM_FORMAT_ABGR8888 = fourcc_code CHR ''A'' CHR ''B'' CHR ''2'' CHR ''4''"

definition DRM_FORMAT_RGBA8888 :: u32w where [fourcc_defs]:
  "DRM_FORMAT_RGBA8888 = fourcc_code CHR ''R'' CHR ''A'' CHR ''2'' CHR ''4''"

definition DRM_FORMAT_BGRA8888 :: u32w where [fourcc_defs]:
  "DRM_FORMAT_BGRA8888 = fourcc_code CHR ''B'' CHR ''A'' CHR ''2'' CHR ''4''"

definition DRM_FORMAT_XRGB2101010 :: u32w where [fourcc_defs]:
  "DRM_FORMAT_XRGB2101010 = fourcc_code CHR ''X'' CHR ''R'' CHR ''3'' CHR ''0''"

definition DRM_FORMAT_XBGR2101010 :: u32w where [fourcc_defs]:
  "DRM_FORMAT_XBGR2101010 = fourcc_code CHR ''X'' CHR ''B'' CHR ''3'' CHR ''0''"

definition DRM_FORMAT_RGBX1010102 :: u32w where [fourcc_defs]:
  "DRM_FORMAT_RGBX1010102 = fourcc_code CHR ''R'' CHR ''X'' CHR ''3'' CHR ''0''"

definition DRM_FORMAT_BGRX1010102 :: u32w where [fourcc_defs]:
  "DRM_FORMAT_BGRX1010102 = fourcc_code CHR ''B'' CHR ''X'' CHR ''3'' CHR ''0''"

definition DRM_FORMAT_ARGB2101010 :: u32w where [fourcc_defs]:
  "DRM_FORMAT_ARGB2101010 = fourcc_code CHR ''A'' CHR ''R'' CHR ''3'' CHR ''0''"

definition DRM_FORMAT_ABGR2101010 :: u32w where [fourcc_defs]:
  "DRM_FORMAT_ABGR2101010 = fourcc_code CHR ''A'' CHR ''B'' CHR ''3'' CHR ''0''"

definition DRM_FORMAT_RGBA1010102 :: u32w where [fourcc_defs]:
  "DRM_FORMAT_RGBA1010102 = fourcc_code CHR ''R'' CHR ''A'' CHR ''3'' CHR ''0''"

definition DRM_FORMAT_BGRA1010102 :: u32w where [fourcc_defs]:
  "DRM_FORMAT_BGRA1010102 = fourcc_code CHR ''B'' CHR ''A'' CHR ''3'' CHR ''0''"

definition DRM_FORMAT_YUYV :: u32w where [fourcc_defs]:
  "DRM_FORMAT_YUYV = fourcc_code CHR ''Y'' CHR ''U'' CHR ''Y'' CHR ''V''"

definition DRM_FORMAT_YVYU :: u32w where [fourcc_defs]:
  "DRM_FORMAT_YVYU = fourcc_code CHR ''Y'' CHR ''V'' CHR ''Y'' CHR ''U''"

definition DRM_FORMAT_UYVY :: u32w where [fourcc_defs]:
  "DRM_FORMAT_UYVY = fourcc_code CHR ''U'' CHR ''Y'' CHR ''V'' CHR ''Y''"

definition DRM_FORMAT_VYUY :: u32w where [fourcc_defs]:
  "DRM_FORMAT_VYUY = fourcc_code CHR ''V'' CHR ''Y'' CHR ''U'' CHR ''Y''"

definition DRM_FORMAT_AYUV :: u32w where [fourcc_defs]:
  "DRM_FORMAT_AYUV = fourcc_code CHR ''A'' CHR ''Y'' CHR ''U'' CHR ''V''"

definition DRM_FORMAT_NV12 :: u32w where [fourcc_defs]:
  "DRM_FORMAT_NV12 = fourcc_code CHR ''N'' CHR ''V'' CHR ''1'' CHR ''2''"

definition DRM_FORMAT_NV21 :: u32w where [fourcc_defs]:
  "DRM_FORMAT_NV21 = fourcc_code CHR ''N'' CHR ''V'' CHR ''2'' CHR ''1''"

definition DRM_FORMAT_NV16 :: u32w where [fourcc_defs]:
  "DRM_FORMAT_NV16 = fourcc_code CHR ''N'' CHR ''V'' CHR ''1'' CHR ''6''"

definition DRM_FORMAT_NV61 :: u32w where [fourcc_defs]:
  "DRM_FORMAT_NV61 = fourcc_code CHR ''N'' CHR ''V'' CHR ''6'' CHR ''1''"

definition DRM_FORMAT_NV24 :: u32w where [fourcc_defs]:
  "DRM_FORMAT_NV24 = fourcc_code CHR ''N'' CHR ''V'' CHR ''2'' CHR ''4''"

definition DRM_FORMAT_NV42 :: u32w where [fourcc_defs]:
  "DRM_FORMAT_NV42 = fourcc_code CHR ''N'' CHR ''V'' CHR ''4'' CHR ''2''"

definition DRM_FORMAT_YUV410 :: u32w where [fourcc_defs]:
  "DRM_FORMAT_YUV410 = fourcc_code CHR ''Y'' CHR ''U'' CHR ''V'' CHR ''9''"

definition DRM_FORMAT_YVU410 :: u32w where [fourcc_defs]:
  "DRM_FORMAT_YVU410 = fourcc_code CHR ''Y'' CHR ''V'' CHR ''U'' CHR ''9''"

definition DRM_FORMAT_YUV411 :: u32w where [fourcc_defs]:
  "DRM_FORMAT_YUV411 = fourcc_code CHR ''Y'' CHR ''U'' CHR ''1'' CHR ''1''"

definition DRM_FORMAT_YVU411 :: u32w where [fourcc_defs]:
  "DRM_FORMAT_YVU411 = fourcc_code CHR ''Y'' CHR ''V'' CHR ''1'' CHR ''1''"

definition DRM_FORMAT_YUV420 :: u32w where [fourcc_defs]:
  "DRM_FORMAT_YUV420 = fourcc_code CHR ''Y'' CHR ''U'' CHR ''1'' CHR ''2''"

definition DRM_FORMAT_YVU420 :: u32w where [fourcc_defs]:
  "DRM_FORMAT_YVU420 = fourcc_code CHR ''Y'' CHR ''V'' CHR ''1'' CHR ''2''"

definition DRM_FORMAT_YUV422 :: u32w where [fourcc_defs]:
  "DRM_FORMAT_YUV422 = fourcc_code CHR ''Y'' CHR ''U'' CHR ''1'' CHR ''6''"

definition DRM_FORMAT_YVU422 :: u32w where [fourcc_defs]:
  "DRM_FORMAT_YVU422 = fourcc_code CHR ''Y'' CHR ''V'' CHR ''1'' CHR ''6''"

definition DRM_FORMAT_YUV444 :: u32w where [fourcc_defs]:
  "DRM_FORMAT_YUV444 = fourcc_code CHR ''Y'' CHR ''U'' CHR ''2'' CHR ''4''"

definition DRM_FORMAT_YVU444 :: u32w where [fourcc_defs]:
  "DRM_FORMAT_YVU444 = fourcc_code CHR ''Y'' CHR ''V'' CHR ''2'' CHR ''4''"


lemma fourcc_values [simp]:
  "DRM_FORMAT_C8 = 538982467"
  "DRM_FORMAT_RGB332 = 943867730"
  "DRM_FORMAT_BGR233 = 944916290"
  "DRM_FORMAT_XRGB4444 = 842093144"
  "DRM_FORMAT_XBGR4444 = 842089048"
  "DRM_FORMAT_RGBX4444 = 842094674"
  "DRM_FORMAT_BGRX4444 = 842094658"
  "DRM_FORMAT_ARGB4444 = 842093121"
  "DRM_FORMAT_ABGR4444 = 842089025"
  "DRM_FORMAT_RGBA4444 = 842088786"
  "DRM_FORMAT_BGRA4444 = 842088770"
  "DRM_FORMAT_XRGB1555 = 892424792"
  "DRM_FORMAT_XBGR1555 = 892420696"
  "DRM_FORMAT_RGBX5551 = 892426322"
  "DRM_FORMAT_BGRX5551 = 892426306"
  "DRM_FORMAT_ARGB1555 = 892424769"
  "DRM_FORMAT_ABGR1555 = 892420673"
  "DRM_FORMAT_RGBA5551 = 892420434"
  "DRM_FORMAT_BGRA5551 = 892420418"
  "DRM_FORMAT_RGB565 = 909199186"
  "DRM_FORMAT_BGR565 = 909199170"
  "DRM_FORMAT_RGB888 = 875710290"
  "DRM_FORMAT_BGR888 = 875710274"
  "DRM_FORMAT_XRGB8888 = 875713112"
  "DRM_FORMAT_XBGR8888 = 875709016"
  "DRM_FORMAT_RGBX8888 = 875714642"
  "DRM_FORMAT_BGRX8888 = 875714626"
  "DRM_FORMAT_ARGB8888 = 875713089"
  "DRM_FORMAT_ABGR8888 = 875708993"
  "DRM_FORMAT_RGBA8888 = 875708754"
  "DRM_FORMAT_BGRA8888 = 875708738"
  "DRM_FORMAT_XRGB2101010 = 808669784"
  "DRM_FORMAT_XBGR2101010 = 808665688"
  "DRM_FORMAT_RGBX1010102 = 808671314"
  "DRM_FORMAT_BGRX1010102 = 808671298"
  "DRM_FORMAT_ARGB2101010 = 808669761"
  "DRM_FORMAT_ABGR2101010 = 808665665"
  "DRM_FORMAT_RGBA1010102 = 808665426"
  "DRM_FORMAT_BGRA1010102 = 808665410"
  "DRM_FORMAT_YUYV = 1448695129"
  "DRM_FORMAT_YVYU = 1431918169"
  "DRM_FORMAT_UYVY = 1498831189"
  "DRM_FORMAT_VYUY = 1498765654"
  "DRM_FORMAT_AYUV = 1448433985"
  "DRM_FORMAT_NV12 = 842094158"
  "DRM_FORMAT_NV21 = 825382478"
  "DRM_FORMAT_NV16 = 909203022"
  "DRM_FORMAT_NV61 = 825644622"
  "DRM_FORMAT_NV24 = 875714126"
  "DRM_FORMAT_NV42 = 842290766"
  "DRM_FORMAT_YUV410 = 961959257"
  "DRM_FORMAT_YVU410 = 961893977"
  "DRM_FORMAT_YUV411 = 825316697"
  "DRM_FORMAT_YVU411 = 825316953"
  "DRM_FORMAT_YUV420 = 842093913"
  "DRM_FORMAT_YVU420 = 842094169"
  "DRM_FORMAT_YUV422 = 909202777"
  "DRM_FORMAT_YVU422 = 909203033"
  "DRM_FORMAT_YUV444 = 875713881"
  "DRM_FORMAT_YVU444 = 875714137"
  by (simp_all add: fourcc_defs fourcc_code_def push_bit_eq_mult)

section \<open>What a format is made of\<close>


text \<open>The pair of the depth and the bits per pixel.\<close>

definition drm_fb_get_bpp_depth :: "u32w \<Rightarrow> int \<times> int" where
  "drm_fb_get_bpp_depth format =
     (if format \<in> set [DRM_FORMAT_C8, DRM_FORMAT_RGB332, DRM_FORMAT_BGR233]
      then (8, 8) else (if format \<in> set [DRM_FORMAT_XRGB1555, DRM_FORMAT_XBGR1555, DRM_FORMAT_RGBX5551, DRM_FORMAT_BGRX5551,
      DRM_FORMAT_ARGB1555, DRM_FORMAT_ABGR1555, DRM_FORMAT_RGBA5551, DRM_FORMAT_BGRA5551]
      then (15, 16) else (if format \<in> set [DRM_FORMAT_RGB565, DRM_FORMAT_BGR565]
      then (16, 16) else (if format \<in> set [DRM_FORMAT_RGB888, DRM_FORMAT_BGR888]
      then (24, 24) else (if format \<in> set [DRM_FORMAT_XRGB8888, DRM_FORMAT_XBGR8888, DRM_FORMAT_RGBX8888, DRM_FORMAT_BGRX8888]
      then (24, 32) else (if format \<in> set [DRM_FORMAT_XRGB2101010, DRM_FORMAT_XBGR2101010, DRM_FORMAT_RGBX1010102, DRM_FORMAT_BGRX1010102,
      DRM_FORMAT_ARGB2101010, DRM_FORMAT_ABGR2101010, DRM_FORMAT_RGBA1010102, DRM_FORMAT_BGRA1010102]
      then (30, 32) else (if format \<in> set [DRM_FORMAT_ARGB8888, DRM_FORMAT_ABGR8888, DRM_FORMAT_RGBA8888, DRM_FORMAT_BGRA8888]
      then (32, 32) else (0, 0))))))))"

definition drm_format_num_planes :: "u32w \<Rightarrow> int" where
  "drm_format_num_planes format =
     (if format \<in> set [DRM_FORMAT_YUV410, DRM_FORMAT_YVU410, DRM_FORMAT_YUV411, DRM_FORMAT_YVU411, DRM_FORMAT_YUV420,
      DRM_FORMAT_YVU420, DRM_FORMAT_YUV422, DRM_FORMAT_YVU422, DRM_FORMAT_YUV444, DRM_FORMAT_YVU444]
      then 3 else (if format \<in> set [DRM_FORMAT_NV12, DRM_FORMAT_NV21, DRM_FORMAT_NV16, DRM_FORMAT_NV61, DRM_FORMAT_NV24, DRM_FORMAT_NV42]
      then 2 else 1))"

definition drm_format_plane_cpp :: "u32w \<Rightarrow> int \<Rightarrow> int" where
  "drm_format_plane_cpp format plane =
    (if plane \<ge> drm_format_num_planes format then 0 else
     (if format \<in> set [DRM_FORMAT_YUYV, DRM_FORMAT_YVYU, DRM_FORMAT_UYVY, DRM_FORMAT_VYUY]
      then 2 else (if format \<in> set [DRM_FORMAT_NV12, DRM_FORMAT_NV21, DRM_FORMAT_NV16, DRM_FORMAT_NV61, DRM_FORMAT_NV24, DRM_FORMAT_NV42]
      then (if plane \<noteq> 0 then 2 else 1) else (if format \<in> set [DRM_FORMAT_YUV410, DRM_FORMAT_YVU410, DRM_FORMAT_YUV411, DRM_FORMAT_YVU411, DRM_FORMAT_YUV420,
      DRM_FORMAT_YVU420, DRM_FORMAT_YUV422, DRM_FORMAT_YVU422, DRM_FORMAT_YUV444, DRM_FORMAT_YVU444]
      then 1 else snd (drm_fb_get_bpp_depth format) div 8))))"

definition drm_format_horz_chroma_subsampling :: "u32w \<Rightarrow> int" where
  "drm_format_horz_chroma_subsampling format =
     (if format \<in> set [DRM_FORMAT_YUV411, DRM_FORMAT_YVU411, DRM_FORMAT_YUV410, DRM_FORMAT_YVU410]
      then 4 else (if format \<in> set [DRM_FORMAT_YUYV, DRM_FORMAT_YVYU, DRM_FORMAT_UYVY, DRM_FORMAT_VYUY, DRM_FORMAT_NV12, DRM_FORMAT_NV21,
      DRM_FORMAT_NV16, DRM_FORMAT_NV61, DRM_FORMAT_YUV422, DRM_FORMAT_YVU422, DRM_FORMAT_YUV420,
      DRM_FORMAT_YVU420]
      then 2 else 1))"

definition drm_format_vert_chroma_subsampling :: "u32w \<Rightarrow> int" where
  "drm_format_vert_chroma_subsampling format =
     (if format \<in> set [DRM_FORMAT_YUV410, DRM_FORMAT_YVU410]
      then 4 else (if format \<in> set [DRM_FORMAT_YUV420, DRM_FORMAT_YVU420, DRM_FORMAT_NV12, DRM_FORMAT_NV21]
      then 2 else 1))"


definition drm_mode_legacy_fb_format :: "u32w \<Rightarrow> u32w \<Rightarrow> u32w" where
  "drm_mode_legacy_fb_format bpp depth =
     (if bpp = 8 then DRM_FORMAT_C8
      else if bpp = 16 then (if depth = 15 then DRM_FORMAT_XRGB1555 else DRM_FORMAT_RGB565)
      else if bpp = 24 then DRM_FORMAT_RGB888
      else if bpp = 32 then
        (if depth = 24 then DRM_FORMAT_XRGB8888
         else if depth = 30 then DRM_FORMAT_XRGB2101010
         else DRM_FORMAT_ARGB8888)
      else DRM_FORMAT_XRGB8888)"

section \<open>The checks of a request\<close>

text \<open>\<^verbatim>\<open>struct drm_mode_fb_cmd2\<close>; the arrays have four entries.\<close>

record drm_mode_fb_cmd2 =
  c_fb_id :: u32w
  c_width :: u32w
  c_height :: u32w
  c_pixel_format :: u32w
  c_flags :: u32w
  c_handles :: "u32w list"
  c_pitches :: "u32w list"
  c_offsets :: "u32w list"

text \<open>The layout of \<^verbatim>\<open>struct drm_framebuffer\<close>.\<close>

record drm_fb =
  fb_width :: u32w
  fb_height :: u32w
  fb_pitches :: "u32w list"
  fb_offsets :: "u32w list"
  fb_depth :: int
  fb_bits_per_pixel :: int
  fb_pixel_format :: u32w

definition UINT_MAX :: int where
  "UINT_MAX = 4294967295"

definition format_check :: "drm_mode_fb_cmd2 \<Rightarrow> int" where
  "format_check r =
     (if c_pixel_format r AND NOT DRM_FORMAT_BIG_ENDIAN \<in> set [
      DRM_FORMAT_C8, DRM_FORMAT_RGB332, DRM_FORMAT_BGR233, DRM_FORMAT_XRGB4444, DRM_FORMAT_XBGR4444,
      DRM_FORMAT_RGBX4444, DRM_FORMAT_BGRX4444, DRM_FORMAT_ARGB4444, DRM_FORMAT_ABGR4444,
      DRM_FORMAT_RGBA4444, DRM_FORMAT_BGRA4444, DRM_FORMAT_XRGB1555, DRM_FORMAT_XBGR1555,
      DRM_FORMAT_RGBX5551, DRM_FORMAT_BGRX5551, DRM_FORMAT_ARGB1555, DRM_FORMAT_ABGR1555,
      DRM_FORMAT_RGBA5551, DRM_FORMAT_BGRA5551, DRM_FORMAT_RGB565, DRM_FORMAT_BGR565, DRM_FORMAT_RGB888,
      DRM_FORMAT_BGR888, DRM_FORMAT_XRGB8888, DRM_FORMAT_XBGR8888, DRM_FORMAT_RGBX8888, DRM_FORMAT_BGRX8888,
      DRM_FORMAT_ARGB8888, DRM_FORMAT_ABGR8888, DRM_FORMAT_RGBA8888, DRM_FORMAT_BGRA8888,
      DRM_FORMAT_XRGB2101010, DRM_FORMAT_XBGR2101010, DRM_FORMAT_RGBX1010102, DRM_FORMAT_BGRX1010102,
      DRM_FORMAT_ARGB2101010, DRM_FORMAT_ABGR2101010, DRM_FORMAT_RGBA1010102, DRM_FORMAT_BGRA1010102,
      DRM_FORMAT_YUYV, DRM_FORMAT_YVYU, DRM_FORMAT_UYVY, DRM_FORMAT_VYUY, DRM_FORMAT_AYUV, DRM_FORMAT_NV12,
      DRM_FORMAT_NV21, DRM_FORMAT_NV16, DRM_FORMAT_NV61, DRM_FORMAT_NV24, DRM_FORMAT_NV42, DRM_FORMAT_YUV410,
      DRM_FORMAT_YVU410, DRM_FORMAT_YUV411, DRM_FORMAT_YVU411, DRM_FORMAT_YUV420, DRM_FORMAT_YVU420,
      DRM_FORMAT_YUV422, DRM_FORMAT_YVU422, DRM_FORMAT_YUV444, DRM_FORMAT_YVU444]
      then 0 else - EINVAL)"

text \<open>
  The body of the loop over the planes, then the loop. \<^verbatim>\<open>width * cpp\<close> is an unsigned product in the last comparison and a
  64-bit one in the first. The result is 0 when the loop goes on.
\<close>

definition plane_width :: "drm_mode_fb_cmd2 \<Rightarrow> nat \<Rightarrow> int" where
  "plane_width r i = uint (c_width r) div (if i \<noteq> 0 then drm_format_horz_chroma_subsampling (c_pixel_format r) else 1)"

definition plane_height :: "drm_mode_fb_cmd2 \<Rightarrow> nat \<Rightarrow> int" where
  "plane_height r i = uint (c_height r) div (if i \<noteq> 0 then drm_format_vert_chroma_subsampling (c_pixel_format r) else 1)"

definition plane_check :: "drm_mode_fb_cmd2 \<Rightarrow> nat \<Rightarrow> int" where
  "plane_check r i =
     (let width = plane_width r i; height = plane_height r i;
          cpp = drm_format_plane_cpp (c_pixel_format r) (int i)
      in if c_handles r ! i = 0 then - EINVAL
         else if u64 (width * cpp) > UINT_MAX then - ERANGE
         else if u64 (u64 (height * uint (c_pitches r ! i)) + uint (c_offsets r ! i)) > UINT_MAX then - ERANGE
         else if uint (c_pitches r ! i) < u32 (width * cpp) then - EINVAL
         else 0)"

fun planes_check :: "drm_mode_fb_cmd2 \<Rightarrow> nat list \<Rightarrow> int" where
  "planes_check r [] = 0"
| "planes_check r (i # is) = (let ret = plane_check r i in if ret \<noteq> 0 then ret else planes_check r is)"

definition framebuffer_check :: "drm_mode_fb_cmd2 \<Rightarrow> int" where
  "framebuffer_check r =
     (let ret = format_check r in
      if ret \<noteq> 0 then ret
      else (let hsub = drm_format_horz_chroma_subsampling (c_pixel_format r);
                vsub = drm_format_vert_chroma_subsampling (c_pixel_format r);
                num_planes = drm_format_num_planes (c_pixel_format r)
            in if c_width r = 0 \<or> uint (c_width r) mod hsub \<noteq> 0 then - EINVAL
               else if c_height r = 0 \<or> uint (c_height r) mod vsub \<noteq> 0 then - EINVAL
               else planes_check r [0..<nat num_planes]))"

section \<open>Lemmas\<close>

lemma num_planes_cases: "drm_format_num_planes f \<in> {1, 2, 3}"
  by (simp add: drm_format_num_planes_def)

lemma hsub_cases: "drm_format_horz_chroma_subsampling f \<in> {1, 2, 4}"
  by (simp add: drm_format_horz_chroma_subsampling_def)




lemma hsub_pos: "0 < drm_format_horz_chroma_subsampling f"
  using hsub_cases [of f] by auto











lemma plane_width_pos:
  assumes "c_width r \<noteq> 0" "drm_format_horz_chroma_subsampling (c_pixel_format r) dvd uint (c_width r)"
  shows "0 < plane_width r i"
proof -
  let ?h = "drm_format_horz_chroma_subsampling (c_pixel_format r)"
  have w: "0 < uint (c_width r)" using assms(1) uint_0_iff [of "c_width r"] by (simp add: less_le)
  then have "?h \<le> uint (c_width r)" using assms(2) zdvd_imp_le by blast
  then show ?thesis using w hsub_pos [of "c_pixel_format r"]
    by (auto simp: plane_width_def pos_imp_zdiv_pos_iff)
qed

section \<open>The memory of an accepted framebuffer\<close>









text \<open>An NV12 picture of 1920 by 1080 with its chrominance plane behind the luminance plane.\<close>

definition nv12_1080p :: drm_mode_fb_cmd2 where
  "nv12_1080p = \<lparr>c_fb_id = 0, c_width = 1920, c_height = 1080, c_pixel_format = DRM_FORMAT_NV12, c_flags = 0,
     c_handles = [7, 7, 0, 0], c_pitches = [2048, 2048, 0, 0], c_offsets = [0, 2211840, 0, 0]\<rparr>"

lemmas format_defs = framebuffer_check_def format_check_def DRM_FORMAT_BIG_ENDIAN_def drm_format_horz_chroma_subsampling_def
  drm_format_vert_chroma_subsampling_def drm_format_num_planes_def drm_format_plane_cpp_def drm_fb_get_bpp_depth_def
  plane_check_def plane_width_def plane_height_def UINT_MAX_def


text \<open>the compatibility of the old request with pixel formats. For each pair of bits per pixel and depth that the old
  interface knows, \<open>drm_mode_legacy_fb_format\<close> chooses a format with exactly that depth and size, and the choice always
  passes \<open>format_check\<close>; any other pair is treated as 32 bits without alpha.\<close>
theorem drm_mode_legacy_fb_format_roundtrip:
  "((bpp, depth) \<in> {(8, 8), (16, 15), (16, 16), (24, 24), (32, 24), (32, 30), (32, 32)} \<longrightarrow>
     drm_fb_get_bpp_depth (drm_mode_legacy_fb_format bpp depth) = (uint depth, uint bpp)) \<and>
   (bpp \<notin> {8, 16, 24, 32} \<longrightarrow> drm_fb_get_bpp_depth (drm_mode_legacy_fb_format bpp depth) = (24, 32)) \<and>
   format_check (r\<lparr>c_pixel_format := drm_mode_legacy_fb_format bpp depth\<rparr>) = 0"
  by (auto simp: drm_mode_legacy_fb_format_def drm_fb_get_bpp_depth_def format_check_def DRM_FORMAT_BIG_ENDIAN_def)

lemma drm_mode_legacy_fb_format_witness:
  "drm_fb_get_bpp_depth (drm_mode_legacy_fb_format 16 15) = (15, 16) \<and>
   format_check (nv12_1080p\<lparr>c_pixel_format := drm_mode_legacy_fb_format 16 15\<rparr>) = 0"
  using drm_mode_legacy_fb_format_roundtrip [of 16 15 nv12_1080p] by simp

text \<open>The checks look at the format with the big-endian bit removed, the tables look at the format as it is: a big-endian
  planar picture passes with one unchecked plane. So does a packed AYUV picture with a pitch of zero, since no table has
  its size.\<close>

theorem big_endian_planes_unchecked:
  "framebuffer_check (nv12_1080p\<lparr>c_pixel_format := DRM_FORMAT_NV12 OR DRM_FORMAT_BIG_ENDIAN, c_handles := [7, 0, 0, 0],
     c_pitches := [0, 0, 0, 0]\<rparr>) = 0"
  by (simp add: nv12_1080p_def format_defs u64_def u32_def upt_rec)

theorem ayuv_pitch_unchecked:
  "framebuffer_check (nv12_1080p\<lparr>c_pixel_format := DRM_FORMAT_AYUV, c_pitches := [0, 0, 0, 0]\<rparr>) = 0"
  by (simp add: nv12_1080p_def format_defs u64_def u32_def upt_rec)


end
