(* ===== verification/I915_Scanout_Thms.thy ===== *)
theory I915_Scanout_Thms
  imports I915_Scanout
begin

text \<open>
  The registers of a plane aim at the requested pixel, and what \<^verbatim>\<open>intel_framebuffer_init\<close> accepts can be shown.
\<close>

section \<open>Words and their values\<close>

lemma uint_of_int_u32w: "0 \<le> x \<Longrightarrow> x < 4294967296 \<Longrightarrow> uint (word_of_int x :: u32w) = x"
  by (simp add: unsigned_of_int take_bit_int_eq_self)

lemma uint_mult_u32w: "uint (a :: u32w) * uint b < 4294967296 \<Longrightarrow> uint (a * b) = uint a * uint b"
  using uint_mult_lem [of a b] by simp

lemma uint_add_u32w: "uint (a :: u32w) + uint b < 4294967296 \<Longrightarrow> uint (a + b) = uint a + uint b"
  using uint_add_lem [of a b] by simp




section \<open>The layout of a surface\<close>

text \<open>
  An X tile is a page: eight rows of 512 bytes. The tiles of a surface are stored in rows, \<open>pitch\<close> is the length of a row of
  pixels in bytes.
\<close>

definition xtile_address :: "int \<Rightarrow> int \<Rightarrow> int \<Rightarrow> int \<Rightarrow> int" where
  "xtile_address pitch cpp x y = (y div 8) * (pitch * 8) + (x * cpp div 512) * 4096 + (y mod 8) * 512 + x * cpp mod 512"

definition pixel_address :: "u32w \<Rightarrow> int \<Rightarrow> int \<Rightarrow> int \<Rightarrow> int \<Rightarrow> int" where
  "pixel_address tiling pitch cpp x y =
     (if tiling \<noteq> I915_TILING_NONE then xtile_address pitch cpp x y else y * pitch + x * cpp)"


section \<open>The page and the rest\<close>



section \<open>Reading the registers back\<close>




definition packed_yuv :: "u32w \<Rightarrow> bool" where
  "packed_yuv format \<longleftrightarrow> format \<in> set [DRM_FORMAT_YUYV, DRM_FORMAT_UYVY, DRM_FORMAT_YVYU, DRM_FORMAT_VYUY]"

definition shown_formats :: "u32w list" where
  "shown_formats = [DRM_FORMAT_C8, DRM_FORMAT_RGB565, DRM_FORMAT_XRGB8888, DRM_FORMAT_ARGB8888, DRM_FORMAT_XBGR8888,
     DRM_FORMAT_ABGR8888, DRM_FORMAT_XRGB2101010, DRM_FORMAT_ARGB2101010, DRM_FORMAT_XBGR2101010, DRM_FORMAT_ABGR2101010]"

lemma format_chain:
  "(if a then 0 else if b then (if g then - EINVAL else 0) else if c then (if h then - EINVAL else 0)
    else if d then (if k then - EINVAL else 0) else - EINVAL) = 0 \<longleftrightarrow>
   a \<or> \<not> a \<and> b \<and> \<not> g \<or> \<not> a \<and> \<not> b \<and> c \<and> \<not> h \<or> \<not> a \<and> \<not> b \<and> \<not> c \<and> d \<and> \<not> k"
  by (simp add: errno_defs)

lemma accepted_formats:
  assumes "intel_format_check dev f = 0" "\<not> packed_yuv f"
  shows "f \<in> set shown_formats \<or> f \<in> set [DRM_FORMAT_XRGB1555, DRM_FORMAT_ARGB1555] \<and> gen dev \<le> 3"
proof -
  from assms(1) have "f \<in> set [DRM_FORMAT_C8, DRM_FORMAT_RGB565, DRM_FORMAT_XRGB8888, DRM_FORMAT_ARGB8888] \<or>
      f \<in> set [DRM_FORMAT_XRGB1555, DRM_FORMAT_ARGB1555] \<and> \<not> 3 < gen dev \<or>
      f \<in> set [DRM_FORMAT_XBGR8888, DRM_FORMAT_ABGR8888, DRM_FORMAT_XRGB2101010, DRM_FORMAT_ARGB2101010,
        DRM_FORMAT_XBGR2101010, DRM_FORMAT_ABGR2101010] \<or> packed_yuv f"
    unfolding intel_format_check_def format_chain packed_yuv_def by (elim disjE conjE) (simp_all del: list.set fourcc_values)
  then show ?thesis
  proof (elim disjE)
    show ?thesis if "f \<in> set [DRM_FORMAT_C8, DRM_FORMAT_RGB565, DRM_FORMAT_XRGB8888, DRM_FORMAT_ARGB8888]"
      using that unfolding shown_formats_def by auto
    show ?thesis if "f \<in> set [DRM_FORMAT_XBGR8888, DRM_FORMAT_ABGR8888, DRM_FORMAT_XRGB2101010, DRM_FORMAT_ARGB2101010,
        DRM_FORMAT_XBGR2101010, DRM_FORMAT_ABGR2101010]"
      using that unfolding shown_formats_def by auto
    show ?thesis if "f \<in> set [DRM_FORMAT_XRGB1555, DRM_FORMAT_ARGB1555] \<and> \<not> 3 < gen dev"
      using that by (simp only: not_less) blast
    show ?thesis if "packed_yuv f"
      using that assms(2) by simp
  qed
qed


lemma old_formats_bits:
  "f \<in> set [DRM_FORMAT_XRGB1555, DRM_FORMAT_ARGB1555] \<Longrightarrow> \<exists>bits. plane_format False f = Some bits"
  by (auto simp: plane_format_def)












section \<open>From the request to the picture\<close>

lemma and_63_dvd: "(w :: u32w) AND 63 = 0 \<Longrightarrow> 64 dvd uint w"
proof -
  assume "w AND 63 = 0"
  then have "uint w AND 63 = 0" using uint_and [of w 63] by simp
  then have "take_bit 6 (uint w) = 0" by (simp add: take_bit_eq_mask mask_eq_exp_minus_1)
  then show "64 dvd uint w" by (simp add: take_bit_eq_mod dvd_eq_mod_eq_0)
qed


lemma init_accepts:
  assumes "intel_framebuffer_init dev tiling strd r ret fb0 = (0, fb)"
  shows "fb = drm_helper_mode_fill_fb_struct r \<and> tiling \<noteq> I915_TILING_Y \<and> 64 dvd uint (c_pitches r ! 0) \<and>
    uint (c_pitches r ! 0) \<le> 32768 \<and> (tiling \<noteq> I915_TILING_NONE \<longrightarrow> c_pitches r ! 0 = strd) \<and>
    intel_format_check dev (c_pixel_format r) = 0 \<and> c_offsets r ! 0 = 0"
proof -
  have "pitch_limit dev tiling \<le> 32768" by (simp add: pitch_limit_def)
  then show ?thesis using assms
    by (auto simp: intel_framebuffer_init_def Let_def errno_defs and_63_dvd simp del: not_less split: if_splits)
qed



text \<open>An X-tiled full-HD picture on a chip of the seventh generation, at pixel (100, 200).\<close>

definition gen7_dev :: intel_info where
  "gen7_dev = \<lparr>gen = 7, is_valleyview = False, is_mobile = False, is_g33 = False, is_i915g = False, is_i915gm = False\<rparr>"

definition hd_request :: drm_mode_fb_cmd2 where
  "hd_request = \<lparr>c_fb_id = 0, c_width = 1920, c_height = 1080, c_pixel_format = DRM_FORMAT_XRGB8888, c_flags = 0,
     c_handles = [7, 0, 0, 0], c_pitches = [7680, 0, 0, 0], c_offsets = [0, 0, 0, 0]\<rparr>"

lemma hd_request_checked: "framebuffer_check hd_request = 0"
  by (simp add: hd_request_def format_defs u64_def u32_def upt_rec)

lemma hd_request_init:
  "intel_framebuffer_init gen7_dev I915_TILING_X 7680 hd_request 0 fb0 = (0, drm_helper_mode_fill_fb_struct hd_request)"
  by (simp add: intel_framebuffer_init_def hd_request_def gen7_dev_def tiling_defs pitch_limit_def intel_format_check_def)


text \<open>
  Neither check looks at the size of the object: the same request is accepted for every object, and its last row lies more than
  eight megabytes behind the start.
\<close>

theorem object_size_unchecked:
  "framebuffer_check hd_request = 0 \<and>
   intel_framebuffer_init gen7_dev I915_TILING_NONE strd hd_request 0 fb0 = (0, drm_helper_mode_fill_fb_struct hd_request) \<and>
   8000000 < pixel_address I915_TILING_NONE (uint (c_pitches hd_request ! 0)) 4 1919 1079"
proof (intro conjI)
  show "intel_framebuffer_init gen7_dev I915_TILING_NONE strd hd_request 0 fb0 = (0, drm_helper_mode_fill_fb_struct hd_request)"
    by (simp add: intel_framebuffer_init_def hd_request_def gen7_dev_def tiling_defs pitch_limit_def intel_format_check_def)
  show "framebuffer_check hd_request = 0" by (rule hd_request_checked)
qed (simp add: pixel_address_def hd_request_def)

section \<open>The depth of the pipe\<close>

definition sink_limit :: "int \<Rightarrow> int" where
  "sink_limit bpc = (if bpc = 0 then 24 else bpc * 3)"

lemma connected_sink_min:
  assumes "0 \<le> bpc" "bpc \<le> 16"
  shows "connected_sink_compute_bpp bpc p = min p (sink_limit bpc)"
  using assms by (simp add: connected_sink_compute_bpp_def sink_limit_def Let_def wrap_simps min_def)

lemma connected_sinks_min:
  "\<forall>b \<in> set sinks. 0 \<le> b \<and> b \<le> 16 \<Longrightarrow> fold connected_sink_compute_bpp sinks p = Min (insert p (sink_limit ` set sinks))"
proof (induction sinks arbitrary: p)
  case (Cons b sinks)
  have "fold connected_sink_compute_bpp sinks (min p (sink_limit b)) = Min (insert (min p (sink_limit b)) (sink_limit ` set sinks))"
    using Cons by simp
  also have "\<dots> = Min (insert p (insert (sink_limit b) (sink_limit ` set sinks)))"
    by (cases "sinks = []") (simp_all add: min.assoc)
  finally show ?case using Cons.prems by (simp add: connected_sink_min)
qed simp

lemma shown_formats_bpp:
  "\<forall>f \<in> set shown_formats. 4 \<le> gen dev \<longrightarrow> baseline_bpp dev f \<in> {18, 24, 30}"
  by (simp add: shown_formats_def baseline_bpp_def)

lemma old_formats_bpp:
  "\<forall>f \<in> set [DRM_FORMAT_XRGB1555, DRM_FORMAT_ARGB1555]. gen dev \<le> 3 \<longrightarrow> baseline_bpp dev f = 18"
  by (simp add: baseline_bpp_def)

lemma early_formats_bpp:
  "\<forall>f \<in> set [DRM_FORMAT_C8, DRM_FORMAT_RGB565, DRM_FORMAT_XRGB8888, DRM_FORMAT_ARGB8888]. baseline_bpp dev f \<in> {18, 24}"
  by (simp add: baseline_bpp_def)

lemma accepted_early_formats:
  assumes "intel_format_check dev f = 0" "gen dev < 4"
  shows "f \<in> set [DRM_FORMAT_C8, DRM_FORMAT_RGB565, DRM_FORMAT_XRGB8888, DRM_FORMAT_ARGB8888] \<or>
    f \<in> set [DRM_FORMAT_XRGB1555, DRM_FORMAT_ARGB1555] \<and> gen dev \<le> 3"
  using assms unfolding intel_format_check_def format_chain by (elim disjE conjE) (simp_all del: list.set fourcc_values)

lemma accepted_format_bpp:
  assumes "intel_format_check dev f = 0" "\<not> packed_yuv f"
  shows "baseline_bpp dev f \<in> {18, 24, 30}"
proof (cases "4 \<le> gen dev")
  case True
  then show ?thesis using accepted_formats [OF assms] shown_formats_bpp [of dev] by force
next
  case False
  then show ?thesis using accepted_early_formats [OF assms(1)] early_formats_bpp [of dev] old_formats_bpp [of dev] by force
qed

text \<open>a framebuffer that \<open>intel_framebuffer_init\<close> accepted is refused by the mode set only if its format is packed YUV. In every
  other case the depth of the pipe is that of the framebuffer, at least 18 and at most 30 bits, reduced to what the
  weakest connected sink can take: three times its bits per component, 24 when it does not say.\<close>
theorem pipe_bpp_of_accepted:
  assumes "intel_framebuffer_init dev tiling strd r 0 fb0 = (0, fb)" "\<forall>b \<in> set sinks. 0 \<le> b \<and> b \<le> 16"
  shows "(packed_yuv (c_pixel_format r) \<longrightarrow> compute_baseline_pipe_bpp dev fb sinks old = (- EINVAL, old)) \<and>
    (\<not> packed_yuv (c_pixel_format r) \<longrightarrow> (\<exists>bpp \<in> {18, 24, 30}.
       compute_baseline_pipe_bpp dev fb sinks old = (bpp, Min (insert bpp (sink_limit ` set sinks)))))"
proof -
  have i: "fb = drm_helper_mode_fill_fb_struct r" "intel_format_check dev (c_pixel_format r) = 0"
    using init_accepts [OF assms(1)] by auto
  have f: "fb_pixel_format fb = c_pixel_format r" by (simp add: i(1) drm_helper_mode_fill_fb_struct_def)
  have y: "baseline_bpp dev (c_pixel_format r) = - EINVAL" if "packed_yuv (c_pixel_format r)"
  proof -
    have "\<forall>f \<in> set [DRM_FORMAT_YUYV, DRM_FORMAT_UYVY, DRM_FORMAT_YVYU, DRM_FORMAT_VYUY]. baseline_bpp dev f = - EINVAL"
      by (simp add: baseline_bpp_def)
    then show ?thesis using that unfolding packed_yuv_def by blast
  qed
  have n: "baseline_bpp dev (c_pixel_format r) \<noteq> - EINVAL" if "\<not> packed_yuv (c_pixel_format r)"
    using accepted_format_bpp [OF i(2) that] by (auto simp: errno_defs)
  show ?thesis
    using y n accepted_format_bpp [OF i(2)] connected_sinks_min [OF assms(2)]
    unfolding compute_baseline_pipe_bpp_def f Let_def by (cases "packed_yuv (c_pixel_format r)") simp_all
qed

lemma pipe_bpp_of_accepted_witness:
  "\<exists>bpp \<in> {18, 24, 30}. compute_baseline_pipe_bpp gen7_dev (drm_helper_mode_fill_fb_struct hd_request) [0, 6] 0 =
     (bpp, Min (insert bpp (sink_limit ` {0, 6})))"
  using pipe_bpp_of_accepted [OF hd_request_init, of "[0, 6]" 0] by (simp add: packed_yuv_def hd_request_def)

section \<open>Framebuffers made for a mode\<close>

lemma uint_align:
  assumes "n < 32" "uint x + 2 ^ n \<le> 4294967296"
  shows "2 ^ n dvd uint (ALIGN x (2 ^ n))" "uint x \<le> uint (ALIGN x (2 ^ n))" "uint (ALIGN x (2 ^ n)) < uint x + 2 ^ n"
proof -
  let ?m = "mask n :: u32w" and ?w = "x + mask n"
  have m: "2 ^ n - 1 = ?m" by (simp add: mask_eq_exp_minus_1)
  have "(2 :: int) ^ n < 2 ^ 32" using assms(1) by (intro power_strict_increasing) auto
  then have "uint (word_of_int (mask n) :: u32w) = 2 ^ n - 1"
    by (subst uint_of_int_u32w) (simp_all add: mask_eq_exp_minus_1)
  then have "uint ?m = 2 ^ n - 1" by (simp only: of_int_mask_eq)
  then have w: "uint ?w = uint x + 2 ^ n - 1" using assms(2) by (subst uint_add_u32w) auto
  have "?w = (?w AND ?m) OR (?w AND NOT ?m)" by (simp flip: bit.conj_disj_distrib)
  also have "\<dots> = (?w AND ?m) + (?w AND NOT ?m)"
    by (rule disjunctive_add [symmetric]) (auto simp: bit_simps)
  finally have d: "?w AND NOT ?m = ?w - (?w AND ?m)" by (metis add_diff_cancel_left')
  have r: "uint (?w AND ?m) = uint ?w mod 2 ^ n"
    by (simp only: take_bit_eq_mask [symmetric] unsigned_take_bit_eq) (simp only: take_bit_eq_mod)
  have "uint ?w mod 2 ^ n \<le> uint ?w" by (simp add: zmod_le_nonneg_dividend)
  then have "uint (?w AND NOT ?m) = uint ?w - uint ?w mod 2 ^ n"
    using r d uint_sub_lem [of "?w AND ?m" ?w] by simp
  then have a: "uint (ALIGN x (2 ^ n)) = uint ?w - uint ?w mod 2 ^ n" by (simp add: ALIGN_def m)
  show "2 ^ n dvd uint (ALIGN x (2 ^ n))" unfolding a by (simp add: minus_mod_eq_mult_div)
  have "0 \<le> uint ?w mod 2 ^ n" "uint ?w mod 2 ^ n < 2 ^ n" by simp_all
  then show "uint x \<le> uint (ALIGN x (2 ^ n))" "uint (ALIGN x (2 ^ n)) < uint x + 2 ^ n"
    unfolding a using w by linarith+
qed

text \<open>a framebuffer that the driver makes for a mode is large enough for it. For the modes that fit the limits of the display
  engine and every depth, the pitch is a multiple of 64 bytes, holds a row of the mode and stays within the pitch limit, and
  the object is a whole number of pages that holds all rows.\<close>
theorem framebuffer_for_mode_fits:
  assumes "0 \<le> h" "h \<le> 8192" "0 \<le> v" "v \<le> 8192" "bpp \<in> {8, 16, 24, 32}"
  shows "64 dvd uint (intel_framebuffer_pitch_for_width h bpp) \<and>
    h * bpp \<le> uint (intel_framebuffer_pitch_for_width h bpp) * 8 \<and> uint (intel_framebuffer_pitch_for_width h bpp) \<le> 32768 \<and>
    4096 dvd uint (intel_framebuffer_size_for_mode h v bpp) \<and>
    uint (intel_framebuffer_pitch_for_width h bpp) * v \<le> uint (intel_framebuffer_size_for_mode h v bpp)"
proof -
  let ?b = "(h * bpp + 7) div 8" and ?p = "intel_framebuffer_pitch_for_width h bpp"
  have hb: "0 \<le> h * bpp" "h * bpp \<le> 262144" using assms by auto
  have "s32 (h * bpp) = h * bpp" using hb by (intro s32_id) auto
  moreover have "(7 + h * bpp) sdiv 8 = ?b" using hb by (subst sdiv_nonneg) (auto simp: add.commute)
  moreover have b: "0 \<le> ?b" "?b \<le> 32768" "h * bpp \<le> ?b * 8" using hb by (simp_all add: pos_imp_zdiv_nonneg_iff)
  ultimately have p: "?p = ALIGN (word_of_int ?b) (2 ^ 6)" "uint (word_of_int ?b :: u32w) = ?b"
    by (simp_all add: intel_framebuffer_pitch_for_width_def uint_of_int_u32w)
  then have q: "64 dvd uint ?p" "?b \<le> uint ?p" "uint ?p < ?b + 64"
    using uint_align [of 6 "word_of_int ?b"] b by simp_all
  then have "uint ?p \<le> 32768" using b by (auto elim!: dvdE)
  moreover have v: "uint (?p * word_of_int v) = uint ?p * v"
  proof -
    have "uint ?p * v \<le> 32768 * 8192" using assms \<open>uint ?p \<le> 32768\<close> by (intro mult_mono) auto
    then show ?thesis using assms by (subst uint_mult_u32w) (auto simp: uint_of_int_u32w)
  qed
  moreover have "uint ?p * v + 4096 \<le> 4294967296"
    using assms \<open>uint ?p \<le> 32768\<close> mult_mono [of "uint ?p" 32768 v 8192] by simp
  then have "4096 dvd uint (intel_framebuffer_size_for_mode h v bpp)" "uint ?p * v \<le> uint (intel_framebuffer_size_for_mode h v bpp)"
    using uint_align [of 12 "?p * word_of_int v"] v by (simp_all add: intel_framebuffer_size_for_mode_def)
  ultimately show ?thesis using q b by simp
qed

lemma framebuffer_for_mode_fits_witness:
  "1366 * 32 \<le> uint (intel_framebuffer_pitch_for_width 1366 32) * 8 \<and> 64 dvd uint (intel_framebuffer_pitch_for_width 1366 32)"
  using framebuffer_for_mode_fits [of 1366 768 32] by simp

end
