(* ===== verification/Drm_Framebuffer.thy ===== *)
theory Drm_Framebuffer
  imports Drm_Idr_Inv Drm_Modes Drm_Format
begin

text \<open>
  The life of framebuffers: the identifiers, reference counts and ioctls of \<^verbatim>\<open>uts/common/io/drm/drm_crtc.c\<close> that create
  framebuffers, show them on display controllers and planes and remove them, with the driver's side of creation and destruction
  from \<^verbatim>\<open>intel_display.c\<close>.

  A framebuffer is named by its address, a controller and a plane by the position in the device's list. An operation on a
  freed framebuffer and a failed \<^verbatim>\<open>BUG\<close> give \<open>None\<close>. The hooks of the display driver are parameters; what they do to the
  controllers is their result. The mutexes make each ioctl one step.
\<close>

unbundle bit_operations_syntax

section \<open>Data\<close>

datatype mode_object = FbObj nat | CrtcObj nat | PlaneObj nat | ConnectorObj nat | ModeObj | OtherObj nat

datatype object_type = OBJECT_FB | OBJECT_CRTC | OBJECT_PLANE | OBJECT_CONNECTOR | OBJECT_MODE | OBJECT_OTHER

fun type_of :: "mode_object \<Rightarrow> object_type" where
  "type_of (FbObj _) = OBJECT_FB"
| "type_of (CrtcObj _) = OBJECT_CRTC"
| "type_of (PlaneObj _) = OBJECT_PLANE"
| "type_of (ConnectorObj _) = OBJECT_CONNECTOR"
| "type_of ModeObj = OBJECT_MODE"
| "type_of (OtherObj _) = OBJECT_OTHER"

record drm_framebuffer =
  refcount :: int
  fb_id :: int
  layout :: drm_fb
  freed :: bool

record drm_crtc =
  crtc_fb :: "nat option"
  crtc_x :: int
  crtc_y :: int
  crtc_mode :: drm_display_mode
  invert_dimensions :: bool

record drm_plane =
  plane_fb :: "nat option"
  plane_crtc :: "nat option"
  format_types :: "u32w list"

text \<open>The fields of the open files that are used here are kept by file.\<close>

record mode_config =
  modeset :: bool
  min_width :: int
  max_width :: int
  min_height :: int
  max_height :: int
  num_connector :: int
  fb_objs :: "nat \<Rightarrow> drm_framebuffer"
  crtc_idr :: "mode_object idr"
  fb_list :: "nat list"
  num_fb :: int
  crtc_list :: "drm_crtc list"
  plane_list :: "drm_plane list"
  file_fbs :: "nat \<Rightarrow> nat list"
  file_event_space :: "nat \<Rightarrow> int"

text \<open>Which allocations of an operation succeed: a node of the identifier tree, the node that \<^verbatim>\<open>idr_remove\<close> needs, a mode,
  the array of connectors or of clips, an event.\<close>

record allocs =
  al_node :: bool
  al_free :: bool
  al_mode :: bool
  al_array :: bool
  al_event :: bool

record drm_mode_set =
  set_fb :: "nat option"
  set_crtc :: nat
  set_mode :: "drm_display_mode option"
  set_x :: u32w
  set_y :: u32w
  set_connectors :: "nat list"

record drm_mode_set_plane =
  sp_plane_id :: u32w
  sp_crtc_id :: u32w
  sp_fb_id :: u32w
  sp_crtc_x :: int
  sp_crtc_y :: int
  sp_crtc_w :: u32w
  sp_crtc_h :: u32w
  sp_src_x :: u32w
  sp_src_y :: u32w
  sp_src_h :: u32w
  sp_src_w :: u32w

text \<open>
  \<open>fb_create\<close> gives the layout of the new framebuffer, absent when the driver refuses. \<open>set_config\<close> and \<open>page_flip\<close> may change
  all controllers.
\<close>

record kms_driver =
  fb_create :: "drm_mode_fb_cmd2 \<Rightarrow> drm_fb option"
  create_handle :: "(nat \<Rightarrow> int) option"
  dirty :: "(nat \<Rightarrow> int) option"
  set_config :: "drm_mode_set \<Rightarrow> drm_crtc list \<Rightarrow> int \<times> drm_crtc list"
  update_plane :: "nat \<Rightarrow> nat \<Rightarrow> nat \<Rightarrow> drm_mode_set_plane \<Rightarrow> int"
  disable_plane :: "nat \<Rightarrow> int"
  page_flip :: "(nat \<Rightarrow> nat \<Rightarrow> drm_crtc list \<Rightarrow> int \<times> drm_crtc list) option"

definition upd_fb :: "nat \<Rightarrow> (drm_framebuffer \<Rightarrow> drm_framebuffer) \<Rightarrow> mode_config \<Rightarrow> mode_config" where
  "upd_fb a f S = S\<lparr>fb_objs := (fb_objs S)(a := f (fb_objs S a))\<rparr>"

definition use_fb :: "mode_config \<Rightarrow> nat \<Rightarrow> drm_framebuffer option" where
  "use_fb S a = (if freed (fb_objs S a) then None else Some (fb_objs S a))"

section \<open>Identifiers\<close>

text \<open>\<^verbatim>\<open>idr_pre_get\<close> never returns 0 and \<^verbatim>\<open>idr_get_new_above\<close> never \<^verbatim>\<open>-EAGAIN\<close>, so the loop is left after one round.\<close>

definition drm_mode_object_get :: "allocs \<Rightarrow> mode_object \<Rightarrow> mode_config \<Rightarrow> int \<times> int option \<times> mode_config" where
  "drm_mode_object_get mem obj S =
     (case idr_get_new_above (al_node mem) (crtc_idr S) obj 1 of (ret, new_id, I) \<Rightarrow> (ret, new_id, S\<lparr>crtc_idr := I\<rparr>))"

definition drm_mode_object_put :: "allocs \<Rightarrow> int \<Rightarrow> mode_config \<Rightarrow> mode_config option" where
  "drm_mode_object_put mem ident S = do {
     (ret, I) \<leftarrow> idr_remove (al_free mem) (crtc_idr S) ident;
     Some (S\<lparr>crtc_idr := I\<rparr>) }"

text \<open>The type of a found object is read, so a freed framebuffer in the table is touched.\<close>

definition drm_mode_object_find :: "mode_config \<Rightarrow> u32w \<Rightarrow> object_type \<Rightarrow> mode_object option option" where
  "drm_mode_object_find S ident ty =
     (case idr_find (crtc_idr S) (sint ident) of
        None \<Rightarrow> Some None
      | Some (FbObj a) \<Rightarrow> do { ob \<leftarrow> use_fb S a; Some (if ty = OBJECT_FB \<and> fb_id ob = uint ident then Some (FbObj a) else None) }
      | Some obj \<Rightarrow> Some (if type_of obj = ty then Some obj else None))"

text \<open>The position that a found object stands for.\<close>

fun object_index :: "mode_object \<Rightarrow> nat" where
  "object_index (FbObj a) = a"
| "object_index (CrtcObj c) = c"
| "object_index (PlaneObj p) = p"
| "object_index (ConnectorObj n) = n"
| "object_index ModeObj = 0"
| "object_index (OtherObj n) = n"

section \<open>Reference counts\<close>

definition drm_framebuffer_reference :: "nat \<Rightarrow> mode_config \<Rightarrow> mode_config option" where
  "drm_framebuffer_reference a S = do {
     ob \<leftarrow> use_fb S a;
     Some (upd_fb a (\<lambda>ob. ob\<lparr>refcount := u32 (refcount ob + 1)\<rparr>) S) }"

text \<open>Deleting an entry that is not on a list follows null pointers.\<close>

definition drm_framebuffer_cleanup :: "nat \<Rightarrow> mode_config \<Rightarrow> mode_config option" where
  "drm_framebuffer_cleanup a S = do {
     bug_on (a \<notin> set (fb_list S));
     Some (S\<lparr>fb_list := remove1 a (fb_list S), num_fb := num_fb S - 1\<rparr>) }"

definition intel_user_framebuffer_destroy :: "nat \<Rightarrow> mode_config \<Rightarrow> mode_config option" where
  "intel_user_framebuffer_destroy a S = do {
     S \<leftarrow> drm_framebuffer_cleanup a S;
     Some (upd_fb a (\<lambda>ob. ob\<lparr>freed := True\<rparr>) S) }"

definition drm_framebuffer_unreference :: "nat \<Rightarrow> mode_config \<Rightarrow> mode_config option" where
  "drm_framebuffer_unreference a S = do {
     ob \<leftarrow> use_fb S a;
     let S = upd_fb a (\<lambda>ob. ob\<lparr>refcount := u32 (refcount ob - 1)\<rparr>) S;
     if refcount (fb_objs S a) = 0 then intel_user_framebuffer_destroy a S else Some S }"

text \<open>The same with \<^verbatim>\<open>BUG()\<close> for the last reference.\<close>

definition framebuffer_unreference_bug :: "nat \<Rightarrow> mode_config \<Rightarrow> mode_config option" where
  "framebuffer_unreference_bug a S = do {
     ob \<leftarrow> use_fb S a;
     let S = upd_fb a (\<lambda>ob. ob\<lparr>refcount := u32 (refcount ob - 1)\<rparr>) S;
     bug_on (refcount (fb_objs S a) = 0);
     Some S }"

text \<open>The memory of the framebuffer is new and zero. A failure to get an identifier is not reported.\<close>

definition drm_framebuffer_init :: "allocs \<Rightarrow> nat \<Rightarrow> drm_fb \<Rightarrow> mode_config \<Rightarrow> (int \<times> mode_config) option" where
  "drm_framebuffer_init mem a lay S =
     (let S = upd_fb a (\<lambda>_. \<lparr>refcount = 1, fb_id = 0, layout = lay, freed = False\<rparr>) S
      in case drm_mode_object_get mem (FbObj a) S of (ret, new_id, S) \<Rightarrow>
           if ret \<noteq> 0 then Some (0, S)
           else do {
             let S = upd_fb a (\<lambda>ob. ob\<lparr>fb_id := the new_id\<rparr>) S;
             S \<leftarrow> drm_framebuffer_reference a S;
             Some (0, S\<lparr>num_fb := num_fb S + 1, fb_list := a # fb_list S\<rparr>) })"

definition framebuffer_lookup_raw :: "mode_config \<Rightarrow> u32w \<Rightarrow> nat option option" where
  "framebuffer_lookup_raw S ident = do {
     obj \<leftarrow> drm_mode_object_find S ident OBJECT_FB;
     Some (map_option object_index obj) }"

definition drm_framebuffer_lookup :: "mode_config \<Rightarrow> u32w \<Rightarrow> (nat option \<times> mode_config) option" where
  "drm_framebuffer_lookup S ident = do {
     fb \<leftarrow> framebuffer_lookup_raw S ident;
     (case fb of
        None \<Rightarrow> Some (None, S)
      | Some a \<Rightarrow> do { S \<leftarrow> drm_framebuffer_reference a S; Some (Some a, S) }) }"

definition framebuffer_unregister :: "allocs \<Rightarrow> nat \<Rightarrow> mode_config \<Rightarrow> mode_config option" where
  "framebuffer_unregister mem a S = do {
     ob \<leftarrow> use_fb S a;
     S \<leftarrow> drm_mode_object_put mem (fb_id ob) S;
     let S = upd_fb a (\<lambda>ob. ob\<lparr>fb_id := 0\<rparr>) S;
     framebuffer_unreference_bug a S }"

definition unreference_opt :: "nat option \<Rightarrow> mode_config \<Rightarrow> mode_config option" where
  "unreference_opt fb S = (case fb of None \<Rightarrow> Some S | Some a \<Rightarrow> drm_framebuffer_unreference a S)"

definition reference_opt :: "nat option \<Rightarrow> mode_config \<Rightarrow> mode_config option" where
  "reference_opt fb S = (case fb of None \<Rightarrow> Some S | Some a \<Rightarrow> drm_framebuffer_reference a S)"

section \<open>Controllers and planes\<close>

text \<open>The last loop of \<^verbatim>\<open>drm_mode_set_config_internal\<close>: the new and the old framebuffer of each controller.\<close>

fun swap_refs :: "(nat option \<times> nat option) list \<Rightarrow> mode_config \<Rightarrow> mode_config option" where
  "swap_refs [] S = Some S"
| "swap_refs ((fb, old_fb) # rest) S = do {
     S \<leftarrow> reference_opt fb S;
     S \<leftarrow> unreference_opt old_fb S;
     swap_refs rest S }"

definition drm_mode_set_config_internal :: "kms_driver \<Rightarrow> drm_mode_set \<Rightarrow> mode_config \<Rightarrow> (int \<times> mode_config) option" where
  "drm_mode_set_config_internal drv st S =
     (let old = map crtc_fb (crtc_list S)
      in case set_config drv st (crtc_list S) of (ret, cs) \<Rightarrow> do {
           S \<leftarrow> swap_refs (zip (map crtc_fb cs) old) (S\<lparr>crtc_list := cs\<rparr>);
           Some (ret, S) })"

definition upd_plane :: "nat \<Rightarrow> (drm_plane \<Rightarrow> drm_plane) \<Rightarrow> mode_config \<Rightarrow> mode_config" where
  "upd_plane p f S = S\<lparr>plane_list := (plane_list S)[p := f (plane_list S ! p)]\<rparr>"

definition drm_plane_force_disable :: "kms_driver \<Rightarrow> nat \<Rightarrow> mode_config \<Rightarrow> mode_config option" where
  "drm_plane_force_disable drv p S =
     (case plane_fb (plane_list S ! p) of
        None \<Rightarrow> Some S
      | Some a \<Rightarrow> do {
          S \<leftarrow> framebuffer_unreference_bug a S;
          Some (upd_plane p (\<lambda>pl. pl\<lparr>plane_fb := None, plane_crtc := None\<rparr>) S) })"

definition off_set :: "nat \<Rightarrow> drm_mode_set" where
  "off_set c = \<lparr>set_fb = None, set_crtc = c, set_mode = None, set_x = 0, set_y = 0, set_connectors = []\<rparr>"

fun remove_from_crtcs :: "kms_driver \<Rightarrow> nat \<Rightarrow> nat list \<Rightarrow> mode_config \<Rightarrow> mode_config option" where
  "remove_from_crtcs drv a [] S = Some S"
| "remove_from_crtcs drv a (c # cs) S =
     (if crtc_fb (crtc_list S ! c) = Some a
      then do {
        (ret, S) \<leftarrow> drm_mode_set_config_internal drv (off_set c) S;
        remove_from_crtcs drv a cs S }
      else remove_from_crtcs drv a cs S)"

fun remove_from_planes :: "kms_driver \<Rightarrow> nat \<Rightarrow> nat list \<Rightarrow> mode_config \<Rightarrow> mode_config option" where
  "remove_from_planes drv a [] S = Some S"
| "remove_from_planes drv a (p # ps) S =
     (if plane_fb (plane_list S ! p) = Some a
      then do { S \<leftarrow> drm_plane_force_disable drv p S; remove_from_planes drv a ps S }
      else remove_from_planes drv a ps S)"

definition drm_framebuffer_remove :: "kms_driver \<Rightarrow> nat \<Rightarrow> mode_config \<Rightarrow> mode_config option" where
  "drm_framebuffer_remove drv a S = do {
     ob \<leftarrow> use_fb S a;
     S \<leftarrow> (if refcount ob > 1
          then do {
            S \<leftarrow> remove_from_crtcs drv a [0..<length (crtc_list S)] S;
            remove_from_planes drv a [0..<length (plane_list S)] S }
          else Some S);
     drm_framebuffer_unreference a S }"

section \<open>The ioctls\<close>

subsection \<open>Creation and removal\<close>

text \<open>\<open>a\<close> is the address of the memory that the driver allocates.\<close>

definition intel_framebuffer_create :: "kms_driver \<Rightarrow> allocs \<Rightarrow> nat \<Rightarrow> drm_mode_fb_cmd2 \<Rightarrow> mode_config \<Rightarrow> (nat option \<times> mode_config) option" where
  "intel_framebuffer_create drv mem a r S =
     (case fb_create drv r of
        None \<Rightarrow> Some (None, S)
      | Some lay \<Rightarrow> do {
          (ret, S) \<leftarrow> drm_framebuffer_init mem a lay S;
          if ret \<noteq> 0 then Some (None, upd_fb a (\<lambda>ob. ob\<lparr>freed := True\<rparr>) S) else Some (Some a, S) })"

definition outside :: "int \<Rightarrow> int \<Rightarrow> int \<Rightarrow> bool" where
  "outside lo x hi \<longleftrightarrow> u32 lo > x \<or> x > u32 hi"

definition publish_fb :: "nat \<Rightarrow> nat option \<Rightarrow> mode_config \<Rightarrow> int \<times> int option \<times> mode_config" where
  "publish_fb file fb S =
     (case fb of
        None \<Rightarrow> (- ENOMEM, None, S)
      | Some a \<Rightarrow> (0, Some (fb_id (fb_objs S a)), S\<lparr>file_fbs := (file_fbs S)(file := a # file_fbs S file)\<rparr>))"

text \<open>The result: the status, the identifier that is written back, and the state.\<close>

definition drm_mode_addfb2 ::
    "kms_driver \<Rightarrow> allocs \<Rightarrow> nat \<Rightarrow> nat \<Rightarrow> drm_mode_fb_cmd2 \<Rightarrow> mode_config \<Rightarrow> (int \<times> int option \<times> mode_config) option" where
  "drm_mode_addfb2 drv mem file a r S =
     (if \<not> modeset S then Some (- EINVAL, None, S)
      else if c_flags r AND NOT 1 \<noteq> 0 then Some (- EINVAL, None, S)
      else if outside (min_width S) (uint (c_width r)) (max_width S) then Some (- EINVAL, None, S)
      else if outside (min_height S) (uint (c_height r)) (max_height S) then Some (- EINVAL, None, S)
      else if framebuffer_check r \<noteq> 0 then Some (framebuffer_check r, None, S)
      else do { (fb, S) \<leftarrow> intel_framebuffer_create drv mem a r S; Some (publish_fb file fb S) })"

record drm_mode_fb_cmd =
  o_fb_id :: u32w
  o_width :: u32w
  o_height :: u32w
  o_pitch :: u32w
  o_bpp :: u32w
  o_depth :: u32w
  o_handle :: u32w

definition drm_mode_addfb ::
    "kms_driver \<Rightarrow> allocs \<Rightarrow> nat \<Rightarrow> nat \<Rightarrow> drm_mode_fb_cmd \<Rightarrow> mode_config \<Rightarrow> (int \<times> int option \<times> mode_config) option" where
  "drm_mode_addfb drv mem file a req S =
     (let r = \<lparr>c_fb_id = o_fb_id req, c_width = o_width req, c_height = o_height req,
               c_pixel_format = drm_mode_legacy_fb_format (o_bpp req) (o_depth req), c_flags = 0,
               c_handles = [o_handle req, 0, 0, 0], c_pitches = [o_pitch req, 0, 0, 0], c_offsets = [0, 0, 0, 0]\<rparr>
      in if \<not> modeset S then Some (- EINVAL, None, S)
         else if outside (min_width S) (uint (c_width r)) (max_width S) then Some (- EINVAL, None, S)
         else if outside (min_height S) (uint (c_height r)) (max_height S) then Some (- EINVAL, None, S)
         else do { (fb, S) \<leftarrow> intel_framebuffer_create drv mem a r S; Some (publish_fb file fb S) })"

definition drm_mode_rmfb :: "kms_driver \<Rightarrow> allocs \<Rightarrow> nat \<Rightarrow> u32w \<Rightarrow> mode_config \<Rightarrow> (int \<times> mode_config) option" where
  "drm_mode_rmfb drv mem file ident S =
     (if \<not> modeset S then Some (- EINVAL, S)
      else do {
        fb \<leftarrow> framebuffer_lookup_raw S ident;
        (case fb of
           None \<Rightarrow> Some (- EINVAL, S)
         | Some a \<Rightarrow>
             if a \<notin> set (file_fbs S file) then Some (- EINVAL, S)
             else do {
               S \<leftarrow> framebuffer_unregister mem a S;
               let S = S\<lparr>file_fbs := (file_fbs S)(file := remove1 a (file_fbs S file))\<rparr>;
               S \<leftarrow> drm_framebuffer_remove drv a S;
               Some (0, S) }) })"

text \<open>The result of the query is the layout and the handle's status.\<close>

definition drm_mode_getfb :: "kms_driver \<Rightarrow> u32w \<Rightarrow> mode_config \<Rightarrow> (int \<times> drm_fb option \<times> mode_config) option" where
  "drm_mode_getfb drv ident S =
     (if \<not> modeset S then Some (- EINVAL, None, S)
      else do {
        (fb, S) \<leftarrow> drm_framebuffer_lookup S ident;
        (case fb of
           None \<Rightarrow> Some (- EINVAL, None, S)
         | Some a \<Rightarrow> do {
             ob \<leftarrow> use_fb S a;
             let ret = (case create_handle drv of None \<Rightarrow> - ENODEV | Some f \<Rightarrow> f a);
             S \<leftarrow> drm_framebuffer_unreference a S;
             Some (ret, Some (layout ob), S) }) })"

definition ENOSYS :: int where "ENOSYS = 89"

text \<open>\<open>clips\<close> tells whether the pointer is not null and whether the copy succeeds.\<close>

definition drm_mode_dirtyfb_ioctl ::
    "kms_driver \<Rightarrow> allocs \<Rightarrow> u32w \<Rightarrow> u32w \<Rightarrow> u32w \<Rightarrow> bool \<times> bool \<Rightarrow> mode_config \<Rightarrow> (int \<times> mode_config) option" where
  "drm_mode_dirtyfb_ioctl drv mem ident flags clips_n clips S =
     (if \<not> modeset S then Some (- EINVAL, S)
      else do {
        (fb, S) \<leftarrow> drm_framebuffer_lookup S ident;
        (case fb of
           None \<Rightarrow> Some (- EINVAL, S)
         | Some a \<Rightarrow> do {
             let num_clips = sint clips_n;
             let ret = (if (num_clips \<noteq> 0) \<noteq> fst clips then - EINVAL
               else if flags AND 3 AND 1 \<noteq> 0 \<and> num_clips smod 2 \<noteq> 0 then - EINVAL
               else if num_clips \<noteq> 0 \<and> (num_clips < 0 \<or> num_clips > 256) then - EINVAL
               else if num_clips \<noteq> 0 \<and> \<not> al_array mem then - ENOMEM
               else if num_clips \<noteq> 0 \<and> \<not> snd clips then - EFAULT
               else (case dirty drv of None \<Rightarrow> - ENOSYS | Some f \<Rightarrow> f a));
             S \<leftarrow> drm_framebuffer_unreference a S;
             Some (ret, S) }) })"

fun release_fbs :: "kms_driver \<Rightarrow> allocs \<Rightarrow> nat \<Rightarrow> nat list \<Rightarrow> mode_config \<Rightarrow> mode_config option" where
  "release_fbs drv mem file [] S = Some S"
| "release_fbs drv mem file (a # as) S = do {
     S \<leftarrow> framebuffer_unregister mem a S;
     let S = S\<lparr>file_fbs := (file_fbs S)(file := remove1 a (file_fbs S file))\<rparr>;
     S \<leftarrow> drm_framebuffer_remove drv a S;
     release_fbs drv mem file as S }"

definition drm_fb_release :: "kms_driver \<Rightarrow> allocs \<Rightarrow> nat \<Rightarrow> mode_config \<Rightarrow> mode_config option" where
  "drm_fb_release drv mem file S = release_fbs drv mem file (file_fbs S file) S"

subsection \<open>Planes\<close>

definition plane_checks :: "drm_fb \<Rightarrow> drm_plane \<Rightarrow> drm_mode_set_plane \<Rightarrow> int" where
  "plane_checks lay plane r =
     (let w = push_bit 16 (fb_width lay); h = push_bit 16 (fb_height lay)
      in if fb_pixel_format lay \<notin> set (format_types plane) then - EINVAL
         else if sp_src_w r > w \<or> sp_src_x r > w - sp_src_w r \<or> sp_src_h r > h \<or> sp_src_y r > h - sp_src_h r then - ENOSPC
         else if uint (sp_crtc_w r) > INT_MAX \<or> sp_crtc_x r > INT_MAX - sint (sp_crtc_w r) \<or>
                 uint (sp_crtc_h r) > INT_MAX \<or> sp_crtc_y r > INT_MAX - sint (sp_crtc_h r) then - ERANGE
         else 0)"

definition drm_mode_setplane :: "kms_driver \<Rightarrow> drm_mode_set_plane \<Rightarrow> mode_config \<Rightarrow> (int \<times> mode_config) option" where
  "drm_mode_setplane drv r S =
     (if \<not> modeset S then Some (- EINVAL, S)
      else do {
        obj \<leftarrow> drm_mode_object_find S (sp_plane_id r) OBJECT_PLANE;
        (case obj of
           None \<Rightarrow> Some (- ENOENT, S)
         | Some pobj \<Rightarrow> (let p = object_index pobj in
             if sp_fb_id r = 0
             then do {
               let old_fb = plane_fb (plane_list S ! p);
               let S = upd_plane p (\<lambda>pl. pl\<lparr>plane_crtc := None, plane_fb := None\<rparr>) S;
               S \<leftarrow> unreference_opt old_fb S;
               Some (0, S) }
             else do {
               obj \<leftarrow> drm_mode_object_find S (sp_crtc_id r) OBJECT_CRTC;
               (case obj of
                  None \<Rightarrow> Some (- ENOENT, S)
                | Some cobj \<Rightarrow> do {
                    let c = object_index cobj;
                    (fb, S) \<leftarrow> drm_framebuffer_lookup S (sp_fb_id r);
                    (case fb of
                       None \<Rightarrow> Some (- ENOENT, S)
                     | Some a \<Rightarrow> do {
                         ob \<leftarrow> use_fb S a;
                         let chk = plane_checks (layout ob) (plane_list S ! p) r;
                         if chk \<noteq> 0 then do { S \<leftarrow> drm_framebuffer_unreference a S; Some (chk, S) }
                         else do {
                           let ret = update_plane drv p c a r;
                           if ret \<noteq> 0 then do { S \<leftarrow> drm_framebuffer_unreference a S; Some (ret, S) }
                           else do {
                             let old_fb = plane_fb (plane_list S ! p);
                             let S = upd_plane p (\<lambda>pl. pl\<lparr>plane_crtc := Some c, plane_fb := Some a\<rparr>) S;
                             S \<leftarrow> unreference_opt old_fb S;
                             Some (0, S) } } }) }) })) })"

subsection \<open>Controllers\<close>

text \<open>\<open>cr_connectors\<close> is what reading the user's array at an index gives, absent for a fault.\<close>

record drm_mode_crtc =
  cr_connectors :: "nat \<Rightarrow> u32w option"
  cr_count :: u32w
  cr_crtc_id :: u32w
  cr_fb_id :: u32w
  cr_x :: u32w
  cr_y :: u32w
  cr_mode_valid :: bool
  cr_mode :: drm_mode_modeinfo

fun find_connectors :: "mode_config \<Rightarrow> (nat \<Rightarrow> u32w option) \<Rightarrow> nat list \<Rightarrow> (int + nat list) option" where
  "find_connectors S user [] = Some (Inr [])"
| "find_connectors S user (i # is) =
     (case user i of
        None \<Rightarrow> Some (Inl (- EFAULT))
      | Some out_id \<Rightarrow> do {
          obj \<leftarrow> drm_mode_object_find S out_id OBJECT_CONNECTOR;
          (case obj of
             None \<Rightarrow> Some (Inl (- EINVAL))
           | Some cobj \<Rightarrow> do {
               rest \<leftarrow> find_connectors S user is;
               Some (case rest of Inl e \<Rightarrow> Inl e | Inr ns \<Rightarrow> Inr (object_index cobj # ns)) }) })"

text \<open>The comparison of a size and a position with a framebuffer. \<open>fb->width - hdisplay\<close> is an unsigned difference.\<close>

definition viewport_fits :: "drm_fb \<Rightarrow> bool \<Rightarrow> drm_display_mode \<Rightarrow> int \<Rightarrow> int \<Rightarrow> bool" where
  "viewport_fits lay invert m x y \<longleftrightarrow>
     (let (w, h) = (if invert then (vdisplay m, hdisplay m) else (hdisplay m, vdisplay m))
      in \<not> (u32 w > uint (fb_width lay) \<or> u32 h > uint (fb_height lay) \<or>
            u32 x > u32 (uint (fb_width lay) - w) \<or> u32 y > u32 (uint (fb_height lay) - h)))"

text \<open>The framebuffer of a mode set, with a reference: the current one for the number -1.\<close>

definition setcrtc_fb :: "nat \<Rightarrow> u32w \<Rightarrow> mode_config \<Rightarrow> (nat option \<times> mode_config) option" where
  "setcrtc_fb c ident S =
     (if ident = - 1
      then (case crtc_fb (crtc_list S ! c) of
              None \<Rightarrow> Some (None, S)
            | Some a \<Rightarrow> do { S \<leftarrow> drm_framebuffer_reference a S; Some (Some a, S) })
      else drm_framebuffer_lookup S ident)"

text \<open>The mode of the request. \<open>Inl\<close> is an error; in both cases the mode that was made, if any, is destroyed at the end.\<close>

definition setcrtc_mode ::
    "allocs \<Rightarrow> nat \<Rightarrow> drm_fb \<Rightarrow> drm_mode_crtc \<Rightarrow> mode_config \<Rightarrow> (int + drm_display_mode) \<times> int option \<times> mode_config" where
  "setcrtc_mode mem c lay r S =
     (case (if al_mode mem then drm_mode_object_get mem ModeObj S else (- ENOMEM, None, S)) of (e, i, S) \<Rightarrow>
        (case drm_mode_create (map_option nat i) of
           None \<Rightarrow> (Inl (- ENOMEM), None, S)
         | Some mode \<Rightarrow>
             (case drm_crtc_convert_umode mode (cr_mode r) of (ret, mode) \<Rightarrow>
                if ret \<noteq> 0 then (Inl ret, i, S)
                else (let mode = drm_mode_set_crtcinfo mode True
                      in if viewport_fits lay (invert_dimensions (crtc_list S ! c)) mode (uint (cr_x r)) (uint (cr_y r))
                         then (Inr mode, i, S) else (Inl (- ENOSPC), i, S)))))"

text \<open>The connectors of the request, once mode and framebuffer are known.\<close>

definition setcrtc_connectors :: "allocs \<Rightarrow> drm_mode_crtc \<Rightarrow> bool \<Rightarrow> mode_config \<Rightarrow> (int + nat list) option" where
  "setcrtc_connectors mem r mode_set S =
     (if cr_count r = 0 \<and> mode_set then Some (Inl (- EINVAL))
      else if cr_count r > 0 \<and> \<not> mode_set then Some (Inl (- EINVAL))
      else if cr_count r > 0
      then (if uint (cr_count r) > u32 (num_connector S) then Some (Inl (- EINVAL))
            else if \<not> al_array mem then Some (Inl (- ENOMEM))
            else find_connectors S (cr_connectors r) [0..<unat (cr_count r)])
      else Some (Inr []))"

definition drm_mode_destroy :: "allocs \<Rightarrow> int option \<Rightarrow> mode_config \<Rightarrow> mode_config option" where
  "drm_mode_destroy mem i S = (case i of None \<Rightarrow> Some S | Some ident \<Rightarrow> drm_mode_object_put mem ident S)"

text \<open>The part after the framebuffer: its exit path drops the reference and destroys the mode.\<close>

definition setcrtc_rest ::
    "kms_driver \<Rightarrow> allocs \<Rightarrow> drm_mode_crtc \<Rightarrow> nat \<Rightarrow> nat option \<Rightarrow> (int + drm_display_mode option) \<Rightarrow> int option \<Rightarrow> mode_config \<Rightarrow>
     (int \<times> mode_config) option" where
  "setcrtc_rest drv mem r c fb mode i S = do {
     (ret, S) \<leftarrow> (case mode of
        Inl e \<Rightarrow> Some (e, S)
      | Inr m \<Rightarrow> do {
          conns \<leftarrow> setcrtc_connectors mem r (m \<noteq> None) S;
          (case conns of
             Inl e \<Rightarrow> Some (e, S)
           | Inr ns \<Rightarrow> drm_mode_set_config_internal drv
               \<lparr>set_fb = fb, set_crtc = c, set_mode = m, set_x = cr_x r, set_y = cr_y r, set_connectors = ns\<rparr> S) });
     S \<leftarrow> unreference_opt fb S;
     S \<leftarrow> drm_mode_destroy mem i S;
     Some (ret, S) }"

definition drm_mode_setcrtc :: "kms_driver \<Rightarrow> allocs \<Rightarrow> drm_mode_crtc \<Rightarrow> mode_config \<Rightarrow> (int \<times> mode_config) option" where
  "drm_mode_setcrtc drv mem r S =
     (if \<not> modeset S then Some (- EINVAL, S)
      else if uint (cr_x r) > INT_MAX \<or> uint (cr_y r) > INT_MAX then Some (- ERANGE, S)
      else do {
        obj \<leftarrow> drm_mode_object_find S (cr_crtc_id r) OBJECT_CRTC;
        (case obj of
           None \<Rightarrow> Some (- EINVAL, S)
         | Some cobj \<Rightarrow> (let c = object_index cobj in
             if \<not> cr_mode_valid r then setcrtc_rest drv mem r c None (Inr None) None S
             else do {
               (fb, S) \<leftarrow> setcrtc_fb c (cr_fb_id r) S;
               (case fb of
                  None \<Rightarrow> Some (- EINVAL, S)
                | Some a \<Rightarrow> do {
                    ob \<leftarrow> use_fb S a;
                    (case setcrtc_mode mem c (layout ob) r S of (mode, i, S) \<Rightarrow>
                       setcrtc_rest drv mem r c fb (map_sum id Some mode) i S) }) })) })"

subsection \<open>Page flips\<close>

record drm_mode_crtc_page_flip =
  pf_crtc_id :: u32w
  pf_fb_id :: u32w
  pf_flags :: u32w
  pf_reserved :: u32w

definition PAGE_FLIP_EVENT :: u32w where "PAGE_FLIP_EVENT = 1"
definition PAGE_FLIP_FLAGS :: u32w where "PAGE_FLIP_FLAGS = 0xF"
definition FLIP_EVENT_SIZE :: int where "FLIP_EVENT_SIZE = 32"

definition use_event_space :: "nat \<Rightarrow> int \<Rightarrow> mode_config \<Rightarrow> mode_config" where
  "use_event_space file n S = S\<lparr>file_event_space := (file_event_space S)(file := file_event_space S file - n)\<rparr>"

text \<open>The steps after the checks: the space for the event, the flip, and the reference that is dropped. \<open>e\<close> tells whether an
  event is wanted, \<open>cur\<close> is the framebuffer that was shown.\<close>

definition do_page_flip ::
    "kms_driver \<Rightarrow> allocs \<Rightarrow> nat \<Rightarrow> bool \<Rightarrow> nat \<Rightarrow> nat \<Rightarrow> nat \<Rightarrow> (nat \<Rightarrow> nat \<Rightarrow> drm_crtc list \<Rightarrow> int \<times> drm_crtc list) \<Rightarrow> mode_config \<Rightarrow>
     (int \<times> mode_config) option" where
  "do_page_flip drv mem file e c a cur flip S =
     (if e \<and> (file_event_space S file < FLIP_EVENT_SIZE \<or> \<not> al_event mem)
      then do { S \<leftarrow> drm_framebuffer_unreference a S; Some (- ENOMEM, S) }
      else (let S = (if e then use_event_space file FLIP_EVENT_SIZE S else S)
            in case flip c a (crtc_list S) of (ret, cs) \<Rightarrow>
                 (let S = S\<lparr>crtc_list := cs\<rparr>
                  in if ret \<noteq> 0
                     then do {
                       let S = (if e then use_event_space file (- FLIP_EVENT_SIZE) S else S);
                       S \<leftarrow> drm_framebuffer_unreference a S;
                       Some (ret, S) }
                     else do {
                       S \<leftarrow> drm_framebuffer_unreference cur S;
                       Some (0, S) })))"

definition drm_mode_page_flip_ioctl ::
    "kms_driver \<Rightarrow> allocs \<Rightarrow> nat \<Rightarrow> drm_mode_crtc_page_flip \<Rightarrow> mode_config \<Rightarrow> (int \<times> mode_config) option" where
  "drm_mode_page_flip_ioctl drv mem file r S =
     (if pf_flags r AND NOT PAGE_FLIP_FLAGS \<noteq> 0 \<or> pf_reserved r \<noteq> 0 then Some (- EINVAL, S)
      else do {
        obj \<leftarrow> drm_mode_object_find S (pf_crtc_id r) OBJECT_CRTC;
        (case obj of
           None \<Rightarrow> Some (- EINVAL, S)
         | Some cobj \<Rightarrow> (let c = object_index cobj; crtc = crtc_list S ! c in
             (case (crtc_fb crtc, page_flip drv) of
                (None, _) \<Rightarrow> Some (- EBUSY, S)
              | (Some cur, None) \<Rightarrow> Some (- EINVAL, S)
              | (Some cur, Some flip) \<Rightarrow> do {
                  (fb, S) \<leftarrow> drm_framebuffer_lookup S (pf_fb_id r);
                  (case fb of
                     None \<Rightarrow> Some (- EINVAL, S)
                   | Some a \<Rightarrow> do {
                       ob \<leftarrow> use_fb S a;
                       cur_ob \<leftarrow> use_fb S cur;
                       if \<not> viewport_fits (layout ob) (invert_dimensions crtc) (crtc_mode crtc) (crtc_x crtc) (crtc_y crtc)
                       then do { S \<leftarrow> drm_framebuffer_unreference a S; Some (- ENOSPC, S) }
                       else if fb_pixel_format (layout cur_ob) \<noteq> fb_pixel_format (layout ob)
                       then do { S \<leftarrow> drm_framebuffer_unreference a S; Some (- EINVAL, S) }
                       else do_page_flip drv mem file (pf_flags r AND PAGE_FLIP_EVENT \<noteq> 0) c a cur flip S }) }))) })"

end
