(* ===== verification/Drm_Framebuffer_Inv.thy ===== *)
theory Drm_Framebuffer_Inv
  imports Drm_Framebuffer
begin

text \<open>
  The invariant of the framebuffers: the reference count of each is the number of its references, and a framebuffer is freed
  exactly when there is none. The references are those that a running operation holds (\<open>h\<close>), the identifier, the list of
  the file that created it, the controllers (\<open>cl\<close>, which may lag behind the list of controllers inside
  \<^verbatim>\<open>drm_mode_set_config_internal\<close>) and the planes.
\<close>

section \<open>The invariant\<close>

definition file_ref :: "(nat \<Rightarrow> nat list) \<Rightarrow> nat \<Rightarrow> nat" where
  "file_ref F a = of_bool (\<exists>f. a \<in> set (F f))"

definition refs :: "(nat \<Rightarrow> nat) \<Rightarrow> nat option list \<Rightarrow> mode_config \<Rightarrow> nat \<Rightarrow> nat" where
  "refs h cl S a = h a + of_bool (fb_id (fb_objs S a) \<noteq> 0) + file_ref (file_fbs S) a + count_list cl (Some a) +
     count_list (map plane_fb (plane_list S)) (Some a)"

definition ids_ok :: "mode_config \<Rightarrow> bool" where
  "ids_ok S \<longleftrightarrow> idr_inv (crtc_idr S) \<and>
     (\<forall>i a. idr_find (crtc_idr S) i = Some (FbObj a) \<longleftrightarrow> fb_id (fb_objs S a) = i \<and> i \<noteq> 0) \<and>
     (\<forall>i c. idr_find (crtc_idr S) i = Some (CrtcObj c) \<longrightarrow> c < length (crtc_list S)) \<and>
     (\<forall>i p. idr_find (crtc_idr S) i = Some (PlaneObj p) \<longrightarrow> p < length (plane_list S))"

definition files_ok :: "mode_config \<Rightarrow> bool" where
  "files_ok S \<longleftrightarrow> (\<forall>f. distinct (file_fbs S f)) \<and>
     (\<forall>f g a. a \<in> set (file_fbs S f) \<longrightarrow> a \<in> set (file_fbs S g) \<longrightarrow> f = g) \<and>
     (\<forall>f a. a \<in> set (file_fbs S f) \<longrightarrow> fb_id (fb_objs S a) \<noteq> 0)"

definition list_ok :: "mode_config \<Rightarrow> bool" where
  "list_ok S \<longleftrightarrow> distinct (fb_list S) \<and> (\<forall>a. a \<in> set (fb_list S) \<longleftrightarrow> \<not> freed (fb_objs S a)) \<and>
     num_fb S = int (length (fb_list S))"

definition counts_ok :: "(nat \<Rightarrow> nat) \<Rightarrow> nat option list \<Rightarrow> mode_config \<Rightarrow> bool" where
  "counts_ok h cl S \<longleftrightarrow> (\<forall>a. h a \<le> 100 \<and>
     (if freed (fb_objs S a) then refs h cl S a = 0
      else 0 < refs h cl S a \<and> refcount (fb_objs S a) = int (refs h cl S a))) \<and>
     length cl + length (plane_list S) < 1000000"

definition fb_inv :: "(nat \<Rightarrow> nat) \<Rightarrow> nat option list \<Rightarrow> mode_config \<Rightarrow> bool" where
  "fb_inv h cl S \<longleftrightarrow> ids_ok S \<and> files_ok S \<and> list_ok S \<and> counts_ok h cl S"

lemmas fb_inv_defs = fb_inv_def ids_ok_def files_ok_def list_ok_def counts_ok_def

definition kms_ok :: "(nat \<Rightarrow> nat) \<Rightarrow> mode_config \<Rightarrow> bool" where
  "kms_ok h S \<longleftrightarrow> fb_inv h (map crtc_fb (crtc_list S)) S"

text \<open>States that differ only in reference counts and in what was freed.\<close>

definition same_kms :: "mode_config \<Rightarrow> mode_config \<Rightarrow> bool" where
  "same_kms S S' \<longleftrightarrow> crtc_idr S' = crtc_idr S \<and> crtc_list S' = crtc_list S \<and> plane_list S' = plane_list S \<and>
     file_fbs S' = file_fbs S \<and> file_event_space S' = file_event_space S \<and> modeset S' = modeset S \<and>
     num_connector S' = num_connector S \<and>
     (\<forall>a. fb_id (fb_objs S' a) = fb_id (fb_objs S a) \<and> layout (fb_objs S' a) = layout (fb_objs S a))"

lemma same_kms_refl [simp]: "same_kms S S"
  by (simp add: same_kms_def)

lemma same_kms_trans: "same_kms S T \<Longrightarrow> same_kms T U \<Longrightarrow> same_kms S U"
  by (simp add: same_kms_def)

lemma same_kms_refs: "same_kms S S' \<Longrightarrow> refs h cl S' a = refs h cl S a"
  by (simp add: same_kms_def refs_def)

lemma same_kms_ids: "same_kms S S' \<Longrightarrow> ids_ok S \<Longrightarrow> ids_ok S'"
  by (simp add: same_kms_def ids_ok_def)

lemma same_kms_files: "same_kms S S' \<Longrightarrow> files_ok S \<Longrightarrow> files_ok S'"
  by (simp add: same_kms_def files_ok_def)

lemma upd_fb_sels [simp]:
  "fb_objs (upd_fb a f S) = (fb_objs S)(a := f (fb_objs S a))" "crtc_idr (upd_fb a f S) = crtc_idr S"
  "crtc_list (upd_fb a f S) = crtc_list S" "plane_list (upd_fb a f S) = plane_list S" "file_fbs (upd_fb a f S) = file_fbs S"
  "file_event_space (upd_fb a f S) = file_event_space S" "fb_list (upd_fb a f S) = fb_list S" "num_fb (upd_fb a f S) = num_fb S"
  "modeset (upd_fb a f S) = modeset S" "num_connector (upd_fb a f S) = num_connector S"
  by (simp_all add: upd_fb_def)

lemma live_iff: "fb_inv h cl S \<Longrightarrow> freed (fb_objs S a) \<longleftrightarrow> refs h cl S a = 0"
  by (auto simp: fb_inv_def counts_ok_def split: if_splits)

lemma live_count: "fb_inv h cl S \<Longrightarrow> 0 < refs h cl S a \<Longrightarrow> use_fb S a = Some (fb_objs S a) \<and> refcount (fb_objs S a) = int (refs h cl S a)"
  using live_iff [of h cl S a] by (auto simp: use_fb_def fb_inv_def counts_ok_def split: if_splits)

lemma refs_bound: "fb_inv h cl S \<Longrightarrow> refs h cl S a < 2000000"
proof -
  assume "fb_inv h cl S"
  then have h: "h a \<le> 100" and l: "length cl + length (plane_list S) < 1000000"
    by (simp_all add: fb_inv_def counts_ok_def)
  have "count_list cl (Some a) \<le> length cl" "count_list (map plane_fb (plane_list S)) (Some a) \<le> length (plane_list S)"
    using count_le_length [of cl] count_le_length [of "map plane_fb (plane_list S)"] by simp_all
  moreover have "file_ref (file_fbs S) a \<le> 1" by (simp add: file_ref_def)
  ultimately show ?thesis using h l by (simp add: refs_def)
qed

section \<open>Taking and dropping a reference\<close>

lemma reference_inv:
  assumes i: "fb_inv h cl S" and r: "0 < refs h cl S b" and h: "h b < 100"
  shows "\<exists>S'. drm_framebuffer_reference b S = Some S' \<and> fb_inv (h(b := h b + 1)) cl S' \<and> same_kms S S' \<and>
    (\<forall>a. freed (fb_objs S' a) = freed (fb_objs S a))"
proof -
  let ?S = "upd_fb b (\<lambda>ob. ob\<lparr>refcount := u32 (refcount ob + 1)\<rparr>) S"
  have u: "use_fb S b = Some (fb_objs S b)" "refcount (fb_objs S b) = int (refs h cl S b)" using live_count [OF i r] by auto
  have c: "u32 (refcount (fb_objs S b) + 1) = int (refs h cl S b) + 1"
    using u refs_bound [OF i, of b] by (simp add: u32_id)
  have s: "same_kms S ?S" by (simp add: same_kms_def)
  have "refs (h(b := h b + 1)) cl ?S a = refs h cl S a + of_bool (a = b)" for a
    unfolding same_kms_refs [OF s] by (simp add: refs_def)
  then have "counts_ok (h(b := h b + 1)) cl ?S"
    using i h r c live_iff [OF i] by (auto simp: fb_inv_def counts_ok_def)
  moreover have "list_ok ?S" using i by (simp add: fb_inv_def list_ok_def)
  ultimately have "fb_inv (h(b := h b + 1)) cl ?S"
    using i s same_kms_ids same_kms_files by (auto simp: fb_inv_def)
  then show ?thesis using s u by (auto simp: drm_framebuffer_reference_def)
qed

lemma unreference_inv:
  assumes i: "fb_inv h cl S" and h: "0 < h b"
  shows "\<exists>S'. drm_framebuffer_unreference b S = Some S' \<and> fb_inv (h(b := h b - 1)) cl S' \<and> same_kms S S'"
proof -
  let ?h = "h(b := h b - 1)"
  let ?S = "upd_fb b (\<lambda>ob. ob\<lparr>refcount := u32 (refcount ob - 1)\<rparr>) S"
  have r: "0 < refs h cl S b" using h by (simp add: refs_def)
  have u: "use_fb S b = Some (fb_objs S b)" "refcount (fb_objs S b) = int (refs h cl S b)" "\<not> freed (fb_objs S b)"
    using live_count [OF i r] live_iff [OF i] r by auto
  have rh: "refs ?h cl S a = (if a = b then refs h cl S b - 1 else refs h cl S a)" for a
    using h by (simp add: refs_def)
  have c: "u32 (refcount (fb_objs S b) - 1) = int (refs ?h cl S b)"
    using u refs_bound [OF i, of b] r rh by (simp add: u32_id)
  have s: "same_kms S ?S" by (simp add: same_kms_def)
  have hl: "h b - Suc 0 \<le> 100" using i by (auto simp: fb_inv_def counts_ok_def intro: le_trans [OF diff_le_self])
  have bl: "b \<in> set (fb_list S)" using i u by (auto simp: fb_inv_def list_ok_def)
  show ?thesis
  proof (cases "refs ?h cl S b = 0")
    case False
    have "counts_ok ?h cl ?S"
      using i h hl c False rh live_iff [OF i] u unfolding counts_ok_def same_kms_refs [OF s]
      by (auto simp: fb_inv_def counts_ok_def)
    moreover have "list_ok ?S" using i by (simp add: fb_inv_def list_ok_def)
    ultimately have "fb_inv ?h cl ?S" using i s same_kms_ids same_kms_files by (auto simp: fb_inv_def)
    moreover have "drm_framebuffer_unreference b S = Some ?S"
      using u False c by (simp add: drm_framebuffer_unreference_def Let_def)
    ultimately show ?thesis using s by blast
  next
    case True
    let ?T = "upd_fb b (\<lambda>ob. ob\<lparr>freed := True\<rparr>) (?S\<lparr>fb_list := remove1 b (fb_list S), num_fb := num_fb S - 1\<rparr>)"
    have t: "same_kms S ?T" by (simp add: same_kms_def)
    have "counts_ok ?h cl ?T"
      using i h hl c True rh live_iff [OF i] u unfolding counts_ok_def same_kms_refs [OF t]
      by (auto simp: fb_inv_def counts_ok_def)
    moreover have "int (length (fb_list S) - Suc 0) = int (length (fb_list S)) - 1"
      using length_pos_if_in_set [OF bl] by linarith
    then have "list_ok ?T" using i bl by (auto simp: fb_inv_def list_ok_def length_remove1)
    ultimately have "fb_inv ?h cl ?T" using i t same_kms_ids same_kms_files by (auto simp: fb_inv_def)
    moreover have "drm_framebuffer_unreference b S = Some ?T"
      using u True c bl
      by (simp add: drm_framebuffer_unreference_def intel_user_framebuffer_destroy_def drm_framebuffer_cleanup_def Let_def)
    ultimately show ?thesis using t by blast
  qed
qed

text \<open>The variant that must not drop the last reference.\<close>

lemma unreference_bug_inv:
  assumes i: "fb_inv h cl S" and h: "0 < h b" and r: "1 < refs h cl S b"
  shows "\<exists>S'. framebuffer_unreference_bug b S = Some S' \<and> fb_inv (h(b := h b - 1)) cl S' \<and> same_kms S S' \<and>
    (\<forall>a. freed (fb_objs S' a) = freed (fb_objs S a))"
proof -
  obtain S' where s: "drm_framebuffer_unreference b S = Some S'" "fb_inv (h(b := h b - 1)) cl S'" "same_kms S S'"
    using unreference_inv [OF i h] by blast
  have u: "use_fb S b = Some (fb_objs S b)" "refcount (fb_objs S b) = int (refs h cl S b)"
    using live_count [OF i, of b] r by auto
  have "u32 (refcount (fb_objs S b) - 1) \<noteq> 0" using u r refs_bound [OF i, of b] by (simp add: u32_id)
  then have "framebuffer_unreference_bug b S = Some S'" "\<forall>a. freed (fb_objs S' a) = freed (fb_objs S a)"
    using s(1) u by (auto simp: framebuffer_unreference_bug_def drm_framebuffer_unreference_def Let_def split: if_splits)
  then show ?thesis using s by blast
qed

fun addh :: "nat option \<Rightarrow> (nat \<Rightarrow> nat) \<Rightarrow> nat \<Rightarrow> nat" where
  "addh None h = h"
| "addh (Some b) h = h(b := h b + 1)"

lemma addh_apply: "addh x h a = h a + of_bool (x = Some a)"
  by (cases x) auto

lemma unreference_opt_inv:
  assumes "fb_inv (addh x h) cl S"
  shows "\<exists>S'. unreference_opt x S = Some S' \<and> fb_inv h cl S' \<and> same_kms S S'"
proof (cases x)
  case (Some b)
  then show ?thesis using unreference_inv [OF assms, of b] by (simp add: unreference_opt_def)
qed (use assms in \<open>simp add: unreference_opt_def\<close>)

lemma reference_opt_inv:
  assumes "fb_inv h cl S" "\<And>b. x = Some b \<Longrightarrow> 0 < refs h cl S b \<and> h b < 100"
  shows "\<exists>S'. reference_opt x S = Some S' \<and> fb_inv (addh x h) cl S' \<and> same_kms S S'"
proof (cases x)
  case (Some b)
  then show ?thesis using reference_inv [OF assms(1), of b] assms(2) by (auto simp: reference_opt_def)
qed (use assms in \<open>simp add: reference_opt_def\<close>)

section \<open>Moving references\<close>

text \<open>A reference passes from a running operation to a controller or a plane and back without a change of the counts.\<close>

lemma inv_move:
  assumes i: "fb_inv h cl S"
    and m: "\<And>a. h' a + count_list cl' (Some a) + count_list (map plane_fb pl) (Some a) =
      h a + count_list cl (Some a) + count_list (map plane_fb (plane_list S)) (Some a)"
    and l: "length cl' = length cl" "length cs = length (crtc_list S)" "length pl = length (plane_list S)" "\<And>a. h' a \<le> 100"
  shows "fb_inv h' cl' (S\<lparr>crtc_list := cs, plane_list := pl\<rparr>)"
proof -
  have "refs h' cl' (S\<lparr>crtc_list := cs, plane_list := pl\<rparr>) a = refs h cl S a" for a
    using m [of a] by (simp add: refs_def)
  then show ?thesis using i l by (auto simp: fb_inv_defs)
qed

lemma crtc_move:
  assumes i: "fb_inv (addh new h) (pre @ old # post) S" and h: "\<And>a. h a < 100"
  shows "fb_inv (addh old h) (pre @ new # post) S"
proof -
  have "addh old h a \<le> 100" for a using h [of a] by (simp add: addh_apply)
  then have "fb_inv (addh old h) (pre @ new # post) (S\<lparr>crtc_list := crtc_list S, plane_list := plane_list S\<rparr>)"
    by (intro inv_move [OF i]) (simp_all add: addh_apply)
  then show ?thesis by simp
qed

lemma set_crtcs_inv:
  assumes "fb_inv h cl S" "length cs = length (crtc_list S)"
  shows "fb_inv h cl (S\<lparr>crtc_list := cs\<rparr>)"
proof -
  have "h a \<le> 100" for a using assms(1) by (simp add: fb_inv_def counts_ok_def)
  then have "fb_inv h cl (S\<lparr>crtc_list := cs, plane_list := plane_list S\<rparr>)" by (intro inv_move [OF assms(1)]) (simp_all add: assms(2))
  then show ?thesis by simp
qed

lemma swap_refs_inv:
  assumes "fb_inv h (pre @ map snd ps) S" "\<And>a. h a < 100"
    and "\<And>new old. (new, old) \<in> set ps \<Longrightarrow> new = None \<or> new = old \<or> (\<exists>b. new = Some b \<and> 0 < h b)"
  shows "\<exists>S'. swap_refs ps S = Some S' \<and> fb_inv h (pre @ map fst ps) S' \<and> same_kms S S'"
  using assms
proof (induction ps arbitrary: pre S)
  case (Cons p ps)
  obtain new old where p: "p = (new, old)" by fastforce
  have "0 < refs h (pre @ old # map snd ps) S b \<and> h b < 100" if "new = Some b" for b
    using Cons.prems(3) [of new old] that p Cons.prems(2) by (auto simp: refs_def)
  then obtain S1 where 1: "reference_opt new S = Some S1" "fb_inv (addh new h) (pre @ old # map snd ps) S1" "same_kms S S1"
    using reference_opt_inv [of h "pre @ old # map snd ps" S new] Cons.prems(1) p by auto
  obtain S2 where 2: "unreference_opt old S1 = Some S2" "fb_inv h (pre @ new # map snd ps) S2" "same_kms S1 S2"
    using unreference_opt_inv [OF crtc_move [OF 1(2) Cons.prems(2)]] by blast
  obtain S3 where 3: "swap_refs ps S2 = Some S3" "fb_inv h ((pre @ [new]) @ map fst ps) S3" "same_kms S2 S3"
  proof (rule exE [OF Cons.IH [of "pre @ [new]" S2]])
    show "fb_inv h ((pre @ [new]) @ map snd ps) S2" using 2(2) by simp
  qed (use Cons.prems(2,3) in \<open>auto intro: that\<close>)
  have "same_kms S S3" using 1(3) 2(3) 3(3) by (blast intro: same_kms_trans)
  moreover have "swap_refs (p # ps) S = Some S3" using 1(1) 2(1) 3(1) by (simp add: p)
  ultimately show ?case using 3(2) by (auto simp: p)
qed simp

section \<open>The driver\<close>

text \<open>
  What the code expects of the hooks: \<^verbatim>\<open>set_config\<close> binds the controller to the framebuffer of the request when it succeeds, and
  may only turn other controllers off; \<^verbatim>\<open>page_flip\<close> changes the framebuffer of its controller when it succeeds, and nothing
  else.
\<close>

definition good_set_config :: "kms_driver \<Rightarrow> bool" where
  "good_set_config drv \<longleftrightarrow> (\<forall>st cs. case set_config drv st cs of (ret, cs') \<Rightarrow>
     length cs' = length cs \<and>
     (\<forall>i < length cs. crtc_fb (cs' ! i) = crtc_fb (cs ! i) \<or> crtc_fb (cs' ! i) = None \<or> crtc_fb (cs' ! i) = set_fb st) \<and>
     (ret = 0 \<longrightarrow> set_crtc st < length cs \<longrightarrow> crtc_fb (cs' ! set_crtc st) = set_fb st))"

definition good_page_flip :: "kms_driver \<Rightarrow> bool" where
  "good_page_flip drv \<longleftrightarrow> (\<forall>flip c a cs. page_flip drv = Some flip \<longrightarrow> c < length cs \<longrightarrow> (case flip c a cs of (ret, cs') \<Rightarrow>
     map crtc_fb cs' = (if ret = 0 then (map crtc_fb cs)[c := Some a] else map crtc_fb cs)))"

lemma set_config_internal_inv:
  assumes k: "kms_ok h S" and h: "\<And>a. h a < 100" and d: "good_set_config drv" and f: "\<And>b. set_fb st = Some b \<Longrightarrow> 0 < h b"
  obtains S' where "drm_mode_set_config_internal drv st S = Some (fst (set_config drv st (crtc_list S)), S')" "kms_ok h S'"
    "same_kms (S\<lparr>crtc_list := snd (set_config drv st (crtc_list S))\<rparr>) S'"
proof -
  obtain ret cs where c: "set_config drv st (crtc_list S) = (ret, cs)" by fastforce
  have g: "length cs = length (crtc_list S)"
    "\<And>i. i < length cs \<Longrightarrow> crtc_fb (cs ! i) = crtc_fb (crtc_list S ! i) \<or> crtc_fb (cs ! i) = None \<or> crtc_fb (cs ! i) = set_fb st"
    using d [unfolded good_set_config_def, THEN spec, THEN spec, of "crtc_list S" st] c by auto
  let ?old = "map crtc_fb (crtc_list S)" and ?new = "map crtc_fb cs"
  let ?ps = "zip ?new ?old"
  have i: "fb_inv h ([] @ map snd ?ps) (S\<lparr>crtc_list := cs\<rparr>)"
    using set_crtcs_inv [of h ?old S cs] k g(1) by (simp add: kms_ok_def)
  have "new = None \<or> new = old \<or> (\<exists>b. new = Some b \<and> 0 < h b)" if "(new, old) \<in> set ?ps" for new old
  proof -
    obtain n where "n < length cs" "new = crtc_fb (cs ! n)" "old = crtc_fb (crtc_list S ! n)"
      using \<open>(new, old) \<in> set ?ps\<close> g(1) by (auto simp: set_zip)
    then show ?thesis using g(2) [of n] f by (cases "set_fb st") auto
  qed
  then obtain S' where s: "swap_refs ?ps (S\<lparr>crtc_list := cs\<rparr>) = Some S'" "fb_inv h ?new S'" "same_kms (S\<lparr>crtc_list := cs\<rparr>) S'"
    using swap_refs_inv [OF i h] g(1) by auto
  have "crtc_list S' = cs" using s(3) by (simp add: same_kms_def)
  then show ?thesis using that s c by (simp add: drm_mode_set_config_internal_def kms_ok_def Let_def)
qed

section \<open>Removing a framebuffer\<close>

text \<open>A change that at most turns controllers and planes off, and frees framebuffers.\<close>

definition only_off :: "mode_config \<Rightarrow> mode_config \<Rightarrow> bool" where
  "only_off S S' \<longleftrightarrow> same_kms (S\<lparr>crtc_list := crtc_list S', plane_list := plane_list S'\<rparr>) S' \<and>
     length (crtc_list S') = length (crtc_list S) \<and> length (plane_list S') = length (plane_list S) \<and>
     (\<forall>i < length (crtc_list S). crtc_fb (crtc_list S' ! i) = crtc_fb (crtc_list S ! i) \<or> crtc_fb (crtc_list S' ! i) = None) \<and>
     (\<forall>i < length (plane_list S). plane_fb (plane_list S' ! i) = plane_fb (plane_list S ! i) \<or> plane_fb (plane_list S' ! i) = None)"

lemma only_off_refl [simp]: "only_off S S"
  by (simp add: only_off_def same_kms_def)

lemma only_off_trans: "only_off S T \<Longrightarrow> only_off T U \<Longrightarrow> only_off S U"
  unfolding only_off_def same_kms_def by (clarsimp; metis)

lemma same_only_off: "same_kms S S' \<Longrightarrow> only_off S S'"
  by (simp add: only_off_def same_kms_def)

definition offs :: "kms_driver \<Rightarrow> bool" where
  "offs drv \<longleftrightarrow> (\<forall>c cs. c < length cs \<longrightarrow> fst (set_config drv (off_set c) cs) = 0)"

lemma remove_from_crtcs_inv:
  assumes "kms_ok h S" "\<And>a. h a < 100" "good_set_config drv" "set cs \<subseteq> {..<length (crtc_list S)}"
  shows "\<exists>S'. remove_from_crtcs drv a cs S = Some S' \<and> kms_ok h S' \<and> only_off S S' \<and>
    (offs drv \<longrightarrow> (\<forall>c \<in> set cs. crtc_fb (crtc_list S' ! c) \<noteq> Some a))"
  using assms
proof (induction cs arbitrary: S)
  case (Cons c cs)
  have c: "c < length (crtc_list S)" using Cons.prems(4) by simp
  obtain S1 where 1: "(if crtc_fb (crtc_list S ! c) = Some a
      then (do { (ret, S) \<leftarrow> drm_mode_set_config_internal drv (off_set c) S; Some S }) else Some S) = Some S1"
    "kms_ok h S1" "only_off S S1" "offs drv \<longrightarrow> crtc_fb (crtc_list S1 ! c) \<noteq> Some a"
  proof (cases "crtc_fb (crtc_list S ! c) = Some a")
    case True
    obtain S1 where s: "drm_mode_set_config_internal drv (off_set c) S = Some (fst (set_config drv (off_set c) (crtc_list S)), S1)"
      "kms_ok h S1" "same_kms (S\<lparr>crtc_list := snd (set_config drv (off_set c) (crtc_list S))\<rparr>) S1"
      using set_config_internal_inv [OF Cons.prems(1-3), of "off_set c"] by (auto simp: off_set_def)
    obtain ret cs' where r: "set_config drv (off_set c) (crtc_list S) = (ret, cs')" by fastforce
    have l: "crtc_list S1 = cs'" using s(3) r by (simp add: same_kms_def)
    have g: "length cs' = length (crtc_list S)"
      "\<And>i. i < length (crtc_list S) \<Longrightarrow> crtc_fb (cs' ! i) = crtc_fb (crtc_list S ! i) \<or> crtc_fb (cs' ! i) = None"
      "ret = 0 \<longrightarrow> crtc_fb (cs' ! c) = None"
      using Cons.prems(3) [unfolded good_set_config_def, THEN spec, THEN spec, of "crtc_list S" "off_set c"] r c
      by (auto simp: off_set_def)
    have "offs drv \<longrightarrow> ret = 0" using r c by (auto simp: offs_def elim!: allE [of _ c] allE [of _ "crtc_list S"])
    moreover have "only_off S S1" using s(3) r l g by (simp add: only_off_def same_kms_def)
    ultimately show ?thesis using that True s l g(3) by auto
  next
    case False
    then show ?thesis using that Cons.prems by auto
  qed
  have "length (crtc_list S1) = length (crtc_list S)" using 1(3) by (simp add: only_off_def)
  then obtain S2 where 2: "remove_from_crtcs drv a cs S1 = Some S2" "kms_ok h S2" "only_off S1 S2"
    "offs drv \<longrightarrow> (\<forall>c \<in> set cs. crtc_fb (crtc_list S2 ! c) \<noteq> Some a)"
    using Cons.IH [OF 1(2) Cons.prems(2,3)] Cons.prems(4) by auto
  have "offs drv \<longrightarrow> crtc_fb (crtc_list S2 ! c) \<noteq> Some a"
    using 1(3,4) 2(3) c by (auto simp: only_off_def)
  moreover have "remove_from_crtcs drv a (c # cs) S = Some S2"
    using 1(1) 2(1) by (cases "crtc_fb (crtc_list S ! c) = Some a") (auto split: bind_splits)
  ultimately show ?case using 2 only_off_trans [OF 1(3) 2(3)] by auto
qed simp

lemma upd_plane_sels [simp]:
  "fb_objs (upd_plane p f S) = fb_objs S" "crtc_idr (upd_plane p f S) = crtc_idr S" "crtc_list (upd_plane p f S) = crtc_list S"
  "file_fbs (upd_plane p f S) = file_fbs S" "file_event_space (upd_plane p f S) = file_event_space S"
  "plane_list (upd_plane p f S) = (plane_list S)[p := f (plane_list S ! p)]" "modeset (upd_plane p f S) = modeset S"
  "num_connector (upd_plane p f S) = num_connector S"
  by (simp_all add: upd_plane_def)

lemma count_list_update:
  "p < length xs \<Longrightarrow> count_list (xs[p := x]) y + of_bool (xs ! p = y) = count_list xs y + of_bool (x = y)"
proof (induction xs arbitrary: p)
  case (Cons z zs)
  show ?case
  proof (cases p)
    case (Suc n)
    then show ?thesis using Cons.IH [of n] Cons.prems by simp
  qed simp
qed simp

text \<open>A reference passes between a plane and a running operation.\<close>

lemma plane_move:
  assumes i: "fb_inv (addh new h) cl S" and h: "\<And>a. h a < 100" and p: "p < length (plane_list S)"
    and f: "plane_fb (f (plane_list S ! p)) = new"
  shows "fb_inv (addh (plane_fb (plane_list S ! p)) h) cl (upd_plane p f S)"
proof -
  let ?pl = "(plane_list S)[p := f (plane_list S ! p)]"
  have e: "count_list (map plane_fb ?pl) (Some a) + of_bool (plane_fb (plane_list S ! p) = Some a) =
      count_list (map plane_fb (plane_list S)) (Some a) + of_bool (new = Some a)" for a
    using count_list_update [of p "map plane_fb (plane_list S)" new "Some a"] p f by (simp add: map_update)
  have b: "addh x h a \<le> 100" for x a using h [of a] by (simp add: addh_apply)
  have "addh (plane_fb (plane_list S ! p)) h a + count_list cl (Some a) + count_list (map plane_fb ?pl) (Some a) =
      addh new h a + count_list cl (Some a) + count_list (map plane_fb (plane_list S)) (Some a)" for a
    unfolding addh_apply using e [of a] by linarith
  then have "fb_inv (addh (plane_fb (plane_list S ! p)) h) cl (S\<lparr>crtc_list := crtc_list S, plane_list := ?pl\<rparr>)"
    by (rule inv_move [OF i]) (use b in auto)
  then show ?thesis by (simp add: upd_plane_def)
qed

lemma count_list_pos: "p < length xs \<Longrightarrow> xs ! p = y \<Longrightarrow> 0 < count_list xs y"
  using count_notin [of y xs] nth_mem [of p xs] by (metis count_list_0_iff gr0I)

lemma force_disable_inv:
  assumes k: "kms_ok h S" and h: "\<And>a. h a < 100" and p: "p < length (plane_list S)" "plane_fb (plane_list S ! p) = Some a" and a: "0 < h a"
  shows "\<exists>S'. drm_plane_force_disable drv p S = Some S' \<and> kms_ok h S' \<and> only_off S S' \<and> plane_fb (plane_list S' ! p) \<noteq> Some a"
proof -
  let ?f = "\<lambda>pl :: drm_plane. pl\<lparr>plane_fb := None, plane_crtc := None\<rparr>"
  let ?cl = "map crtc_fb (crtc_list S)"
  have c: "0 < count_list (map plane_fb (plane_list S)) (Some a)" using p by (intro count_list_pos [of p]) auto
  then have r: "1 < refs h ?cl S a" using a by (simp add: refs_def)
  obtain S1 where 1: "framebuffer_unreference_bug a S = Some S1" "fb_inv (h(a := h a - 1)) ?cl S1" "same_kms S S1"
    using unreference_bug_inv [OF k [unfolded kms_ok_def] a r] by blast
  have s: "plane_list S1 = plane_list S" "crtc_list S1 = crtc_list S" using 1(3) by (simp_all add: same_kms_def)
  have "(h(a := h a - 1)) b < 100" for b using h [of b] h [of a] by auto
  moreover have "addh (Some a) (h(a := h a - 1)) = h" using a by (auto simp: fun_eq_iff)
  ultimately have "fb_inv h ?cl (upd_plane p ?f S1)"
    using plane_move [of None "h(a := h a - 1)" ?cl S1 p ?f] 1(2) p s by simp
  then have "kms_ok h (upd_plane p ?f S1)" using s by (simp add: kms_ok_def)
  moreover have "only_off S (upd_plane p ?f S1)"
    using 1(3) p s by (auto simp: only_off_def same_kms_def nth_list_update)
  moreover have "drm_plane_force_disable drv p S = Some (upd_plane p ?f S1)"
    using p(2) 1(1) by (simp add: drm_plane_force_disable_def)
  ultimately show ?thesis using p s by simp
qed

lemma remove_from_planes_inv:
  assumes "kms_ok h S" "\<And>a. h a < 100" "0 < h a" "set ps \<subseteq> {..<length (plane_list S)}"
  shows "\<exists>S'. remove_from_planes drv a ps S = Some S' \<and> kms_ok h S' \<and> only_off S S' \<and>
    (\<forall>p \<in> set ps. plane_fb (plane_list S' ! p) \<noteq> Some a)"
  using assms
proof (induction ps arbitrary: S)
  case (Cons p ps)
  have p: "p < length (plane_list S)" using Cons.prems(4) by simp
  obtain S1 where 1: "(if plane_fb (plane_list S ! p) = Some a then drm_plane_force_disable drv p S else Some S) = Some S1"
    "kms_ok h S1" "only_off S S1" "plane_fb (plane_list S1 ! p) \<noteq> Some a"
    using force_disable_inv [OF Cons.prems(1,2) p _ Cons.prems(3), of drv] Cons.prems(1)
    by (cases "plane_fb (plane_list S ! p) = Some a") auto
  have "length (plane_list S1) = length (plane_list S)" using 1(3) by (simp add: only_off_def)
  then obtain S2 where 2: "remove_from_planes drv a ps S1 = Some S2" "kms_ok h S2" "only_off S1 S2"
    "\<forall>p \<in> set ps. plane_fb (plane_list S2 ! p) \<noteq> Some a"
    using Cons.IH [OF 1(2) Cons.prems(2,3)] Cons.prems(4) by auto
  have "plane_fb (plane_list S2 ! p) \<noteq> Some a" using 1(3,4) 2(3) p by (auto simp: only_off_def)
  moreover have "remove_from_planes drv a (p # ps) S = Some S2"
    using 1(1) 2(1) by (cases "plane_fb (plane_list S ! p) = Some a") auto
  ultimately show ?case using 2 only_off_trans [OF 1(3) 2(3)] by auto
qed simp

section \<open>Lookup\<close>

lemma idr_find_range: "idr_inv I \<Longrightarrow> idr_find I i \<noteq> None \<Longrightarrow> 0 \<le> i \<and> i < ID_END"
  using issued_bounds [of 0 "free_id_ranges I" ID_END] by (auto simp: idr_inv_def idr_find_None subset_iff simp del: not_None_eq)

lemma fb_id_refs: "fb_id (fb_objs S a) \<noteq> 0 \<Longrightarrow> 0 < refs h cl S a"
  by (simp add: refs_def)

lemma find_inv:
  assumes i: "fb_inv h cl S"
  shows "\<exists>obj. drm_mode_object_find S ident ty = Some obj \<and>
    (\<forall>ob. obj = Some ob \<longrightarrow> type_of ob = ty \<and> idr_find (crtc_idr S) (sint ident) = Some ob)"
proof (cases "idr_find (crtc_idr S) (sint ident)")
  case (Some ob)
  show ?thesis
  proof (cases ob)
    case (FbObj a)
    then have "fb_id (fb_objs S a) \<noteq> 0" using i Some by (auto simp: fb_inv_def ids_ok_def)
    then have "use_fb S a = Some (fb_objs S a)" using live_count [OF i] fb_id_refs by blast
    then show ?thesis using Some FbObj by (auto simp: drm_mode_object_find_def)
  qed (use Some in \<open>auto simp: drm_mode_object_find_def\<close>)
qed (simp add: drm_mode_object_find_def)

lemma find_fb:
  assumes i: "fb_inv h cl S" and u: "fb_id (fb_objs S a) = uint (ident :: u32w)" "ident \<noteq> 0"
  shows "drm_mode_object_find S ident OBJECT_FB = Some (Some (FbObj a))"
proof -
  have z: "uint ident \<noteq> 0" using u(2) by (simp add: uint_0_iff)
  then have f: "idr_find (crtc_idr S) (uint ident) = Some (FbObj a)" using i u(1) by (simp add: fb_inv_def ids_ok_def)
  then have "uint ident < ID_END" using idr_find_range [of "crtc_idr S" "uint ident"] i by (simp add: fb_inv_def ids_ok_def)
  then have "sint ident = uint ident"
    using signed_take_bit_int_eq_self [of 31 "uint ident"] unsigned_greater_eq [of ident, where 'a = int]
    by (simp add: sint_uint ID_END_def)
  moreover have "use_fb S a = Some (fb_objs S a)" using live_count [OF i] fb_id_refs [of S a h cl] z u(1) by auto
  ultimately show ?thesis using f u by (simp add: drm_mode_object_find_def)
qed

lemma lookup_raw_inv:
  assumes i: "fb_inv h cl S"
  shows "\<exists>fb. framebuffer_lookup_raw S ident = Some fb \<and>
    (\<forall>a. fb = Some a \<longrightarrow> idr_find (crtc_idr S) (sint ident) = Some (FbObj a) \<and> fb_id (fb_objs S a) = sint ident \<and> 0 < refs h cl S a)"
proof -
  obtain obj where o: "drm_mode_object_find S ident OBJECT_FB = Some obj"
    "\<And>ob. obj = Some ob \<Longrightarrow> type_of ob = OBJECT_FB \<and> idr_find (crtc_idr S) (sint ident) = Some ob"
    using find_inv [OF i] by blast
  have f: "type_of ob = OBJECT_FB \<Longrightarrow> ob = FbObj (object_index ob)" for ob by (cases ob) auto
  have "idr_find (crtc_idr S) (sint ident) = Some (FbObj a) \<and> fb_id (fb_objs S a) = sint ident \<and> 0 < refs h cl S a"
    if "map_option object_index obj = Some a" for a
  proof -
    have r: "idr_find (crtc_idr S) (sint ident) = Some (FbObj a)" using that o(2) f by (cases obj) auto
    then have "fb_id (fb_objs S a) = sint ident \<and> sint ident \<noteq> 0" using i by (simp add: fb_inv_def ids_ok_def)
    then show ?thesis using r fb_id_refs [of S a h cl] by simp
  qed
  then show ?thesis using o(1) by (simp add: framebuffer_lookup_raw_def)
qed

lemma lookup_inv:
  assumes i: "fb_inv h cl S" and h: "\<And>a. h a < 100"
  obtains fb S' where "drm_framebuffer_lookup S ident = Some (fb, S')" "fb_inv (addh fb h) cl S'" "same_kms S S'"
    "\<And>a. fb = Some a \<Longrightarrow> idr_find (crtc_idr S) (sint ident) = Some (FbObj a)"
proof -
  obtain fb where f: "framebuffer_lookup_raw S ident = Some fb"
    "\<And>a. fb = Some a \<Longrightarrow> idr_find (crtc_idr S) (sint ident) = Some (FbObj a) \<and> 0 < refs h cl S a"
    using lookup_raw_inv [OF i, of ident] by blast
  show ?thesis
  proof (cases fb)
    case None
    then show ?thesis using that [of None S] i f(1) by (simp add: drm_framebuffer_lookup_def)
  next
    case (Some a)
    then obtain S' where "drm_framebuffer_reference a S = Some S'" "fb_inv (h(a := h a + 1)) cl S'" "same_kms S S'"
      using reference_inv [OF i _ h] f(2) by blast
    then show ?thesis using that [of fb S'] Some f by (simp add: drm_framebuffer_lookup_def)
  qed
qed

section \<open>Unregistering\<close>

text \<open>The identifier and the entry in the file's list go; the reference of that entry is then the caller's.\<close>

lemma unregister_inv:
  assumes i: "fb_inv h cl S" and a: "a \<in> set (file_fbs S f)" and m: "al_free mem" and h: "h a < 100"
  obtains S' where "framebuffer_unregister mem a S = Some S'" "file_fbs S' = file_fbs S"
    "fb_inv (addh (Some a) h) cl (S'\<lparr>file_fbs := (file_fbs S)(f := remove1 a (file_fbs S f))\<rparr>)"
    "crtc_list S' = crtc_list S" "plane_list S' = plane_list S" "file_event_space S' = file_event_space S"
    "idr_find (crtc_idr S') = (idr_find (crtc_idr S))(fb_id (fb_objs S a) := None)" "modeset S' = modeset S"
    "\<And>b. fb_id (fb_objs S' b) = (if b = a then 0 else fb_id (fb_objs S b))" "num_connector S' = num_connector S"
proof -
  let ?i = "fb_id (fb_objs S a)"
  have z: "?i \<noteq> 0" using i a by (auto simp: fb_inv_def files_ok_def)
  have n: "idr_find (crtc_idr S) ?i = Some (FbObj a)" using i z by (simp add: fb_inv_def ids_ok_def)
  have "idr_inv (crtc_idr S)" using i by (simp add: fb_inv_def ids_ok_def)
  then obtain I' where r: "idr_remove (al_free mem) (crtc_idr S) ?i = Some (0, I')" "idr_inv I'"
    "idr_find I' = (idr_find (crtc_idr S))(?i := None)"
    using idr_remove_result [of "crtc_idr S" "al_free mem" ?i] n m by auto
  have fr: "file_ref (file_fbs S) a = 1" using a by (auto simp: file_ref_def)
  have p: "2 \<le> refs h cl S a" using z fr by (simp add: refs_def)
  have u: "use_fb S a = Some (fb_objs S a)" "refcount (fb_objs S a) = int (refs h cl S a)" "\<not> freed (fb_objs S a)"
    using live_count [OF i, of a] live_iff [OF i, of a] p by auto
  let ?S = "upd_fb a (\<lambda>ob. ob\<lparr>refcount := u32 (refcount ob - 1)\<rparr>) (upd_fb a (\<lambda>ob. ob\<lparr>fb_id := 0\<rparr>) (S\<lparr>crtc_idr := I'\<rparr>))"
  have c: "u32 (refcount (fb_objs S a) - 1) = int (refs h cl S a) - 1"
    using u p refs_bound [OF i, of a] by (simp add: u32_id)
  have "framebuffer_unregister mem a S = Some ?S"
    using u(1,3) r(1) c p
    by (simp add: framebuffer_unregister_def drm_mode_object_put_def framebuffer_unreference_bug_def use_fb_def Let_def)
  moreover have "fb_inv (addh (Some a) h) cl (?S\<lparr>file_fbs := (file_fbs S)(f := remove1 a (file_fbs S f))\<rparr>)" (is "fb_inv ?h cl ?T")
  proof -
    have d: "distinct (file_fbs S f)" and one: "\<And>g b. b \<in> set (file_fbs S g) \<Longrightarrow> b \<in> set (file_fbs S f) \<Longrightarrow> g = f"
      using i by (auto simp: fb_inv_def files_ok_def)
    have rem: "b \<in> set (((file_fbs S)(f := remove1 a (file_fbs S f))) g) \<longleftrightarrow> b \<in> set (file_fbs S g) \<and> b \<noteq> a" for b g
    proof (cases "g = f")
      case True
      then show ?thesis using d by (simp add: set_remove1_eq)
    next
      case False
      then show ?thesis using one [of a g] a by auto
    qed
    then have "file_ref ((file_fbs S)(f := remove1 a (file_fbs S f))) b = (if b = a then 0 else file_ref (file_fbs S) b)" for b
      by (auto simp: file_ref_def)
    then have R: "refs ?h cl ?T b = (if b = a then refs h cl S a - 1 else refs h cl S b)" for b
      using z fr by (auto simp: refs_def)
    have "counts_ok ?h cl ?T"
      unfolding counts_ok_def R using i u(3) c p h by (auto simp: fb_inv_def counts_ok_def)
    moreover have "b = a" if "fb_id (fb_objs S b) = ?i" for b
    proof -
      have "idr_find (crtc_idr S) ?i = Some (FbObj b)" using i z that by (simp add: fb_inv_def ids_ok_def)
      then show ?thesis using n by simp
    qed
    then have "ids_ok ?T" using i r(2,3) z by (auto simp: fb_inv_def ids_ok_def)
    moreover have "list_ok ?T" using i by (auto simp: fb_inv_def list_ok_def)
    moreover have "files_ok ?T"
      unfolding files_ok_def
    proof (intro conjI allI impI)
      fix g
      show "distinct (file_fbs ?T g)" using i by (simp add: fb_inv_def files_ok_def)
    next
      fix g k b
      assume "b \<in> set (file_fbs ?T g)" "b \<in> set (file_fbs ?T k)"
      then show "g = k" using i rem by (auto simp: fb_inv_def files_ok_def)
    next
      fix g b
      assume "b \<in> set (file_fbs ?T g)"
      then have "b \<in> set (file_fbs S g)" "b \<noteq> a" using rem by simp_all
      then show "fb_id (fb_objs ?T b) \<noteq> 0" using i by (auto simp: fb_inv_def files_ok_def)
    qed
    ultimately show ?thesis by (simp add: fb_inv_def)
  qed
  ultimately show ?thesis using r(3) by (intro that [of ?S]) auto
qed

section \<open>The operations\<close>

lemma count_map_zero: "count_list (map f xs) y = 0 \<longleftrightarrow> (\<forall>i < length xs. f (xs ! i) \<noteq> y)"
proof -
  have "count_list (map f xs) y = 0 \<longleftrightarrow> (\<forall>x \<in> set xs. f x \<noteq> y)" by (auto simp: count_list_0_iff)
  then show ?thesis by (simp add: all_set_conv_all_nth)
qed

lemma set_upt_lessThan: "set [0..<n] \<subseteq> {..<n}"
  by auto

definition shown :: "mode_config \<Rightarrow> nat \<Rightarrow> bool" where
  "shown S a \<longleftrightarrow> (\<exists>c < length (crtc_list S). crtc_fb (crtc_list S ! c) = Some a) \<or>
     (\<exists>p < length (plane_list S). plane_fb (plane_list S ! p) = Some a)"

lemma only_off_shown: "only_off S S' \<Longrightarrow> shown S' a \<Longrightarrow> shown S a"
  unfolding only_off_def shown_def by (metis option.distinct(1))

lemma unreference_off:
  assumes k: "kms_ok h S" and h: "0 < h a"
  obtains S' where "drm_framebuffer_unreference a S = Some S'" "kms_ok (h(a := h a - 1)) S'" "same_kms S S'"
proof -
  obtain S' where s: "drm_framebuffer_unreference a S = Some S'" "fb_inv (h(a := h a - 1)) (map crtc_fb (crtc_list S)) S'" "same_kms S S'"
    using unreference_inv [OF k [unfolded kms_ok_def] h] by blast
  moreover have "crtc_list S' = crtc_list S" using s(3) by (simp add: same_kms_def)
  ultimately show ?thesis using that by (simp add: kms_ok_def)
qed

lemma remove_inv:
  assumes k: "kms_ok h S" and h: "\<And>a. h a < 100" and d: "good_set_config drv" and a: "0 < h a"
  obtains S' where "drm_framebuffer_remove drv a S = Some S'" "kms_ok (h(a := h a - 1)) S'" "only_off S S'"
    "offs drv \<Longrightarrow> \<not> shown S' a"
proof -
  let ?cl = "map crtc_fb (crtc_list S)"
  have r: "0 < refs h ?cl S a" using a by (simp add: refs_def)
  have u: "use_fb S a = Some (fb_objs S a)" "refcount (fb_objs S a) = int (refs h ?cl S a)"
    using live_count [OF k [unfolded kms_ok_def] r] by auto
  obtain S1 where 1: "(if refcount (fb_objs S a) > 1
      then do { S \<leftarrow> remove_from_crtcs drv a [0..<length (crtc_list S)] S; remove_from_planes drv a [0..<length (plane_list S)] S }
      else Some S) = Some S1" "kms_ok h S1" "only_off S S1" "offs drv \<Longrightarrow> \<not> shown S1 a"
  proof (cases "refcount (fb_objs S a) > 1")
    case True
    obtain S2 where 2: "remove_from_crtcs drv a [0..<length (crtc_list S)] S = Some S2" "kms_ok h S2" "only_off S S2"
      "offs drv \<longrightarrow> (\<forall>c \<in> set [0..<length (crtc_list S)]. crtc_fb (crtc_list S2 ! c) \<noteq> Some a)"
      using remove_from_crtcs_inv [OF k h d set_upt_lessThan, of a] by blast
    obtain S3 where 3: "remove_from_planes drv a [0..<length (plane_list S2)] S2 = Some S3" "kms_ok h S3" "only_off S2 S3"
      "\<forall>p \<in> set [0..<length (plane_list S2)]. plane_fb (plane_list S3 ! p) \<noteq> Some a"
      using remove_from_planes_inv [OF 2(2) h a set_upt_lessThan, of drv] by blast
    have l: "length (plane_list S2) = length (plane_list S)" "length (crtc_list S2) = length (crtc_list S)"
      "length (plane_list S3) = length (plane_list S)" "length (crtc_list S3) = length (crtc_list S)"
      using 2(3) 3(3) by (simp_all add: only_off_def)
    have "\<not> shown S3 a" if "offs drv"
    proof -
      have "crtc_fb (crtc_list S3 ! c) \<noteq> Some a" if "c < length (crtc_list S)" for c
      proof -
        have "crtc_fb (crtc_list S2 ! c) \<noteq> Some a" using 2(4) \<open>offs drv\<close> that by simp
        then show ?thesis using 3(3) that l by (auto simp: only_off_def)
      qed
      then show ?thesis using 3(4) l by (auto simp: shown_def)
    qed
    then show ?thesis using that [of S3] True 2 3 l only_off_trans [OF 2(3) 3(3)] by simp
  next
    case False
    then have "refs h ?cl S a \<le> 1" using u(2) by simp
    then have "count_list ?cl (Some a) = 0" "count_list (map plane_fb (plane_list S)) (Some a) = 0"
      using a unfolding refs_def by linarith+
    then have "\<not> shown S a" by (simp add: count_map_zero shown_def)
    then show ?thesis using that [of S] False k by simp
  qed
  obtain S4 where 4: "drm_framebuffer_unreference a S1 = Some S4" "kms_ok (h(a := h a - 1)) S4" "same_kms S1 S4"
    using unreference_off [OF 1(2) a] by blast
  have o: "only_off S S4" using only_off_trans [OF 1(3) same_only_off [OF 4(3)]] .
  have "drm_framebuffer_remove drv a S = Some S4"
    using u 1(1) 4(1) by (simp add: drm_framebuffer_remove_def)
  moreover have "offs drv \<Longrightarrow> \<not> shown S4 a" using 1(4) only_off_shown [OF same_only_off [OF 4(3)]] by blast
  ultimately show ?thesis using that 4(2) o by blast
qed

lemma addh_drop: "(addh (Some a) h)(a := addh (Some a) h a - 1) = h"
  by auto

text \<open>Removal through an ioctl or at the close of a file: the identifier, the entry, then the uses.\<close>

lemma remove_entry_inv:
  assumes k: "kms_ok h S" and h: "\<And>a. h a < 99" and d: "good_set_config drv" and m: "al_free mem" and a: "a \<in> set (file_fbs S f)"
  obtains S' S1 where "framebuffer_unregister mem a S = Some S1"
    "drm_framebuffer_remove drv a (S1\<lparr>file_fbs := (file_fbs S1)(f := remove1 a (file_fbs S1 f))\<rparr>) = Some S'"
    "kms_ok h S'" "file_fbs S' = (file_fbs S)(f := remove1 a (file_fbs S f))"
    "idr_find (crtc_idr S') = (idr_find (crtc_idr S))(fb_id (fb_objs S a) := None)"
    "\<And>b. fb_id (fb_objs S' b) = (if b = a then 0 else fb_id (fb_objs S b))" "offs drv \<Longrightarrow> \<not> shown S' a"
    "\<And>b. shown S' b \<Longrightarrow> shown S b" "modeset S' = modeset S"
    "length (crtc_list S') = length (crtc_list S)" "length (plane_list S') = length (plane_list S)"
proof -
  have h1: "h a < 100" for a using h [of a] by simp
  have h2: "addh (Some a) h b < 100" for b using h [of b] by (auto simp: addh_apply)
  obtain S1 where 1: "framebuffer_unregister mem a S = Some S1" "file_fbs S1 = file_fbs S"
    "fb_inv (addh (Some a) h) (map crtc_fb (crtc_list S)) (S1\<lparr>file_fbs := (file_fbs S)(f := remove1 a (file_fbs S f))\<rparr>)"
    "crtc_list S1 = crtc_list S" "plane_list S1 = plane_list S"
    "idr_find (crtc_idr S1) = (idr_find (crtc_idr S))(fb_id (fb_objs S a) := None)" "modeset S1 = modeset S"
    "\<And>b. fb_id (fb_objs S1 b) = (if b = a then 0 else fb_id (fb_objs S b))"
    using unregister_inv [OF k [unfolded kms_ok_def] a m h1] by metis
  let ?T = "S1\<lparr>file_fbs := (file_fbs S1)(f := remove1 a (file_fbs S1 f))\<rparr>"
  have k2: "kms_ok (addh (Some a) h) ?T" using 1 by (simp add: kms_ok_def)
  have pos: "0 < addh (Some a) h a" by simp
  obtain S' where 2: "drm_framebuffer_remove drv a ?T = Some S'" "kms_ok h S'" "only_off ?T S'" "offs drv \<Longrightarrow> \<not> shown S' a"
    by (rule remove_inv [OF k2 h2 d pos, unfolded addh_drop]) (rule that; blast)
  have "shown S' b \<Longrightarrow> shown S b" for b
    using only_off_shown [OF 2(3), of b] 1(4,5) by (simp add: shown_def)
  moreover have "file_fbs S' = file_fbs ?T" "crtc_idr S' = crtc_idr ?T" "modeset S' = modeset ?T"
    "\<And>b. fb_id (fb_objs S' b) = fb_id (fb_objs ?T b)" "length (crtc_list S') = length (crtc_list ?T)"
    "length (plane_list S') = length (plane_list ?T)"
    using 2(3) by (simp_all add: only_off_def same_kms_def)
  ultimately show ?thesis using that [OF 1(1) 2(1,2)] 1 2(4) by simp
qed

lemma not_shown_freed:
  assumes "kms_ok h S" "h a = 0" "fb_id (fb_objs S a) = 0" "\<And>f. a \<notin> set (file_fbs S f)" "\<not> shown S a"
  shows "freed (fb_objs S a)"
  using live_iff [OF assms(1) [unfolded kms_ok_def], of a] assms(2-5)
  by (auto simp: refs_def file_ref_def shown_def count_map_zero)

end
