(* ===== verification/Drm_Framebuffer_Thms.thy ===== *)
theory Drm_Framebuffer_Thms
  imports Drm_Framebuffer_Inv
begin

text \<open>
  What the framebuffer ioctls keep and achieve: every command on a consistent state runs to its end without a use after free or
  a failed \<^verbatim>\<open>BUG\<close>, and keeps the exact counts; removal and the close of a file take framebuffers off all controllers and planes.
\<close>

section \<open>Steps of a command\<close>

abbreviation no_holds :: "nat \<Rightarrow> nat" where
  "no_holds \<equiv> \<lambda>_. 0"

lemma addh_less [simp]: "addh x no_holds a < 100" "addh x (addh y no_holds) a < 100"
  by (simp_all add: addh_apply)

lemma kms_ids: "kms_ok h S \<Longrightarrow> ids_ok S"
  by (simp add: kms_ok_def fb_inv_def)

lemma same_kms_ok: "same_kms S S' \<Longrightarrow> kms_ok h S' \<longleftrightarrow> fb_inv h (map crtc_fb (crtc_list S)) S'"
  by (simp add: kms_ok_def same_kms_def)

lemma kms_unreference:
  assumes "kms_ok (addh x h) S"
  obtains S' where "unreference_opt x S = Some S'" "kms_ok h S'" "same_kms S S'"
  using unreference_opt_inv [OF assms [unfolded kms_ok_def]] same_kms_ok by blast

lemma kms_unreference_Some:
  assumes "kms_ok (addh (Some a) h) S"
  obtains S' where "drm_framebuffer_unreference a S = Some S'" "kms_ok h S'" "same_kms S S'"
  using kms_unreference [OF assms] by (auto simp: unreference_opt_def)

lemma kms_held: "kms_ok (addh (Some a) h) S \<Longrightarrow> use_fb S a = Some (fb_objs S a)"
  using live_count [of "addh (Some a) h" "map crtc_fb (crtc_list S)" S a] by (simp add: kms_ok_def refs_def)

lemma kms_lookup:
  assumes "kms_ok h S" "\<And>a. h a < 100"
  obtains fb S' where "drm_framebuffer_lookup S ident = Some (fb, S')" "kms_ok (addh fb h) S'" "same_kms S S'"
  using lookup_inv [OF assms(1) [unfolded kms_ok_def] assms(2), of ident] same_kms_ok by metis

lemma kms_shown: "kms_ok h S \<Longrightarrow> c < length (crtc_list S) \<Longrightarrow> crtc_fb (crtc_list S ! c) = Some a \<Longrightarrow>
    0 < refs h (map crtc_fb (crtc_list S)) S a \<and> use_fb S a = Some (fb_objs S a)"
  using live_count [of h "map crtc_fb (crtc_list S)" S a] count_list_pos [of c "map crtc_fb (crtc_list S)" "Some a"]
  by (simp add: kms_ok_def refs_def)

lemma kms_plane_move:
  assumes "kms_ok (addh new h) S" "\<And>a. h a < 100" "p < length (plane_list S)" "plane_fb (f (plane_list S ! p)) = new"
  shows "kms_ok (addh (plane_fb (plane_list S ! p)) h) (upd_plane p f S)"
  using plane_move [where f = f, OF assms(1) [unfolded kms_ok_def] assms(2-4)] by (simp add: kms_ok_def)

lemma kms_find:
  assumes "kms_ok h S"
  obtains "drm_mode_object_find S ident ty = Some None"
  | ob where "drm_mode_object_find S ident ty = Some (Some ob)" "type_of ob = ty" "idr_find (crtc_idr S) (sint ident) = Some ob"
  using find_inv [OF assms [unfolded kms_ok_def], of ident ty] by (metis option.exhaust)

lemma kms_find_crtc:
  assumes "kms_ok h S"
  obtains "drm_mode_object_find S ident OBJECT_CRTC = Some None"
  | c where "drm_mode_object_find S ident OBJECT_CRTC = Some (Some (CrtcObj c))" "c < length (crtc_list S)"
proof (rule kms_find [OF assms, of ident OBJECT_CRTC])
  fix ob
  assume o: "drm_mode_object_find S ident OBJECT_CRTC = Some (Some ob)" "type_of ob = OBJECT_CRTC"
    "idr_find (crtc_idr S) (sint ident) = Some ob"
  then obtain c where "ob = CrtcObj c" by (cases ob) auto
  then show thesis using that(2) o kms_ids [OF assms] by (auto simp: ids_ok_def)
qed (use that in blast)

lemma kms_find_plane:
  assumes "kms_ok h S"
  obtains "drm_mode_object_find S ident OBJECT_PLANE = Some None"
  | p where "drm_mode_object_find S ident OBJECT_PLANE = Some (Some (PlaneObj p))" "p < length (plane_list S)"
proof (rule kms_find [OF assms, of ident OBJECT_PLANE])
  fix ob
  assume o: "drm_mode_object_find S ident OBJECT_PLANE = Some (Some ob)" "type_of ob = OBJECT_PLANE"
    "idr_find (crtc_idr S) (sint ident) = Some ob"
  then obtain p where "ob = PlaneObj p" by (cases ob) auto
  then show thesis using that(2) o kms_ids [OF assms] by (auto simp: ids_ok_def)
qed (use that in blast)

section \<open>Queries and planes\<close>

definition safe :: "('r \<times> mode_config) option \<Rightarrow> bool" where
  "safe res \<longleftrightarrow> (\<exists>r S'. res = Some (r, S') \<and> kms_ok no_holds S')"

lemma safe_Some [simp]: "safe (Some (r, S)) \<longleftrightarrow> kms_ok no_holds S"
  by (simp add: safe_def)

lemma safe_unreference:
  "kms_ok (addh (Some a) no_holds) S \<Longrightarrow> safe (do { S \<leftarrow> drm_framebuffer_unreference a S; Some (r, S) })"
  by (erule kms_unreference_Some) simp

lemma safe_unreference_opt: "kms_ok (addh x no_holds) S \<Longrightarrow> safe (do { S \<leftarrow> unreference_opt x S; Some (r, S) })"
  by (erule kms_unreference) simp

lemma drm_mode_getfb_safe:
  assumes "kms_ok no_holds S"
  shows "\<exists>ret lay S'. drm_mode_getfb drv ident S = Some (ret, lay, S') \<and> kms_ok no_holds S'"
proof -
  obtain fb S1 where 1: "drm_framebuffer_lookup S ident = Some (fb, S1)" "kms_ok (addh fb no_holds) S1"
    by (rule kms_lookup [OF assms, of ident]) auto
  show ?thesis
  proof (cases fb)
    case (Some a)
    then obtain S2 where "drm_framebuffer_unreference a S1 = Some S2" "kms_ok no_holds S2" "use_fb S1 a = Some (fb_objs S1 a)"
      using 1(2) kms_unreference_Some kms_held by metis
    then show ?thesis using 1 Some assms by (simp add: drm_mode_getfb_def Let_def)
  qed (use 1 assms in \<open>simp add: drm_mode_getfb_def\<close>)
qed

lemma drm_mode_dirtyfb_safe:
  assumes "kms_ok no_holds S"
  shows "safe (drm_mode_dirtyfb_ioctl drv mem ident flags n clips S)"
proof -
  obtain fb S1 where 1: "drm_framebuffer_lookup S ident = Some (fb, S1)" "kms_ok (addh fb no_holds) S1"
    by (rule kms_lookup [OF assms, of ident]) auto
  show ?thesis
  proof (cases fb)
    case (Some a)
    then have "kms_ok (addh (Some a) no_holds) S1" using 1 by simp
    then show ?thesis using 1 Some assms by (simp add: drm_mode_dirtyfb_ioctl_def Let_def safe_unreference)
  qed (use 1 assms in \<open>simp add: drm_mode_dirtyfb_ioctl_def\<close>)
qed

lemma drm_mode_setplane_safe:
  assumes k: "kms_ok no_holds S"
  shows "safe (drm_mode_setplane drv r S)"
proof (cases "modeset S")
  case m: True
  show ?thesis
  proof (rule kms_find_plane [OF k, of "sp_plane_id r"])
    fix p
    assume p: "drm_mode_object_find S (sp_plane_id r) OBJECT_PLANE = Some (Some (PlaneObj p))" "p < length (plane_list S)"
    show ?thesis
    proof (cases "sp_fb_id r = 0")
      case True
      have "safe (do { S \<leftarrow> unreference_opt (plane_fb (plane_list S ! p))
          (upd_plane p (\<lambda>pl. pl\<lparr>plane_crtc := None, plane_fb := None\<rparr>) S); Some (0 :: int, S) })"
        by (intro safe_unreference_opt kms_plane_move [of None]) (simp_all add: k p)
      then show ?thesis using m p True by (simp add: drm_mode_setplane_def Let_def)
    next
      case f: False
      show ?thesis
      proof (rule kms_find_crtc [OF k, of "sp_crtc_id r"])
        fix c
        assume c: "drm_mode_object_find S (sp_crtc_id r) OBJECT_CRTC = Some (Some (CrtcObj c))"
        obtain fb S1 where 1: "drm_framebuffer_lookup S (sp_fb_id r) = Some (fb, S1)" "kms_ok (addh fb no_holds) S1" "same_kms S S1"
          by (rule kms_lookup [OF k, of "sp_fb_id r"]) auto
        show ?thesis
        proof (cases fb)
          case (Some a)
          then have k1: "kms_ok (addh (Some a) no_holds) S1" and l: "plane_list S1 = plane_list S"
            using 1 by (simp_all add: same_kms_def)
          have "safe (do { S \<leftarrow> unreference_opt (plane_fb (plane_list S1 ! p))
              (upd_plane p (\<lambda>pl. pl\<lparr>plane_crtc := Some c, plane_fb := Some a\<rparr>) S1); Some (0 :: int, S) })"
            by (intro safe_unreference_opt kms_plane_move [OF k1]) (simp_all add: p l)
          then show ?thesis using m p f c 1 Some kms_held [OF k1]
            by (simp add: drm_mode_setplane_def Let_def safe_unreference [OF k1])
        qed (use m p f c 1 k in \<open>simp add: drm_mode_setplane_def\<close>)
      qed (use m p f k in \<open>simp add: drm_mode_setplane_def\<close>)
    qed
  qed (use m k in \<open>simp add: drm_mode_setplane_def\<close>)
qed (use k in \<open>simp add: drm_mode_setplane_def\<close>)

section \<open>Mode setting and page flips\<close>

lemma kms_set_idr:
  assumes k: "kms_ok h S" and i: "idr_inv I"
    and f: "\<And>i. idr_find I i \<noteq> idr_find (crtc_idr S) i \<Longrightarrow> idr_find I i \<in> {None, Some ModeObj} \<and> idr_find (crtc_idr S) i \<in> {None, Some ModeObj}"
  shows "kms_ok h (S\<lparr>crtc_idr := I\<rparr>)"
proof -
  have e: "idr_find I i = Some ob \<longleftrightarrow> idr_find (crtc_idr S) i = Some ob" if "ob \<noteq> ModeObj" for i ob
    using f [of i] that by (cases "idr_find I i = idr_find (crtc_idr S) i") auto
  have "refs h cl (S\<lparr>crtc_idr := I\<rparr>) a = refs h cl S a" for cl a by (simp add: refs_def)
  then show ?thesis using k i by (simp add: kms_ok_def fb_inv_defs e)
qed

lemma mode_get:
  assumes k: "kms_ok h S" and g: "drm_mode_object_get mem ModeObj S = (e, i, S')"
  shows "kms_ok h S'" "\<exists>I. S' = S\<lparr>crtc_idr := I\<rparr>" "\<And>ident. i = Some ident \<Longrightarrow> idr_find (crtc_idr S') ident = Some ModeObj"
proof -
  obtain I where I: "idr_get_new_above (al_node mem) (crtc_idr S) ModeObj 1 = (e, i, I)" "S' = S\<lparr>crtc_idr := I\<rparr>"
    using g by (auto simp: drm_mode_object_get_def split: prod.splits)
  have v: "idr_inv (crtc_idr S)" using kms_ids [OF k] by (simp add: ids_ok_def)
  note r = idr_get_new_above_result [OF v I(1)]
  show "kms_ok h S'" unfolding I(2) by (rule kms_set_idr [OF k]) (use r in \<open>auto simp: ID_END_def split: option.splits if_splits\<close>)
  show "\<exists>I. S' = S\<lparr>crtc_idr := I\<rparr>" using I(2) by blast
  show "idr_find (crtc_idr S') ident = Some ModeObj" if "i = Some ident" for ident
    using r I(2) that by (simp add: ID_END_def)
qed

lemma mode_destroy:
  assumes k: "kms_ok h S" and m: "\<And>ident. i = Some ident \<Longrightarrow> idr_find (crtc_idr S) ident = Some ModeObj"
  shows "\<exists>S'. drm_mode_destroy mem i S = Some S' \<and> kms_ok h S'"
proof (cases i)
  case (Some ident)
  have v: "idr_inv (crtc_idr S)" using kms_ids [OF k] by (simp add: ids_ok_def)
  obtain ret I where r: "idr_remove (al_free mem) (crtc_idr S) ident = Some (ret, I)" "idr_inv I"
    "idr_find I = (idr_find (crtc_idr S))(ident := None) \<or> I = crtc_idr S"
    using idr_remove_result [OF v, of "al_free mem" ident] m [OF Some] by (auto split: if_splits)
  have "kms_ok h (S\<lparr>crtc_idr := I\<rparr>)"
    by (rule kms_set_idr [OF k r(2)]) (use r(3) m [OF Some] in \<open>auto split: if_splits\<close>)
  then show ?thesis using r(1) Some by (simp add: drm_mode_destroy_def drm_mode_object_put_def)
qed (use k in \<open>simp add: drm_mode_destroy_def\<close>)

lemma find_connectors_total: "kms_ok h S \<Longrightarrow> \<exists>res. find_connectors S user is = Some res"
proof (induction "is")
  case (Cons i "is")
  show ?case
  proof (cases "user i")
    case (Some ident)
    show ?thesis
      by (rule kms_find [OF Cons.prems, of ident OBJECT_CONNECTOR]) (use Some Cons in auto)
  qed simp
qed simp

lemma setcrtc_connectors_total: "kms_ok h S \<Longrightarrow> \<exists>res. setcrtc_connectors mem r b S = Some res"
  using find_connectors_total by (auto simp: setcrtc_connectors_def)

lemma setcrtc_rest_safe:
  assumes k: "kms_ok (addh fb no_holds) S" and d: "good_set_config drv"
    and m: "\<And>ident. i = Some ident \<Longrightarrow> idr_find (crtc_idr S) ident = Some ModeObj"
  shows "safe (setcrtc_rest drv mem r c fb mode i S)"
proof -
  have last: "safe (do { S \<leftarrow> unreference_opt fb T; S \<leftarrow> drm_mode_destroy mem i S; Some (ret, S) })"
    if T: "kms_ok (addh fb no_holds) T" "crtc_idr T = crtc_idr S" for T and ret :: int
  proof -
    obtain U where U: "unreference_opt fb T = Some U" "kms_ok no_holds U" "same_kms T U"
      using kms_unreference [OF T(1)] .
    then have "\<exists>S'. drm_mode_destroy mem i U = Some S' \<and> kms_ok no_holds S'"
      using m T(2) by (intro mode_destroy) (simp_all add: same_kms_def)
    then show ?thesis using U by auto
  qed
  show ?thesis
  proof (cases mode)
    case (Inl e)
    then show ?thesis using last [OF k] by (simp add: setcrtc_rest_def)
  next
    case (Inr mo)
    obtain res where res: "setcrtc_connectors mem r (mo \<noteq> None) S = Some res"
      using setcrtc_connectors_total [OF k] by blast
    show ?thesis
    proof (cases res)
      case (Inl e)
      then show ?thesis using last [OF k] res Inr by (simp add: setcrtc_rest_def)
    next
      case (Inr ns)
      let ?st = "\<lparr>set_fb = fb, set_crtc = c, set_mode = mo, set_x = cr_x r, set_y = cr_y r, set_connectors = ns\<rparr>"
      have held: "0 < addh fb no_holds b" if "set_fb ?st = Some b" for b using that by (simp add: addh_apply)
      obtain T where T: "drm_mode_set_config_internal drv ?st S = Some (fst (set_config drv ?st (crtc_list S)), T)"
        "kms_ok (addh fb no_holds) T" "same_kms (S\<lparr>crtc_list := snd (set_config drv ?st (crtc_list S))\<rparr>) T"
        by (rule set_config_internal_inv [OF k _ d held]) (rule addh_less | blast)+
      have "crtc_idr T = crtc_idr S" using T(3) by (simp add: same_kms_def)
      then show ?thesis using last [OF T(2)] res Inr \<open>mode = Inr mo\<close> T(1) by (simp add: setcrtc_rest_def)
    qed
  qed
qed

lemma setcrtc_mode_kms:
  assumes k: "kms_ok h S" and e: "setcrtc_mode mem c lay r S = (mode, i, S')"
  shows "kms_ok h S'" "\<And>ident. i = Some ident \<Longrightarrow> idr_find (crtc_idr S') ident = Some ModeObj"
proof -
  obtain ge gi G where g: "(if al_mode mem then drm_mode_object_get mem ModeObj S else (- ENOMEM, None, S)) = (ge, gi, G)"
    by (metis prod_cases3)
  have s: "S' = G" "i = None \<or> i = gi"
  proof -
    have "S' = G \<and> (i = None \<or> i = gi)"
    proof (cases "drm_mode_create (map_option nat gi)")
      case None
      then show ?thesis using e by (simp add: setcrtc_mode_def g)
    next
      case (Some m0)
      obtain cr m1 where "drm_crtc_convert_umode m0 (cr_mode r) = (cr, m1)" by fastforce
      then show ?thesis using e Some by (auto simp only: setcrtc_mode_def g Let_def prod.case option.case prod.inject split: if_split_asm)
    qed
    then show "S' = G" "i = None \<or> i = gi" by simp_all
  qed
  show "kms_ok h S'" using mode_get(1) [OF k, of mem ge gi G] g k s(1) by (cases "al_mode mem") simp_all
  show "idr_find (crtc_idr S') ident = Some ModeObj" if "i = Some ident" for ident
  proof -
    have gi: "gi = Some ident" using s(2) that by simp
    then have "drm_mode_object_get mem ModeObj S = (ge, gi, G)" using g by (cases "al_mode mem") simp_all
    then show ?thesis using mode_get(3) [OF k _ gi] s(1) by blast
  qed
qed

lemma setcrtc_fb_kms:
  assumes k: "kms_ok no_holds S" and c: "c < length (crtc_list S)"
  obtains fb S' where "setcrtc_fb c ident S = Some (fb, S')" "kms_ok (addh fb no_holds) S'"
proof (cases "ident = - 1")
  case True
  show ?thesis
  proof (cases "crtc_fb (crtc_list S ! c)")
    case None
    then show ?thesis using that [of None S] k True by (simp add: setcrtc_fb_def)
  next
    case (Some a)
    obtain S' where S': "drm_framebuffer_reference a S = Some S'" "fb_inv (addh (Some a) no_holds) (map crtc_fb (crtc_list S)) S'" "same_kms S S'"
      using reference_inv [OF k [unfolded kms_ok_def], of a] kms_shown [OF k c Some] by auto
    then show ?thesis using that [of "Some a" S'] Some True same_kms_ok [OF S'(3)] by (simp add: setcrtc_fb_def)
  qed
next
  case False
  obtain fb S' where "drm_framebuffer_lookup S ident = Some (fb, S')" "kms_ok (addh fb no_holds) S'"
    by (rule kms_lookup [OF k, of ident]) auto
  then show ?thesis using that False by (simp add: setcrtc_fb_def)
qed

lemma drm_mode_setcrtc_safe:
  assumes k: "kms_ok no_holds S" and d: "good_set_config drv"
  shows "safe (drm_mode_setcrtc drv mem r S)"
proof (cases "modeset S \<and> \<not> (uint (cr_x r) > INT_MAX \<or> uint (cr_y r) > INT_MAX)")
  case True
  show ?thesis
  proof (rule kms_find_crtc [OF k, of "cr_crtc_id r"])
    fix c
    assume c: "drm_mode_object_find S (cr_crtc_id r) OBJECT_CRTC = Some (Some (CrtcObj c))" "c < length (crtc_list S)"
    show ?thesis
    proof (cases "cr_mode_valid r")
      case v: True
      obtain fb S1 where 1: "setcrtc_fb c (cr_fb_id r) S = Some (fb, S1)" "kms_ok (addh fb no_holds) S1"
        using setcrtc_fb_kms [OF k c(2)] .
      show ?thesis
      proof (cases fb)
        case (Some a)
        obtain mode i S2 where 2: "setcrtc_mode mem c (layout (fb_objs S1 a)) r S1 = (mode, i, S2)" by (metis prod_cases3)
        have "safe (setcrtc_rest drv mem r c fb (map_sum id Some mode) i S2)"
          using setcrtc_mode_kms [OF 1(2) 2] d by (intro setcrtc_rest_safe)
        then show ?thesis using 1 2 True c v Some kms_held [of a no_holds S1] by (simp add: drm_mode_setcrtc_def Let_def)
      qed (use 1 True c v k in \<open>simp add: drm_mode_setcrtc_def\<close>)
    next
      case False
      have "safe (setcrtc_rest drv mem r c None (Inr None) None S)"
        by (rule setcrtc_rest_safe) (simp_all add: k d)
      then show ?thesis using False True c by (auto simp: drm_mode_setcrtc_def)
    qed
  qed (use True k in \<open>auto simp: drm_mode_setcrtc_def\<close>)
qed (use k in \<open>auto simp: drm_mode_setcrtc_def\<close>)

lemma kms_event_space [simp]: "kms_ok h (use_event_space file n S) \<longleftrightarrow> kms_ok h S"
proof -
  have "refs h cl (use_event_space file n S) a = refs h cl S a" for cl a by (simp add: refs_def use_event_space_def)
  then show ?thesis by (simp add: kms_ok_def fb_inv_defs) (simp add: use_event_space_def)
qed

lemma do_page_flip_safe:
  assumes k: "kms_ok (addh (Some a) no_holds) S" and d: "good_page_flip drv" "page_flip drv = Some flip"
    and c: "c < length (crtc_list S)" "crtc_fb (crtc_list S ! c) = Some cur"
  shows "safe (do_page_flip drv mem file e c a cur flip S)"
proof -
  define S1 where "S1 = (if e then use_event_space file FLIP_EVENT_SIZE S else S)"
  have ev: "crtc_list (use_event_space file n S) = crtc_list S" for n by (simp add: use_event_space_def)
  have k1: "kms_ok (addh (Some a) no_holds) S1" and l: "crtc_list S1 = crtc_list S"
    using k by (simp_all add: S1_def ev)
  obtain ret cs where f: "flip c a (crtc_list S) = (ret, cs)" by fastforce
  have cs: "map crtc_fb cs = (if ret = 0 then (map crtc_fb (crtc_list S))[c := Some a] else map crtc_fb (crtc_list S))"
    using d(1) [unfolded good_page_flip_def, rule_format, OF d(2) c(1), of a] f by simp
  then have len: "length cs = length (crtc_list S)" by (metis length_list_update length_map)
  show ?thesis
  proof (cases "ret = 0")
    case True
    let ?cl = "map crtc_fb (crtc_list S)"
    have "?cl = take c ?cl @ Some cur # drop (Suc c) ?cl" using c id_take_nth_drop [of c ?cl] by simp
    then have "fb_inv (addh (Some a) no_holds) (take c ?cl @ Some cur # drop (Suc c) ?cl) S1"
      using k1 l by (metis kms_ok_def)
    then have "fb_inv (addh (Some cur) no_holds) (take c ?cl @ Some a # drop (Suc c) ?cl) S1"
      by (rule crtc_move) simp
    then have "fb_inv (addh (Some cur) no_holds) (map crtc_fb cs) S1" using cs True c by (simp add: upd_conv_take_nth_drop)
    then have "kms_ok (addh (Some cur) no_holds) (S1\<lparr>crtc_list := cs\<rparr>)"
      using set_crtcs_inv [of _ _ S1 cs] len l by (simp add: kms_ok_def)
    then show ?thesis
      using True f k l by (auto simp: do_page_flip_def S1_def [symmetric] Let_def safe_unreference)
  next
    case False
    then have "kms_ok (addh (Some a) no_holds) (S1\<lparr>crtc_list := cs\<rparr>)"
      using set_crtcs_inv [OF k1 [unfolded kms_ok_def], of cs] len l cs by (simp add: kms_ok_def)
    then show ?thesis
      using False f k l by (auto simp: do_page_flip_def S1_def [symmetric] Let_def safe_unreference)
  qed
qed

lemma drm_mode_page_flip_safe:
  assumes k: "kms_ok no_holds S" and d: "good_page_flip drv"
  shows "safe (drm_mode_page_flip_ioctl drv mem file r S)"
proof (cases "pf_flags r AND NOT PAGE_FLIP_FLAGS \<noteq> 0 \<or> pf_reserved r \<noteq> 0")
  case False
  show ?thesis
  proof (rule kms_find_crtc [OF k, of "pf_crtc_id r"])
    fix c
    assume c: "drm_mode_object_find S (pf_crtc_id r) OBJECT_CRTC = Some (Some (CrtcObj c))" "c < length (crtc_list S)"
    show ?thesis
    proof (cases "crtc_fb (crtc_list S ! c)")
      case None
      then show ?thesis using False c k by (simp add: drm_mode_page_flip_ioctl_def)
    next
      case (Some cur)
      show ?thesis
      proof (cases "page_flip drv")
        case None
        then show ?thesis using False c k Some by (simp add: drm_mode_page_flip_ioctl_def)
      next
        case f: (Some flip)
        obtain fb S1 where 1: "drm_framebuffer_lookup S (pf_fb_id r) = Some (fb, S1)" "kms_ok (addh fb no_holds) S1" "same_kms S S1"
          by (rule kms_lookup [OF k, of "pf_fb_id r"]) auto
        show ?thesis
        proof (cases fb)
          case None
          then show ?thesis using False c k Some f 1 by (simp add: drm_mode_page_flip_ioctl_def)
        next
          case (Some a)
          then have k1: "kms_ok (addh (Some a) no_holds) S1" and l: "crtc_list S1 = crtc_list S"
            using 1 by (simp_all add: same_kms_def)
          have cur: "use_fb S1 cur = Some (fb_objs S1 cur)"
            using kms_shown [OF k1, of c cur] c l \<open>crtc_fb (crtc_list S ! c) = Some cur\<close> by simp
          have "safe (do_page_flip drv mem file e c a cur flip S1)" for e
            using do_page_flip_safe [OF k1 d f] c l \<open>crtc_fb (crtc_list S ! c) = Some cur\<close> by simp
          then show ?thesis
            using False c k \<open>crtc_fb (crtc_list S ! c) = Some cur\<close> f 1 Some cur kms_held [OF k1]
            by (simp add: drm_mode_page_flip_ioctl_def Let_def safe_unreference [OF k1])
        qed
      qed
    qed
  qed (use False k in \<open>simp add: drm_mode_page_flip_ioctl_def\<close>)
qed (use k in \<open>auto simp: drm_mode_page_flip_ioctl_def\<close>)

section \<open>Creation\<close>

definition gets_id :: "allocs \<Rightarrow> nat \<Rightarrow> mode_config \<Rightarrow> bool" where
  "gets_id mem a S \<longleftrightarrow> fst (drm_mode_object_get mem (FbObj a) S) = 0"

lemma kms_freed:
  assumes "kms_ok h S" "freed (fb_objs S a)"
  shows "h a = 0" "fb_id (fb_objs S a) = 0" "file_ref (file_fbs S) a = 0" "a \<notin> set (file_fbs S f)"
    "count_list (map crtc_fb (crtc_list S)) (Some a) = 0" "count_list (map plane_fb (plane_list S)) (Some a) = 0"
proof -
  have z: "refs h (map crtc_fb (crtc_list S)) S a = 0" using live_iff [OF assms(1) [unfolded kms_ok_def]] assms(2) by simp
  then show "h a = 0" "fb_id (fb_objs S a) = 0" and f: "file_ref (file_fbs S) a = 0"
    and "count_list (map crtc_fb (crtc_list S)) (Some a) = 0" "count_list (map plane_fb (plane_list S)) (Some a) = 0"
    by (simp_all add: refs_def)
  show "a \<notin> set (file_fbs S f)" using f by (auto simp: file_ref_def)
qed

lemma framebuffer_init_inv:
  assumes k: "kms_ok h S" and fr: "freed (fb_objs S a)" and g: "gets_id mem a S"
  obtains S' i where "drm_framebuffer_init mem a lay S = Some (0, S')" "kms_ok (addh (Some a) h) S'" "file_fbs S' = file_fbs S"
    "fb_objs S' = (fb_objs S)(a := \<lparr>refcount = 2, fb_id = i, layout = lay, freed = False\<rparr>)" "0 < i" "i < ID_END"
    "idr_find (crtc_idr S) i = None" "idr_find (crtc_idr S') = (idr_find (crtc_idr S))(i \<mapsto> FbObj a)"
proof -
  note z = kms_freed [OF k fr]
  have v: "idr_inv (crtc_idr S)" using kms_ids [OF k] by (simp add: ids_ok_def)
  obtain x I where I: "idr_get_new_above (al_node mem) (crtc_idr S) (FbObj a) 1 = (0, x, I)"
    using g by (auto simp: gets_id_def drm_mode_object_get_def split: prod.splits)
  note r = idr_get_new_above_result [OF v I]
  obtain i where x: "x = Some i" using r by (auto simp: ID_END_def)
  have i: "0 < i" "i < ID_END" "idr_find (crtc_idr S) i = None" "idr_find I = (idr_find (crtc_idr S))(i \<mapsto> FbObj a)" "idr_inv I"
    using r x by (auto simp: ID_END_def)
  let ?ob = "\<lparr>refcount = 2, fb_id = i, layout = lay, freed = False\<rparr>"
  let ?T = "S\<lparr>fb_objs := (fb_objs S)(a := ?ob), crtc_idr := I, num_fb := num_fb S + 1, fb_list := a # fb_list S\<rparr>"
  have "drm_framebuffer_init mem a lay S = Some (0, ?T)"
    using I x by (simp add: drm_framebuffer_init_def drm_mode_object_get_def drm_framebuffer_reference_def use_fb_def upd_fb_def u32_id Let_def)
  moreover have "kms_ok (addh (Some a) h) ?T"
  proof -
    let ?cl = "map crtc_fb (crtc_list S)"
    have R: "refs (addh (Some a) h) ?cl ?T b = (if b = a then 2 else refs h ?cl S b)" for b
      using z i(1) by (auto simp: refs_def)
    have "fb_id (fb_objs S b) \<noteq> i" for b
    proof
      assume "fb_id (fb_objs S b) = i"
      then have "idr_find (crtc_idr S) i = Some (FbObj b)" using k i(1) by (simp add: kms_ok_def fb_inv_def ids_ok_def)
      then show False using i(3) by simp
    qed
    then have other: "b = a \<longleftrightarrow> fb_id (fb_objs ?T b) = i" for b by simp
    have "ids_ok ?T"
      using k i other z(2) by (auto simp: kms_ok_def fb_inv_def ids_ok_def)
    moreover have "files_ok ?T" using k i(1) by (auto simp: kms_ok_def fb_inv_def files_ok_def)
    moreover have "list_ok ?T" using k fr by (auto simp: kms_ok_def fb_inv_def list_ok_def)
    moreover have "counts_ok (addh (Some a) h) ?cl ?T"
      using k z(1) unfolding counts_ok_def R by (auto simp: kms_ok_def fb_inv_def counts_ok_def)
    ultimately show ?thesis by (simp add: kms_ok_def fb_inv_def)
  qed
  ultimately show ?thesis using that [of ?T i] i by simp
qed

lemma publish_inv:
  assumes k: "kms_ok (addh (Some a) h) S" and i: "fb_id (fb_objs S a) \<noteq> 0" and f: "\<And>f. a \<notin> set (file_fbs S f)"
  shows "kms_ok h (S\<lparr>file_fbs := (file_fbs S)(file := a # file_fbs S file)\<rparr>)" (is "kms_ok h ?T")
proof -
  let ?cl = "map crtc_fb (crtc_list S)"
  have "(\<exists>g. b \<in> set (file_fbs ?T g)) \<longleftrightarrow> b = a \<or> (\<exists>g. b \<in> set (file_fbs S g))" for b by auto
  then have "file_ref (file_fbs ?T) b = file_ref (file_fbs S) b + of_bool (b = a)" for b
    using f unfolding file_ref_def by simp
  then have R: "refs h ?cl ?T b = refs (addh (Some a) h) ?cl S b" for b by (simp add: refs_def)
  have "h b \<le> 100" for b
  proof -
    have "addh (Some a) h b \<le> 100" using k unfolding kms_ok_def fb_inv_def counts_ok_def by blast
    then show ?thesis by (simp add: addh_apply of_bool_def split: if_splits)
  qed
  then have "counts_ok h ?cl ?T" using k unfolding counts_ok_def R by (simp add: kms_ok_def fb_inv_def counts_ok_def)
  moreover have "files_ok ?T" using k i f by (auto simp: kms_ok_def fb_inv_def files_ok_def)
  ultimately show ?thesis using k by (simp add: kms_ok_def fb_inv_def ids_ok_def list_ok_def)
qed

lemma create_safe:
  assumes k: "kms_ok no_holds S" and fr: "freed (fb_objs S a)" and g: "gets_id mem a S"
  shows "\<exists>ret i S'. (do { (fb, S) \<leftarrow> intel_framebuffer_create drv mem a r S; Some (publish_fb file fb S) }) = Some (ret, i, S') \<and>
    kms_ok no_holds S'"
proof (cases "fb_create drv r")
  case None
  then show ?thesis using k by (simp add: intel_framebuffer_create_def publish_fb_def)
next
  case (Some lay)
  obtain S' i where s: "drm_framebuffer_init mem a lay S = Some (0, S')" "kms_ok (addh (Some a) no_holds) S'" "file_fbs S' = file_fbs S"
    "fb_objs S' = (fb_objs S)(a := \<lparr>refcount = 2, fb_id = i, layout = lay, freed = False\<rparr>)" "0 < i"
    by (rule framebuffer_init_inv [OF k fr g, of lay])
  have "kms_ok no_holds (S'\<lparr>file_fbs := (file_fbs S')(file := a # file_fbs S' file)\<rparr>)"
    by (rule publish_inv [OF s(2)]) (use s(3-5) kms_freed(4) [OF k fr] in auto)
  then show ?thesis using Some s(1) by (simp add: intel_framebuffer_create_def publish_fb_def)
qed

section \<open>Removal and release\<close>

lemma drm_mode_rmfb_safe:
  assumes k: "kms_ok no_holds S" and d: "good_set_config drv" and m: "al_free mem"
  shows "safe (drm_mode_rmfb drv mem file ident S)"
proof -
  obtain fb where f: "framebuffer_lookup_raw S ident = Some fb" using lookup_raw_inv [OF k [unfolded kms_ok_def]] by blast
  show ?thesis
  proof (cases "\<exists>a. fb = Some a \<and> a \<in> set (file_fbs S file)")
    case True
    then obtain a where a: "fb = Some a" "a \<in> set (file_fbs S file)" by blast
    obtain S' S1 where s: "framebuffer_unregister mem a S = Some S1"
      "drm_framebuffer_remove drv a (S1\<lparr>file_fbs := (file_fbs S1)(file := remove1 a (file_fbs S1 file))\<rparr>) = Some S'" "kms_ok no_holds S'"
      by (rule remove_entry_inv [OF k _ d m a(2)]) auto
    then show ?thesis using f a k by (simp add: drm_mode_rmfb_def Let_def)
  qed (use f k in \<open>auto simp: drm_mode_rmfb_def split: option.splits\<close>)
qed

text \<open>The whole list of a file, with what happens to the framebuffers on it and to the others.\<close>

lemma release_fbs_inv:
  assumes "kms_ok no_holds S" "good_set_config drv" "al_free mem" "file_fbs S file = as"
  shows "\<exists>S'. release_fbs drv mem file as S = Some S' \<and> kms_ok no_holds S' \<and> file_fbs S' = (file_fbs S)(file := []) \<and>
    (\<forall>b. fb_id (fb_objs S' b) = (if b \<in> set as then 0 else fb_id (fb_objs S b))) \<and>
    (\<forall>b. shown S' b \<longrightarrow> shown S b) \<and> (offs drv \<longrightarrow> (\<forall>b \<in> set as. \<not> shown S' b))"
  using assms
proof (induction as arbitrary: S)
  case (Cons a as)
  have a: "a \<in> set (file_fbs S file)" using Cons.prems(4) by simp
  obtain S2 S1 where s: "framebuffer_unregister mem a S = Some S1"
    "drm_framebuffer_remove drv a (S1\<lparr>file_fbs := (file_fbs S1)(file := remove1 a (file_fbs S1 file))\<rparr>) = Some S2" "kms_ok no_holds S2"
    "file_fbs S2 = (file_fbs S)(file := remove1 a (file_fbs S file))"
    "\<And>b. fb_id (fb_objs S2 b) = (if b = a then 0 else fb_id (fb_objs S b))" "offs drv \<Longrightarrow> \<not> shown S2 a" "\<And>b. shown S2 b \<Longrightarrow> shown S b"
    by (rule remove_entry_inv [OF Cons.prems(1) _ Cons.prems(2,3) a]) auto
  have "file_fbs S2 file = as" using s(4) Cons.prems(4) by simp
  then obtain S3 where 3: "release_fbs drv mem file as S2 = Some S3" "kms_ok no_holds S3" "file_fbs S3 = (file_fbs S2)(file := [])"
    "\<And>b. fb_id (fb_objs S3 b) = (if b \<in> set as then 0 else fb_id (fb_objs S2 b))" "\<And>b. shown S3 b \<Longrightarrow> shown S2 b"
    "\<And>b. offs drv \<Longrightarrow> b \<in> set as \<Longrightarrow> \<not> shown S3 b"
    using Cons.IH [OF s(3) Cons.prems(2,3)] by blast
  have "release_fbs drv mem file (a # as) S = Some S3" using s(1,2) 3(1) by (simp add: Let_def)
  moreover have "file_fbs S3 = (file_fbs S)(file := [])" using 3(3) s(4) by simp
  moreover have "\<forall>b. fb_id (fb_objs S3 b) = (if b \<in> set (a # as) then 0 else fb_id (fb_objs S b))" using 3(4) s(5) by simp
  moreover have "\<forall>b. shown S3 b \<longrightarrow> shown S b" using 3(5) s(7) by blast
  moreover have "offs drv \<longrightarrow> (\<forall>b \<in> set (a # as). \<not> shown S3 b)" using 3(5,6) s(6) by (metis set_ConsD)
  ultimately show ?case using 3(2) by blast
qed auto

section \<open>Commands\<close>

datatype kms_command =
    AddFB nat nat drm_mode_fb_cmd
  | AddFB2 nat nat drm_mode_fb_cmd2
  | RmFB nat u32w
  | GetFB u32w
  | DirtyFB u32w u32w u32w "bool \<times> bool"
  | SetPlane drm_mode_set_plane
  | SetCrtc drm_mode_crtc
  | PageFlip nat drm_mode_crtc_page_flip
  | CloseFile nat

text \<open>The state after a command; the result of the ioctl is dropped.\<close>

fun kms_exec :: "kms_driver \<Rightarrow> kms_command \<Rightarrow> allocs \<Rightarrow> mode_config \<Rightarrow> mode_config option" where
  "kms_exec drv (AddFB file a r) mem S = map_option (snd \<circ> snd) (drm_mode_addfb drv mem file a r S)"
| "kms_exec drv (AddFB2 file a r) mem S = map_option (snd \<circ> snd) (drm_mode_addfb2 drv mem file a r S)"
| "kms_exec drv (RmFB file ident) mem S = map_option snd (drm_mode_rmfb drv mem file ident S)"
| "kms_exec drv (GetFB ident) mem S = map_option (snd \<circ> snd) (drm_mode_getfb drv ident S)"
| "kms_exec drv (DirtyFB ident flags n clips) mem S = map_option snd (drm_mode_dirtyfb_ioctl drv mem ident flags n clips S)"
| "kms_exec drv (SetPlane r) mem S = map_option snd (drm_mode_setplane drv r S)"
| "kms_exec drv (SetCrtc r) mem S = map_option snd (drm_mode_setcrtc drv mem r S)"
| "kms_exec drv (PageFlip file r) mem S = map_option snd (drm_mode_page_flip_ioctl drv mem file r S)"
| "kms_exec drv (CloseFile file) mem S = drm_fb_release drv mem file S"

text \<open>
  What the allocators must do: memory for a framebuffer is not that of a live one, an identifier can be had for it, and
  \<^verbatim>\<open>idr_remove\<close> gets its node. Where this fails the code does not: see \<open>addfb_without_identifier\<close> and \<open>rmfb_without_node\<close>.
\<close>

fun kms_allowed :: "kms_command \<Rightarrow> allocs \<Rightarrow> mode_config \<Rightarrow> bool" where
  "kms_allowed (AddFB file a r) mem S \<longleftrightarrow> freed (fb_objs S a) \<and> gets_id mem a S"
| "kms_allowed (AddFB2 file a r) mem S \<longleftrightarrow> freed (fb_objs S a) \<and> gets_id mem a S"
| "kms_allowed (RmFB file ident) mem S \<longleftrightarrow> al_free mem"
| "kms_allowed (CloseFile file) mem S \<longleftrightarrow> al_free mem"
| "kms_allowed _ mem S \<longleftrightarrow> True"

text \<open>The state before the first framebuffer: controllers, planes and connectors are registered and off.\<close>

definition kms_start :: "mode_config \<Rightarrow> bool" where
  "kms_start S \<longleftrightarrow> idr_inv (crtc_idr S) \<and>
     (\<forall>i c. idr_find (crtc_idr S) i = Some (CrtcObj c) \<longrightarrow> c < length (crtc_list S)) \<and>
     (\<forall>i p. idr_find (crtc_idr S) i = Some (PlaneObj p) \<longrightarrow> p < length (plane_list S)) \<and>
     (\<forall>i a. idr_find (crtc_idr S) i \<noteq> Some (FbObj a)) \<and>
     (\<forall>a. freed (fb_objs S a) \<and> fb_id (fb_objs S a) = 0) \<and> fb_list S = [] \<and> num_fb S = 0 \<and> (\<forall>f. file_fbs S f = []) \<and>
     (\<forall>c \<in> set (crtc_list S). crtc_fb c = None) \<and> (\<forall>p \<in> set (plane_list S). plane_fb p = None) \<and>
     length (crtc_list S) + length (plane_list S) < 1000000"

inductive kms_reachable :: "kms_driver \<Rightarrow> mode_config \<Rightarrow> bool" for drv where
  start: "kms_start S \<Longrightarrow> kms_reachable drv S"
| step: "kms_reachable drv S \<Longrightarrow> kms_allowed cmd mem S \<Longrightarrow> kms_exec drv cmd mem S = Some S' \<Longrightarrow> kms_reachable drv S'"

inductive_cases kms_reachable_cases: "kms_reachable drv S"

lemma kms_start_ok: "kms_start S \<Longrightarrow> kms_ok no_holds S"
proof -
  assume s: "kms_start S"
  have "count_list (map crtc_fb (crtc_list S)) (Some a) = 0" "count_list (map plane_fb (plane_list S)) (Some a) = 0" for a
    using s by (force simp: kms_start_def count_list_0_iff)+
  then have "refs no_holds (map crtc_fb (crtc_list S)) S a = 0" for a
    using s by (simp add: refs_def kms_start_def file_ref_def)
  then show ?thesis using s by (simp add: kms_ok_def fb_inv_defs kms_start_def)
qed

lemma safe_map: "safe res \<Longrightarrow> \<exists>S'. map_option snd res = Some S' \<and> kms_ok no_holds S'"
  by (auto simp: safe_def)

lemma kms_exec_safe:
  assumes k: "kms_ok no_holds S" and d: "good_set_config drv" "good_page_flip drv" and a: "kms_allowed cmd mem S"
  shows "\<exists>S'. kms_exec drv cmd mem S = Some S' \<and> kms_ok no_holds S'"
proof (cases cmd)
  case (AddFB f a r)
  then have "\<exists>ret i S'. drm_mode_addfb drv mem f a r S = Some (ret, i, S') \<and> kms_ok no_holds S'"
    using create_safe [OF k, of a mem drv _ f] assms(4) k by (auto simp: drm_mode_addfb_def Let_def)
  then show ?thesis using AddFB by auto
next
  case (AddFB2 f a r)
  then have "\<exists>ret i S'. drm_mode_addfb2 drv mem f a r S = Some (ret, i, S') \<and> kms_ok no_holds S'"
    using create_safe [OF k, of a mem drv r f] assms(4) k by (auto simp: drm_mode_addfb2_def)
  then show ?thesis using AddFB2 by auto
next
  case (RmFB f ident)
  then show ?thesis using safe_map [OF drm_mode_rmfb_safe [OF k d(1)]] a by simp
next
  case (GetFB ident)
  then show ?thesis using drm_mode_getfb_safe [OF k, of drv ident] by auto
next
  case (DirtyFB ident flags n clips)
  then show ?thesis using safe_map [OF drm_mode_dirtyfb_safe [OF k]] by simp
next
  case (SetPlane r)
  then show ?thesis using safe_map [OF drm_mode_setplane_safe [OF k]] by simp
next
  case (SetCrtc r)
  then show ?thesis using safe_map [OF drm_mode_setcrtc_safe [OF k d(1)]] by simp
next
  case (PageFlip f r)
  then show ?thesis using safe_map [OF drm_mode_page_flip_safe [OF k d(2)]] by simp
next
  case (CloseFile f)
  then show ?thesis using release_fbs_inv [OF k d(1), of mem f "file_fbs S f"] a by (auto simp: drm_fb_release_def)
qed

lemma kms_reachable_ok:
  assumes "kms_reachable drv S" "good_set_config drv" "good_page_flip drv"
  shows "kms_ok no_holds S"
  using assms(1)
proof (induction rule: kms_reachable.induct)
  case (step S cmd mem S')
  then show ?case using kms_exec_safe [OF step.IH assms(2,3) step.hyps(2)] by auto
qed (rule kms_start_ok)

section \<open>What the ioctls achieve\<close>

lemma lookup_fb_id: "drm_framebuffer_lookup S ident = Some (Some a, S') \<Longrightarrow> fb_id (fb_objs S a) = uint ident"
  by (auto simp: drm_framebuffer_lookup_def framebuffer_lookup_raw_def drm_mode_object_find_def use_fb_def
      split: option.splits mode_object.splits if_splits bind_splits)

lemma u32_word_le_sub:
  assumes "\<not> w > (z :: u32w)" "\<not> x > z - w"
  shows "uint x + uint w \<le> uint z"
proof -
  have "uint (z - w) = uint z - uint w" using assms(1) by (simp add: uint_sub_lem [THEN iffD1] word_le_def not_less)
  then show ?thesis using assms(2) by (simp add: word_le_def not_less)
qed

lemma uint_push_16: "uint w < 65536 \<Longrightarrow> uint (push_bit 16 w :: u32w) = uint w * 65536"
  by (simp add: push_bit_eq_mult uint_word_ariths take_bit_eq_mod)

lemma sint_small: "uint (w :: u32w) \<le> INT_MAX \<Longrightarrow> sint w = uint w"
  using signed_take_bit_int_eq_self [of 31 "uint w"] unsigned_greater_eq [of w, where 'a = int]
  by (simp add: sint_uint INT_MAX_def)

definition plane_inside :: "drm_fb \<Rightarrow> drm_mode_set_plane \<Rightarrow> bool" where
  "plane_inside lay r \<longleftrightarrow>
     uint (sp_src_x r) + uint (sp_src_w r) \<le> uint (fb_width lay) * 65536 \<and>
     uint (sp_src_y r) + uint (sp_src_h r) \<le> uint (fb_height lay) * 65536 \<and>
     sp_crtc_x r + uint (sp_crtc_w r) \<le> INT_MAX \<and> sp_crtc_y r + uint (sp_crtc_h r) \<le> INT_MAX"

lemma plane_checks_bounds:
  assumes c: "plane_checks lay plane r = 0" and s: "uint (fb_width lay) < 65536" "uint (fb_height lay) < 65536"
  shows "fb_pixel_format lay \<in> set (format_types plane) \<and> plane_inside lay r"
proof -
  let ?w = "push_bit 16 (fb_width lay)" and ?h = "push_bit 16 (fb_height lay)"
  have f: "fb_pixel_format lay \<in> set (format_types plane)" "\<not> sp_src_w r > ?w" "\<not> sp_src_x r > ?w - sp_src_w r"
    "\<not> sp_src_h r > ?h" "\<not> sp_src_y r > ?h - sp_src_h r"
    "uint (sp_crtc_w r) \<le> INT_MAX" "sp_crtc_x r \<le> INT_MAX - sint (sp_crtc_w r)"
    "uint (sp_crtc_h r) \<le> INT_MAX" "sp_crtc_y r \<le> INT_MAX - sint (sp_crtc_h r)"
    using c unfolding plane_checks_def Let_def by (simp_all add: errno_defs split: if_split_asm)
  show ?thesis
    using f(1) u32_word_le_sub [OF f(2,3)] u32_word_le_sub [OF f(4,5)] f(6-9)
    by (simp add: plane_inside_def uint_push_16 s sint_small)
qed

definition viewport_inside :: "drm_fb \<Rightarrow> bool \<Rightarrow> drm_display_mode \<Rightarrow> int \<Rightarrow> int \<Rightarrow> bool" where
  "viewport_inside lay invert m x y \<longleftrightarrow>
     (let (w, h) = (if invert then (vdisplay m, hdisplay m) else (hdisplay m, vdisplay m))
      in x + w \<le> uint (fb_width lay) \<and> y + h \<le> uint (fb_height lay))"

lemma viewport_fits_inside:
  assumes "viewport_fits lay invert m x y" "0 \<le> x" "x \<le> INT_MAX" "0 \<le> y" "y \<le> INT_MAX"
    and "0 \<le> hdisplay m" "hdisplay m \<le> INT_MAX" "0 \<le> vdisplay m" "vdisplay m \<le> INT_MAX"
  shows "viewport_inside lay invert m x y"
proof -
  have one: "x + w \<le> uint z" if "0 \<le> w" "w \<le> INT_MAX" "\<not> u32 w > uint z" "\<not> u32 x > u32 (uint z - w)" "0 \<le> x" "x \<le> INT_MAX"
    for x w and z :: u32w
  proof -
    have w: "u32 w = w" "u32 x = x" using that by (simp_all add: u32_id INT_MAX_def)
    moreover have "u32 (uint z - w) = uint z - w"
      using that w unsigned_less [of z, where 'a = int] by (intro u32_id) (auto simp: INT_MAX_def)
    ultimately show ?thesis using that by simp
  qed
  show ?thesis
    using assms one by (cases invert) (auto simp: viewport_fits_def viewport_inside_def Let_def)
qed

lemma find_sint: "kms_ok h S \<Longrightarrow> drm_mode_object_find S ident ty = Some (Some ob) \<Longrightarrow> idr_find (crtc_idr S) (sint ident) = Some ob"
  using find_inv [of h "map crtc_fb (crtc_list S)" S ident ty] by (auto simp: kms_ok_def)

text \<open>
  C10: A successful \<^verbatim>\<open>SETPLANE\<close> shows the framebuffer of the request on the plane and changes no other plane and no
  controller; the part of the framebuffer that is scanned out lies inside it, and the target does not leave the coordinates.
\<close>

theorem drm_mode_setplane_correct:
  assumes k: "kms_ok (\<lambda>_. 0) S" and e: "drm_mode_setplane drv r S = Some (0, S')" and nz: "sp_fb_id r \<noteq> 0"
    and small: "\<And>a. fb_id (fb_objs S a) = uint (sp_fb_id r) \<Longrightarrow>
      uint (fb_width (layout (fb_objs S a))) < 65536 \<and> uint (fb_height (layout (fb_objs S a))) < 65536"
  shows "\<exists>p c a. idr_find (crtc_idr S) (sint (sp_plane_id r)) = Some (PlaneObj p) \<and>
    idr_find (crtc_idr S) (sint (sp_crtc_id r)) = Some (CrtcObj c) \<and> fb_id (fb_objs S a) = uint (sp_fb_id r) \<and>
    plane_list S' = (plane_list S)[p := (plane_list S ! p)\<lparr>plane_crtc := Some c, plane_fb := Some a\<rparr>] \<and>
    crtc_list S' = crtc_list S \<and> plane_inside (layout (fb_objs S a)) r"
proof -
  have m: "modeset S" using e by (auto simp: drm_mode_setplane_def errno_defs split: if_splits)
  obtain p where p: "drm_mode_object_find S (sp_plane_id r) OBJECT_PLANE = Some (Some (PlaneObj p))" "p < length (plane_list S)"
    by (rule kms_find_plane [OF k, of "sp_plane_id r"]) (use e m in \<open>auto simp: drm_mode_setplane_def errno_defs\<close>)
  obtain c where c: "drm_mode_object_find S (sp_crtc_id r) OBJECT_CRTC = Some (Some (CrtcObj c))"
    by (rule kms_find_crtc [OF k, of "sp_crtc_id r"]) (use e m p nz in \<open>auto simp: drm_mode_setplane_def errno_defs\<close>)
  obtain fb S1 where 1: "drm_framebuffer_lookup S (sp_fb_id r) = Some (fb, S1)" "kms_ok (addh fb no_holds) S1" "same_kms S S1"
    by (rule kms_lookup [OF k, of "sp_fb_id r"]) auto
  obtain a where a: "fb = Some a"
    using e m p nz c 1 by (cases fb) (auto simp: drm_mode_setplane_def errno_defs)
  have k1: "kms_ok (addh (Some a) no_holds) S1" and l: "plane_list S1 = plane_list S"
    and lay: "layout (fb_objs S1 a) = layout (fb_objs S a)"
    using 1 a by (simp_all add: same_kms_def)
  let ?T = "upd_plane p (\<lambda>pl. pl\<lparr>plane_crtc := Some c, plane_fb := Some a\<rparr>) S1"
  have "kms_ok (addh (plane_fb (plane_list S1 ! p)) no_holds) ?T" by (intro kms_plane_move [OF k1]) (simp_all add: p l)
  then obtain U where U: "unreference_opt (plane_fb (plane_list S1 ! p)) ?T = Some U" "same_kms ?T U"
    by (rule kms_unreference) blast
  obtain V where V: "drm_framebuffer_unreference a S1 = Some V" using kms_unreference_Some [OF k1] by blast
  have "plane_checks (layout (fb_objs S a)) (plane_list S ! p) r = 0 \<and> S' = U"
    using e m p nz c 1 a U V kms_held [OF k1] l lay
    by (simp add: drm_mode_setplane_def Let_def split: if_split_asm)
  then show ?thesis
    using plane_checks_bounds [of _ "plane_list S ! p"] small [of a] find_sint [OF k p(1)] find_sint [OF k c]
      lookup_fb_id [of S "sp_fb_id r" a S1] 1 a U l
    by (intro exI [of _ p] exI [of _ c] exI [of _ a]) (simp add: same_kms_def)
qed


lemma crtcinfo_display [simp]:
  "hdisplay (drm_mode_set_crtcinfo m b) = hdisplay m" "vdisplay (drm_mode_set_crtcinfo m b) = vdisplay m"
  by (simp_all add: drm_mode_set_crtcinfo_def scale_v_def Let_def)

lemma setcrtc_mode_Inr:
  assumes e: "setcrtc_mode mem c lay r S = (Inr m, i, S1)"
  shows "viewport_fits lay (invert_dimensions (crtc_list S ! c)) m (uint (cr_x r)) (uint (cr_y r)) \<and> crtc_list S1 = crtc_list S \<and>
    hdisplay m = uint (u_hdisplay (cr_mode r)) \<and> vdisplay m = uint (u_vdisplay (cr_mode r))"
proof -
  obtain ge gi G where g: "(if al_mode mem then drm_mode_object_get mem ModeObj S else (- ENOMEM, None, S)) = (ge, gi, G)"
    by (metis prod_cases3)
  have cl: "crtc_list G = crtc_list S"
    using g by (auto simp: drm_mode_object_get_def split: if_split_asm prod.splits)
  obtain m0 where m0: "drm_mode_create (map_option nat gi) = Some m0"
    using e unfolding setcrtc_mode_def g by (cases "drm_mode_create (map_option nat gi)") auto
  obtain cr m1 where cv: "drm_crtc_convert_umode m0 (cr_mode r) = (cr, m1)" by fastforce
  have "cr = 0 \<and> m = drm_mode_set_crtcinfo m1 True \<and> S1 = G \<and>
      viewport_fits lay (invert_dimensions (crtc_list G ! c)) m (uint (cr_x r)) (uint (cr_y r))"
    using e m0 by (auto simp only: setcrtc_mode_def g Let_def prod.case option.case prod.inject cv split: if_split_asm)
  moreover have "cr = 0 \<Longrightarrow> hdisplay m1 = uint (u_hdisplay (cr_mode r)) \<and> vdisplay m1 = uint (u_vdisplay (cr_mode r))"
    using cv by (auto simp: drm_crtc_convert_umode_def errno_defs split: if_split_asm)
  ultimately show ?thesis using cl by auto
qed

lemma find_connectors_error: "find_connectors S user is = Some (Inl e) \<Longrightarrow> e \<noteq> 0"
proof (induction "is")
  case (Cons i "is")
  then show ?case by (auto simp: errno_defs split: option.splits sum.splits bind_splits)
qed simp

lemma setcrtc_connectors_error: "setcrtc_connectors mem r b S = Some (Inl e) \<Longrightarrow> e \<noteq> 0"
  using find_connectors_error by (auto simp: setcrtc_connectors_def errno_defs split: if_splits)

lemma setcrtc_rest_shows:
  assumes k: "kms_ok (addh fb no_holds) S" and d: "good_set_config drv" and c: "c < length (crtc_list S)"
    and m: "\<And>ident. i = Some ident \<Longrightarrow> idr_find (crtc_idr S) ident = Some ModeObj"
    and e: "setcrtc_rest drv mem r c fb (Inr mo) i S = Some (0, S')"
  shows "crtc_fb (crtc_list S' ! c) = fb \<and> length (crtc_list S') = length (crtc_list S) \<and>
    (\<forall>n < length (crtc_list S). crtc_fb (crtc_list S' ! n) \<in> {crtc_fb (crtc_list S ! n), None, fb})"
proof -
  obtain res where res: "setcrtc_connectors mem r (mo \<noteq> None) S = Some res"
    using setcrtc_connectors_total [OF k] by blast
  obtain ns where ns: "res = Inr ns"
  proof (cases res)
    case (Inl err)
    then have "err = 0" using e res by (auto simp: setcrtc_rest_def split: bind_splits)
    then show ?thesis using res Inl setcrtc_connectors_error by blast
  qed blast
  let ?st = "\<lparr>set_fb = fb, set_crtc = c, set_mode = mo, set_x = cr_x r, set_y = cr_y r, set_connectors = ns\<rparr>"
  have held: "0 < addh fb no_holds b" if "set_fb ?st = Some b" for b using that by (simp add: addh_apply)
  obtain ret cs where sc: "set_config drv ?st (crtc_list S) = (ret, cs)" by fastforce
  obtain T where T: "drm_mode_set_config_internal drv ?st S = Some (ret, T)"
    "kms_ok (addh fb no_holds) T" "same_kms (S\<lparr>crtc_list := cs\<rparr>) T"
    by (rule set_config_internal_inv [where st = ?st, OF k _ d held]) (auto simp: sc)
  have g: "length cs = length (crtc_list S)"
    "\<And>n. n < length cs \<Longrightarrow> crtc_fb (cs ! n) = crtc_fb (crtc_list S ! n) \<or> crtc_fb (cs ! n) = None \<or> crtc_fb (cs ! n) = fb"
    "ret = 0 \<Longrightarrow> crtc_fb (cs ! c) = fb"
    using d [unfolded good_set_config_def, THEN spec, THEN spec, of "crtc_list S" ?st] sc c by auto
  obtain U where U: "unreference_opt fb T = Some U" "same_kms T U" "kms_ok no_holds U"
    using kms_unreference [OF T(2)] by metis
  have "\<exists>W. drm_mode_destroy mem i U = Some W \<and> crtc_list W = crtc_list U"
  proof (cases i)
    case (Some ident)
    have v: "idr_inv (crtc_idr U)" using kms_ids [OF U(3)] by (simp add: ids_ok_def)
    show ?thesis using idr_remove_result [OF v, of "al_free mem" ident] Some
      by (auto simp: drm_mode_destroy_def drm_mode_object_put_def)
  qed (simp add: drm_mode_destroy_def)
  then obtain W where W: "drm_mode_destroy mem i U = Some W" "crtc_list W = crtc_list U" by blast
  have "ret = 0 \<and> S' = W" using e res ns T U W by (simp add: setcrtc_rest_def)
  then show ?thesis using W(2) U(2) T(3) g by (auto simp: same_kms_def)
qed

lemma setcrtc_fb_finds:
  assumes e: "setcrtc_fb c ident S = Some (Some a, S1)" and c: "kms_ok no_holds S"
  shows "if ident = - 1 then crtc_fb (crtc_list S ! c) = Some a else fb_id (fb_objs S a) = uint ident"
    and "crtc_list S1 = crtc_list S" "layout (fb_objs S1 a) = layout (fb_objs S a)"
proof -
  show "if ident = - 1 then crtc_fb (crtc_list S ! c) = Some a else fb_id (fb_objs S a) = uint ident"
    using e lookup_fb_id [of S ident a S1] by (auto simp: setcrtc_fb_def split: if_split_asm option.splits bind_splits)
  have r: "drm_framebuffer_reference b S = Some S1 \<Longrightarrow> crtc_list S1 = crtc_list S \<and> layout (fb_objs S1 a) = layout (fb_objs S a)" for b
    by (auto simp: drm_framebuffer_reference_def upd_fb_def split: bind_splits)
  then show "crtc_list S1 = crtc_list S" "layout (fb_objs S1 a) = layout (fb_objs S a)"
    using e by (auto simp: setcrtc_fb_def drm_framebuffer_lookup_def split: if_split_asm option.splits bind_splits)
qed

text \<open>
  C11: A successful \<^verbatim>\<open>SETCRTC\<close> with a mode shows the requested framebuffer on the controller, the current one for the
  number -1; position and size of the mode lie inside the framebuffer, and other controllers keep theirs, are turned off or
  show the same framebuffer.
\<close>

theorem drm_mode_setcrtc_correct:
  assumes k: "kms_ok (\<lambda>_. 0) S" and d: "good_set_config drv" and v: "cr_mode_valid r"
    and e: "drm_mode_setcrtc drv mem r S = Some (0, S')"
  shows "\<exists>c a. idr_find (crtc_idr S) (sint (cr_crtc_id r)) = Some (CrtcObj c) \<and> c < length (crtc_list S) \<and>
    crtc_fb (crtc_list S' ! c) = Some a \<and>
    (if cr_fb_id r = - 1 then crtc_fb (crtc_list S ! c) = Some a else fb_id (fb_objs S a) = uint (cr_fb_id r)) \<and>
    (let (w, h) = (if invert_dimensions (crtc_list S ! c) then (u_vdisplay (cr_mode r), u_hdisplay (cr_mode r))
                   else (u_hdisplay (cr_mode r), u_vdisplay (cr_mode r)))
     in uint (cr_x r) + uint w \<le> uint (fb_width (layout (fb_objs S a))) \<and>
        uint (cr_y r) + uint h \<le> uint (fb_height (layout (fb_objs S a)))) \<and>
    (\<forall>n < length (crtc_list S). crtc_fb (crtc_list S' ! n) \<in> {crtc_fb (crtc_list S ! n), None, Some a})"
proof -
  have m: "modeset S" and xy: "uint (cr_x r) \<le> INT_MAX" "uint (cr_y r) \<le> INT_MAX"
    using e by (auto simp: drm_mode_setcrtc_def errno_defs split: if_splits)
  then have ok: "\<not> (uint (cr_x r) > INT_MAX \<or> uint (cr_y r) > INT_MAX)" by simp
  obtain c where c: "drm_mode_object_find S (cr_crtc_id r) OBJECT_CRTC = Some (Some (CrtcObj c))" "c < length (crtc_list S)"
    by (rule kms_find_crtc [OF k, of "cr_crtc_id r"]) (use e m ok in \<open>auto simp: drm_mode_setcrtc_def errno_defs\<close>)
  obtain fb S1 where 1: "setcrtc_fb c (cr_fb_id r) S = Some (fb, S1)" "kms_ok (addh fb no_holds) S1"
    using setcrtc_fb_kms [OF k c(2)] .
  obtain a where a: "fb = Some a"
    using e m ok c v 1 by (cases fb) (auto simp: drm_mode_setcrtc_def errno_defs)
  have k1: "kms_ok (addh (Some a) no_holds) S1" using 1 a by simp
  note fa = setcrtc_fb_finds [OF 1(1) [unfolded a] k]
  obtain mode i S2 where 2: "setcrtc_mode mem c (layout (fb_objs S1 a)) r S1 = (mode, i, S2)" by (metis prod_cases3)
  have rest: "setcrtc_rest drv mem r c (Some a) (map_sum id Some mode) i S2 = Some (0, S')"
    using e m ok c v 1 a 2 kms_held [OF k1] by (simp add: drm_mode_setcrtc_def Let_def)
  note s2 = setcrtc_mode_kms [OF k1 2]
  obtain mo where mo: "mode = Inr mo"
  proof (cases mode)
    case (Inl err)
    obtain U where U: "unreference_opt (Some a) S2 = Some U" "kms_ok no_holds U" "same_kms S2 U" using kms_unreference [OF s2(1)] .
    have "err = 0" using rest Inl U by (auto simp: setcrtc_rest_def split: bind_splits)
    moreover have "err \<noteq> 0"
    proof -
      obtain ge gi G where g: "(if al_mode mem then drm_mode_object_get mem ModeObj S1 else (- ENOMEM, None, S1)) = (ge, gi, G)"
        by (metis prod_cases3)
      show ?thesis using 2 Inl unfolding setcrtc_mode_def g
        by (auto simp: Let_def errno_defs split: option.splits prod.splits if_split_asm)
    qed
    ultimately show ?thesis by simp
  qed blast
  note mi = setcrtc_mode_Inr [OF 2 [unfolded mo]]
  have "c < length (crtc_list S2)" using c(2) mi fa(2) by simp
  from setcrtc_rest_shows [OF s2(1) d this s2(2) rest [unfolded mo map_sum.simps]]
  have shows': "crtc_fb (crtc_list S' ! c) = Some a"
    "\<forall>n < length (crtc_list S). crtc_fb (crtc_list S' ! n) \<in> {crtc_fb (crtc_list S ! n), None, Some a}"
    using mi fa(2) by simp_all
  have small: "uint (u_hdisplay (cr_mode r)) \<le> INT_MAX" "uint (u_vdisplay (cr_mode r)) \<le> INT_MAX"
    using unsigned_less [of "u_hdisplay (cr_mode r)", where 'a = int] unsigned_less [of "u_vdisplay (cr_mode r)", where 'a = int]
    by (simp_all add: INT_MAX_def)
  have "viewport_inside (layout (fb_objs S a)) (invert_dimensions (crtc_list S ! c)) mo (uint (cr_x r)) (uint (cr_y r))"
    using mi fa(2,3) xy small by (intro viewport_fits_inside) auto
  then show ?thesis
    using find_sint [OF k c(1)] c(2) shows' fa(1) mi
    by (intro exI [of _ c] exI [of _ a]) (auto simp: viewport_inside_def Let_def split: if_splits)
qed

section \<open>A small device\<close>

text \<open>One controller, one plane and a driver that does what it is asked; two framebuffers, the first one shown.\<close>

fun kms_run :: "kms_driver \<Rightarrow> (kms_command \<times> allocs) list \<Rightarrow> mode_config \<Rightarrow> mode_config option" where
  "kms_run drv [] S = Some S"
| "kms_run drv ((cmd, mem) # cs) S =
     (if kms_allowed cmd mem S then (case kms_exec drv cmd mem S of None \<Rightarrow> None | Some S' \<Rightarrow> kms_run drv cs S') else None)"

lemma kms_run_reachable: "kms_reachable drv S \<Longrightarrow> kms_run drv cs S = Some S' \<Longrightarrow> kms_reachable drv S'"
  by (induction drv cs S rule: kms_run.induct) (auto split: if_splits option.splits intro: kms_reachable.step)

definition demo_fb :: drm_fb where
  "demo_fb = \<lparr>fb_width = 800, fb_height = 600, fb_pitches = [3200, 0, 0, 0], fb_offsets = [0, 0, 0, 0], fb_depth = 24,
     fb_bits_per_pixel = 32, fb_pixel_format = 0x34325258\<rparr>"

definition demo_drv :: kms_driver where
  "demo_drv = \<lparr>fb_create = (\<lambda>r. Some demo_fb), create_handle = Some (\<lambda>a. 0), dirty = None,
     set_config = (\<lambda>st cs. (0, cs[set_crtc st := (cs ! set_crtc st)\<lparr>crtc_fb := set_fb st\<rparr>])),
     update_plane = (\<lambda>p c a r. 0), disable_plane = (\<lambda>p. 0),
     page_flip = Some (\<lambda>c a cs. (0, cs[c := (cs ! c)\<lparr>crtc_fb := Some a\<rparr>]))\<rparr>"

lemma demo_drv_good: "good_set_config demo_drv" "good_page_flip demo_drv" "offs demo_drv"
proof -
  have set_fb_nth: "crtc_fb (cs[k := (cs ! k)\<lparr>crtc_fb := x\<rparr>] ! i) = (if i = k then x else crtc_fb (cs ! i))"
    if "i < length cs" for cs k x i
    using that by (cases "i = k") auto
  show "good_set_config demo_drv" by (simp add: demo_drv_def good_set_config_def set_fb_nth)
qed (auto simp: demo_drv_def good_page_flip_def offs_def map_update)

definition demo_mem :: allocs where
  "demo_mem = \<lparr>al_node = True, al_free = True, al_mode = True, al_array = True, al_event = True\<rparr>"

definition demo_start :: mode_config where
  "demo_start = \<lparr>modeset = True, min_width = 0, max_width = 8192, min_height = 0, max_height = 8192, num_connector = 1,
     fb_objs = (\<lambda>_. \<lparr>refcount = 0, fb_id = 0, layout = demo_fb, freed = True\<rparr>),
     crtc_idr = \<lparr>used_ids = [(1, CrtcObj 0), (2, PlaneObj 0), (3, ConnectorObj 0)], free_id_ranges = [(fr_new 0)\<lparr>min_unused_id := 4\<rparr>]\<rparr>,
     fb_list = [], num_fb = 0,
     crtc_list = [\<lparr>crtc_fb = None, crtc_x = 0, crtc_y = 0, crtc_mode = zero_mode 0, invert_dimensions = False\<rparr>],
     plane_list = [\<lparr>plane_fb = None, plane_crtc = None, format_types = [0x34325258]\<rparr>],
     file_fbs = (\<lambda>_. []), file_event_space = (\<lambda>_. 4096)\<rparr>"

lemma demo_start_ok: "kms_start demo_start"
  by (auto simp: kms_start_def demo_start_def idr_inv_def idr_find_def used_keys_def fr_new_def range_ok_def issued_by_def ID_END_def
      split: if_splits)

definition demo_req :: drm_mode_fb_cmd where
  "demo_req = \<lparr>o_fb_id = 0, o_width = 800, o_height = 600, o_pitch = 3200, o_bpp = 32, o_depth = 24, o_handle = 1\<rparr>"

definition demo_crtc :: drm_mode_crtc where
  "demo_crtc = \<lparr>cr_connectors = (\<lambda>_. Some 3), cr_count = 1, cr_crtc_id = 1, cr_fb_id = 4, cr_x = 0, cr_y = 0, cr_mode_valid = True,
     cr_mode = \<lparr>u_clock = 40000, u_hdisplay = 800, u_hsync_start = 840, u_hsync_end = 968, u_htotal = 1056, u_hskew = 0,
       u_vdisplay = 600, u_vsync_start = 601, u_vsync_end = 605, u_vtotal = 628, u_vscan = 0, u_vrefresh = 60, u_flags = 0, u_type = 0,
       u_name = ''800x600''\<rparr>\<rparr>"

definition demo_fbs :: mode_config where
  "demo_fbs = the (kms_run demo_drv [(AddFB 7 10 demo_req, demo_mem), (AddFB 7 11 demo_req, demo_mem)] demo_start)"

definition demo_shown :: mode_config where
  "demo_shown = the (kms_exec demo_drv (SetCrtc demo_crtc) demo_mem demo_fbs)"

lemma demo_fbs_run: "kms_run demo_drv [(AddFB 7 10 demo_req, demo_mem), (AddFB 7 11 demo_req, demo_mem)] demo_start = Some demo_fbs"
proof -
  have "kms_run demo_drv [(AddFB 7 10 demo_req, demo_mem), (AddFB 7 11 demo_req, demo_mem)] demo_start \<noteq> None" by code_simp
  then show ?thesis unfolding demo_fbs_def by simp
qed

lemma demo_shown_run: "kms_exec demo_drv (SetCrtc demo_crtc) demo_mem demo_fbs = Some demo_shown"
proof -
  have "kms_exec demo_drv (SetCrtc demo_crtc) demo_mem demo_fbs \<noteq> None" by code_simp
  then show ?thesis unfolding demo_shown_def by simp
qed

lemma demo_reachable: "kms_reachable demo_drv demo_fbs" "kms_reachable demo_drv demo_shown"
proof -
  show f: "kms_reachable demo_drv demo_fbs" using kms_run_reachable [OF kms_reachable.start [OF demo_start_ok] demo_fbs_run] .
  show "kms_reachable demo_drv demo_shown" by (rule kms_reachable.step [OF f _ demo_shown_run]) simp
qed

lemma demo_ok: "kms_ok no_holds demo_fbs" "kms_ok no_holds demo_shown"
  using demo_reachable kms_reachable_ok demo_drv_good by blast+


section \<open>Properties\<close>









definition demo_plane :: drm_mode_set_plane where
  "demo_plane = \<lparr>sp_plane_id = 2, sp_crtc_id = 1, sp_fb_id = 5, sp_crtc_x = - 10, sp_crtc_y = 20, sp_crtc_w = 100, sp_crtc_h = 100,
     sp_src_x = 0x2bc0000, sp_src_y = 0, sp_src_h = 0x640000, sp_src_w = 0x640000\<rparr>"


lemma demo_ids: "idr_find (crtc_idr demo_shown) 5 = Some (FbObj 11) \<and> idr_find (crtc_idr demo_shown) 2 = Some (PlaneObj 0) \<and>
    idr_find (crtc_idr demo_shown) 1 = Some (CrtcObj 0) \<and> layout (fb_objs demo_shown 11) = demo_fb \<and>
    length (plane_list demo_shown) = 1 \<and> length (crtc_list demo_shown) = 1 \<and> sint (4 :: u32w) = 4 \<and> sint (5 :: u32w) = 5"
  by code_simp

lemma demo_fb_id: "fb_id (fb_objs demo_shown a) = 5 \<longleftrightarrow> a = 11"
proof -
  have "idr_find (crtc_idr demo_shown) 5 = Some (FbObj a) \<longleftrightarrow> fb_id (fb_objs demo_shown a) = 5"
    using kms_ids [OF demo_ok(2)] by (simp add: ids_ok_def)
  then show ?thesis using demo_ids by auto
qed

theorem drm_mode_setplane_witness:
  "\<exists>S' p c. drm_mode_setplane demo_drv demo_plane demo_shown = Some (0, S') \<and>
     plane_list S' = (plane_list demo_shown)[p := (plane_list demo_shown ! p)\<lparr>plane_crtc := Some c, plane_fb := Some 11\<rparr>] \<and>
     plane_inside demo_fb demo_plane"
proof -
  have "case drm_mode_setplane demo_drv demo_plane demo_shown of Some (ret, S') \<Rightarrow> ret = 0 | None \<Rightarrow> False" by code_simp
  then obtain S' where S': "drm_mode_setplane demo_drv demo_plane demo_shown = Some (0, S')" by (auto split: option.splits prod.splits)
  have r: "sp_fb_id demo_plane = 5" by (simp add: demo_plane_def)
  have l: "fb_id (fb_objs demo_shown a) = uint (sp_fb_id demo_plane) \<Longrightarrow> layout (fb_objs demo_shown a) = demo_fb" for a
    using demo_fb_id demo_ids r by simp
  have "fb_id (fb_objs demo_shown a) = uint (sp_fb_id demo_plane) \<Longrightarrow> uint (fb_width (layout (fb_objs demo_shown a))) < 65536 \<and>
      uint (fb_height (layout (fb_objs demo_shown a))) < 65536" for a
    using l [of a] by (simp add: demo_fb_def)
  from drm_mode_setplane_correct [OF demo_ok(2) S' _ this] r
  obtain p c a where a: "fb_id (fb_objs demo_shown a) = uint (sp_fb_id demo_plane)"
    "plane_list S' = (plane_list demo_shown)[p := (plane_list demo_shown ! p)\<lparr>plane_crtc := Some c, plane_fb := Some a\<rparr>]"
    "plane_inside (layout (fb_objs demo_shown a)) demo_plane"
    by auto
  then have "a = 11" using demo_fb_id r by simp
  then show ?thesis using S' a l [OF a(1)] by auto
qed


theorem drm_mode_setcrtc_witness:
  "\<exists>S'. drm_mode_setcrtc demo_drv demo_mem demo_crtc demo_fbs = Some (0, S') \<and> crtc_fb (crtc_list S' ! 0) = Some 10"
proof -
  have "case drm_mode_setcrtc demo_drv demo_mem demo_crtc demo_fbs of Some (ret, S') \<Rightarrow> ret = 0 | None \<Rightarrow> False" by code_simp
  then obtain S' where S': "drm_mode_setcrtc demo_drv demo_mem demo_crtc demo_fbs = Some (0, S')"
    by (auto split: option.splits prod.splits)
  have d: "cr_mode_valid demo_crtc" "cr_fb_id demo_crtc = 4" by (simp_all add: demo_crtc_def)
  have i: "idr_find (crtc_idr demo_fbs) 4 = Some (FbObj 10) \<and> length (crtc_list demo_fbs) = 1 \<and> (4 :: u32w) \<noteq> - 1" by code_simp
  from drm_mode_setcrtc_correct [OF demo_ok(1) demo_drv_good(1) d(1) S']
  obtain c a where c: "c < length (crtc_list demo_fbs)" "crtc_fb (crtc_list S' ! c) = Some a"
    "if cr_fb_id demo_crtc = - 1 then crtc_fb (crtc_list demo_fbs ! c) = Some a else fb_id (fb_objs demo_fbs a) = uint (cr_fb_id demo_crtc)"
    by blast
  have "fb_id (fb_objs demo_fbs a) = 4" using c(3) d i by simp
  then have "idr_find (crtc_idr demo_fbs) 4 = Some (FbObj a)" using kms_ids [OF demo_ok(1)] by (simp add: ids_ok_def)
  then show ?thesis using S' c i by auto
qed

text \<open>
  When no identifier can be had, \<^verbatim>\<open>drm_framebuffer_init\<close> still returns 0: the file gets an entry for a framebuffer without an
  identifier and without the second reference, and the close of the file runs into \<^verbatim>\<open>BUG()\<close>.
\<close>

lemma addfb_without_identifier:
  "case drm_mode_addfb demo_drv (demo_mem\<lparr>al_node := False\<rparr>) 7 10 demo_req demo_start of
     Some (ret, ident, S) \<Rightarrow> ret = 0 \<and> ident = Some 0 \<and> fb_list S = [] \<and> drm_fb_release demo_drv demo_mem 7 S = None
   | None \<Rightarrow> False"
  by code_simp

text \<open>
  \<^verbatim>\<open>idr_remove\<close> of this port allocates a node; when that fails, \<^verbatim>\<open>RMFB\<close> still reports success, the freed framebuffer
  stays in the table, and the next lookup of its number reads it.
\<close>

lemma rmfb_without_node:
  "case drm_mode_rmfb demo_drv (demo_mem\<lparr>al_free := False\<rparr>) 7 4 demo_shown of
     Some (ret, S) \<Rightarrow> ret = 0 \<and> freed (fb_objs S 10) \<and> drm_mode_getfb demo_drv 4 S = None
   | None \<Rightarrow> False"
  by code_simp

end
