(* ===== verification/Drm_Edid.thy ===== *)
theory Drm_Edid
  imports Drm_Modes
begin

text \<open>
  Fetching and checking the description of a monitor: the first part of \<^verbatim>\<open>uts/common/io/drm/drm_edid.c\<close>, up to \<^verbatim>\<open>drm_get_edid\<close>.

  The description is a list of bytes, in blocks of 128. Memory is accessed through \<open>peek\<close>, \<open>block_at\<close> and \<open>put_block\<close>, which
  give \<open>None\<close> outside of the allocated bytes. The i2c adapter is a parameter with a state of its own: what a transfer returns and
  leaves in the buffer.
\<close>

unbundle bit_operations_syntax

section \<open>Memory\<close>

definition EDID_LENGTH :: nat where "EDID_LENGTH = 128"
definition DRM_MAX_EDID_EXT_NUM :: nat where "DRM_MAX_EDID_EXT_NUM = 4"

definition peek :: "u8w list \<Rightarrow> nat \<Rightarrow> u8w option" where
  "peek raw i = (if i < length raw then Some (raw ! i) else None)"

definition block_at :: "u8w list \<Rightarrow> nat \<Rightarrow> u8w list option" where
  "block_at raw i = (if EDID_LENGTH * (i + 1) \<le> length raw then Some (take EDID_LENGTH (drop (EDID_LENGTH * i) raw)) else None)"

definition put_block :: "u8w list \<Rightarrow> nat \<Rightarrow> u8w list \<Rightarrow> u8w list option" where
  "put_block raw i blk =
     (if EDID_LENGTH * (i + 1) \<le> length raw then Some (take (EDID_LENGTH * i) raw @ blk @ drop (EDID_LENGTH * (i + 1)) raw) else None)"

section \<open>Checks\<close>

definition edid_header :: "u8w list" where
  "edid_header = [0x00, 0xff, 0xff, 0xff, 0xff, 0xff, 0xff, 0x00]"

definition drm_edid_header_is_valid :: "u8w list \<Rightarrow> int" where
  "drm_edid_header_is_valid raw = int (length (filter (\<lambda>i. raw ! i = edid_header ! i) [0..<8]))"

text \<open>
  A block of 128 bytes, which the check may repair: the block afterwards is part of the result. \<open>fixup\<close> is the static variable
  \<^verbatim>\<open>edid_fixup\<close>.
\<close>

definition drm_edid_block_valid :: "int \<Rightarrow> u8w list \<Rightarrow> nat \<Rightarrow> bool \<times> u8w list" where
  "drm_edid_block_valid fixup raw block =
     (let fixup = (if fixup > 8 \<or> fixup < 0 then 6 else fixup);
          score = drm_edid_header_is_valid raw;
          repair = (block = 0 \<and> score \<noteq> 8 \<and> score \<ge> fixup)
      in if block = 0 \<and> score \<noteq> 8 \<and> \<not> repair then (False, raw)
         else (let raw = (if repair then edid_header @ drop 8 raw else raw); csum = sum_list raw
               in if csum \<noteq> 0 \<and> raw ! 0 \<noteq> 2 then (False, raw)
                  else if raw ! 0 = 0 \<and> raw ! 18 \<noteq> 1 then (False, raw)
                  else (True, raw)))"

fun valid_blocks :: "int \<Rightarrow> nat list \<Rightarrow> u8w list \<Rightarrow> (bool \<times> u8w list) option" where
  "valid_blocks fixup [] raw = Some (True, raw)"
| "valid_blocks fixup (i # is) raw = do {
     blk \<leftarrow> block_at raw i;
     let (valid, blk) = drm_edid_block_valid fixup blk i;
     raw \<leftarrow> put_block raw i blk;
     if valid then valid_blocks fixup is raw else Some (False, raw) }"

text \<open>The number of extensions is read once here: the check of a block never changes it.\<close>

definition drm_edid_is_valid :: "int \<Rightarrow> u8w list \<Rightarrow> (bool \<times> u8w list) option" where
  "drm_edid_is_valid fixup raw = do {
     extensions \<leftarrow> peek raw 126;
     valid_blocks fixup [0..<unat extensions + 1] raw }"

definition drm_edid_is_zero :: "u8w list \<Rightarrow> bool" where
  "drm_edid_is_zero raw \<longleftrightarrow> list_all (\<lambda>b. b = 0) raw"

section \<open>The adapter\<close>

datatype i2c_msg = I2C_WR u8w u8w | I2C_RD u8w nat

type_synonym 's i2c_transfer = "i2c_msg list \<Rightarrow> u8w list \<Rightarrow> 's \<Rightarrow> int \<times> u8w list \<times> 's"

definition DDC_SEGMENT_ADDR :: u8w where "DDC_SEGMENT_ADDR = 0x30"
definition DDC_ADDR :: u8w where "DDC_ADDR = 0x50"
definition ENXIO :: int where "ENXIO = 6"

definition ddc_msgs :: "nat \<Rightarrow> nat \<Rightarrow> i2c_msg list" where
  "ddc_msgs block len =
     (let start = word_of_nat (block * EDID_LENGTH); segment = word_of_nat (block div 2)
      in (if segment \<noteq> 0 then [I2C_WR DDC_SEGMENT_ADDR segment] else []) @ [I2C_WR DDC_ADDR start, I2C_RD DDC_ADDR len])"

text \<open>\<open>retries\<close> counts the attempts that are left after this one.\<close>

fun probe_loop :: "'s i2c_transfer \<Rightarrow> i2c_msg list \<Rightarrow> nat \<Rightarrow> u8w list \<Rightarrow> 's \<Rightarrow> int \<times> u8w list \<times> 's" where
  "probe_loop xfer msgs retries buf s =
     (case xfer msgs buf s of (ret, buf, s) \<Rightarrow>
        if ret = - ENXIO \<or> ret = int (length msgs) then (ret, buf, s)
        else (case retries of 0 \<Rightarrow> (ret, buf, s) | Suc n \<Rightarrow> probe_loop xfer msgs n buf s))"

declare probe_loop.simps [simp del]

definition drm_do_probe_ddc_edid :: "'s i2c_transfer \<Rightarrow> u8w list \<Rightarrow> nat \<Rightarrow> nat \<Rightarrow> 's \<Rightarrow> int \<times> u8w list \<times> 's" where
  "drm_do_probe_ddc_edid xfer buf block len s =
     (case probe_loop xfer (ddc_msgs block len) 4 buf s of (ret, buf, s) \<Rightarrow>
        (if ret = int (length (ddc_msgs block len)) then 0 else - 1, buf, s))"

section \<open>Fetching\<close>

record edid_connector =
  null_edid_counter :: int
  bad_edid_counter :: int

datatype fetch = Fetched | Bad | Failed

fun fetch_base :: "'s i2c_transfer \<Rightarrow> int \<Rightarrow> nat list \<Rightarrow> u8w list \<Rightarrow> edid_connector \<Rightarrow> 's \<Rightarrow>
    (fetch \<times> u8w list \<times> edid_connector \<times> 's) option" where
  "fetch_base xfer fixup [] buf conn s = Some (Bad, buf, conn, s)"
| "fetch_base xfer fixup (i # is) buf conn s = do {
     blk \<leftarrow> block_at buf 0;
     let (ret, blk, s) = drm_do_probe_ddc_edid xfer blk 0 EDID_LENGTH s;
     if ret \<noteq> 0 then do { buf \<leftarrow> put_block buf 0 blk; Some (Failed, buf, conn, s) }
     else do {
       let (valid, blk) = drm_edid_block_valid fixup blk 0;
       buf \<leftarrow> put_block buf 0 blk;
       if valid then Some (Fetched, buf, conn, s)
       else if i = 0 \<and> drm_edid_is_zero blk
       then Some (Bad, buf, conn\<lparr>null_edid_counter := null_edid_counter conn + 1\<rparr>, s)
       else fetch_base xfer fixup is buf conn s } }"

text \<open>The attempts to get extension \<open>j\<close> into block \<open>k\<close> of the buffer.\<close>

fun fetch_ext :: "'s i2c_transfer \<Rightarrow> int \<Rightarrow> nat \<Rightarrow> nat \<Rightarrow> nat \<Rightarrow> u8w list \<Rightarrow> 's \<Rightarrow> (fetch \<times> u8w list \<times> 's) option" where
  "fetch_ext xfer fixup 0 j k buf s = Some (Bad, buf, s)"
| "fetch_ext xfer fixup (Suc n) j k buf s = do {
     blk \<leftarrow> block_at buf k;
     let (ret, blk, s) = drm_do_probe_ddc_edid xfer blk j EDID_LENGTH s;
     if ret \<noteq> 0 then do { buf \<leftarrow> put_block buf k blk; Some (Failed, buf, s) }
     else do {
       let (valid, blk) = drm_edid_block_valid fixup blk j;
       buf \<leftarrow> put_block buf k blk;
       if valid then Some (Fetched, buf, s) else fetch_ext xfer fixup n j k buf s } }"

fun fetch_exts :: "'s i2c_transfer \<Rightarrow> int \<Rightarrow> nat list \<Rightarrow> nat \<Rightarrow> u8w list \<Rightarrow> 's \<Rightarrow> (bool \<times> nat \<times> u8w list \<times> 's) option" where
  "fetch_exts xfer fixup [] valid_extensions buf s = Some (True, valid_extensions, buf, s)"
| "fetch_exts xfer fixup (j # js) valid_extensions buf s = do {
     (res, buf, s) \<leftarrow> fetch_ext xfer fixup 4 j (valid_extensions + 1) buf s;
     (case res of
        Failed \<Rightarrow> Some (False, valid_extensions, buf, s)
      | Fetched \<Rightarrow> fetch_exts xfer fixup js (valid_extensions + 1) buf s
      | Bad \<Rightarrow> fetch_exts xfer fixup js valid_extensions buf s) }"

text \<open>
  \<open>mem\<close> is the memory that \<^verbatim>\<open>kmalloc\<close> gives, absent when it fails. The number of extensions that the loop compares with is in the
  base block, which the loop does not write.
\<close>

definition drm_do_get_edid :: "'s i2c_transfer \<Rightarrow> int \<Rightarrow> u8w list option \<Rightarrow> edid_connector \<Rightarrow> 's \<Rightarrow>
    (u8w list option \<times> edid_connector \<times> 's) option" where
  "drm_do_get_edid xfer fixup mem conn s =
     (case mem of
        None \<Rightarrow> Some (None, conn, s)
      | Some buf \<Rightarrow> do {
          (res, buf, conn, s) \<leftarrow> fetch_base xfer fixup [0..<4] buf conn s;
          (case res of
             Failed \<Rightarrow> Some (None, conn, s)
           | Bad \<Rightarrow> Some (None, conn\<lparr>bad_edid_counter := bad_edid_counter conn + 1\<rparr>, s)
           | Fetched \<Rightarrow> do {
               exts \<leftarrow> peek buf 126;
               if exts = 0 then Some (Some buf, conn, s)
               else do {
                 (done, v, buf, s) \<leftarrow> fetch_exts xfer fixup [1..<unat exts + 1] 0 buf s;
                 if \<not> done then Some (None, conn, s)
                 else do {
                   let valid_extensions = word_of_nat v;
                   let buf = (if valid_extensions \<noteq> exts
                     then buf[127 := buf ! 127 + (exts - valid_extensions), 126 := valid_extensions] else buf);
                   Some (Some buf, conn, s) } } }) })"

definition drm_probe_ddc :: "'s i2c_transfer \<Rightarrow> 's \<Rightarrow> bool \<times> 's" where
  "drm_probe_ddc xfer s = (case drm_do_probe_ddc_edid xfer [0] 0 1 s of (ret, _, s) \<Rightarrow> (ret = 0, s))"

definition drm_get_edid :: "'s i2c_transfer \<Rightarrow> int \<Rightarrow> u8w list option \<Rightarrow> edid_connector \<Rightarrow> 's \<Rightarrow>
    (u8w list option \<times> edid_connector \<times> 's) option" where
  "drm_get_edid xfer fixup mem conn s =
     (case drm_probe_ddc xfer s of (found, s) \<Rightarrow>
        if found then drm_do_get_edid xfer fixup mem conn s else Some (None, conn, s))"

end
