(* ===== verification/Drm_Edid_Cea.thy ===== *)
theory Drm_Edid_Cea
  imports Drm_Edid
begin

text \<open>
  What \<^verbatim>\<open>uts/common/io/drm/drm_edid.c\<close> reads from the extension block of consumer electronics: the data blocks, audio formats,
  latencies and colour formats, and from the descriptors of all blocks.

  An extension is the list of its 128 bytes; a read outside of it gives \<open>None\<close>.
\<close>

unbundle bit_operations_syntax

section \<open>Descriptors\<close>

text \<open>A detailed timing or another descriptor is 18 bytes.\<close>

definition timing_at :: "u8w list \<Rightarrow> nat \<Rightarrow> u8w list option" where
  "timing_at raw off = (if off + 18 \<le> length raw then Some (take 18 (drop off raw)) else None)"

definition put_timing :: "u8w list \<Rightarrow> nat \<Rightarrow> u8w list \<Rightarrow> u8w list option" where
  "put_timing raw off t = (if off + 18 \<le> length raw then Some (take off raw @ t @ drop (off + 18) raw) else None)"

definition CEA_EXT :: u8w where "CEA_EXT = 0x02"
definition VTB_EXT :: u8w where "VTB_EXT = 0x10"

text \<open>The places of the descriptors in an extension at \<open>base\<close>.\<close>

definition cea_for_each_detailed_block :: "u8w list \<Rightarrow> nat \<Rightarrow> nat list option" where
  "cea_for_each_detailed_block raw base = do {
     d \<leftarrow> peek raw (base + 2);
     let n = (127 - uint d) sdiv 18;
     Some (map (\<lambda>i. base + unat d + 18 * i) [0..<nat n]) }"

definition vtb_for_each_detailed_block :: "u8w list \<Rightarrow> nat \<Rightarrow> nat list option" where
  "vtb_for_each_detailed_block raw base = do {
     n \<leftarrow> peek raw (base + 2);
     version \<leftarrow> peek raw (base + 1);
     if version \<noteq> 1 then Some [] else Some (map (\<lambda>i. base + 5 + 18 * i) [0..<min (unat n) 6]) }"

fun ext_detailed_blocks :: "u8w list \<Rightarrow> nat list \<Rightarrow> nat list option" where
  "ext_detailed_blocks raw [] = Some []"
| "ext_detailed_blocks raw (i # is) = do {
     tag \<leftarrow> peek raw (EDID_LENGTH * i);
     here \<leftarrow> (if tag = CEA_EXT then cea_for_each_detailed_block raw (EDID_LENGTH * i)
              else if tag = VTB_EXT then vtb_for_each_detailed_block raw (EDID_LENGTH * i) else Some []);
     rest \<leftarrow> ext_detailed_blocks raw is;
     Some (here @ rest) }"

text \<open>All places; the callbacks only write to the descriptor that they get, so the places can be found first.\<close>

definition detailed_blocks :: "u8w list \<Rightarrow> nat list option" where
  "detailed_blocks raw = do {
     extensions \<leftarrow> peek raw 0x7e;
     exts \<leftarrow> ext_detailed_blocks raw [1..<unat extensions + 1];
     Some ([54, 72, 90, 108] @ exts) }"

fun each_timing :: "(u8w list \<Rightarrow> 'a \<Rightarrow> (u8w list \<times> 'a) option) \<Rightarrow> nat list \<Rightarrow> u8w list \<Rightarrow> 'a \<Rightarrow> (u8w list \<times> 'a) option" where
  "each_timing cb [] raw x = Some (raw, x)"
| "each_timing cb (off # offs) raw x = do {
     t \<leftarrow> timing_at raw off;
     (t, x) \<leftarrow> cb t x;
     raw \<leftarrow> put_timing raw off t;
     each_timing cb offs raw x }"

definition drm_for_each_detailed_block ::
    "u8w list \<Rightarrow> (u8w list \<Rightarrow> 'a \<Rightarrow> (u8w list \<times> 'a) option) \<Rightarrow> 'a \<Rightarrow> (u8w list \<times> 'a) option" where
  "drm_for_each_detailed_block raw cb x = do { offs \<leftarrow> detailed_blocks raw; each_timing cb offs raw x }"

section \<open>Data blocks\<close>

fun find_cea :: "u8w list \<Rightarrow> nat list \<Rightarrow> u8w list option option" where
  "find_cea raw [] = Some None"
| "find_cea raw (i # is) = do {
     ext \<leftarrow> block_at raw (i + 1);
     if ext ! 0 = CEA_EXT then Some (Some ext) else find_cea raw is }"

definition drm_find_cea_extension :: "u8w list \<Rightarrow> u8w list option option" where
  "drm_find_cea_extension raw = do { extensions \<leftarrow> peek raw 126; find_cea raw [0..<unat extensions] }"

definition cea_db_payload_len :: "u8w \<Rightarrow> nat" where "cea_db_payload_len b = unat (b AND 0x1f)"
definition cea_db_tag :: "u8w \<Rightarrow> nat" where "cea_db_tag b = unat (drop_bit 5 b)"
definition cea_revision :: "u8w list \<Rightarrow> u8w option" where "cea_revision cea = peek cea 1"

text \<open>The start and the end of the data blocks; \<open>None\<close> inside stands for \<^verbatim>\<open>-ERANGE\<close>.\<close>

definition cea_db_offsets :: "u8w list \<Rightarrow> (nat \<times> nat) option option" where
  "cea_db_offsets cea = do {
     b \<leftarrow> peek cea 2;
     let end_off = (if b = 0 then 127 else unat b);
     Some (if end_off < 4 \<or> end_off > 127 then None else Some (4, end_off)) }"

text \<open>The places at which \<^verbatim>\<open>for_each_cea_db\<close> runs its body.\<close>

function cea_dbs :: "u8w list \<Rightarrow> nat \<Rightarrow> nat \<Rightarrow> nat list option" where
  "cea_dbs cea i end_off =
     (if i < end_off
      then do {
        b \<leftarrow> peek cea i;
        if i + cea_db_payload_len b < end_off
        then do { rest \<leftarrow> cea_dbs cea (i + cea_db_payload_len b + 1) end_off; Some (i # rest) }
        else Some [] }
      else Some [])"
  by pat_completeness auto
termination by (relation "measure (\<lambda>(cea, i, e). e - i)") auto

declare cea_dbs.simps [simp del]

definition AUDIO_BLOCK :: nat where "AUDIO_BLOCK = 1"
definition VIDEO_BLOCK :: nat where "VIDEO_BLOCK = 2"
definition VENDOR_BLOCK :: nat where "VENDOR_BLOCK = 3"
definition SPEAKER_BLOCK :: nat where "SPEAKER_BLOCK = 4"
definition VIDEO_CAPABILITY_BLOCK :: nat where "VIDEO_CAPABILITY_BLOCK = 7"
definition HDMI_IDENTIFIER :: u32w where "HDMI_IDENTIFIER = 0xC03"

definition cea_db_is_hdmi_vsdb :: "u8w list \<Rightarrow> nat \<Rightarrow> bool option" where
  "cea_db_is_hdmi_vsdb cea i = do {
     b \<leftarrow> peek cea i;
     if cea_db_tag b \<noteq> VENDOR_BLOCK then Some False
     else if cea_db_payload_len b < 5 then Some False
     else do {
       b1 \<leftarrow> peek cea (i + 1); b2 \<leftarrow> peek cea (i + 2); b3 \<leftarrow> peek cea (i + 3);
       Some ((ucast b1 OR push_bit 8 (ucast b2) OR push_bit 16 (ucast b3)) = HDMI_IDENTIFIER) } }"

text \<open>The data blocks of the extension, none when its offsets make no sense.\<close>

definition data_blocks :: "u8w list \<Rightarrow> nat list option" where
  "data_blocks cea = do {
     offs \<leftarrow> cea_db_offsets cea;
     (case offs of None \<Rightarrow> Some [] | Some (start, end_off) \<Rightarrow> cea_dbs cea start end_off) }"

fun any_db :: "(nat \<Rightarrow> bool option) \<Rightarrow> nat list \<Rightarrow> bool option" where
  "any_db p [] = Some False"
| "any_db p (i # is) = do { b \<leftarrow> p i; if b then Some True else any_db p is }"

definition drm_detect_hdmi_monitor :: "u8w list \<Rightarrow> bool option" where
  "drm_detect_hdmi_monitor raw = do {
     ext \<leftarrow> drm_find_cea_extension raw;
     (case ext of
        None \<Rightarrow> Some False
      | Some cea \<Rightarrow> do { dbs \<leftarrow> data_blocks cea; any_db (cea_db_is_hdmi_vsdb cea) dbs }) }"

definition EDID_BASIC_AUDIO :: u8w where "EDID_BASIC_AUDIO = 0x40"

definition drm_detect_monitor_audio :: "u8w list \<Rightarrow> bool option" where
  "drm_detect_monitor_audio raw = do {
     ext \<leftarrow> drm_find_cea_extension raw;
     (case ext of
        None \<Rightarrow> Some False
      | Some cea \<Rightarrow> do {
          b3 \<leftarrow> peek cea 3;
          if b3 AND EDID_BASIC_AUDIO \<noteq> 0 then Some True
          else do {
            dbs \<leftarrow> data_blocks cea;
            any_db (\<lambda>i. do { b \<leftarrow> peek cea i; Some (cea_db_tag b = AUDIO_BLOCK) }) dbs } }) }"

definition EDID_CEA_VCDB_QS :: u8w where "EDID_CEA_VCDB_QS = 0x40"

text \<open>The first capability block with two bytes decides.\<close>

fun first_vcdb :: "u8w list \<Rightarrow> nat list \<Rightarrow> bool option" where
  "first_vcdb cea [] = Some False"
| "first_vcdb cea (i # is) = do {
     b \<leftarrow> peek cea i;
     if cea_db_tag b = VIDEO_CAPABILITY_BLOCK \<and> cea_db_payload_len b = 2
     then do { b2 \<leftarrow> peek cea (i + 2); Some (b2 AND EDID_CEA_VCDB_QS \<noteq> 0) }
     else first_vcdb cea is }"

definition drm_rgb_quant_range_selectable :: "u8w list \<Rightarrow> bool option" where
  "drm_rgb_quant_range_selectable raw = do {
     ext \<leftarrow> drm_find_cea_extension raw;
     (case ext of None \<Rightarrow> Some False | Some cea \<Rightarrow> do { dbs \<leftarrow> data_blocks cea; first_vcdb cea dbs }) }"

section \<open>Audio\<close>

record cea_sad =
  sad_format :: u8w
  sad_channels :: u8w
  sad_freq :: u8w
  sad_byte2 :: u8w

fun read_sads :: "u8w list \<Rightarrow> nat \<Rightarrow> nat \<Rightarrow> cea_sad list option" where
  "read_sads cea p 0 = Some []"
| "read_sads cea p (Suc n) = do {
     b0 \<leftarrow> peek cea p; b1 \<leftarrow> peek cea (p + 1); b2 \<leftarrow> peek cea (p + 2);
     rest \<leftarrow> read_sads cea (p + 3) n;
     Some (\<lparr>sad_format = drop_bit 3 (b0 AND 0x78), sad_channels = b0 AND 0x7, sad_freq = b1 AND 0x7F, sad_byte2 = b2\<rparr> # rest) }"

definition ENOTSUP :: int where "ENOTSUP = 48"
definition EPROTO :: int where "EPROTO = 71"

fun first_audio :: "bool \<Rightarrow> u8w list \<Rightarrow> nat list \<Rightarrow> (int \<times> cea_sad list) option" where
  "first_audio alloc cea [] = Some (0, [])"
| "first_audio alloc cea (i # is) = do {
     b \<leftarrow> peek cea i;
     if cea_db_tag b = AUDIO_BLOCK
     then (let count = cea_db_payload_len b div 3
           in if \<not> alloc then Some (- ENOMEM, []) else do { sads \<leftarrow> read_sads cea (i + 1) count; Some (int count, sads) })
     else first_audio alloc cea is }"

definition drm_edid_to_sad :: "bool \<Rightarrow> u8w list \<Rightarrow> (int \<times> cea_sad list) option" where
  "drm_edid_to_sad alloc raw = do {
     ext \<leftarrow> drm_find_cea_extension raw;
     (case ext of
        None \<Rightarrow> Some (- ENOENT, [])
      | Some cea \<Rightarrow> do {
          rev \<leftarrow> cea_revision cea;
          if rev < 3 then Some (- ENOTSUP, [])
          else do {
            offs \<leftarrow> cea_db_offsets cea;
            (case offs of
               None \<Rightarrow> Some (- EPROTO, [])
             | Some (start, end_off) \<Rightarrow> do { dbs \<leftarrow> cea_dbs cea start end_off; first_audio alloc cea dbs }) } }) }"

definition MAX_ELD_BYTES :: nat where "MAX_ELD_BYTES = 128"

record hdmi_connector =
  eld :: "u8w list"
  dvi_dual :: bool
  max_tmds_clock :: int
  latency_present :: "bool \<times> bool"
  video_latency :: "int \<times> int"
  audio_latency :: "int \<times> int"

definition poke :: "u8w list \<Rightarrow> nat \<Rightarrow> u8w \<Rightarrow> u8w list option" where
  "poke mem i v = (if i < length mem then Some (mem[i := v]) else None)"

fun poke_all :: "u8w list \<Rightarrow> nat \<Rightarrow> u8w list \<Rightarrow> u8w list option" where
  "poke_all mem i [] = Some mem"
| "poke_all mem i (v # vs) = do { mem \<leftarrow> poke mem i v; poke_all mem (i + 1) vs }"

fun peek_all :: "u8w list \<Rightarrow> nat \<Rightarrow> nat \<Rightarrow> u8w list option" where
  "peek_all mem i 0 = Some []"
| "peek_all mem i (Suc n) = do { v \<leftarrow> peek mem i; vs \<leftarrow> peek_all mem (i + 1) n; Some (v # vs) }"

text \<open>One guarded statement of \<^verbatim>\<open>parse_hdmi_vsdb\<close>: the byte at \<open>k\<close> is used when the block has that many.\<close>

definition vsdb_field :: "u8w list \<Rightarrow> nat \<Rightarrow> nat \<Rightarrow> nat \<Rightarrow> (u8w \<Rightarrow> hdmi_connector \<Rightarrow> hdmi_connector option) \<Rightarrow> hdmi_connector \<Rightarrow>
    hdmi_connector option" where
  "vsdb_field cea i len k f conn = (if len \<ge> k then do { b \<leftarrow> peek cea (i + k); f b conn } else Some conn)"

definition parse_hdmi_vsdb :: "u8w list \<Rightarrow> nat \<Rightarrow> hdmi_connector \<Rightarrow> hdmi_connector option" where
  "parse_hdmi_vsdb cea i conn = do {
     b \<leftarrow> peek cea i;
     let len = cea_db_payload_len b;
     conn \<leftarrow> vsdb_field cea i len 6 (\<lambda>b conn. do {
       e5 \<leftarrow> peek (eld conn) 5;
       e \<leftarrow> poke (eld conn) 5 (e5 OR push_bit 1 (drop_bit 7 b));
       Some (conn\<lparr>eld := e, dvi_dual := (b AND 1 \<noteq> 0)\<rparr>) }) conn;
     conn \<leftarrow> vsdb_field cea i len 7 (\<lambda>b conn. Some (conn\<lparr>max_tmds_clock := uint b * 5\<rparr>)) conn;
     conn \<leftarrow> vsdb_field cea i len 8 (\<lambda>b conn. Some (conn\<lparr>latency_present := (drop_bit 7 b \<noteq> 0, drop_bit 6 b AND 1 \<noteq> 0)\<rparr>)) conn;
     conn \<leftarrow> vsdb_field cea i len 9 (\<lambda>b conn. Some (conn\<lparr>video_latency := (uint b, snd (video_latency conn))\<rparr>)) conn;
     conn \<leftarrow> vsdb_field cea i len 10 (\<lambda>b conn. Some (conn\<lparr>audio_latency := (uint b, snd (audio_latency conn))\<rparr>)) conn;
     conn \<leftarrow> vsdb_field cea i len 11 (\<lambda>b conn. Some (conn\<lparr>video_latency := (fst (video_latency conn), uint b)\<rparr>)) conn;
     vsdb_field cea i len 12 (\<lambda>b conn. Some (conn\<lparr>audio_latency := (fst (audio_latency conn), uint b)\<rparr>)) conn }"

definition monitor_name :: "u8w list \<Rightarrow> u8w list option \<Rightarrow> (u8w list \<times> u8w list option) option" where
  "monitor_name t name = Some (t, if t ! 3 = 0xfc then Some (drop 5 t) else name)"

text \<open>The number of characters up to the end mark, at most 13.\<close>

definition copied_name :: "u8w list option \<Rightarrow> u8w list" where
  "copied_name name = (case name of None \<Rightarrow> [] | Some cs \<Rightarrow> takeWhile (\<lambda>c. c \<noteq> 0x0a) (take 13 cs))"

fun eld_dbs :: "u8w list \<Rightarrow> nat \<Rightarrow> nat list \<Rightarrow> nat \<Rightarrow> hdmi_connector \<Rightarrow> (nat \<times> hdmi_connector) option" where
  "eld_dbs cea mnl [] sad_count conn = Some (sad_count, conn)"
| "eld_dbs cea mnl (i # is) sad_count conn = do {
     b \<leftarrow> peek cea i;
     let dbl = cea_db_payload_len b;
     let tag = cea_db_tag b;
     if tag = AUDIO_BLOCK
     then do {
       bytes \<leftarrow> peek_all cea (i + 1) dbl;
       e \<leftarrow> poke_all (eld conn) (20 + mnl) bytes;
       eld_dbs cea mnl is (dbl div 3) (conn\<lparr>eld := e\<rparr>) }
     else if tag = SPEAKER_BLOCK \<and> dbl \<ge> 1
     then do {
       b1 \<leftarrow> peek cea (i + 1);
       e \<leftarrow> poke (eld conn) 7 b1;
       eld_dbs cea mnl is sad_count (conn\<lparr>eld := e\<rparr>) }
     else if tag = VENDOR_BLOCK
     then do {
       hdmi \<leftarrow> cea_db_is_hdmi_vsdb cea i;
       conn \<leftarrow> (if hdmi then parse_hdmi_vsdb cea i conn else Some conn);
       eld_dbs cea mnl is sad_count conn }
     else eld_dbs cea mnl is sad_count conn }"

definition drm_edid_to_eld :: "u8w list \<Rightarrow> hdmi_connector \<Rightarrow> hdmi_connector option" where
  "drm_edid_to_eld raw conn = do {
     let conn = conn\<lparr>eld := replicate MAX_ELD_BYTES 0\<rparr>;
     ext \<leftarrow> drm_find_cea_extension raw;
     (case ext of
        None \<Rightarrow> Some conn
      | Some cea \<Rightarrow> do {
          (_, name) \<leftarrow> drm_for_each_detailed_block raw monitor_name None;
          let chars = copied_name name;
          let mnl = length chars;
          e \<leftarrow> poke_all (eld conn) 20 chars;
          rev \<leftarrow> cea_revision cea;
          e \<leftarrow> poke e 4 (push_bit 5 rev OR word_of_nat mnl);
          e \<leftarrow> poke e 0 (push_bit 3 2);
          ids \<leftarrow> peek_all raw 8 4;
          e \<leftarrow> poke_all e 16 ids;
          (sad_count, conn) \<leftarrow> (if rev \<ge> 3
            then do { dbs \<leftarrow> data_blocks cea; eld_dbs cea mnl dbs 0 (conn\<lparr>eld := e\<rparr>) }
            else Some (0, conn\<lparr>eld := e\<rparr>));
          e5 \<leftarrow> peek (eld conn) 5;
          e \<leftarrow> poke (eld conn) 5 (e5 OR word_of_nat (sad_count * 16));
          e \<leftarrow> poke e 2 (word_of_nat ((20 + mnl + sad_count * 3 + 3) div 4));
          Some (conn\<lparr>eld := e\<rparr>) }) }"

definition drm_av_sync_delay :: "hdmi_connector \<Rightarrow> drm_display_mode \<Rightarrow> int" where
  "drm_av_sync_delay conn mode =
     (if \<not> fst (latency_present conn) then 0
      else (let i = mode_flags mode AND DRM_MODE_FLAG_INTERLACE \<noteq> 0 \<and> snd (latency_present conn);
                a = (if i then snd else fst) (audio_latency conn);
                v = (if i then snd else fst) (video_latency conn)
            in if a = 255 \<or> v = 255 then 0
               else (let a = (if a \<noteq> 0 then min (2 * (a - 1)) 500 else a);
                         v = (if v \<noteq> 0 then min (2 * (v - 1)) 500 else v)
                     in max (v - a) 0)))"

section \<open>Display information\<close>

record drm_display_info =
  info_width_mm :: int
  info_height_mm :: int
  bpc :: int
  color_formats :: u32w
  cea_rev :: u8w

definition DRM_COLOR_FORMAT_RGB444 :: u32w where "DRM_COLOR_FORMAT_RGB444 = 1"
definition DRM_COLOR_FORMAT_YCRCB444 :: u32w where "DRM_COLOR_FORMAT_YCRCB444 = 2"
definition DRM_COLOR_FORMAT_YCRCB422 :: u32w where "DRM_COLOR_FORMAT_YCRCB422 = 4"

definition input_bpc :: "u8w \<Rightarrow> int" where
  "input_bpc b =
     (let d = b AND 0x70
      in if d = 0x10 then 6 else if d = 0x20 then 8 else if d = 0x30 then 10
         else if d = 0x40 then 12 else if d = 0x50 then 14 else if d = 0x60 then 16 else 0)"

definition drm_add_display_info :: "u8w list \<Rightarrow> drm_display_info \<Rightarrow> drm_display_info option" where
  "drm_add_display_info raw info = do {
     width_cm \<leftarrow> peek raw 21; height_cm \<leftarrow> peek raw 22; revision \<leftarrow> peek raw 19; inp \<leftarrow> peek raw 20; features \<leftarrow> peek raw 24;
     let info = info\<lparr>info_width_mm := uint width_cm * 10, info_height_mm := uint height_cm * 10, bpc := 0, color_formats := 0\<rparr>;
     if revision < 3 then Some info
     else if inp AND 0x80 = 0 then Some info
     else do {
       ext \<leftarrow> drm_find_cea_extension raw;
       info \<leftarrow> (case ext of
          None \<Rightarrow> Some info
        | Some cea \<Rightarrow> do {
            rev \<leftarrow> peek cea 1; b3 \<leftarrow> peek cea 3;
            Some (info\<lparr>cea_rev := rev, color_formats := DRM_COLOR_FORMAT_RGB444 OR
              (if b3 AND 0x20 \<noteq> 0 then DRM_COLOR_FORMAT_YCRCB444 else 0) OR (if b3 AND 0x10 \<noteq> 0 then DRM_COLOR_FORMAT_YCRCB422 else 0)\<rparr>) });
       if revision < 4 then Some info
       else Some (info\<lparr>bpc := input_bpc inp, color_formats := color_formats info OR DRM_COLOR_FORMAT_RGB444 OR
              (if features AND 0x08 \<noteq> 0 then DRM_COLOR_FORMAT_YCRCB444 else 0) OR
              (if features AND 0x10 \<noteq> 0 then DRM_COLOR_FORMAT_YCRCB422 else 0)\<rparr>) } }"

end
