(* ===== verification/Drm_Edid_Modes.thy ===== *)
theory Drm_Edid_Modes
  imports Drm_Edid_Cea Drm_Edid_Tables
begin

text \<open>
  The modes that a monitor's description gives: the second part of \<^verbatim>\<open>uts/common/io/drm/drm_edid.c\<close>, from detailed timings to
  \<^verbatim>\<open>drm_add_edid_modes\<close>.

  \<open>ids\<close> gives the number of the \<open>n\<close>-th mode object that is created, absent when there is no memory or no number; \<open>n_created\<close>
  moves on with every candidate. \<open>None\<close> outside is a read outside of the description or a failed computation of a timing formula.
\<close>

unbundle bit_operations_syntax

section \<open>State\<close>

record edid_mode =
  em :: drm_display_mode
  width_mm :: int
  height_mm :: int

record probe =
  probed_modes :: "edid_mode list"
  n_created :: nat

type_synonym mode_ids = "nat \<Rightarrow> nat option"

definition plain_mode :: "drm_display_mode \<Rightarrow> edid_mode" where
  "plain_mode m = \<lparr>em = m, width_mm = 0, height_mm = 0\<rparr>"

definition count_id :: "probe \<Rightarrow> probe" where
  "count_id P = P\<lparr>n_created := n_created P + 1\<rparr>"

definition drm_mode_probed_add :: "edid_mode \<Rightarrow> probe \<Rightarrow> probe" where
  "drm_mode_probed_add m P = P\<lparr>probed_modes := probed_modes P @ [m]\<rparr>"

text \<open>What the loops over candidates do: a copy of a table entry is added when it can be made.\<close>

definition add_copy :: "mode_ids \<Rightarrow> drm_display_mode \<Rightarrow> int \<times> probe \<Rightarrow> int \<times> probe" where
  "add_copy ids m x =
     (case x of (modes, P) \<Rightarrow>
        (case drm_mode_duplicate (ids (n_created P)) m of
           None \<Rightarrow> (modes, count_id P)
         | Some new \<Rightarrow> (modes + 1, drm_mode_probed_add (plain_mode new) (count_id P))))"

definition version_greater :: "u8w list \<Rightarrow> u8w \<Rightarrow> u8w \<Rightarrow> bool option" where
  "version_greater raw maj mnr = do {
     v \<leftarrow> peek raw 18; r \<leftarrow> peek raw 19;
     Some (v > maj \<or> v = maj \<and> r > mnr) }"

section \<open>Quirks\<close>

definition edid_vendor :: "u8w list \<Rightarrow> string \<Rightarrow> bool option" where
  "edid_vendor raw vendor = do {
     a \<leftarrow> peek raw 8; b \<leftarrow> peek raw 9;
     Some (map (\<lambda>x. char_of (unat (x + 64 :: u8w)))
             [drop_bit 2 (a AND 0x7c), push_bit 3 (a AND 0x3) OR drop_bit 5 (b AND 0xe0), b AND 0x1f] = vendor) }"

fun find_quirk :: "u8w list \<Rightarrow> (string \<times> int \<times> u32w) list \<Rightarrow> u32w option" where
  "find_quirk raw [] = Some 0"
| "find_quirk raw ((vendor, product_id, quirks) # rest) = do {
     same \<leftarrow> edid_vendor raw vendor;
     p0 \<leftarrow> peek raw 10; p1 \<leftarrow> peek raw 11;
     if same \<and> uint p0 + uint p1 * 256 = product_id then Some quirks else find_quirk raw rest }"

definition edid_get_quirks :: "u8w list \<Rightarrow> u32w option" where
  "edid_get_quirks raw = find_quirk raw edid_quirk_list"

definition MODE_SIZE :: "edid_mode \<Rightarrow> int" where "MODE_SIZE m = s32 (hdisplay (em m) * vdisplay (em m))"
definition MODE_REFRESH_DIFF :: "int \<Rightarrow> edid_mode \<Rightarrow> int" where "MODE_REFRESH_DIFF target m = \<bar>vrefresh (em m) - target\<bar>"

definition better_mode :: "int \<Rightarrow> edid_mode list \<Rightarrow> nat \<Rightarrow> nat \<Rightarrow> nat" where
  "better_mode target ms i best =
     (let best = (if MODE_SIZE (ms ! i) > MODE_SIZE (ms ! best) then i else best)
      in if MODE_SIZE (ms ! i) = MODE_SIZE (ms ! best) \<and>
            MODE_REFRESH_DIFF target (ms ! i) < MODE_REFRESH_DIFF target (ms ! best) then i else best)"

definition set_type :: "(u32w \<Rightarrow> u32w) \<Rightarrow> edid_mode \<Rightarrow> edid_mode" where
  "set_type f m = m\<lparr>em := (em m)\<lparr>mode_type := f (mode_type (em m))\<rparr>\<rparr>"

text \<open>A mode is its position. The type, which the loop clears, does not matter for the choice.\<close>

definition edid_fixup_preferred :: "u32w \<Rightarrow> probe \<Rightarrow> probe" where
  "edid_fixup_preferred quirks P =
     (let ms = probed_modes P in
      if ms = [] then P
      else (let target = (if quirks AND EDID_QUIRK_PREFER_LARGE_75 \<noteq> 0 then 75
                          else if quirks AND EDID_QUIRK_PREFER_LARGE_60 \<noteq> 0 then 60 else 0);
                best = fold (better_mode target ms) [1..<length ms] 0;
                ms = map (set_type (\<lambda>t. t AND NOT DRM_MODE_TYPE_PREFERRED)) ms
            in P\<lparr>probed_modes := ms[best := set_type (\<lambda>t. t OR DRM_MODE_TYPE_PREFERRED) (ms ! best)]\<rparr>))"

section \<open>Detailed timings\<close>

definition tb :: "u8w list \<Rightarrow> nat \<Rightarrow> u32w" where "tb t i = ucast (t ! i)"

definition hactive :: "u8w list \<Rightarrow> int" where "hactive t = uint (push_bit 4 (tb t 4 AND 0xf0) OR tb t 2)"
definition vactive :: "u8w list \<Rightarrow> int" where "vactive t = uint (push_bit 4 (tb t 7 AND 0xf0) OR tb t 5)"
definition hblank :: "u8w list \<Rightarrow> int" where "hblank t = uint (push_bit 8 (tb t 4 AND 0xf) OR tb t 3)"
definition vblank :: "u8w list \<Rightarrow> int" where "vblank t = uint (push_bit 8 (tb t 7 AND 0xf) OR tb t 6)"
definition hsync_offset :: "u8w list \<Rightarrow> int" where "hsync_offset t = uint (push_bit 2 (tb t 11 AND 0xc0) OR tb t 8)"
definition hsync_pulse_width :: "u8w list \<Rightarrow> int" where "hsync_pulse_width t = uint (push_bit 4 (tb t 11 AND 0x30) OR tb t 9)"
definition vsync_offset :: "u8w list \<Rightarrow> int" where "vsync_offset t = uint (drop_bit 2 (tb t 11 AND 0xc) OR drop_bit 4 (tb t 10))"
definition vsync_pulse_width :: "u8w list \<Rightarrow> int" where "vsync_pulse_width t = uint (push_bit 4 (tb t 11 AND 0x3) OR (tb t 10 AND 0xf))"

definition DRM_EDID_PT_HSYNC_POSITIVE :: u8w where "DRM_EDID_PT_HSYNC_POSITIVE = 0x02"
definition DRM_EDID_PT_VSYNC_POSITIVE :: u8w where "DRM_EDID_PT_VSYNC_POSITIVE = 0x04"
definition DRM_EDID_PT_STEREO :: u8w where "DRM_EDID_PT_STEREO = 0x20"
definition DRM_EDID_PT_INTERLACED :: u8w where "DRM_EDID_PT_INTERLACED = 0x80"

definition cea_interlaced :: "(int \<times> int) list" where
  "cea_interlaced = [(1920, 1080), (720, 480), (1440, 480), (2880, 480), (720, 576), (1440, 576), (2880, 576)]"

definition double_fields :: "int \<times> int \<Rightarrow> drm_display_mode \<Rightarrow> drm_display_mode" where
  "double_fields wh m =
     (if hdisplay m = fst wh \<and> vdisplay m = snd wh div 2
      then m\<lparr>vdisplay := vdisplay m * 2, vsync_start := vsync_start m * 2, vsync_end := vsync_end m * 2,
             vtotal := (vtotal m * 2) OR 1\<rparr>
      else m)"

definition drm_mode_do_interlace_quirk :: "u8w list \<Rightarrow> drm_display_mode \<Rightarrow> drm_display_mode" where
  "drm_mode_do_interlace_quirk t m =
     (if t ! 17 AND DRM_EDID_PT_INTERLACED = 0 then m
      else (let m = fold double_fields cea_interlaced m in m\<lparr>mode_flags := mode_flags m OR DRM_MODE_FLAG_INTERLACE\<rparr>))"

text \<open>The fields from the timing, with the totals that some monitors get wrong.\<close>

definition detailed_fields :: "u8w list \<Rightarrow> drm_display_mode \<Rightarrow> drm_display_mode" where
  "detailed_fields t m =
     (let hse = hactive t + hsync_offset t + hsync_pulse_width t; ht = hactive t + hblank t;
          vse = vactive t + vsync_offset t + vsync_pulse_width t; vt = vactive t + vblank t
      in m\<lparr>clock := uint (tb t 0 OR push_bit 8 (tb t 1)) * 10,
           hdisplay := hactive t, hsync_start := hactive t + hsync_offset t, hsync_end := hse,
           htotal := (if hse > ht then hse + 1 else ht),
           vdisplay := vactive t, vsync_start := vactive t + vsync_offset t, vsync_end := vse,
           vtotal := (if vse > vt then vse + 1 else vt)\<rparr>)"

definition detailed_syncs :: "u8w list \<Rightarrow> drm_display_mode \<Rightarrow> drm_display_mode" where
  "detailed_syncs t m = m\<lparr>mode_flags := mode_flags m OR
     (if t ! 17 AND DRM_EDID_PT_HSYNC_POSITIVE \<noteq> 0 then DRM_MODE_FLAG_PHSYNC else DRM_MODE_FLAG_NHSYNC) OR
     (if t ! 17 AND DRM_EDID_PT_VSYNC_POSITIVE \<noteq> 0 then DRM_MODE_FLAG_PVSYNC else DRM_MODE_FLAG_NVSYNC)\<rparr>"

text \<open>From the label \<^verbatim>\<open>set_size\<close> on; the sizes of the screen in centimetres are bytes 21 and 22 of the description.\<close>

definition detailed_size :: "u8w list \<Rightarrow> u8w list \<Rightarrow> u32w \<Rightarrow> drm_display_mode \<Rightarrow> edid_mode option" where
  "detailed_size raw t quirks m = do {
     width_cm \<leftarrow> peek raw 21; height_cm \<leftarrow> peek raw 22;
     let w = uint (tb t 12 OR push_bit 4 (tb t 14 AND 0xf0));
     let h = uint (tb t 13 OR push_bit 8 (tb t 14 AND 0xf));
     let (w, h) = (if quirks AND EDID_QUIRK_DETAILED_IN_CM \<noteq> 0 then (w * 10, h * 10) else (w, h));
     let (w, h) = (if quirks AND EDID_QUIRK_DETAILED_USE_MAXIMUM_SIZE \<noteq> 0 then (uint width_cm * 10, uint height_cm * 10) else (w, h));
     Some \<lparr>em = drm_mode_set_name (m\<lparr>mode_type := DRM_MODE_TYPE_DRIVER\<rparr>), width_mm = w, height_mm = h\<rparr> }"

text \<open>
  \<open>ident\<close> is the number for a new mode. The result is the mode, absent for a descriptor that is refused, and the descriptor, which
  the quirks change in place.
\<close>

definition drm_mode_detailed :: "nat option \<Rightarrow> u8w list \<Rightarrow> u32w \<Rightarrow> u8w list \<Rightarrow> (u8w list \<times> edid_mode option) option" where
  "drm_mode_detailed ident raw quirks t =
     (if hactive t < 64 \<or> vactive t < 64 then Some (t, None)
      else if t ! 17 AND DRM_EDID_PT_STEREO \<noteq> 0 then Some (t, None)
      else if hsync_pulse_width t = 0 \<or> vsync_pulse_width t = 0 then Some (t, None)
      else if quirks AND EDID_QUIRK_FORCE_REDUCED_BLANKING \<noteq> 0
      then do {
        m \<leftarrow> drm_cvt_mode ident (hactive t) (vactive t) 60 True False False;
        (case m of
           None \<Rightarrow> Some (t, None)
         | Some m \<Rightarrow> do { m \<leftarrow> detailed_size raw t quirks m; Some (t, Some m) }) }
      else (case drm_mode_create ident of
              None \<Rightarrow> Some (t, None)
            | Some m \<Rightarrow> do {
                let t = (if quirks AND EDID_QUIRK_135_CLOCK_TOO_HIGH \<noteq> 0 then t[0 := 0x40, 1 := 0x04] else t);
                let m = drm_mode_do_interlace_quirk t (detailed_fields t m);
                let t = (if quirks AND EDID_QUIRK_DETAILED_SYNC_PP \<noteq> 0
                         then t[17 := t ! 17 OR (DRM_EDID_PT_HSYNC_POSITIVE OR DRM_EDID_PT_VSYNC_POSITIVE)] else t);
                m \<leftarrow> detailed_size raw t quirks (detailed_syncs t m);
                Some (t, Some m) }))"

text \<open>The state of the walk: whether the next mode is preferred, the number of modes, and the connector.\<close>

definition do_detailed_mode ::
    "mode_ids \<Rightarrow> u8w list \<Rightarrow> u32w \<Rightarrow> u8w list \<Rightarrow> bool \<times> int \<times> probe \<Rightarrow> (u8w list \<times> bool \<times> int \<times> probe) option" where
  "do_detailed_mode ids raw quirks t x =
     (case x of (preferred, modes, P) \<Rightarrow>
        if t ! 0 = 0 \<and> t ! 1 = 0 then Some (t, preferred, modes, P)
        else do {
          (t, new) \<leftarrow> drm_mode_detailed (ids (n_created P)) raw quirks t;
          (case new of
             None \<Rightarrow> Some (t, preferred, modes, count_id P)
           | Some m \<Rightarrow> (let m = (if preferred then set_type (\<lambda>ty. ty OR DRM_MODE_TYPE_PREFERRED) m else m)
                        in Some (t, False, modes + 1, drm_mode_probed_add m (count_id P)))) })"

definition add_detailed_modes :: "mode_ids \<Rightarrow> u32w \<Rightarrow> u8w list \<Rightarrow> probe \<Rightarrow> (int \<times> u8w list \<times> probe) option" where
  "add_detailed_modes ids quirks raw P = do {
     v13 \<leftarrow> version_greater raw 1 3;
     features \<leftarrow> peek raw 24;
     (raw, _, modes, P) \<leftarrow> drm_for_each_detailed_block raw (do_detailed_mode ids raw quirks) (v13 \<or> features AND 2 \<noteq> 0, 0, P);
     Some (modes, raw, P) }"

section \<open>Ranges\<close>

definition mode_is_rb :: "drm_display_mode \<Rightarrow> bool" where
  "mode_is_rb m \<longleftrightarrow> htotal m - hdisplay m = 160 \<and> hsync_end m - hdisplay m = 80 \<and> hsync_end m - hsync_start m = 32 \<and>
     vsync_start m - vdisplay m = 3"

definition is_rb :: "u8w list \<Rightarrow> bool \<Rightarrow> (u8w list \<times> bool) option" where
  "is_rb t found = Some (t, found \<or> t ! 3 = 0xfd \<and> t ! 15 AND 0x10 \<noteq> 0)"

definition drm_monitor_supports_rb :: "u8w list \<Rightarrow> bool option" where
  "drm_monitor_supports_rb raw = do {
     revision \<leftarrow> peek raw 19; inp \<leftarrow> peek raw 20;
     if revision \<ge> 4 then do { (_, found) \<leftarrow> drm_for_each_detailed_block raw is_rb False; Some found }
     else Some (inp AND 0x80 \<noteq> 0) }"

definition find_gtf2 :: "u8w list \<Rightarrow> u8w list option \<Rightarrow> (u8w list \<times> u8w list option) option" where
  "find_gtf2 t found = Some (t, if t ! 3 = 0xfd \<and> t ! 10 = 0x02 then Some t else found)"

definition gtf2_value :: "(u8w list \<Rightarrow> int) \<Rightarrow> u8w list \<Rightarrow> int option" where
  "gtf2_value f raw = do {
     (_, found) \<leftarrow> drm_for_each_detailed_block raw find_gtf2 None;
     Some (case found of None \<Rightarrow> 0 | Some r \<Rightarrow> f r) }"

definition drm_gtf2_hbreak :: "u8w list \<Rightarrow> int option" where "drm_gtf2_hbreak = gtf2_value (\<lambda>r. uint (r ! 12) * 2)"
definition drm_gtf2_2c :: "u8w list \<Rightarrow> int option" where "drm_gtf2_2c = gtf2_value (\<lambda>r. uint (r ! 13))"
definition drm_gtf2_m :: "u8w list \<Rightarrow> int option" where "drm_gtf2_m = gtf2_value (\<lambda>r. uint (r ! 15) * 256 + uint (r ! 14))"
definition drm_gtf2_k :: "u8w list \<Rightarrow> int option" where "drm_gtf2_k = gtf2_value (\<lambda>r. uint (r ! 16))"
definition drm_gtf2_2j :: "u8w list \<Rightarrow> int option" where "drm_gtf2_2j = gtf2_value (\<lambda>r. uint (r ! 17))"

definition mode_in_hsync_range :: "drm_display_mode \<Rightarrow> u8w \<Rightarrow> u8w list \<Rightarrow> bool option" where
  "mode_in_hsync_range m revision t = do {
     let hmin = uint (t ! 7) + (if revision \<ge> 4 \<and> t ! 4 AND 0x04 \<noteq> 0 then 255 else 0);
     let hmax = uint (t ! 8) + (if revision \<ge> 4 \<and> t ! 4 AND 0x08 \<noteq> 0 then 255 else 0);
     hs \<leftarrow> drm_mode_hsync m;
     Some (hs \<le> hmax \<and> hs \<ge> hmin) }"

definition mode_in_vsync_range :: "drm_display_mode \<Rightarrow> u8w \<Rightarrow> u8w list \<Rightarrow> bool" where
  "mode_in_vsync_range m revision t =
     (let vmin = uint (t ! 5) + (if revision \<ge> 4 \<and> t ! 4 AND 0x01 \<noteq> 0 then 255 else 0);
          vmax = uint (t ! 6) + (if revision \<ge> 4 \<and> t ! 4 AND 0x02 \<noteq> 0 then 255 else 0);
          vs = drm_mode_vrefresh m
      in vs \<le> vmax \<and> vs \<ge> vmin)"

definition range_pixel_clock :: "u8w \<Rightarrow> u8w list \<Rightarrow> int" where
  "range_pixel_clock revision t =
     (if t ! 9 = 0 \<or> t ! 9 = 255 then 0
      else if revision \<ge> 4 \<and> t ! 10 = 0x04 then u32 (uint (t ! 9) * 10000 - uint (drop_bit 2 (t ! 12)) * 250)
      else uint (t ! 9) * 10000 + 5001)"

definition mode_in_range :: "u8w list \<Rightarrow> u8w list \<Rightarrow> drm_display_mode \<Rightarrow> bool option" where
  "mode_in_range raw t m = do {
     revision \<leftarrow> peek raw 19;
     hs \<leftarrow> mode_in_hsync_range m revision t;
     if \<not> hs \<or> \<not> mode_in_vsync_range m revision t then Some False
     else if range_pixel_clock revision t \<noteq> 0 \<and> u32 (clock m) > range_pixel_clock revision t then Some False
     else if revision \<ge> 4 \<and> t ! 10 = 0x04 \<and> t ! 13 \<noteq> 0 \<and> hdisplay m > 8 * (uint (t ! 13) + 256 * uint (t ! 12 AND 0x3)) then Some False
     else if mode_is_rb m then drm_monitor_supports_rb raw else Some True }"

definition same_size_and_rate :: "drm_display_mode \<Rightarrow> drm_display_mode \<Rightarrow> bool" where
  "same_size_and_rate a b \<longleftrightarrow> hdisplay a = hdisplay b \<and> vdisplay a = vdisplay b \<and> drm_mode_vrefresh a = drm_mode_vrefresh b"

definition valid_inferred_mode :: "probe \<Rightarrow> drm_display_mode \<Rightarrow> bool" where
  "valid_inferred_mode P m \<longleftrightarrow> \<not> list_ex (\<lambda>x. same_size_and_rate m (em x)) (probed_modes P) \<and>
     list_ex (\<lambda>x. hdisplay m \<le> hdisplay (em x) \<and> vdisplay m \<le> vdisplay (em x)) (probed_modes P)"

fun drm_dmt_modes_for_range :: "mode_ids \<Rightarrow> u8w list \<Rightarrow> u8w list \<Rightarrow> drm_display_mode list \<Rightarrow> int \<times> probe \<Rightarrow> (int \<times> probe) option" where
  "drm_dmt_modes_for_range ids raw t [] x = Some x"
| "drm_dmt_modes_for_range ids raw t (m # ms) x = do {
     fits \<leftarrow> mode_in_range raw t m;
     drm_dmt_modes_for_range ids raw t ms (if fits \<and> valid_inferred_mode (snd x) m then add_copy ids m x else x) }"

definition fixup_mode_1366x768 :: "drm_display_mode \<Rightarrow> drm_display_mode" where
  "fixup_mode_1366x768 m =
     (if hdisplay m = 1368 \<and> vdisplay m = 768
      then drm_mode_set_name (m\<lparr>hdisplay := 1366, hsync_start := hsync_start m - 1, hsync_end := hsync_end m - 1\<rparr>) else m)"

text \<open>\<^verbatim>\<open>drm_gtf_modes_for_range\<close> and \<^verbatim>\<open>drm_cvt_modes_for_range\<close> differ in the formula only.\<close>

fun formula_modes_for_range ::
    "(nat option \<Rightarrow> minimode \<Rightarrow> drm_display_mode option option) \<Rightarrow> mode_ids \<Rightarrow> u8w list \<Rightarrow> u8w list \<Rightarrow> minimode list \<Rightarrow> int \<times> probe \<Rightarrow>
     (int \<times> probe) option" where
  "formula_modes_for_range f ids raw t [] x = Some x"
| "formula_modes_for_range f ids raw t (mm # mms) (modes, P) = do {
     new \<leftarrow> f (ids (n_created P)) mm;
     (case new of
        None \<Rightarrow> Some (modes, count_id P)
      | Some m \<Rightarrow> do {
          let m = fixup_mode_1366x768 m;
          fits \<leftarrow> mode_in_range raw t m;
          formula_modes_for_range f ids raw t mms
            (if \<not> fits \<or> \<not> valid_inferred_mode P m then (modes, count_id P)
             else (modes + 1, drm_mode_probed_add (plain_mode m) (count_id P))) }) }"

definition drm_gtf_modes_for_range :: "mode_ids \<Rightarrow> u8w list \<Rightarrow> u8w list \<Rightarrow> int \<times> probe \<Rightarrow> (int \<times> probe) option" where
  "drm_gtf_modes_for_range ids raw t x =
     formula_modes_for_range (\<lambda>i (w, h, r, _). drm_gtf_mode i w h r False False) ids raw t extra_modes x"

definition drm_cvt_modes_for_range :: "mode_ids \<Rightarrow> u8w list \<Rightarrow> u8w list \<Rightarrow> int \<times> probe \<Rightarrow> (int \<times> probe) option" where
  "drm_cvt_modes_for_range ids raw t x = do {
     rb \<leftarrow> drm_monitor_supports_rb raw;
     formula_modes_for_range (\<lambda>i (w, h, r, _). drm_cvt_mode i w h r rb False False) ids raw t extra_modes x }"

definition do_inferred_modes :: "mode_ids \<Rightarrow> u8w list \<Rightarrow> u8w list \<Rightarrow> int \<times> probe \<Rightarrow> (u8w list \<times> int \<times> probe) option" where
  "do_inferred_modes ids raw t x =
     (if t ! 3 \<noteq> 0xfd then Some (t, x)
      else do {
        x \<leftarrow> drm_dmt_modes_for_range ids raw t drm_dmt_modes x;
        v11 \<leftarrow> version_greater raw 1 1;
        v13 \<leftarrow> version_greater raw 1 3;
        x \<leftarrow> (if \<not> v11 then Some x
              else if t ! 10 = 0x02 \<or> t ! 10 = 0 then drm_gtf_modes_for_range ids raw t x
              else if t ! 10 = 0x04 \<and> v13 then drm_cvt_modes_for_range ids raw t x
              else Some x);
        Some (t, x) })"

definition add_inferred_modes :: "mode_ids \<Rightarrow> u8w list \<Rightarrow> probe \<Rightarrow> (int \<times> probe) option" where
  "add_inferred_modes ids raw P = do {
     v10 \<leftarrow> version_greater raw 1 0;
     if v10 then do { (_, x) \<leftarrow> drm_for_each_detailed_block raw (do_inferred_modes ids raw) (0, P); Some x } else Some (0, P) }"

end
