(* ===== verification/Drm_Edid_Add.thy ===== *)
theory Drm_Edid_Add
  imports Drm_Edid_Modes
begin

text \<open>
  Standard, established and consumer electronics modes of \<^verbatim>\<open>uts/common/io/drm/drm_edid.c\<close>, and \<^verbatim>\<open>drm_add_edid_modes\<close>, which puts
  everything together.
\<close>

unbundle bit_operations_syntax

section \<open>Standard timings\<close>

datatype timing_level = LEVEL_DMT | LEVEL_GTF | LEVEL_GTF2 | LEVEL_CVT

definition standard_timing_level :: "u8w list \<Rightarrow> timing_level option" where
  "standard_timing_level raw = do {
     revision \<leftarrow> peek raw 19; features \<leftarrow> peek raw 24;
     if revision \<ge> 2
     then (if revision \<ge> 4 \<and> features AND 1 \<noteq> 0 then Some LEVEL_CVT
           else do { hbreak \<leftarrow> drm_gtf2_hbreak raw; Some (if hbreak \<noteq> 0 then LEVEL_GTF2 else LEVEL_GTF) })
     else Some LEVEL_DMT }"

definition bad_std_timing :: "u8w \<Rightarrow> u8w \<Rightarrow> bool" where
  "bad_std_timing a b \<longleftrightarrow> a = 0x00 \<and> b = 0x00 \<or> a = 0x01 \<and> b = 0x01 \<or> a = 0x20 \<and> b = 0x20"

text \<open>The first entry of the table that fits, copied; the inner option is absent without one or without a number.\<close>

definition drm_mode_find_dmt :: "nat option \<Rightarrow> int \<Rightarrow> int \<Rightarrow> int \<Rightarrow> bool \<Rightarrow> drm_display_mode option" where
  "drm_mode_find_dmt ident hsize vsize fresh reduced =
     (case find (\<lambda>m. hdisplay m = hsize \<and> vdisplay m = vsize \<and> drm_mode_vrefresh m = fresh \<and> mode_is_rb m = reduced) drm_dmt_modes of
        None \<Rightarrow> None
      | Some m \<Rightarrow> drm_mode_duplicate ident m)"

text \<open>Width and height of a standard timing, with the first part of the hack for television sets.\<close>

definition std_size :: "u8w \<Rightarrow> u8w \<Rightarrow> u8w \<Rightarrow> int \<times> int" where
  "std_size hs va revision =
     (let h = uint hs * 8 + 248; aspect = drop_bit 6 (va AND 0xc0);
          v = (if aspect = 0 then (if revision < 3 then h else (h * 10) div 16)
               else if aspect = 1 then (h * 3) div 4
               else if aspect = 2 then (h * 4) div 5
               else (h * 9) div 16)
      in if va AND 0x3f = 0 \<and> (h = 1360 \<and> v = 765 \<or> h = 1368 \<and> v = 769) then (1366, 768) else (h, v))"

text \<open>The mode for \<open>LEVEL_GTF2\<close>: the second curve above the break frequency.\<close>

definition gtf2_mode :: "nat option \<Rightarrow> u8w list \<Rightarrow> int \<Rightarrow> int \<Rightarrow> int \<Rightarrow> drm_display_mode option option" where
  "gtf2_mode ident raw h v rate = do {
     m \<leftarrow> drm_gtf_mode ident h v rate False False;
     (case m of
        None \<Rightarrow> Some None
      | Some m \<Rightarrow> do {
          hs \<leftarrow> drm_mode_hsync m;
          hbreak \<leftarrow> drm_gtf2_hbreak raw;
          if hs > hbreak
          then do {
            gm \<leftarrow> drm_gtf2_m raw; gc \<leftarrow> drm_gtf2_2c raw; gk \<leftarrow> drm_gtf2_k raw; gj \<leftarrow> drm_gtf2_2j raw;
            drm_gtf_mode_complex ident h v rate False False gm gc gk gj }
          else Some (Some m) }) }"

definition drm_mode_std :: "nat option \<Rightarrow> probe \<Rightarrow> u8w list \<Rightarrow> u8w \<Rightarrow> u8w \<Rightarrow> drm_display_mode option option" where
  "drm_mode_std ident P raw hs va = do {
     level \<leftarrow> standard_timing_level raw;
     revision \<leftarrow> peek raw 19;
     let rate = uint (va AND 0x3f) + 60;
     let (h, v) = std_size hs va revision;
     if bad_std_timing hs va then Some None
     else if list_ex (\<lambda>m. hdisplay (em m) = h \<and> vdisplay (em m) = v \<and> drm_mode_vrefresh (em m) = rate) (probed_modes P) then Some None
     else if h = 1366 \<and> v = 768 \<and> rate = 60
     then do {
       m \<leftarrow> drm_cvt_mode ident 1366 768 rate False False False;
       Some (map_option (\<lambda>m. m\<lparr>hdisplay := 1366, hsync_start := hsync_start m - 1, hsync_end := hsync_end m - 1\<rparr>) m) }
     else do {
       rb \<leftarrow> drm_monitor_supports_rb raw;
       (case (if rb then drm_mode_find_dmt ident h v rate True else None) of
          Some m \<Rightarrow> Some (Some m)
        | None \<Rightarrow>
            (case drm_mode_find_dmt ident h v rate False of
               Some m \<Rightarrow> Some (Some m)
             | None \<Rightarrow>
                 (case level of
                    LEVEL_DMT \<Rightarrow> Some None
                  | LEVEL_GTF \<Rightarrow> drm_gtf_mode ident h v rate False False
                  | LEVEL_GTF2 \<Rightarrow> gtf2_mode ident raw h v rate
                  | LEVEL_CVT \<Rightarrow> drm_cvt_mode ident h v rate False False False))) } }"

text \<open>The loop over pairs of bytes that \<^verbatim>\<open>add_standard_modes\<close> and \<^verbatim>\<open>do_standard_modes\<close> share.\<close>

fun std_modes :: "mode_ids \<Rightarrow> u8w list \<Rightarrow> (u8w \<times> u8w) list \<Rightarrow> int \<times> probe \<Rightarrow> (int \<times> probe) option" where
  "std_modes ids raw [] x = Some x"
| "std_modes ids raw ((hs, va) # rest) (modes, P) = do {
     new \<leftarrow> drm_mode_std (ids (n_created P)) P raw hs va;
     std_modes ids raw rest (case new of
        None \<Rightarrow> (modes, count_id P)
      | Some m \<Rightarrow> (modes + 1, drm_mode_probed_add (plain_mode m) (count_id P))) }"

text \<open>The loop runs to 6, one more than \<^verbatim>\<open>struct detailed_non_pixel\<close> has entries; the sixth is still in the descriptor.\<close>

definition do_standard_modes :: "mode_ids \<Rightarrow> u8w list \<Rightarrow> u8w list \<Rightarrow> int \<times> probe \<Rightarrow> (u8w list \<times> int \<times> probe) option" where
  "do_standard_modes ids raw t x =
     (if t ! 3 = 0xfa
      then do { x \<leftarrow> std_modes ids raw (map (\<lambda>i. (t ! (5 + 2 * i), t ! (6 + 2 * i))) [0..<6]) x; Some (t, x) }
      else Some (t, x))"

definition add_standard_modes :: "mode_ids \<Rightarrow> u8w list \<Rightarrow> probe \<Rightarrow> (int \<times> probe) option" where
  "add_standard_modes ids raw P = do {
     bytes \<leftarrow> peek_all raw 38 16;
     x \<leftarrow> std_modes ids raw (map (\<lambda>i. (bytes ! (2 * i), bytes ! (2 * i + 1))) [0..<8]) (0, P);
     v10 \<leftarrow> version_greater raw 1 0;
     if v10 then do { (_, x) \<leftarrow> drm_for_each_detailed_block raw (do_standard_modes ids raw) x; Some x } else Some x }"

section \<open>Established timings\<close>

definition add_found :: "drm_display_mode option \<Rightarrow> int \<times> probe \<Rightarrow> int \<times> probe" where
  "add_found new x =
     (case x of (modes, P) \<Rightarrow>
        (case new of None \<Rightarrow> (modes, count_id P) | Some m \<Rightarrow> (modes + 1, drm_mode_probed_add (plain_mode m) (count_id P))))"

text \<open>The bits of byte \<open>i\<close>, from 7 down to 1, with the numbers of their table entries.\<close>

definition est3_bits :: "(nat \<times> nat \<times> nat) list" where
  "est3_bits = concat (map (\<lambda>i. map (\<lambda>j. (i, j, i * 8 + (7 - j))) (rev [1..<8])) [0..<6])"

definition drm_est3_modes :: "mode_ids \<Rightarrow> u8w list \<Rightarrow> int \<times> probe \<Rightarrow> int \<times> probe" where
  "drm_est3_modes ids t x =
     fold (\<lambda>(i, j, m) x.
       if m < length est3_modes \<and> bit (t ! (5 + i)) j
       then (case est3_modes ! m of (w, h, r, reduced) \<Rightarrow> add_found (drm_mode_find_dmt (ids (n_created (snd x))) w h r reduced) x)
       else x) est3_bits x"

definition do_established_modes :: "mode_ids \<Rightarrow> u8w list \<Rightarrow> int \<times> probe \<Rightarrow> (u8w list \<times> int \<times> probe) option" where
  "do_established_modes ids t x = Some (t, if t ! 3 = 0xf7 then drm_est3_modes ids t x else x)"

definition est_bits :: "u8w \<Rightarrow> u8w \<Rightarrow> u8w \<Rightarrow> u32w" where
  "est_bits t1 t2 rsvd = ucast t1 OR push_bit 8 (ucast t2) OR push_bit 9 (ucast rsvd AND 0x80)"

definition add_established_modes :: "mode_ids \<Rightarrow> u8w list \<Rightarrow> probe \<Rightarrow> (int \<times> probe) option" where
  "add_established_modes ids raw P = do {
     t1 \<leftarrow> peek raw 35; t2 \<leftarrow> peek raw 36; rsvd \<leftarrow> peek raw 37;
     let x = fold (\<lambda>i x. if bit (est_bits t1 t2 rsvd) i then add_copy ids (edid_est_modes ! i) x else x) [0..<17] (0, P);
     v10 \<leftarrow> version_greater raw 1 0;
     if v10 then do { (_, x) \<leftarrow> drm_for_each_detailed_block raw (do_established_modes ids) x; Some x } else Some x }"

section \<open>Three byte codes\<close>

definition cvt_size :: "u8w \<Rightarrow> u8w \<Rightarrow> int \<times> int" where
  "cvt_size c0 c1 =
     (let h = (uint c0 + uint (push_bit 4 (ucast c1 AND 0xf0 :: u32w)) + 1) * 2; a = c1 AND 0x0c
      in (if a = 0x04 then h * 16 div 9 else if a = 0x08 then h * 16 div 10 else if a = 0x0c then h * 15 div 9 else h * 4 div 3, h))"

definition cvt_rates :: "int list" where "cvt_rates = [60, 85, 75, 60, 50]"

fun cvt_code_modes :: "mode_ids \<Rightarrow> int \<Rightarrow> int \<Rightarrow> u8w \<Rightarrow> nat list \<Rightarrow> int \<times> probe \<Rightarrow> (int \<times> probe) option" where
  "cvt_code_modes ids w h c2 [] x = Some x"
| "cvt_code_modes ids w h c2 (j # js) x =
     (if bit c2 j
      then do {
        new \<leftarrow> drm_cvt_mode (ids (n_created (snd x))) w h (cvt_rates ! j) (j = 0) False False;
        cvt_code_modes ids w h c2 js (add_found new x) }
      else cvt_code_modes ids w h c2 js x)"

fun drm_cvt_modes :: "mode_ids \<Rightarrow> u8w list \<Rightarrow> nat list \<Rightarrow> int \<times> probe \<Rightarrow> (int \<times> probe) option" where
  "drm_cvt_modes ids t [] x = Some x"
| "drm_cvt_modes ids t (i # is) x =
     (let c0 = t ! (5 + 3 * i); c1 = t ! (6 + 3 * i); c2 = t ! (7 + 3 * i)
      in if c0 = 0 \<and> c1 = 0 \<and> c2 = 0 then drm_cvt_modes ids t is x
         else (case cvt_size c0 c1 of (w, h) \<Rightarrow> do { x \<leftarrow> cvt_code_modes ids w h c2 [1..<5] x; drm_cvt_modes ids t is x }))"

definition do_cvt_mode :: "mode_ids \<Rightarrow> u8w list \<Rightarrow> int \<times> probe \<Rightarrow> (u8w list \<times> int \<times> probe) option" where
  "do_cvt_mode ids t x = (if t ! 3 = 0xf8 then do { x \<leftarrow> drm_cvt_modes ids t [0..<4] x; Some (t, x) } else Some (t, x))"

definition add_cvt_modes :: "mode_ids \<Rightarrow> u8w list \<Rightarrow> probe \<Rightarrow> (int \<times> probe) option" where
  "add_cvt_modes ids raw P = do {
     v12 \<leftarrow> version_greater raw 1 2;
     if v12 then do { (_, x) \<leftarrow> drm_for_each_detailed_block raw (do_cvt_mode ids) (0, P); Some x } else Some (0, P) }"

section \<open>Consumer electronics\<close>

definition cea_mode_alternate_clock :: "drm_display_mode \<Rightarrow> int" where
  "cea_mode_alternate_clock m =
     (if vrefresh m smod 6 \<noteq> 0 then clock m
      else if vdisplay m = 240 \<or> vdisplay m = 480 then u32 (clock m * 1001) div 1000
      else u32 (u32 (clock m * 1000) + 1000) div 1001)"

definition same_cea_mode :: "drm_display_mode \<Rightarrow> drm_display_mode \<Rightarrow> bool" where
  "same_cea_mode m cea \<longleftrightarrow>
     (KHZ2PICOS (clock m) = KHZ2PICOS (clock cea) \<or> KHZ2PICOS (clock m) = KHZ2PICOS (cea_mode_alternate_clock cea)) \<and>
     drm_mode_equal_no_clocks m cea"

text \<open>The number of the mode, counted from 1, and 0 when there is none.\<close>

fun match_cea :: "drm_display_mode \<Rightarrow> nat \<Rightarrow> drm_display_mode list \<Rightarrow> nat" where
  "match_cea m k [] = 0"
| "match_cea m k (cea # rest) = (if same_cea_mode m cea then k + 1 else match_cea m (k + 1) rest)"

definition drm_match_cea_mode :: "drm_display_mode \<Rightarrow> nat" where
  "drm_match_cea_mode m = (if clock m = 0 then 0 else match_cea m 0 edid_cea_modes)"

fun do_cea_modes :: "mode_ids \<Rightarrow> u8w list \<Rightarrow> int \<times> probe \<Rightarrow> int \<times> probe" where
  "do_cea_modes ids [] x = x"
| "do_cea_modes ids (b # bs) (modes, P) =
     (let k = (b AND 127) - 1
      in do_cea_modes ids bs
           (if unat k < length edid_cea_modes
            then (case drm_mode_duplicate (ids (n_created P)) (edid_cea_modes ! unat k) of
                    None \<Rightarrow> (modes, count_id P)
                  | Some m \<Rightarrow> (modes + 1, drm_mode_probed_add (plain_mode (m\<lparr>vrefresh := 0\<rparr>)) (count_id P)))
            else (modes, P)))"

fun video_dbs :: "mode_ids \<Rightarrow> u8w list \<Rightarrow> nat list \<Rightarrow> int \<times> probe \<Rightarrow> (int \<times> probe) option" where
  "video_dbs ids cea [] x = Some x"
| "video_dbs ids cea (i # is) x = do {
     b \<leftarrow> peek cea i;
     if cea_db_tag b = VIDEO_BLOCK
     then do { bytes \<leftarrow> peek_all cea (i + 1) (cea_db_payload_len b); video_dbs ids cea is (do_cea_modes ids bytes x) }
     else video_dbs ids cea is x }"

definition add_cea_modes :: "mode_ids \<Rightarrow> u8w list \<Rightarrow> probe \<Rightarrow> (int \<times> probe) option" where
  "add_cea_modes ids raw P = do {
     ext \<leftarrow> drm_find_cea_extension raw;
     (case ext of
        None \<Rightarrow> Some (0, P)
      | Some cea \<Rightarrow> do {
          rev \<leftarrow> cea_revision cea;
          if rev \<ge> 3 then do { dbs \<leftarrow> data_blocks cea; video_dbs ids cea dbs (0, P) } else Some (0, P) }) }"

text \<open>The new mode for a probed one, on a list of its own until the walk is over.\<close>

fun alternate_modes :: "mode_ids \<Rightarrow> nat \<Rightarrow> edid_mode list \<Rightarrow> drm_display_mode list" where
  "alternate_modes ids n [] = []"
| "alternate_modes ids n (m # ms) =
     (let k = drm_match_cea_mode (em m) in
      if k = 0 then alternate_modes ids n ms
      else (let cea = edid_cea_modes ! (k - 1); clock1 = clock cea; clock2 = cea_mode_alternate_clock cea
            in if clock1 = clock2 \<or> clock (em m) \<noteq> clock1 \<and> clock (em m) \<noteq> clock2 then alternate_modes ids n ms
               else (case drm_mode_duplicate (ids n) cea of
                       None \<Rightarrow> alternate_modes ids (n + 1) ms
                     | Some new \<Rightarrow> new\<lparr>clock := (if clock (em m) \<noteq> clock1 then clock1 else clock2)\<rparr> # alternate_modes ids (n + 1) ms)))"

definition add_alternate_cea_modes :: "mode_ids \<Rightarrow> u8w list \<Rightarrow> probe \<Rightarrow> (int \<times> probe) option" where
  "add_alternate_cea_modes ids raw P = do {
     ext \<leftarrow> drm_find_cea_extension raw;
     (case ext of
        None \<Rightarrow> Some (0, P)
      | Some _ \<Rightarrow> (let new = alternate_modes ids (n_created P) (probed_modes P)
                   in Some (int (length new), P\<lparr>probed_modes := probed_modes P @ map plain_mode new,
                        n_created := n_created P + length (probed_modes P)\<rparr>))) }"

section \<open>All modes\<close>

text \<open>The number of modes, the description with what checks and quirks changed in it, and the connector.\<close>

definition drm_add_edid_modes :: "mode_ids \<Rightarrow> int \<Rightarrow> u8w list option \<Rightarrow> probe \<Rightarrow> drm_display_info \<Rightarrow>
    (int \<times> u8w list option \<times> probe \<times> drm_display_info) option" where
  "drm_add_edid_modes ids fixup edid P info =
     (case edid of
        None \<Rightarrow> Some (0, None, P, info)
      | Some raw \<Rightarrow> do {
          (valid, raw) \<leftarrow> drm_edid_is_valid fixup raw;
          if \<not> valid then Some (0, Some raw, P, info)
          else do {
            quirks \<leftarrow> edid_get_quirks raw;
            (n1, raw, P) \<leftarrow> add_detailed_modes ids quirks raw P;
            (n2, P) \<leftarrow> add_cvt_modes ids raw P;
            (n3, P) \<leftarrow> add_standard_modes ids raw P;
            (n4, P) \<leftarrow> add_established_modes ids raw P;
            features \<leftarrow> peek raw 24;
            (n5, P) \<leftarrow> (if features AND 1 \<noteq> 0 then add_inferred_modes ids raw P else Some (0, P));
            (n6, P) \<leftarrow> add_cea_modes ids raw P;
            (n7, P) \<leftarrow> add_alternate_cea_modes ids raw P;
            let P = (if quirks AND (EDID_QUIRK_PREFER_LARGE_60 OR EDID_QUIRK_PREFER_LARGE_75) \<noteq> 0
                     then edid_fixup_preferred quirks P else P);
            info \<leftarrow> drm_add_display_info raw info;
            Some (n1 + n2 + n3 + n4 + n5 + n6 + n7, Some raw, P, info) } })"

definition drm_add_modes_noedid :: "mode_ids \<Rightarrow> int \<Rightarrow> int \<Rightarrow> probe \<Rightarrow> int \<times> probe" where
  "drm_add_modes_noedid ids hdisp vdisp P =
     (let hdisp = max hdisp 0; vdisp = max vdisp 0
      in fold (\<lambda>m x.
           if hdisp \<noteq> 0 \<and> vdisp \<noteq> 0 \<and> (hdisplay m > hdisp \<or> vdisplay m > vdisp) then x
           else if drm_mode_vrefresh m > 61 then x
           else add_copy ids m x) drm_dmt_modes (0, P))"

end
