(* ===== verification/Drm_Edid_Thms.thy ===== *)
theory Drm_Edid_Thms
  imports Drm_Edid
begin

text \<open>
  What is fetched from a monitor is consistent, and damage is repaired or noticed.
\<close>

section \<open>Blocks\<close>

lemma block_at_length: "block_at raw i = Some blk \<Longrightarrow> length blk = 128"
  by (auto simp: block_at_def EDID_LENGTH_def split: if_splits)

lemma block_at_Some: "128 * (i + 1) \<le> length raw \<Longrightarrow> block_at raw i = Some (take 128 (drop (128 * i) raw))"
  by (simp add: block_at_def EDID_LENGTH_def)

lemma put_block_Some:
  "128 * (i + 1) \<le> length raw \<Longrightarrow> put_block raw i blk = Some (take (128 * i) raw @ blk @ drop (128 * (i + 1)) raw)"
  by (simp add: put_block_def EDID_LENGTH_def)

lemma put_block_length: "put_block raw i blk = Some raw' \<Longrightarrow> length blk = 128 \<Longrightarrow> length raw' = length raw"
  by (auto simp: put_block_def EDID_LENGTH_def split: if_splits)

lemma block_at_nth: "block_at raw i = Some blk \<Longrightarrow> k < 128 \<Longrightarrow> blk ! k = raw ! (128 * i + k)"
  by (auto simp: block_at_def EDID_LENGTH_def split: if_splits)

lemma put_block_nth:
  assumes "put_block raw i blk = Some raw'" "length blk = 128" "n < length raw"
  shows "raw' ! n = (if 128 * i \<le> n \<and> n < 128 * i + 128 then blk ! (n - 128 * i) else raw ! n)"
proof -
  have b: "128 * (i + 1) \<le> length raw" and r: "raw' = take (128 * i) raw @ blk @ drop (128 * (i + 1)) raw"
    using assms(1) by (auto simp: put_block_def EDID_LENGTH_def split: if_splits)
  consider "n < 128 * i" | "128 * i \<le> n" "n < 128 * i + 128" | "128 * i + 128 \<le> n" by linarith
  then show ?thesis
  proof cases
    case 3
    then have "drop (128 * (i + 1)) raw ! (n - 128 * i - 128) = raw ! n" using b assms(3) by (simp add: nth_drop)
    moreover have "\<not> n - 128 * i < 128" using 3 by linarith
    ultimately show ?thesis using 3 r b assms(2) by (simp add: nth_append)
  next
    case 2
    then have "n - 128 * i < 128" by linarith
    then show ?thesis using 2 r b assms(2) by (simp add: nth_append)
  qed (use r b assms(2) in \<open>simp add: nth_append\<close>)
qed

lemma block_at_put:
  assumes "put_block raw i blk = Some raw'" "length blk = 128" "128 * (j + 1) \<le> length raw"
  shows "block_at raw' j = (if i = j then Some blk else block_at raw j)"
proof -
  have l: "length raw' = length raw" using put_block_length [OF assms(1,2)] .
  have s: "block_at raw' j = Some (take 128 (drop (128 * j) raw'))" "block_at raw j = Some (take 128 (drop (128 * j) raw))"
    using assms(3) l by (simp_all add: block_at_Some)
  have n: "take 128 (drop (128 * j) raw') ! k = (if i = j then blk ! k else take 128 (drop (128 * j) raw) ! k)" if "k < 128" for k
  proof -
    have "128 * i \<le> 128 * j + k \<and> 128 * j + k < 128 * i + 128 \<longleftrightarrow> i = j"
      using that by (cases i j rule: linorder_cases) auto
    moreover have "128 * j + k < length raw" using assms(3) that by simp
    ultimately show ?thesis using put_block_nth [OF assms(1,2)] that assms(3) l by simp
  qed
  show ?thesis
  proof (cases "i = j")
    case True
    then have "take 128 (drop (128 * j) raw') = blk" using n assms(2,3) l by (intro nth_equalityI) auto
    then show ?thesis using s True by simp
  next
    case False
    then have "take 128 (drop (128 * j) raw') = take 128 (drop (128 * j) raw)" using n assms(3) l by (intro nth_equalityI) auto
    then show ?thesis using s False by simp
  qed
qed

lemma put_block_same:
  assumes "block_at raw i = Some blk"
  shows "put_block raw i blk = Some raw"
proof -
  have b: "128 * (i + 1) \<le> length raw" "blk = take 128 (drop (128 * i) raw)"
    using assms by (auto simp: block_at_def EDID_LENGTH_def split: if_splits)
  have "take (128 * i) raw @ take 128 (drop (128 * i) raw) @ drop (128 * (i + 1)) raw = raw"
    using append_take_drop_id [of 128 "drop (128 * i) raw"] append_take_drop_id [of "128 * i" raw] by (simp add: add.commute)
  then show ?thesis using b by (simp add: put_block_Some)
qed

lemma peek_block: "block_at raw 0 = Some blk \<Longrightarrow> k < 128 \<Longrightarrow> peek raw k = Some (blk ! k)"
  by (auto simp: block_at_def EDID_LENGTH_def peek_def split: if_splits)

section \<open>The check of a block\<close>

lemma upt_8: "[0..<8] = [0, 1, 2, 3, 4, 5, 6, 7]"
  by (simp add: upt_rec)

lemma length_filter_all: "length (filter P xs) = length xs \<longleftrightarrow> (\<forall>x \<in> set xs. P x)"
proof (induction xs)
  case (Cons x xs)
  have "length (filter P xs) \<noteq> Suc (length xs)" using length_filter_le [of P xs] by linarith
  then show ?case using Cons by auto
qed simp

lemma header_perfect:
  assumes "128 \<le> length raw"
  shows "drm_edid_header_is_valid raw = 8 \<longleftrightarrow> take 8 raw = edid_header"
proof -
  have "drm_edid_header_is_valid raw = 8 \<longleftrightarrow> (\<forall>i \<in> set [0..<8]. raw ! i = edid_header ! i)"
    using length_filter_all [of "\<lambda>i. raw ! i = edid_header ! i" "[0..<8]"] by (simp add: drm_edid_header_is_valid_def)
  also have "\<dots> \<longleftrightarrow> take 8 raw = edid_header"
    using assms by (auto simp: list_eq_iff_nth_eq edid_header_def)
  finally show ?thesis .
qed

lemma block_valid_length: "drm_edid_block_valid fixup raw n = (v, raw') \<Longrightarrow> length raw = 128 \<Longrightarrow> length raw' = 128"
  by (auto simp: drm_edid_block_valid_def Let_def edid_header_def split: if_splits)

lemma block_valid_ext: "0 < n \<Longrightarrow> drm_edid_block_valid fixup raw n = drm_edid_block_valid fixup raw 1"
  by (simp add: drm_edid_block_valid_def)

text \<open>What the check accepts: afterwards the header of a base block is right, and the checksum of all but damaged CEA blocks.\<close>

definition good_block :: "u8w list \<Rightarrow> nat \<Rightarrow> bool" where
  "good_block blk n \<longleftrightarrow> (n = 0 \<longrightarrow> take 8 blk = edid_header) \<and> (sum_list blk = 0 \<or> blk ! 0 = 2) \<and> (blk ! 0 = 0 \<longrightarrow> blk ! 18 = 1)"

lemma block_valid_good:
  assumes "drm_edid_block_valid fixup raw n = (True, raw')" "length raw = 128"
  shows "good_block raw' n"
  using assms header_perfect [of raw]
  by (auto simp: drm_edid_block_valid_def good_block_def Let_def edid_header_def split: if_splits)

lemma good_block_valid:
  assumes "good_block raw n" "length raw = 128"
  shows "drm_edid_block_valid fixup raw n = (True, raw)"
  using assms header_perfect [of raw] by (auto simp: drm_edid_block_valid_def good_block_def Let_def)

section \<open>The result of a fetch\<close>

definition i2c_ok :: "'s i2c_transfer \<Rightarrow> bool" where
  "i2c_ok xfer \<longleftrightarrow> (\<forall>msgs buf s. length (fst (snd (xfer msgs buf s))) = length buf)"

lemma probe_loop_length: "i2c_ok xfer \<Longrightarrow> probe_loop xfer msgs n buf s = (ret, buf', s') \<Longrightarrow> length buf' = length buf"
proof (induction n arbitrary: buf s)
  case 0
  obtain r1 b1 s1 where x: "xfer msgs buf s = (r1, b1, s1)" by (metis prod_cases3)
  then have "length b1 = length buf" using 0(1) unfolding i2c_ok_def by (metis fst_conv snd_conv)
  then show ?case using 0(2) x by (simp add: probe_loop.simps [of xfer msgs 0] split: if_splits)
next
  case (Suc n)
  obtain r1 b1 s1 where x: "xfer msgs buf s = (r1, b1, s1)" by (metis prod_cases3)
  then have l: "length b1 = length buf" using Suc.prems(1) unfolding i2c_ok_def by (metis fst_conv snd_conv)
  then show ?case using Suc.IH [OF Suc.prems(1), of b1 s1] Suc.prems(2) x
    by (simp add: probe_loop.simps [of xfer msgs "Suc n"] split: if_splits)
qed

lemma probe_length:
  "i2c_ok xfer \<Longrightarrow> drm_do_probe_ddc_edid xfer buf j len s = (ret, buf', s') \<Longrightarrow> length buf' = length buf"
  by (auto simp: drm_do_probe_ddc_edid_def split: prod.splits dest: probe_loop_length)


definition base_msgs :: "i2c_msg list" where
  "base_msgs = [I2C_WR DDC_ADDR 0, I2C_RD DDC_ADDR 128]"

text \<open>The monitor announces at most \<open>n\<close> extensions in its base block.\<close>

definition announces :: "'s i2c_transfer \<Rightarrow> nat \<Rightarrow> bool" where
  "announces xfer n \<longleftrightarrow> (\<forall>buf s. length buf = 128 \<longrightarrow>
     (case xfer base_msgs buf s of (ret, buf', s') \<Rightarrow> ret = 2 \<longrightarrow> unat (buf' ! 126) \<le> n))"

lemma base_msgs_eq: "ddc_msgs 0 EDID_LENGTH = base_msgs"
  by (simp add: ddc_msgs_def base_msgs_def EDID_LENGTH_def)

lemma probe_base:
  assumes i: "i2c_ok xfer" and a: "announces xfer n" and l: "length buf = 128"
    and p: "drm_do_probe_ddc_edid xfer buf 0 EDID_LENGTH s = (0, buf', s')"
  shows "unat (buf' ! 126) \<le> n"
proof -
  have len: "length base_msgs = 2" by (simp add: base_msgs_def)
  have "unat (b ! 126) \<le> n" if "probe_loop xfer base_msgs k bf t = (2, b, t')" "length bf = 128" for k bf b t t'
    using that
  proof (induction k arbitrary: bf t)
    case 0
    obtain r1 b1 t1 where x: "xfer base_msgs bf t = (r1, b1, t1)" by (metis prod_cases3)
    then have "r1 = 2 \<longrightarrow> unat (b1 ! 126) \<le> n" using a 0(2) unfolding announces_def by (metis (mono_tags, lifting) case_prod_conv)
    then show ?case using 0(1) x by (simp add: probe_loop.simps [of xfer base_msgs 0] split: if_splits)
  next
    case (Suc k)
    obtain r1 b1 t1 where x: "xfer base_msgs bf t = (r1, b1, t1)" by (metis prod_cases3)
    have "length b1 = 128" using i x Suc.prems(2) unfolding i2c_ok_def by (metis fst_conv snd_conv)
    moreover have "r1 = 2 \<longrightarrow> unat (b1 ! 126) \<le> n" using a Suc.prems(2) x unfolding announces_def
      by (metis (mono_tags, lifting) case_prod_conv)
    ultimately show ?case using Suc.IH [of b1 t1] Suc.prems(1) x
      len
      by (simp add: probe_loop.simps [of xfer base_msgs "Suc k"] ENXIO_def split: if_splits)
  qed
  moreover obtain r where "probe_loop xfer base_msgs 4 buf s = (r, buf', s')" "r = 2"
    using p by (auto simp: drm_do_probe_ddc_edid_def base_msgs_eq split: prod.splits if_splits) (simp add: base_msgs_def)
  ultimately show ?thesis using l by blast
qed

lemma valid_byte_126: "drm_edid_block_valid fixup blk n = (v, blk') \<Longrightarrow> length blk = 128 \<Longrightarrow> blk' ! 126 = blk ! 126"
  by (auto simp: drm_edid_block_valid_def edid_header_def nth_append Let_def split: if_splits)

lemma fetch_base_inv:
  assumes "i2c_ok xfer" "announces xfer n" "length buf = 640"
  shows "\<exists>res buf' conn' s'. fetch_base xfer fixup is buf conn s = Some (res, buf', conn', s') \<and> length buf' = 640 \<and>
    (res = Fetched \<longrightarrow> (\<exists>blk. block_at buf' 0 = Some blk \<and> good_block blk 0 \<and> unat (blk ! 126) \<le> n))"
  using assms(3)
proof (induction "is" arbitrary: buf conn s)
  case (Cons i "is")
  obtain blk where b: "block_at buf 0 = Some blk" using Cons.prems by (simp add: block_at_Some)
  have l: "length blk = 128" using block_at_length [OF b] .
  obtain ret blk1 s1 where p: "drm_do_probe_ddc_edid xfer blk 0 EDID_LENGTH s = (ret, blk1, s1)" by (metis prod_cases3)
  have l1: "length blk1 = 128" using probe_length [OF assms(1) p] l by simp
  obtain buf1 where q: "put_block buf 0 blk1 = Some buf1" "length buf1 = 640"
    using put_block_Some [of 0 buf blk1] put_block_length [of buf 0 blk1] l1 Cons.prems by auto
  show ?case
  proof (cases "ret = 0")
    case False
    then show ?thesis using b p q by (simp add: Let_def)
  next
    case ret: True
    obtain v blk2 where v: "drm_edid_block_valid fixup blk1 0 = (v, blk2)" by fastforce
    have l2: "length blk2 = 128" using block_valid_length [OF v l1] .
    obtain buf2 where q2: "put_block buf 0 blk2 = Some buf2" "length buf2 = 640"
      using put_block_Some [of 0 buf blk2] put_block_length [of buf 0 blk2] l2 Cons.prems by auto
    show ?thesis
    proof (cases v)
      case True
      have "good_block blk2 0" using block_valid_good [of fixup blk1 0 blk2] v True l1 by simp
      moreover have "block_at buf2 0 = Some blk2" using block_at_put [OF q2(1) l2, of 0] Cons.prems by simp
      moreover have "unat (blk2 ! 126) \<le> n"
        using probe_base [OF assms(1,2) l] p ret valid_byte_126 [OF v l1] by simp
      ultimately show ?thesis using b p ret v True q2 by simp
    next
      case False
      then show ?thesis using b p ret v q2 Cons.IH [OF q2(2)] by simp
    qed
  qed
qed simp

lemma fetch_ext_inv:
  assumes "i2c_ok xfer" "length buf = 640" "1 \<le> k" "k \<le> 4" "0 < j"
  shows "\<exists>res buf' s'. fetch_ext xfer fixup n j k buf s = Some (res, buf', s') \<and> length buf' = 640 \<and>
    (\<forall>i \<le> 4. i \<noteq> k \<longrightarrow> block_at buf' i = block_at buf i) \<and>
    (res = Fetched \<longrightarrow> (\<exists>blk. block_at buf' k = Some blk \<and> good_block blk 1))"
  using assms(2)
proof (induction n arbitrary: buf s)
  case (Suc n)
  obtain blk where b: "block_at buf k = Some blk" using Suc.prems assms(4) by (simp add: block_at_Some)
  have l: "length blk = 128" using block_at_length [OF b] .
  obtain ret blk1 s1 where p: "drm_do_probe_ddc_edid xfer blk j EDID_LENGTH s = (ret, blk1, s1)" by (metis prod_cases3)
  have l1: "length blk1 = 128" using probe_length [OF assms(1) p] l by simp
  obtain v blk2 where v: "drm_edid_block_valid fixup blk1 j = (v, blk2)" by fastforce
  have l2: "length blk2 = 128" using block_valid_length [OF v l1] .
  have q: "\<exists>buf'. put_block buf k x = Some buf' \<and> length buf' = 640 \<and> (\<forall>i \<le> 4. block_at buf' i = (if k = i then Some x else block_at buf i))"
    if "length x = 128" for x
  proof -
    obtain buf' where w: "put_block buf k x = Some buf'" using put_block_Some [of k buf x] Suc.prems assms(4) by simp
    have "length buf' = 640" using put_block_length [OF w that] Suc.prems by simp
    moreover have "block_at buf' i = (if k = i then Some x else block_at buf i)" if "i \<le> 4" for i
      using block_at_put [OF w \<open>length x = 128\<close>, of i] Suc.prems that by simp
    ultimately show ?thesis using w by blast
  qed
  obtain buf1 where q1: "put_block buf k blk1 = Some buf1" "length buf1 = 640" "\<forall>i \<le> 4. block_at buf1 i = (if k = i then Some blk1 else block_at buf i)"
    using q [OF l1] by blast
  obtain buf2 where q2: "put_block buf k blk2 = Some buf2" "length buf2 = 640" "\<forall>i \<le> 4. block_at buf2 i = (if k = i then Some blk2 else block_at buf i)"
    using q [OF l2] by blast
  show ?case
  proof (cases "ret = 0")
    case False
    then show ?thesis using b p q1 by (auto simp: Let_def)
  next
    case ret: True
    show ?thesis
    proof (cases v)
      case True
      have "good_block blk2 1" using block_valid_good [of fixup blk1 j blk2] v True l1 assms(5) by (simp add: good_block_def)
      then show ?thesis using b p ret v True q2 assms(4) by auto
    next
      case False
      then show ?thesis using b p ret v q2 Suc.IH [OF q2(2), of s1] by auto
    qed
  qed
qed simp

text \<open>Blocks 0 to \<open>v\<close> of the buffer are good.\<close>

definition blocks_good :: "u8w list \<Rightarrow> nat \<Rightarrow> bool" where
  "blocks_good buf v \<longleftrightarrow> (\<forall>i \<le> v. \<exists>blk. block_at buf i = Some blk \<and> good_block blk i)"

lemma fetch_exts_inv:
  assumes "i2c_ok xfer" "length buf = 640" "blocks_good buf v" "v + length js \<le> 4" "\<forall>j \<in> set js. 0 < j"
  shows "\<exists>done w buf' s'. fetch_exts xfer fixup js v buf s = Some (done, w, buf', s') \<and> length buf' = 640 \<and>
    block_at buf' 0 = block_at buf 0 \<and> blocks_good buf' w \<and> w \<le> v + length js"
  using assms(2-)
proof (induction js arbitrary: v buf s)
  case (Cons j js)
  obtain res buf1 s1 where 1: "fetch_ext xfer fixup 4 j (v + 1) buf s = Some (res, buf1, s1)" "length buf1 = 640"
    "\<And>i. i \<le> 4 \<Longrightarrow> i \<noteq> v + 1 \<Longrightarrow> block_at buf1 i = block_at buf i"
    "res = Fetched \<Longrightarrow> \<exists>blk. block_at buf1 (v + 1) = Some blk \<and> good_block blk 1"
    using fetch_ext_inv [OF assms(1) Cons.prems(1), of "v + 1" j fixup 4 s] Cons.prems(3,4) by auto
  have g: "blocks_good buf1 v" using Cons.prems(2,3) 1(3) by (auto simp: blocks_good_def)
  have z: "block_at buf1 0 = block_at buf 0" using 1(3) by simp
  show ?case
  proof (cases res)
    case Fetched
    have "blocks_good buf1 (v + 1)"
      using g 1(4) [OF Fetched] by (auto simp: blocks_good_def le_Suc_eq good_block_def)
    then show ?thesis using Cons.IH [OF 1(2), of "v + 1" s1] 1(1) Fetched Cons.prems(3,4) z by auto
  next
    case Bad
    then show ?thesis using Cons.IH [OF 1(2) g, of s1] 1(1) Cons.prems(3,4) z by auto
  next
    case Failed
    then show ?thesis using 1(1,2) g z by auto
  qed
qed (auto intro: exI [of _ True])


lemma sum_list_upd: "i < length xs \<Longrightarrow> sum_list (xs[i := x]) = sum_list xs + (x - xs ! i)" for x :: "'a :: ab_group_add"
proof (induction xs arbitrary: i)
  case (Cons y ys)
  then show ?case by (cases i) (simp_all add: algebra_simps)
qed simp

lemma block_at_upd_0: "k < 128 \<Longrightarrow> block_at (raw[k := x]) 0 = map_option (\<lambda>b. b[k := x]) (block_at raw 0)"
  by (simp add: block_at_def EDID_LENGTH_def take_update_swap)

lemma block_at_upd_ext: "k < 128 \<Longrightarrow> 0 < i \<Longrightarrow> block_at (raw[k := x]) i = block_at raw i"
  by (cases i) (simp_all add: block_at_def EDID_LENGTH_def)

lemma valid_blocks_good:
  assumes "\<And>i. i \<in> set is \<Longrightarrow> \<exists>blk. block_at raw i = Some blk \<and> good_block blk i"
  shows "valid_blocks fixup is raw = Some (True, raw)"
  using assms
proof (induction "is")
  case (Cons i "is")
  then obtain blk where b: "block_at raw i = Some blk" "good_block blk i" by auto
  have "drm_edid_block_valid fixup blk i = (True, blk)" using good_block_valid [OF b(2)] block_at_length [OF b(1)] by simp
  then show ?case using b Cons put_block_same [OF b(1)] by simp
qed simp

lemma blocks_good_valid:
  assumes "blocks_good raw w" "length raw = 640" "raw ! 126 = word_of_nat w" "w \<le> 4"
  shows "drm_edid_is_valid fixup raw = Some (True, raw)"
proof -
  have "unat (raw ! 126) = w" using assms(3,4) by (simp add: unsigned_of_nat take_bit_nat_eq_self)
  moreover have "valid_blocks fixup [0..<w + 1] raw = Some (True, raw)"
    by (rule valid_blocks_good) (use assms(1) in \<open>auto simp: blocks_good_def\<close>)
  ultimately show ?thesis using assms(2) by (simp add: drm_edid_is_valid_def peek_def del: upt_Suc)
qed

lemma corrected_good:
  assumes g: "blocks_good buf w" and l: "length buf = 640"
  shows "blocks_good (buf[127 := buf ! 127 + (buf ! 126 - v), 126 := v]) w" (is "blocks_good ?buf w")
proof -
  obtain b where b: "block_at buf 0 = Some b" "good_block b 0" using g by (auto simp: blocks_good_def)
  have n: "b ! 126 = buf ! 126" "b ! 127 = buf ! 127" "length b = 128"
    using block_at_nth [OF b(1), of 126] block_at_nth [OF b(1), of 127] block_at_length [OF b(1)] by simp_all
  let ?b = "b[127 := buf ! 127 + (buf ! 126 - v), 126 := v]"
  have "sum_list ?b = sum_list b" using n by (simp add: sum_list_upd)
  moreover have "take 8 ?b = take 8 b" "?b ! 0 = b ! 0" "?b ! 18 = b ! 18" by simp_all
  ultimately have "good_block ?b 0" using b(2) by (simp add: good_block_def)
  moreover have "block_at ?buf 0 = Some ?b" using b(1) by (simp add: block_at_upd_0)
  ultimately have "\<exists>blk. block_at ?buf i = Some blk \<and> good_block blk i" if "i \<le> w" for i
    using g that by (cases "i = 0") (auto simp: blocks_good_def block_at_upd_ext)
  then show ?thesis by (simp add: blocks_good_def)
qed

text \<open>
  C29: From a monitor that announces at most four extensions, as many as there is room for, the fetch never writes outside of the
  buffer, whatever the transfers return, and a description that it hands on passes \<^verbatim>\<open>drm_edid_is_valid\<close> without repair, with the
  number of extensions and the checksum corrected for those that could not be read.
\<close>

theorem drm_get_edid_valid:
  assumes i: "i2c_ok xfer" and a: "announces xfer DRM_MAX_EDID_EXT_NUM" and m: "length mem = EDID_LENGTH * (DRM_MAX_EDID_EXT_NUM + 1)"
  shows "\<exists>res conn' s'. drm_do_get_edid xfer fixup (Some mem) conn s = Some (res, conn', s') \<and>
    (\<forall>raw. res = Some raw \<longrightarrow> length raw = length mem \<and> drm_edid_is_valid fixup raw = Some (True, raw))"
proof -
  have l: "length mem = 640" using m by (simp add: EDID_LENGTH_def DRM_MAX_EDID_EXT_NUM_def)
  obtain res buf conn1 s1 where f: "fetch_base xfer fixup [0..<4] mem conn s = Some (res, buf, conn1, s1)" "length buf = 640"
    "res = Fetched \<Longrightarrow> \<exists>blk. block_at buf 0 = Some blk \<and> good_block blk 0 \<and> unat (blk ! 126) \<le> 4"
    using fetch_base_inv [OF i a l, of fixup "[0..<4]" conn s] by (auto simp: DRM_MAX_EDID_EXT_NUM_def)
  show ?thesis
  proof (cases res)
    case Fetched
    obtain blk where blk: "block_at buf 0 = Some blk" "good_block blk 0" "unat (blk ! 126) \<le> 4" using f(3) [OF Fetched] by blast
    define e where "e = buf ! 126"
    have e: "blk ! 126 = e" "peek buf 126 = Some e" using block_at_nth [OF blk(1), of 126] f(2) by (simp_all add: e_def peek_def)
    have g0: "blocks_good buf 0" using blk by (simp add: blocks_good_def)
    show ?thesis
    proof (cases "e = 0")
      case True
      then have "drm_edid_is_valid fixup buf = Some (True, buf)" using blocks_good_valid [OF g0 f(2)] e_def by simp
      then show ?thesis using f(1,2) Fetched e True l by (auto simp: drm_do_get_edid_def)
    next
      case False
      have four: "unat e \<le> 4" using blk(3) e by simp
      define js where "js = [1..<unat e + 1]"
      have js: "length js = unat e" "\<forall>j \<in> set js. 0 < j" "[Suc 0..<Suc (unat e)] = js" by (auto simp: js_def)
      obtain fin w buf2 s2 where x: "fetch_exts xfer fixup js 0 buf s1 = Some (fin, w, buf2, s2)"
        "length buf2 = 640" "block_at buf2 0 = block_at buf 0" "blocks_good buf2 w" "w \<le> unat e"
        using fetch_exts_inv [OF i f(2) g0, of js fixup s1] four js by auto
      have e2: "buf2 ! 126 = e" using block_at_nth [of buf2 0 blk 126] x(3) blk(1) e(1) by simp
      let ?v = "word_of_nat w :: u8w"
      let ?out = "if ?v \<noteq> e then buf2[127 := buf2 ! 127 + (e - ?v), 126 := ?v] else buf2"
      have "length ?out = 640 \<and> drm_edid_is_valid fixup ?out = Some (True, ?out)"
      proof (cases "?v = e")
        case True
        then show ?thesis using blocks_good_valid [OF x(4,2)] e2 x(2,5) four by simp
      next
        case False
        have "blocks_good ?out w" using corrected_good [OF x(4,2), of ?v] e2 False by simp
        then show ?thesis using blocks_good_valid [of ?out w] x(2,5) four False by simp
      qed
      moreover have "drm_do_get_edid xfer fixup (Some mem) conn s = Some (if fin then Some ?out else None, conn1, s2)"
        using f(1) Fetched e False x(1) js(3) by (simp add: drm_do_get_edid_def Let_def del: upt_Suc)
      ultimately show ?thesis using l by simp
    qed
  qed (use f(1) in \<open>simp_all add: drm_do_get_edid_def\<close>)
qed


section \<open>A sample monitor\<close>

definition sample_block :: "u8w \<Rightarrow> u8w list" where
  "sample_block n = edid_header @ replicate 10 0 @ [1, 3] @ replicate 106 0 @ [n, 2 - n]"

text \<open>An adapter that returns the same block for every request.\<close>

definition sample_xfer :: "u8w \<Rightarrow> unit i2c_transfer" where
  "sample_xfer n msgs buf s = (int (length msgs), take (length buf) (sample_block n @ replicate (length buf) 0), s)"

lemma sample_block_good: "length (sample_block n) = 128" "good_block (sample_block n) 0"
proof -
  show l: "length (sample_block n) = 128" by (simp add: sample_block_def edid_header_def)
  have "sum_list (sample_block n) = 0"
    by (simp add: sample_block_def edid_header_def sum_list_replicate)
  then show "good_block (sample_block n) 0" by (simp add: good_block_def sample_block_def edid_header_def nth_append)
qed

lemma sample_xfer_ok: "i2c_ok (sample_xfer n)" "unat n \<le> 4 \<Longrightarrow> announces (sample_xfer n) DRM_MAX_EDID_EXT_NUM"
proof -
  show "i2c_ok (sample_xfer n)" by (auto simp: i2c_ok_def sample_xfer_def min_def)
  have "take 128 (sample_block n @ replicate 128 0) ! 126 = n" by (simp add: sample_block_def edid_header_def nth_append)
  then show "unat n \<le> 4 \<Longrightarrow> announces (sample_xfer n) DRM_MAX_EDID_EXT_NUM"
    by (simp add: announces_def sample_xfer_def DRM_MAX_EDID_EXT_NUM_def)
qed

theorem drm_get_edid_valid_witness:
  "\<exists>res conn s. drm_do_get_edid (sample_xfer 1) 6 (Some (replicate 640 0)) \<lparr>null_edid_counter = 0, bad_edid_counter = 0\<rparr> () =
      Some (res, conn, s) \<and> (\<forall>raw. res = Some raw \<longrightarrow> drm_edid_is_valid 6 raw = Some (True, raw))"
proof -
  have a: "announces (sample_xfer 1) DRM_MAX_EDID_EXT_NUM" by (rule sample_xfer_ok(2)) simp
  show ?thesis
    using drm_get_edid_valid [OF sample_xfer_ok(1) a, of "replicate 640 0" 6 "\<lparr>null_edid_counter = 0, bad_edid_counter = 0\<rparr>" "()"]
    by (simp add: EDID_LENGTH_def DRM_MAX_EDID_EXT_NUM_def) blast
qed

text \<open>The buffer has room for four extensions; with a monitor that announces five the fifth is written behind its end.\<close>

lemma drm_do_get_edid_overflow:
  "drm_do_get_edid (sample_xfer 5) 6 (Some (replicate 640 0)) \<lparr>null_edid_counter = 0, bad_edid_counter = 0\<rparr> () = None"
  by code_simp

section \<open>Damage\<close>

lemma header_score:
  "drm_edid_header_is_valid b = 8 - int (length (filter (\<lambda>i. b ! i \<noteq> edid_header ! i) [0..<8]))"
  using sum_length_filter_compl [of "\<lambda>i. b ! i = edid_header ! i" "[0..<8]"] by (simp add: drm_edid_header_is_valid_def)

text \<open>
  C34: A valid base block that is damaged in its header comes out of the check as it was, as long as at most as many of the eight
  bytes are wrong as the driver tolerates; a wrong byte behind the header is always noticed.
\<close>

theorem drm_edid_block_valid_repairs:
  assumes g: "drm_edid_block_valid fixup b 0 = (True, b)" and l: "length b = EDID_LENGTH" and f: "0 \<le> fixup" "fixup \<le> 8"
  shows "(\<forall>d. length d = EDID_LENGTH \<and> drop 8 d = drop 8 b \<and> int (length (filter (\<lambda>i. d ! i \<noteq> b ! i) [0..<8])) \<le> 8 - fixup \<longrightarrow>
      drm_edid_block_valid fixup d 0 = (True, b)) \<and>
    (\<forall>i x. 8 \<le> i \<and> i < EDID_LENGTH \<and> x \<noteq> b ! i \<longrightarrow> fst (drm_edid_block_valid fixup (b[i := x]) 0) = False)"
proof -
  have l: "length b = 128" using l by (simp add: EDID_LENGTH_def)
  have good: "good_block b 0" using block_valid_good [OF g l] .
  have hd: "take 8 b = edid_header" and z: "b ! 0 = 0" and sum: "sum_list b = 0"
  proof -
    show h: "take 8 b = edid_header" using good by (simp add: good_block_def)
    have "b ! 0 = take 8 b ! 0" using l by simp
    then show "b ! 0 = 0" using h by (simp add: edid_header_def)
    then show "sum_list b = 0" using good by (simp add: good_block_def)
  qed
  have nth: "b ! i = edid_header ! i" if "i < 8" for i using hd l that by (metis nth_take)
  have "drm_edid_block_valid fixup d 0 = (True, b)"
    if d: "length d = 128" "drop 8 d = drop 8 b" "int (length (filter (\<lambda>i. d ! i \<noteq> b ! i) [0..<8])) \<le> 8 - fixup" for d
  proof -
    have "filter (\<lambda>i. d ! i \<noteq> b ! i) [0..<8] = filter (\<lambda>i. d ! i \<noteq> edid_header ! i) [0..<8]"
      using nth by (intro filter_cong) auto
    then have sc: "fixup \<le> drm_edid_header_is_valid d" using d(3) header_score [of d] by simp
    have b: "edid_header @ drop 8 d = b" using hd d(2) append_take_drop_id [of 8 b] by simp
    show ?thesis
    proof (cases "drm_edid_header_is_valid d = 8")
      case True
      then have "d = b" using header_perfect [of d] d(1,2) b append_take_drop_id [of 8 d] by simp
      then show ?thesis using g by simp
    next
      case False
      have "drm_edid_block_valid fixup d 0 =
          (if sum_list b \<noteq> 0 \<and> b ! 0 \<noteq> 2 then (False, b) else if b ! 0 = 0 \<and> b ! 18 \<noteq> 1 then (False, b) else (True, b))"
        using False sc f b by (simp add: drm_edid_block_valid_def Let_def)
      then show ?thesis using good sum by (simp add: good_block_def)
    qed
  qed
  moreover have "fst (drm_edid_block_valid fixup (b[i := x]) 0) = False" if i: "8 \<le> i" "i < 128" "x \<noteq> b ! i" for i x
  proof -
    have "sum_list (b[i := x]) \<noteq> 0" using sum_list_upd [of i b x] l i sum by simp
    moreover have "b[i := x] ! 0 = 0" using z i by simp
    moreover have "drm_edid_header_is_valid (b[i := x]) = 8" using header_perfect [of "b[i := x]"] hd l i by simp
    ultimately show ?thesis by (simp add: drm_edid_block_valid_def Let_def)
  qed
  ultimately show ?thesis by (simp add: EDID_LENGTH_def)
qed

theorem drm_edid_block_valid_repairs_witness:
  "drm_edid_block_valid 6 ((sample_block 0)[0 := 7, 3 := 0]) 0 = (True, sample_block 0) \<and>
   \<not> fst (drm_edid_block_valid 6 ((sample_block 0)[40 := 1]) 0)"
proof -
  have v: "drm_edid_block_valid 6 (sample_block 0) 0 = (True, sample_block 0)" using good_block_valid sample_block_good by blast
  have d: "int (length (filter (\<lambda>i. (sample_block 0)[0 := 7, 3 := 0] ! i \<noteq> sample_block 0 ! i) [0..<8])) \<le> 8 - 6" by code_simp
  have n: "sample_block 0 ! 40 = 0" by code_simp
  note p = drm_edid_block_valid_repairs [OF v, unfolded EDID_LENGTH_def, OF sample_block_good(1)]
  have "drm_edid_block_valid 6 ((sample_block 0)[0 := 7, 3 := 0]) 0 = (True, sample_block 0)"
    using p d sample_block_good(1) by simp
  moreover have "\<not> fst (drm_edid_block_valid 6 ((sample_block 0)[40 := 1]) 0)"
    using p n by simp
  ultimately show ?thesis ..
qed

end
