(* ===== verification/Drm_Edid_Cea_Thms.thy ===== *)
theory Drm_Edid_Cea_Thms
  imports Drm_Edid_Cea Drm_Edid_Thms
begin

text \<open>
  The readers of a description that passed the check stay inside it, and the data blocks of an extension are found as they were
  written.
\<close>

section \<open>Reads\<close>

lemma ex_bool [simp]: "\<exists>b. \<not> b" "\<exists>b :: bool. b"
  by auto

lemma peek_Some [simp]: "i < length m \<Longrightarrow> peek m i = Some (m ! i)"
  by (simp add: peek_def)

lemma peek_all_Some: "i + n \<le> length m \<Longrightarrow> peek_all m i n = Some (take n (drop i m))"
  by (induction n arbitrary: i) (auto simp: Cons_nth_drop_Suc [symmetric])

lemma poke_all_Some: "i + length vs \<le> length m \<Longrightarrow> \<exists>m'. poke_all m i vs = Some m' \<and> length m' = length m"
proof (induction vs arbitrary: m i)
  case (Cons v vs)
  then show ?case using Cons.IH [of "i + 1" "m[i := v]"] by (simp add: poke_def)
qed simp

text \<open>All blocks that the base block announces are there.\<close>

definition complete :: "u8w list \<Rightarrow> bool" where
  "complete raw \<longleftrightarrow> 128 * (unat (raw ! 126) + 1) \<le> length raw"

lemma valid_blocks_bound: "valid_blocks fixup is raw = Some (True, raw') \<Longrightarrow> (\<forall>i \<in> set is. 128 * (i + 1) \<le> length raw) \<and> length raw' = length raw"
proof (induction "is" arbitrary: raw)
  case (Cons i "is")
  from Cons.prems obtain blk where b: "block_at raw i = Some blk" by (auto split: bind_splits)
  obtain v blk' where v: "drm_edid_block_valid fixup blk i = (v, blk')" by fastforce
  obtain raw1 where r: "put_block raw i blk' = Some raw1" "v" "valid_blocks fixup is raw1 = Some (True, raw')"
    using Cons.prems b v by (auto split: bind_splits if_splits)
  have "length raw1 = length raw"
    using put_block_length [OF r(1)] block_valid_length [OF v block_at_length [OF b]] by simp
  moreover have "128 * (i + 1) \<le> length raw" using b by (auto simp: block_at_def EDID_LENGTH_def split: if_splits)
  ultimately show ?case using Cons.IH [OF r(3)] by simp
qed simp

lemma valid_byte_kept:
  assumes "valid_blocks fixup is raw = Some (True, raw')" "128 \<le> length raw"
  shows "raw' ! 126 = raw ! 126"
  using assms
proof (induction "is" arbitrary: raw)
  case (Cons i "is")
  from Cons.prems obtain blk where b: "block_at raw i = Some blk" by (auto split: bind_splits)
  obtain v blk' where v: "drm_edid_block_valid fixup blk i = (v, blk')" by fastforce
  obtain raw1 where r: "put_block raw i blk' = Some raw1" "valid_blocks fixup is raw1 = Some (True, raw')"
    using Cons.prems b v by (auto split: bind_splits if_splits)
  have l: "length blk = 128" "length blk' = 128" using block_at_length [OF b] block_valid_length [OF v] by simp_all
  have "raw1 ! 126 = raw ! 126"
  proof (cases "i = 0")
    case True
    then have "raw1 ! 126 = blk' ! 126" using put_block_nth [OF r(1) l(2), of 126] Cons.prems(2) by simp
    also have "\<dots> = blk ! 126" using valid_byte_126 [OF v l(1)] .
    finally show ?thesis using block_at_nth [OF b, of 126] True by simp
  next
    case False
    then have "\<not> (128 * i \<le> (126 :: nat))" by (cases i) simp_all
    then show ?thesis using put_block_nth [OF r(1) l(2), of 126] Cons.prems(2) by simp
  qed
  then show ?case using Cons.IH [OF r(2)] put_block_length [OF r(1) l(2)] Cons.prems(2) by simp
qed simp

lemma valid_complete:
  assumes "drm_edid_is_valid fixup raw = Some (True, raw')"
  shows "complete raw'"
proof -
  have l: "126 < length raw" using assms by (auto simp: drm_edid_is_valid_def peek_def split: bind_splits if_splits)
  then have v: "valid_blocks fixup [0..<unat (raw ! 126) + 1] raw = Some (True, raw')"
    using assms by (simp add: drm_edid_is_valid_def)
  have b: "128 * (unat (raw ! 126) + 1) \<le> length raw" "length raw' = length raw" using valid_blocks_bound [OF v] by auto
  then have "raw' ! 126 = raw ! 126" using valid_byte_kept [OF v] by simp
  then show ?thesis using b by (simp add: complete_def)
qed

lemma complete_length: "complete raw \<Longrightarrow> 128 \<le> length raw"
  by (simp add: complete_def)

section \<open>Descriptors and data blocks\<close>

lemma find_cea_total:
  assumes "\<And>i. i \<in> set is \<Longrightarrow> 128 * (i + 2) \<le> length raw"
  shows "\<exists>ext. find_cea raw is = Some ext \<and> (\<forall>cea. ext = Some cea \<longrightarrow> length cea = 128)"
  using assms
proof (induction "is")
  case (Cons i "is")
  then have "128 * (i + 1 + 1) \<le> length raw" by (simp add: add.commute)
  then obtain blk where b: "block_at raw (i + 1) = Some blk" using block_at_Some by blast
  have "\<exists>ext. find_cea raw is = Some ext \<and> (\<forall>cea. ext = Some cea \<longrightarrow> length cea = 128)" using Cons by simp
  then show ?case using b block_at_length [OF b] by auto
qed simp

lemma cea_ext_total:
  assumes "complete raw"
  obtains ext where "drm_find_cea_extension raw = Some ext" "\<And>cea. ext = Some cea \<Longrightarrow> length cea = 128"
proof -
  have "\<exists>ext. find_cea raw [0..<unat (raw ! 126)] = Some ext \<and> (\<forall>cea. ext = Some cea \<longrightarrow> length cea = 128)"
  proof (rule find_cea_total)
    fix i
    assume "i \<in> set [0..<unat (raw ! 126)]"
    then have "i + 2 \<le> unat (raw ! 126) + 1" by simp
    then have "128 * (i + 2) \<le> 128 * (unat (raw ! 126) + 1)" by (rule mult_le_mono2)
    then show "128 * (i + 2) \<le> length raw" using assms by (simp add: complete_def)
  qed
  then show ?thesis using that complete_length [OF assms] by (auto simp: drm_find_cea_extension_def)
qed

lemma payload_less: "cea_db_payload_len b < 32"
proof -
  have "b AND 0x1f = take_bit 5 b" by (simp add: take_bit_eq_mask mask_numeral)
  then show ?thesis using take_bit_nat_less_exp [of 5 "unat b"] by (simp add: cea_db_payload_len_def unsigned_take_bit_eq)
qed

lemma cea_dbs_total:
  assumes "length cea = 128" "end_off \<le> 127"
  shows "\<exists>offs. cea_dbs cea i end_off = Some offs \<and> (\<forall>k \<in> set offs. i \<le> k \<and> k + cea_db_payload_len (cea ! k) < end_off)"
  using assms
proof (induction cea i end_off rule: cea_dbs.induct)
  case (1 cea i end_off)
  show ?case
  proof (cases "i < end_off \<and> i + cea_db_payload_len (cea ! i) < end_off")
    case True
    then have p: "peek cea i = Some (cea ! i)" using 1(2,3) by simp
    obtain offs where o: "cea_dbs cea (i + cea_db_payload_len (cea ! i) + 1) end_off = Some offs"
      "\<forall>k \<in> set offs. i + cea_db_payload_len (cea ! i) + 1 \<le> k \<and> k + cea_db_payload_len (cea ! k) < end_off"
      using 1(1) [OF _ p _ 1(2,3)] True by auto
    have "cea_dbs cea i end_off = Some (i # offs)" using True p o(1) by (subst cea_dbs.simps) simp
    then show ?thesis using True o(2) by auto
  next
    case False
    then have "cea_dbs cea i end_off = Some []" using 1(2,3) by (subst cea_dbs.simps) auto
    then show ?thesis by simp
  qed
qed

lemma offsets_total: "length cea = 128 \<Longrightarrow> \<exists>x. cea_db_offsets cea = Some x \<and> (\<forall>s e. x = Some (s, e) \<longrightarrow> s = 4 \<and> e \<le> 127)"
  by (auto simp: cea_db_offsets_def Let_def)

lemma data_blocks_total:
  assumes "length cea = 128"
  obtains offs where "data_blocks cea = Some offs" "\<And>k. k \<in> set offs \<Longrightarrow> k + cea_db_payload_len (cea ! k) < 127"
proof -
  obtain x where x: "cea_db_offsets cea = Some x" "\<And>s e. x = Some (s, e) \<Longrightarrow> s = 4 \<and> e \<le> 127"
    using offsets_total [OF assms] by blast
  show ?thesis
  proof (cases x)
    case None
    then show ?thesis using that [of "[]"] x by (simp add: data_blocks_def)
  next
    case (Some se)
    obtain s e where se: "se = (s, e)" by fastforce
    then have e: "e \<le> 127" using x(2) Some by blast
    obtain offs where "cea_dbs cea s e = Some offs" "\<forall>k \<in> set offs. k + cea_db_payload_len (cea ! k) < e"
      using cea_dbs_total [OF assms e] by blast
    then show ?thesis using that [of offs] x(1) Some se e by (fastforce simp: data_blocks_def)
  qed
qed

lemma any_db_total:
  assumes "\<And>i. i \<in> set is \<Longrightarrow> \<exists>b. p i = Some b"
  shows "\<exists>b. any_db p is = Some b"
  using assms
proof (induction "is")
  case (Cons i "is")
  obtain b where "p i = Some b" using Cons.prems [of i] by auto
  moreover have "\<exists>b. any_db p is = Some b" using Cons by simp
  ultimately show ?case by (cases b) auto
qed simp

lemma hdmi_vsdb_total:
  assumes "length cea = 128" "i + cea_db_payload_len (cea ! i) < 127"
  shows "\<exists>b. cea_db_is_hdmi_vsdb cea i = Some b"
  using assms by (cases "cea_db_payload_len (cea ! i) < 5") (simp_all add: cea_db_is_hdmi_vsdb_def)

lemma detect_hdmi_total: "complete raw \<Longrightarrow> \<exists>b. drm_detect_hdmi_monitor raw = Some b"
proof -
  assume c: "complete raw"
  obtain ext where e: "drm_find_cea_extension raw = Some ext" "\<And>cea. ext = Some cea \<Longrightarrow> length cea = 128"
    using cea_ext_total [OF c] by blast
  show ?thesis
  proof (cases ext)
    case (Some cea)
    obtain offs where o: "data_blocks cea = Some offs" "\<And>k. k \<in> set offs \<Longrightarrow> k + cea_db_payload_len (cea ! k) < 127"
      using data_blocks_total [OF e(2) [OF Some]] by blast
    have "\<exists>b. any_db (cea_db_is_hdmi_vsdb cea) offs = Some b"
      using o(2) by (intro any_db_total hdmi_vsdb_total) (simp_all add: e(2) [OF Some])
    then show ?thesis using e(1) Some o(1) by (simp add: drm_detect_hdmi_monitor_def)
  qed (use e in \<open>simp add: drm_detect_hdmi_monitor_def\<close>)
qed

lemma detect_audio_total: "complete raw \<Longrightarrow> \<exists>b. drm_detect_monitor_audio raw = Some b"
proof -
  assume c: "complete raw"
  obtain ext where e: "drm_find_cea_extension raw = Some ext" "\<And>cea. ext = Some cea \<Longrightarrow> length cea = 128"
    using cea_ext_total [OF c] by blast
  show ?thesis
  proof (cases ext)
    case (Some cea)
    note l = e(2) [OF Some]
    obtain offs where o: "data_blocks cea = Some offs" "\<And>k. k \<in> set offs \<Longrightarrow> k + cea_db_payload_len (cea ! k) < 127"
      using data_blocks_total [OF l] by blast
    have "\<exists>b. any_db (\<lambda>i. do { b \<leftarrow> peek cea i; Some (cea_db_tag b = AUDIO_BLOCK) }) offs = Some b"
    proof (rule any_db_total)
      fix i
      assume "i \<in> set offs"
      then have "i < length cea" using o(2) [of i] l by simp
      then show "\<exists>b. (do { b \<leftarrow> peek cea i; Some (cea_db_tag b = AUDIO_BLOCK) }) = Some b" by simp
    qed
    then show ?thesis using e(1) Some o(1) l by (simp add: drm_detect_monitor_audio_def)
  qed (use e in \<open>simp add: drm_detect_monitor_audio_def\<close>)
qed

lemma first_vcdb_total:
  "length cea = 128 \<Longrightarrow> (\<And>k. k \<in> set offs \<Longrightarrow> k + cea_db_payload_len (cea ! k) < 127) \<Longrightarrow> \<exists>b. first_vcdb cea offs = Some b"
proof (induction offs)
  case (Cons k offs)
  have k: "k + cea_db_payload_len (cea ! k) < 127" using Cons.prems(2) by simp
  have "\<exists>b. first_vcdb cea offs = Some b" using Cons by simp
  then show ?case using k Cons.prems(1) by auto
qed simp

lemma quant_total: "complete raw \<Longrightarrow> \<exists>b. drm_rgb_quant_range_selectable raw = Some b"
proof -
  assume c: "complete raw"
  obtain ext where e: "drm_find_cea_extension raw = Some ext" "\<And>cea. ext = Some cea \<Longrightarrow> length cea = 128"
    using cea_ext_total [OF c] by blast
  show ?thesis
  proof (cases ext)
    case (Some cea)
    note l = e(2) [OF Some]
    obtain offs where o: "data_blocks cea = Some offs" "\<And>k. k \<in> set offs \<Longrightarrow> k + cea_db_payload_len (cea ! k) < 127"
      using data_blocks_total [OF l] by blast
    then show ?thesis using e(1) Some first_vcdb_total [OF l o(2)] by (simp add: drm_rgb_quant_range_selectable_def)
  qed (use e in \<open>simp add: drm_rgb_quant_range_selectable_def\<close>)
qed

lemma read_sads_total: "p + 3 * n \<le> length cea \<Longrightarrow> \<exists>sads. read_sads cea p n = Some sads \<and> length sads = n"
proof (induction n arbitrary: p)
  case (Suc n)
  then have "p + 3 + 3 * n \<le> length cea" "p + 2 < length cea" by simp_all
  moreover obtain sads where "read_sads cea (p + 3) n = Some sads" "length sads = n" using Suc.IH calculation(1) by blast
  ultimately show ?case by simp
qed simp

lemma first_audio_total:
  "length cea = 128 \<Longrightarrow> (\<And>k. k \<in> set offs \<Longrightarrow> k + cea_db_payload_len (cea ! k) < 127) \<Longrightarrow>
   \<exists>n sads. first_audio alloc cea offs = Some (n, sads) \<and> (0 \<le> n \<longrightarrow> n = int (length sads))"
proof (induction offs)
  case (Cons k offs)
  have k: "k + cea_db_payload_len (cea ! k) < 127" using Cons.prems(2) by simp
  let ?n = "cea_db_payload_len (cea ! k) div 3"
  have "3 * ?n \<le> cea_db_payload_len (cea ! k)" by simp
  then have "k + 1 + 3 * ?n \<le> length cea" using k Cons.prems(1) by linarith
  then obtain sads where "read_sads cea (k + 1) ?n = Some sads" "length sads = ?n" using read_sads_total by blast
  moreover have "\<exists>n sads. first_audio alloc cea offs = Some (n, sads) \<and> (0 \<le> n \<longrightarrow> n = int (length sads))" using Cons by simp
  moreover have "k < length cea" using k Cons.prems(1) by simp
  ultimately show ?case by (auto simp: Let_def errno_defs)
qed simp

lemma sad_total: "complete raw \<Longrightarrow> \<exists>n sads. drm_edid_to_sad alloc raw = Some (n, sads) \<and> (0 \<le> n \<longrightarrow> n = int (length sads))"
proof -
  assume c: "complete raw"
  obtain ext where e: "drm_find_cea_extension raw = Some ext" "\<And>cea. ext = Some cea \<Longrightarrow> length cea = 128"
    using cea_ext_total [OF c] by blast
  show ?thesis
  proof (cases ext)
    case (Some cea)
    note l = e(2) [OF Some]
    obtain x where x: "cea_db_offsets cea = Some x" "\<And>s e. x = Some (s, e) \<Longrightarrow> s = 4 \<and> e \<le> 127"
      using offsets_total [OF l] by blast
    have r: "cea_revision cea = Some (cea ! 1)" using l by (simp add: cea_revision_def)
    show ?thesis
    proof (cases x)
      case None
      then show ?thesis using e(1) Some x(1) r by (auto simp: drm_edid_to_sad_def errno_defs ENOTSUP_def EPROTO_def)
    next
      case (Some se)
      obtain s en where se: "se = (s, en)" by fastforce
      then have en: "en \<le> 127" using x(2) Some by blast
      obtain offs where o: "cea_dbs cea s en = Some offs" "\<forall>k \<in> set offs. k + cea_db_payload_len (cea ! k) < en"
        using cea_dbs_total [OF l en] by blast
      have "k + cea_db_payload_len (cea ! k) < 127" if "k \<in> set offs" for k using o(2) that en by fastforce
      from first_audio_total [OF l this, of offs alloc]
      show ?thesis using e(1) \<open>ext = Some cea\<close> x(1) r Some se o(1)
        by (auto simp: drm_edid_to_sad_def errno_defs ENOTSUP_def EPROTO_def)
    qed
  qed (use e in \<open>simp add: drm_edid_to_sad_def errno_defs\<close>)
qed

section \<open>The walk over descriptors\<close>

lemma sdiv_18: "18 * nat ((127 - x) sdiv 18) \<le> nat (127 - x)" for x :: int
proof (cases "x \<le> 127")
  case True
  then have "(127 - x) sdiv 18 = (127 - x) div 18" by (cases "x = 127") (simp_all add: signed_divide_int_def sgn_if)
  then show ?thesis using True by linarith
next
  case False
  then have "(127 - x) sdiv 18 \<le> 0" by (simp add: signed_divide_int_def sgn_if)
  then show ?thesis by simp
qed

lemma ext_blocks_total:
  assumes "\<And>i. i \<in> set is \<Longrightarrow> 128 * (i + 1) \<le> length raw"
  shows "\<exists>offs. ext_detailed_blocks raw is = Some offs \<and> (\<forall>off \<in> set offs. off + 18 \<le> length raw)"
  using assms
proof (induction "is")
  case (Cons i "is")
  obtain rest where r: "ext_detailed_blocks raw is = Some rest" "\<forall>off \<in> set rest. off + 18 \<le> length raw" using Cons by auto
  have b: "128 * i + 128 \<le> length raw" using Cons.prems [of i] by simp
  let ?d = "raw ! (128 * i + 2)"
  have "128 * i + unat ?d + 18 * k + 18 \<le> length raw" if "k < nat ((127 - uint ?d) sdiv 18)" for k
  proof -
    have "18 * (k + 1) \<le> 18 * nat ((127 - uint ?d) sdiv 18)" using that by simp
    then have "18 * (k + 1) \<le> nat (127 - uint ?d)" using sdiv_18 [of "uint ?d"] by linarith
    moreover have "nat (127 - uint ?d) = 127 - unat ?d" by (simp add: unsigned_of_int nat_diff_distrib' flip: nat_uint_eq)
    ultimately have "18 * (k + 1) \<le> 127 - unat ?d" by simp
    then have "unat ?d + 18 * (k + 1) \<le> 127" by arith
    then show ?thesis using b by simp
  qed
  then have c: "\<exists>offs. cea_for_each_detailed_block raw (128 * i) = Some offs \<and> (\<forall>off \<in> set offs. off + 18 \<le> length raw)"
    using b by (auto simp: cea_for_each_detailed_block_def Let_def)
  have v: "\<exists>offs. vtb_for_each_detailed_block raw (128 * i) = Some offs \<and> (\<forall>off \<in> set offs. off + 18 \<le> length raw)"
    using b by (auto simp: vtb_for_each_detailed_block_def)
  show ?case using r c v b by (auto simp: EDID_LENGTH_def)
qed simp

lemma detailed_blocks_total:
  assumes "complete raw"
  shows "\<exists>offs. detailed_blocks raw = Some offs \<and> (\<forall>off \<in> set offs. off + 18 \<le> length raw)"
proof -
  have "\<exists>offs. ext_detailed_blocks raw [1..<unat (raw ! 126) + 1] = Some offs \<and> (\<forall>off \<in> set offs. off + 18 \<le> length raw)"
  proof (rule ext_blocks_total)
    fix i
    assume "i \<in> set [1..<unat (raw ! 126) + 1]"
    then have "i + 1 \<le> unat (raw ! 126) + 1" by auto
    then have "128 * (i + 1) \<le> 128 * (unat (raw ! 126) + 1)" by (rule mult_le_mono2)
    then show "128 * (i + 1) \<le> length raw" using assms by (simp add: complete_def)
  qed
  then show ?thesis using complete_length [OF assms] by (auto simp: detailed_blocks_def simp del: upt_Suc)
qed

lemma put_timing_length: "put_timing raw off t = Some raw' \<Longrightarrow> length t = 18 \<Longrightarrow> length raw' = length raw"
  by (auto simp: put_timing_def split: if_splits)

lemma each_timing_total:
  assumes "\<And>t x. length t = 18 \<Longrightarrow> \<exists>t' x'. cb t x = Some (t', x') \<and> length t' = 18" "\<forall>off \<in> set offs. off + 18 \<le> length raw"
  shows "\<exists>raw' x'. each_timing cb offs raw x = Some (raw', x') \<and> length raw' = length raw"
  using assms(2)
proof (induction offs arbitrary: raw x)
  case (Cons off offs)
  obtain t where t: "timing_at raw off = Some t" "length t = 18" using Cons.prems by (auto simp: timing_at_def)
  obtain t' x' where c: "cb t x = Some (t', x')" "length t' = 18" using assms(1) [OF t(2)] by blast
  obtain raw1 where r: "put_timing raw off t' = Some raw1" using Cons.prems by (auto simp: put_timing_def)
  then have "length raw1 = length raw" using put_timing_length c(2) by blast
  then show ?case using Cons.IH [of raw1 x'] Cons.prems t c r by simp
qed simp

lemma monitor_name_total:
  assumes "complete raw"
  shows "\<exists>raw' name. drm_for_each_detailed_block raw monitor_name None = Some (raw', name)"
proof -
  obtain offs where o: "detailed_blocks raw = Some offs" "\<forall>off \<in> set offs. off + 18 \<le> length raw"
    using detailed_blocks_total [OF assms] by blast
  have "\<exists>raw' x'. each_timing monitor_name offs raw None = Some (raw', x') \<and> length raw' = length raw"
    by (rule each_timing_total [OF _ o(2)]) (simp add: monitor_name_def)
  then show ?thesis using o(1) by (auto simp: drm_for_each_detailed_block_def)
qed

section \<open>The data for the audio driver\<close>

lemma poke_Some: "i < length m \<Longrightarrow> poke m i v = Some (m[i := v])"
  by (simp add: poke_def)

lemma vsdb_field_total:
  assumes "i + len < 127" "length cea = 128" "length (eld conn) = 128"
    and "\<And>b. \<exists>conn'. f b conn = Some conn' \<and> length (eld conn') = 128"
  shows "\<exists>conn'. vsdb_field cea i len k f conn = Some conn' \<and> length (eld conn') = 128"
  using assms by (simp add: vsdb_field_def)

lemma parse_hdmi_vsdb_total:
  assumes i: "i + cea_db_payload_len (cea ! i) < 127" "length cea = 128" "length (eld conn) = 128"
  shows "\<exists>conn'. parse_hdmi_vsdb cea i conn = Some conn' \<and> length (eld conn') = 128"
proof -
  let ?len = "cea_db_payload_len (cea ! i)"
  note field = vsdb_field_total [OF i(1,2)]
  have step: "\<exists>r. (do { c \<leftarrow> vsdb_field cea i ?len k f c0; g c }) = Some r \<and> length (eld r) = 128"
    if "length (eld c0) = 128" "\<And>b. \<exists>c. f b c0 = Some c \<and> length (eld c) = 128"
      "\<And>c. length (eld c) = 128 \<Longrightarrow> \<exists>r. g c = Some r \<and> length (eld r) = 128" for k f c0 g
    using field [where f = f and conn = c0 and k = k, OF that(1,2)] that(3) by fastforce
  have p: "peek cea i = Some (cea ! i)" using i by simp
  have e: "\<exists>c. (do { e5 \<leftarrow> peek (eld c0) 5; e \<leftarrow> poke (eld c0) 5 (h e5); Some (c0\<lparr>eld := e, dvi_dual := d\<rparr>) }) = Some c \<and> length (eld c) = 128"
    if "length (eld c0) = 128" for c0 h d
    using that by (simp add: poke_Some)
  show ?thesis
    unfolding parse_hdmi_vsdb_def p Option.bind.simps Let_def
    by (intro step field) (auto intro: i e)
qed

lemma eld_dbs_total:
  assumes "length cea = 128" "\<And>k. k \<in> set offs \<Longrightarrow> k + cea_db_payload_len (cea ! k) < 127" "mnl \<le> 13" "length (eld conn) = 128"
  shows "\<exists>n conn'. eld_dbs cea mnl offs sad_count conn = Some (n, conn') \<and> length (eld conn') = 128"
  using assms(2,4)
proof (induction offs arbitrary: sad_count conn)
  case (Cons k offs)
  let ?b = "cea ! k"
  let ?len = "cea_db_payload_len ?b"
  have k: "k + ?len < 127" using Cons.prems(1) by simp
  have p: "peek cea k = Some ?b" using k assms(1) by simp
  have IH: "\<exists>n c'. eld_dbs cea mnl offs sc c = Some (n, c') \<and> length (eld c') = 128" if "length (eld c) = 128" for sc c
    using Cons.IH [OF _ that] Cons.prems(1) by simp
  consider "cea_db_tag ?b = AUDIO_BLOCK" | "cea_db_tag ?b = SPEAKER_BLOCK" "1 \<le> ?len"
    | "cea_db_tag ?b = VENDOR_BLOCK" | "cea_db_tag ?b \<noteq> AUDIO_BLOCK" "\<not> (cea_db_tag ?b = SPEAKER_BLOCK \<and> 1 \<le> ?len)" "cea_db_tag ?b \<noteq> VENDOR_BLOCK"
    by blast
  then show ?case
  proof cases
    case 1
    have all: "peek_all cea (k + 1) ?len = Some (take ?len (drop (k + 1) cea))" using k assms(1) by (intro peek_all_Some) simp
    have "20 + mnl + length (take ?len (drop (k + 1) cea)) \<le> length (eld conn)"
      using Cons.prems(2) assms(3) payload_less [of ?b] by simp
    from poke_all_Some [OF this] obtain e where "poke_all (eld conn) (20 + mnl) (take ?len (drop (k + 1) cea)) = Some e"
      "length e = 128" using Cons.prems(2) by auto
    then show ?thesis using 1 p all IH [of "conn\<lparr>eld := e\<rparr>"] by (simp add: AUDIO_BLOCK_def)
  next
    case 2
    have "k + 1 < length cea" using k assms(1) 2 by simp
    then show ?thesis using 2 p IH [of "conn\<lparr>eld := (eld conn)[7 := cea ! (k + 1)]\<rparr>"] Cons.prems(2)
      by (simp add: AUDIO_BLOCK_def SPEAKER_BLOCK_def poke_Some)
  next
    case 3
    obtain h where h: "cea_db_is_hdmi_vsdb cea k = Some h" using hdmi_vsdb_total [OF assms(1) k] by blast
    obtain c where "(if h then parse_hdmi_vsdb cea k conn else Some conn) = Some c" "length (eld c) = 128"
      using parse_hdmi_vsdb_total [OF k assms(1) Cons.prems(2)] Cons.prems(2) by (cases h) auto
    then show ?thesis using 3 p h IH [of c] by (simp add: AUDIO_BLOCK_def SPEAKER_BLOCK_def VENDOR_BLOCK_def)
  next
    case 4
    then show ?thesis using p IH [OF Cons.prems(2)] by auto
  qed
qed (use assms in simp)

lemma copied_name_length: "length (copied_name name) \<le> 13"
proof (cases name)
  case (Some cs)
  have "length (takeWhile (\<lambda>c. c \<noteq> 0x0a) (take 13 cs)) \<le> length (take 13 cs)" by (rule length_takeWhile_le)
  then show ?thesis using Some by (simp add: copied_name_def)
qed (simp add: copied_name_def)

lemma eld_total:
  assumes c: "complete raw"
  shows "\<exists>conn'. drm_edid_to_eld raw conn = Some conn' \<and> length (eld conn') = MAX_ELD_BYTES"
proof -
  obtain ext where e: "drm_find_cea_extension raw = Some ext" "\<And>cea. ext = Some cea \<Longrightarrow> length cea = 128"
    using cea_ext_total [OF c] by blast
  show ?thesis
  proof (cases ext)
    case None
    then show ?thesis using e by (simp add: drm_edid_to_eld_def)
  next
    case (Some cea)
    note l = e(2) [OF Some]
    obtain raw' name where n: "drm_for_each_detailed_block raw monitor_name None = Some (raw', name)" using monitor_name_total [OF c] by blast
    let ?cs = "copied_name name"
    obtain e1 where e1: "poke_all (replicate 128 0) 20 ?cs = Some e1" "length e1 = 128"
      using poke_all_Some [of 20 ?cs "replicate 128 0"] copied_name_length [of name] by auto
    have r: "cea_revision cea = Some (cea ! 1)" using l by (simp add: cea_revision_def)
    have ids: "peek_all raw 8 4 = Some (take 4 (drop 8 raw))" using complete_length [OF c] by (intro peek_all_Some) simp
    let ?e2 = "e1[4 := push_bit 5 (cea ! 1) OR word_of_nat (length ?cs), 0 := push_bit 3 2]"
    have four: "length (take 4 (drop 8 raw)) = 4" using complete_length [OF c] by simp
    obtain e3 where e3: "poke_all ?e2 16 (take 4 (drop 8 raw)) = Some e3" "length e3 = 128"
      using poke_all_Some [of 16 "take 4 (drop 8 raw)" ?e2, unfolded four] e1(2) by auto
    obtain offs where o: "data_blocks cea = Some offs" "\<And>k. k \<in> set offs \<Longrightarrow> k + cea_db_payload_len (cea ! k) < 127"
      using data_blocks_total [OF l] by blast
    obtain sc c' where d: "(if cea ! 1 \<ge> 3 then do { dbs \<leftarrow> data_blocks cea; eld_dbs cea (length ?cs) dbs 0 (conn\<lparr>eld := e3\<rparr>) }
        else Some (0, conn\<lparr>eld := e3\<rparr>)) = Some (sc, c')" "length (eld c') = 128"
      using eld_dbs_total [where conn = "conn\<lparr>eld := e3\<rparr>" and sad_count = 0 and offs = offs, OF l o(2) copied_name_length [of name]] o(1) e3(2) by (cases "cea ! 1 \<ge> 3") auto
    show ?thesis
      using e(1) Some n e1 r ids e3 d o(1)
      by (cases "cea ! 1 \<ge> 3") (simp_all add: drm_edid_to_eld_def MAX_ELD_BYTES_def Let_def poke_Some)
  qed
qed

lemma display_info_total:
  assumes c: "complete raw"
  shows "\<exists>info'. drm_add_display_info raw info = Some info'"
proof -
  obtain ext where e: "drm_find_cea_extension raw = Some ext" "\<And>cea. ext = Some cea \<Longrightarrow> length cea = 128"
    using cea_ext_total [OF c] by blast
  have "21 < length raw" "22 < length raw" "19 < length raw" "20 < length raw" "24 < length raw"
    using complete_length [OF c] by simp_all
  then show ?thesis using e by (cases ext) (simp_all add: drm_add_display_info_def Let_def)
qed

text \<open>
  C30: Whatever a monitor sends: once its description has passed \<^verbatim>\<open>drm_edid_is_valid\<close>, none of the readers of the extension and of
  the descriptors leaves it, every descriptor of the walk lies inside, and the data for the audio driver stays in its 128 bytes.
\<close>

theorem drm_edid_readers_in_bounds:
  assumes "drm_edid_is_valid fixup raw0 = Some (True, raw)"
  shows "drm_detect_hdmi_monitor raw \<noteq> None \<and> drm_detect_monitor_audio raw \<noteq> None \<and> drm_rgb_quant_range_selectable raw \<noteq> None \<and>
    (\<exists>n sads. drm_edid_to_sad alloc raw = Some (n, sads) \<and> (0 \<le> n \<longrightarrow> n = int (length sads))) \<and>
    (\<exists>conn'. drm_edid_to_eld raw conn = Some conn' \<and> length (eld conn') = MAX_ELD_BYTES) \<and>
    drm_add_display_info raw info \<noteq> None \<and>
    (\<exists>offs. detailed_blocks raw = Some offs \<and> (\<forall>off \<in> set offs. off + 18 \<le> length raw))"
proof -
  have c: "complete raw" using valid_complete [OF assms] .
  show ?thesis
    using detect_hdmi_total [OF c] detect_audio_total [OF c] quant_total [OF c] sad_total [OF c] eld_total [OF c]
      display_info_total [OF c] detailed_blocks_total [OF c]
    by (intro conjI) auto
qed

text \<open>An extension with one data block, which names HDMI.\<close>

definition cea_block :: "u8w list" where
  "cea_block = [0x02, 3, 10, 0, 0x65, 0x03, 0x0c, 0, 0, 0] @ replicate 117 0 @ [125]"

theorem drm_edid_readers_in_bounds_witness:
  "drm_edid_is_valid 6 (sample_block 1 @ cea_block) = Some (True, sample_block 1 @ cea_block) \<and>
   drm_detect_hdmi_monitor (sample_block 1 @ cea_block) \<noteq> None \<and> drm_detect_hdmi_monitor (sample_block 1 @ cea_block) = Some True"
proof -
  have v: "drm_edid_is_valid 6 (sample_block 1 @ cea_block) = Some (True, sample_block 1 @ cea_block)"
    by code_simp
  moreover have "drm_detect_hdmi_monitor (sample_block 1 @ cea_block) = Some True" by code_simp
  ultimately show ?thesis using drm_edid_readers_in_bounds [OF v] by blast
qed

end
