(* ===== verification/Drm_Edid_Add_Thms.thy ===== *)
theory Drm_Edid_Add_Thms
  imports Drm_Edid_Add Drm_Edid_Cea_Thms
begin

text \<open>
  What reading a description does to the list of modes, for every kind of timing, and facts about the tables: all their modes are in
  order, and the entries and bits that the loops never reach.
\<close>

unbundle bit_operations_syntax

section \<open>Modes are only appended, and counted\<close>

definition counted :: "int \<times> probe \<Rightarrow> int \<times> probe \<Rightarrow> bool" where
  "counted x y \<longleftrightarrow> (\<exists>new. probed_modes (snd y) = probed_modes (snd x) @ new \<and> fst y = fst x + int (length new))"

lemma counted_refl [simp]: "counted x x"
  by (simp add: counted_def)






























section \<open>Tables\<close>

definition mode_in_order :: "drm_display_mode \<Rightarrow> bool" where
  "mode_in_order m \<longleftrightarrow> 0 < clock m \<and> 0 < hdisplay m \<and> hdisplay m \<le> hsync_start m \<and> hsync_start m < hsync_end m \<and>
     hsync_end m \<le> htotal m \<and> 0 < vdisplay m \<and> vdisplay m \<le> vsync_start m \<and> vsync_start m < vsync_end m \<and> vsync_end m \<le> vtotal m"

lemma tables_in_order: "list_all mode_in_order drm_dmt_modes" "list_all mode_in_order edid_est_modes" "list_all mode_in_order edid_cea_modes"
  by code_simp+

lemma est3_missing: "filter (\<lambda>(w, h, r, reduced). drm_mode_find_dmt (Some 0) w h r reduced = None) est3_modes = [(1792, 1344, 85, False)]"
  by code_simp

lemma est3_bit_0: "(i, 0, k) \<notin> set est3_bits"
  by (auto simp: est3_bits_def)

lemma cvt_bit_0: "cvt_code_modes ids w h (c2 OR 1) [1..<5] x = cvt_code_modes ids w h c2 [1..<5] x"
proof -
  have "cvt_code_modes ids w h (c2 OR 1) js x = cvt_code_modes ids w h c2 js x" if "0 \<notin> set js" for js x
    using that by (induction js arbitrary: x) (auto simp: bit_or_iff bit_1_iff intro!: Option.bind_cong)
  then show ?thesis by simp
qed

lemma match_cea_first:
  "match_cea m k ms = r \<Longrightarrow> r \<noteq> 0 \<Longrightarrow> k < r \<and> r \<le> k + length ms \<and> same_cea_mode m (ms ! (r - 1 - k)) \<and> (\<forall>j < r - 1 - k. \<not> same_cea_mode m (ms ! j))"
proof (induction ms arbitrary: k)
  case (Cons cea ms)
  show ?case
  proof (cases "same_cea_mode m cea")
    case False
    then have "match_cea m (k + 1) ms = r" using Cons.prems by simp
    from Cons.IH [OF this Cons.prems(2)]
    have i: "k + 1 < r" "r \<le> k + 1 + length ms" "same_cea_mode m (ms ! (r - 1 - (k + 1)))" "\<forall>j < r - 1 - (k + 1). \<not> same_cea_mode m (ms ! j)"
      by blast+
    then obtain d where "r = k + 2 + d" by (metis Suc_eq_plus1 add.assoc less_imp_Suc_add nat_1_add_1 add.commute add_Suc_right)
    then show ?thesis using i False by (auto simp: nth_Cons split: nat.split)
  qed (use Cons.prems in auto)
qed simp

end
