(* ===== verification/Spec2Isabelle.thy ===== *)
theory Spec2Isabelle
  imports Drm_Rect Drm_Mm_Thms Drm_Idr_Thms Drm_Gem_Thms Radeon_Mem Drm_Lock Drm_Auth
    Drm_Modes_Thms Drm_Timings I915_Tiling_Thms I915_Fence_Thms I915_Evict_Thms Drm_Vblank_Thms Drm_Scanout I915_Scanout_Thms Drm_Framebuffer_Thms
    Drm_Edid_Detailed_Thms Drm_Edid_Add_Thms
begin

text \<open>
  A verification of the core of the graphics drivers of \<^verbatim>\<open>gfx-drm\<close>, the port of the Linux direct rendering manager and of its
  Intel and Radeon drivers to illumos. File names are relative to \<^verbatim>\<open>usr/src/\<close>.

  \<^bold>\<open>The program.\<close> The common module (\<^verbatim>\<open>uts/common/io/drm\<close>) takes ioctls of clients, checks their rights, and runs
  handlers of its own or of a driver. Clients own graphics memory objects through handles, share them by global names, turn
  them into framebuffers and show those on display controllers and planes; they wait for vertical blanks and get events for
  them. The Intel driver (\<^verbatim>\<open>uts/intel/io/i915\<close>) gives objects a place in the translation table of the graphics processor with
  the range allocator, evicts others when there is no room, covers tiled objects with fence registers, and programs the display
  engine. The old Radeon driver (\<^verbatim>\<open>uts/intel/io/radeon\<close>) has a heap of its own. All of this rests on intrusive lists and on tables
  of identifiers.

  \<^bold>\<open>Foundations.\<close> \<open>Gfx_Prelude\<close>: the integer types of \<^verbatim>\<open>drm_linux.h\<close> (\<open>u32\<close>, \<open>s32\<close> and others reduce an \<open>int\<close> to
  the width of the type; bit patterns are words), division as in C, error numbers, \<open>bug_on\<close>. A result \<open>None\<close> is an access to
  memory that is gone, a null pointer that is followed, a failed \<^verbatim>\<open>BUG_ON\<close>, or a loop that never ends. \<open>Linux_List\<close>: the lists of
  \<^verbatim>\<open>drm_linux_list.h\<close> at the level of loads and stores on a heap of list heads; the locale \<open>dlist\<close> states the sequence that the list
  macros implement, and the other theories use sequences. \<open>Drm_Rect\<close>: \<^verbatim>\<open>drm_rect.c\<close>; when clipping and scaling are exact.

  \<^bold>\<open>Range allocator.\<close> \<open>Drm_Mm\<close> is \<^verbatim>\<open>drm_mm.c\<close>: the ring of nodes, their flags, the stack of holes, and the scan that looks for a
  hole that evictions would make. \<open>Drm_Mm_Inv\<close> has the invariant and what each operation keeps of it; \<open>Drm_Mm_Thms\<close> the locale
  \<open>range_alloc\<close>, the properties, and the colouring of \<^verbatim>\<open>i915_gem_gtt.c\<close>. All addresses stay below \<open>MM_LIMIT\<close> (2^62), which is
  far above any aperture, so that sums of the code do not wrap. \<open>Radeon_Mem\<close> is \<^verbatim>\<open>radeon_mem.c\<close>.

  \<^bold>\<open>Identifiers and memory objects.\<close> \<open>Drm_Idr\<close> is \<^verbatim>\<open>drm_sun_idr.c\<close>: the table with ranges of free numbers and the hashed one;
  \<open>Drm_Idr_Inv\<close> their invariants, \<open>Drm_Idr_Thms\<close> the locale \<open>id_table\<close> with both interpretations and the refinement of a finite
  map. \<open>Drm_Gem\<close> is \<^verbatim>\<open>drm_gem.c\<close> with the counts of \<^verbatim>\<open>drm_drv.c\<close>; \<open>Drm_Gem_Inv\<close> and \<open>Drm_Gem_Thms\<close> show that in every
  reachable state reference and handle counts are exact and nothing is touched after it is freed. The loop that asks again for a
  number has fuel 2: after \<^verbatim>\<open>-EAGAIN\<close> the search starts at the first number, and further rounds change nothing
  (\<open>alloc_loop_stable\<close>).

  \<^bold>\<open>Rights and locks.\<close> \<open>Drm_Auth\<close> is the dispatch of \<^verbatim>\<open>drm_drv.c\<close> with the tokens of \<^verbatim>\<open>drm_auth.c\<close> and the parts of
  \<^verbatim>\<open>drm_fops.c\<close> that open and release files; \<open>Drm_Lock\<close> is the hardware lock of \<^verbatim>\<open>drm_lock.c\<close> with its waiters.

  \<^bold>\<open>Modes.\<close> \<open>Drm_Modes\<close> is \<^verbatim>\<open>drm_modes.c\<close>; \<open>Drm_Modes_Thms\<close> has sorting, merging and the conversion for users, \<open>Drm_Timings\<close>
  the timing formulas. The statement on coordinated video timings covers sizes from 320 to 2560 by 200 to 2048 at 50 to 100 Hz;
  beyond that range the theory has inputs for which the integer arithmetic of the code goes wrong.

  \<^bold>\<open>Monitor descriptions.\<close> \<open>Drm_Edid\<close> fetches and checks the blocks, the first part of \<^verbatim>\<open>drm_edid.c\<close>; \<open>Drm_Edid_Cea\<close> reads
  descriptors and data blocks, \<open>Drm_Edid_Modes\<close> and \<open>Drm_Edid_Add\<close> make modes of the timings, with the tables in
  \<open>Drm_Edid_Tables\<close>. \<open>Drm_Edid_Thms\<close> has the fetch and the repair of damaged headers, \<open>Drm_Edid_Cea_Thms\<close> that no reader leaves
  a description that was checked, \<open>Drm_Edid_Detailed_Thms\<close> the round trip of detailed timings, \<open>Drm_Edid_Add_Thms\<close> the count of the
  modes. All loops run over lists whose length the bytes fix, so that no fuel is needed.

  \<^bold>\<open>Framebuffers and display.\<close> \<open>Drm_Format\<close> has the pixel formats and the checks of a request of \<^verbatim>\<open>drm_crtc.c\<close> and
  \<^verbatim>\<open>drm_fourcc.h\<close>; \<open>I915_Scanout\<close> the further checks and the programming of planes of \<^verbatim>\<open>intel_display.c\<close>, and \<open>I915_Scanout_Thms\<close>
  that the registers aim at the pixel that was asked for. Tiled surfaces have at most 65536 rows of at most 32 KiB there, the
  limits of the chips. \<open>Drm_Framebuffer\<close> has the life of framebuffers in \<^verbatim>\<open>drm_crtc.c\<close>: identifiers, references, and the ioctls
  that add, remove, query, show and flip them, with the hooks of the driver as parameters. \<open>Drm_Framebuffer_Inv\<close> counts the
  references, also inside an operation, which holds some of its own (at most 100 of one framebuffer, with fewer than a million
  controllers and planes, so that the counter of 32 bits does not wrap); \<open>Drm_Framebuffer_Thms\<close> has the commands, the reachable
  states and what each ioctl achieves.

  \<^bold>\<open>Tiling, fences and eviction.\<close> \<open>I915_Tiling\<close> is \<^verbatim>\<open>i915_gem_tiling.c\<close>; \<open>I915_Fence\<close> the fence registers of \<^verbatim>\<open>i915_gem.c\<close>
  and \<^verbatim>\<open>i915_gem_execbuffer.c\<close>; \<open>I915_Evict\<close> is \<^verbatim>\<open>i915_gem_evict.c\<close> on the model of the range allocator, with \<open>I915_Evict_Scan\<close>
  for the scan over a list of objects. Loops that may never end (\<open>double_until\<close> of the fenced size) are partial functions, and
  the statements say when they return.

  \<^bold>\<open>Vertical blanks.\<close> \<open>Drm_Vblank\<close> is \<^verbatim>\<open>drm_irq.c\<close>. What the chip returns to the sampling loops is a list of samples; a loop that
  the list does not satisfy has not ended, and \<open>steady\<close> says that the samples let it end. \<open>Drm_Vblank_Thms\<close> has the counts of
  references and of event space, and that events go out on time; \<open>Drm_Scanout\<close> the time stamps, with the three attempts of the code.

  \<^bold>\<open>Conventions.\<close> An operation is a function on an explicit state with the code's early returns; mutexes make an ioctl one step, and
  where the code drops a lock the steps are separate and the statements hold for every order. Callbacks into a driver, registers
  before an update and the success of allocations are parameters; what a statement needs of them is a named hypothesis, and a
  witness instantiates it. Each witness evaluates the model on a small machine.

  \<^bold>\<open>Not modelled.\<close> Programming of hardware whose effect only the hardware defines: the display outputs and power management of the
  Intel driver, the command processors of both drivers, the address translation of AGP bridges. Work of the operating system: device
  nodes, mappings, memory of the DDI, interrupts, i2c. The mode-setting helpers, which call hooks of the display driver in
  turn, and the DisplayPort helpers, the maps, buffers and contexts of the legacy drivers, domains,
  requests and relocations of the Intel driver: they are left out as whole parts, and nothing above depends on them except through
  parameters. Printing, statistics and debugging code.
\<close>

end
